(* ===== verification/Prelude.thy ===== *)
theory Prelude
  imports Main "HOL-Library.Multiset" "HOL-Library.Sublist"
begin

text \<open>
  Shared vocabulary of the development.
  \<^item> Hash maps of the Rust code (\<open>HashMap\<close>, \<open>DashMap\<close>, \<open>BTreeMap\<close>) are association lists
    with distinct keys. The order of the list is the order in which the code would iterate over
    the map. Theorems quantify over any such list, hence over any iteration order.
  \<^item> \<open>hash_map\<close> is the interface the components rely on; \<open>hm\<close> is its interpretation.
  \<^item> \<open>invariant_system\<close> is the interface of a state machine with an inductive invariant;
    every stateful component interprets it.
  \<^item> \<open>split_on\<close>, \<open>min_by_key\<close>, \<open>position_of\<close>, \<open>remove_at\<close> and \<open>push_unseen\<close> are the
    standard-library iterator idioms that several components share.
\<close>

section \<open>Collections of rewrite rules\<close>

named_theorems hm_simps \<open>facts about the association-list hash map\<close>
named_theorems model_defs \<open>definitions of the modelled operations\<close>

section \<open>Hash maps\<close>

type_synonym ('k, 'v) hmap = "('k \<times> 'v) list"

definition hm_get :: "('k, 'v) hmap \<Rightarrow> 'k \<Rightarrow> 'v option" where
  "hm_get m k = map_of m k"

fun hm_insert :: "'k \<Rightarrow> 'v \<Rightarrow> ('k, 'v) hmap \<Rightarrow> ('k, 'v) hmap" where
  "hm_insert k v [] = [(k, v)]"
| "hm_insert k v (p # m) = (if fst p = k then (k, v) # m else p # hm_insert k v m)"

definition hm_remove :: "'k \<Rightarrow> ('k, 'v) hmap \<Rightarrow> ('k, 'v) hmap" where
  "hm_remove k m = filter (\<lambda>p. fst p \<noteq> k) m"

definition hm_retain :: "('k \<Rightarrow> 'v \<Rightarrow> bool) \<Rightarrow> ('k, 'v) hmap \<Rightarrow> ('k, 'v) hmap" where
  "hm_retain P m = filter (\<lambda>p. P (fst p) (snd p)) m"

definition hm_get_or :: "'v \<Rightarrow> ('k, 'v) hmap \<Rightarrow> 'k \<Rightarrow> 'v" where
  "hm_get_or d m k = (case hm_get m k of None \<Rightarrow> d | Some v \<Rightarrow> v)"

definition hm_keys :: "('k, 'v) hmap \<Rightarrow> 'k list" where
  "hm_keys m = map fst m"

definition hm_has :: "('k, 'v) hmap \<Rightarrow> 'k \<Rightarrow> bool" where
  "hm_has m k \<longleftrightarrow> hm_get m k \<noteq> None"

definition hm_wf :: "('k, 'v) hmap \<Rightarrow> bool" where
  "hm_wf m \<longleftrightarrow> distinct (map fst m)"

text \<open>The interface: what a client may rely on of a finite map with an iteration order.\<close>

locale hash_map =
  fixes empty :: "'m"
    and get :: "'m \<Rightarrow> 'k \<Rightarrow> 'v option"
    and ins :: "'k \<Rightarrow> 'v \<Rightarrow> 'm \<Rightarrow> 'm"
    and del :: "'k \<Rightarrow> 'm \<Rightarrow> 'm"
    and retain :: "('k \<Rightarrow> 'v \<Rightarrow> bool) \<Rightarrow> 'm \<Rightarrow> 'm"
    and entries :: "'m \<Rightarrow> ('k \<times> 'v) list"
    and wf :: "'m \<Rightarrow> bool"
  assumes get_empty: "get empty k = None"
    and get_ins: "get (ins k v m) k' = (if k' = k then Some v else get m k')"
    and get_del: "get (del k m) k' = (if k' = k then None else get m k')"
    and get_retain: "wf m \<Longrightarrow> get (retain P m) k =
          (case get m k of None \<Rightarrow> None | Some v \<Rightarrow> if P k v then Some v else None)"
    and entries_get: "wf m \<Longrightarrow> (k, v) \<in> set (entries m) \<longleftrightarrow> get m k = Some v"
    and wf_empty: "wf empty"
    and wf_ins: "wf m \<Longrightarrow> wf (ins k v m)"
    and wf_del: "wf m \<Longrightarrow> wf (del k m)"
    and wf_retain: "wf m \<Longrightarrow> wf (retain P m)"
begin

lemma any_entry:
  assumes "wf m"
  shows "(\<exists>p \<in> set (entries m). P (fst p) (snd p)) \<longleftrightarrow> (\<exists>k v. get m k = Some v \<and> P k v)"
  by (simp add: Bex_def split_paired_Ex entries_get [OF assms])

lemma all_entries:
  assumes "wf m"
  shows "(\<forall>p \<in> set (entries m). P (fst p) (snd p)) \<longleftrightarrow> (\<forall>k v. get m k = Some v \<longrightarrow> P k v)"
  by (simp add: Ball_def split_paired_All entries_get [OF assms])

lemma get_ins_del: "get (ins k v (del k m)) k' = get (ins k v m) k'"
  by (simp add: get_ins get_del)

end

lemma hm_get_Nil [simp, hm_simps]: "hm_get [] k = None"
  by (simp add: hm_get_def)

lemma hm_get_Cons: "hm_get (p # m) k = (if fst p = k then Some (snd p) else hm_get m k)"
  by (cases p) (simp add: hm_get_def)

lemma hm_get_insert [simp, hm_simps]:
  "hm_get (hm_insert k v m) k' = (if k' = k then Some v else hm_get m k')"
  by (induction m) (auto simp: hm_get_Cons)

lemma hm_get_remove [simp, hm_simps]:
  "hm_get (hm_remove k m) k' = (if k' = k then None else hm_get m k')"
  by (induction m) (auto simp: hm_remove_def hm_get_Cons)

lemma set_keys_insert: "fst ` set (hm_insert k v m) = insert k (fst ` set m)"
  by (induction m) auto

lemma hm_get_None_iff: "hm_get m k = None \<longleftrightarrow> k \<notin> fst ` set m"
  by (simp add: hm_get_def map_of_eq_None_iff)

lemma hm_get_SomeD: "hm_get m k = Some v \<Longrightarrow> (k, v) \<in> set m"
  unfolding hm_get_def by (rule map_of_SomeD)

lemma hm_wf_Nil [simp, hm_simps]: "hm_wf []"
  by (simp add: hm_wf_def)

lemma hm_wf_insert [simp, hm_simps]: "hm_wf m \<Longrightarrow> hm_wf (hm_insert k v m)"
  unfolding hm_wf_def by (induction m) (auto simp: set_keys_insert)

lemma hm_wf_filter: "hm_wf m \<Longrightarrow> hm_wf (filter P m)"
  by (simp add: hm_wf_def distinct_map_filter)

lemma hm_wf_remove [simp, hm_simps]: "hm_wf m \<Longrightarrow> hm_wf (hm_remove k m)"
  by (simp add: hm_remove_def hm_wf_filter)

lemma hm_wf_retain [simp, hm_simps]: "hm_wf m \<Longrightarrow> hm_wf (hm_retain P m)"
  by (simp add: hm_retain_def hm_wf_filter)

lemma hm_entries_get: "hm_wf m \<Longrightarrow> (k, v) \<in> set m \<longleftrightarrow> hm_get m k = Some v"
  by (simp add: hm_wf_def hm_get_def)

lemma hm_get_filter_None: "hm_get m k = None \<Longrightarrow> hm_get (filter P m) k = None"
  by (auto simp: hm_get_None_iff)

lemma hm_get_retain [simp, hm_simps]:
  "hm_wf m \<Longrightarrow> hm_get (hm_retain P m) k =
    (case hm_get m k of None \<Rightarrow> None | Some v \<Rightarrow> if P k v then Some v else None)"
proof (induction m)
  case Nil
  then show ?case by (simp add: hm_retain_def)
next
  case (Cons p m)
  then have "fst p \<notin> fst ` set m" and "hm_wf m"
    by (simp_all add: hm_wf_def)
  with Cons.IH show ?case
    by (auto simp: hm_retain_def hm_get_Cons hm_get_filter_None simp flip: hm_get_None_iff)
qed

interpretation hm: hash_map "[]" hm_get hm_insert hm_remove hm_retain "\<lambda>m. m" hm_wf
  by unfold_locales (auto simp: hm_entries_get)

lemma hm_remove_absent: "hm_get m k = None \<Longrightarrow> hm_remove k m = m"
  unfolding hm_remove_def hm_get_None_iff by (rule filter_True) auto

lemma hm_insert_fresh: "hm_get m k = None \<Longrightarrow> hm_insert k v m = m @ [(k, v)]"
  by (induction m) (auto simp: hm_get_Cons split: if_splits)

lemma mset_hm_remove:
  assumes "hm_wf m" and "hm_get m k = Some v"
  shows "mset m = add_mset (k, v) (mset (hm_remove k m))"
  using assms
proof (induction m)
  case (Cons p m)
  show ?case
  proof (cases "fst p = k")
    case True
    with Cons.prems have "hm_get m k = None" by (auto simp: hm_wf_def hm_get_None_iff)
    then have "hm_remove k m = m" by (rule hm_remove_absent)
    with True Cons.prems show ?thesis by (cases p) (auto simp: hm_remove_def hm_get_Cons)
  next
    case False
    with Cons show ?thesis by (auto simp: hm_remove_def hm_get_Cons hm_wf_def)
  qed
qed simp

lemma hm_filter_key:
  assumes "hm_wf m" and "hm_get m k = Some v"
  shows "filter (\<lambda>p. fst p = k) m = [(k, v)]"
  using assms
proof (induction m)
  case (Cons p m)
  then show ?case
  proof (cases "fst p = k")
    case True
    with Cons.prems have "filter (\<lambda>q. fst q = k) m = []"
      by (auto simp: hm_wf_def filter_empty_conv image_iff)
    with True Cons.prems show ?thesis by (cases p) (auto simp: hm_get_Cons)
  next
    case False
    with Cons show ?thesis by (auto simp: hm_get_Cons hm_wf_def)
  qed
qed simp

lemma hm_has_simps [simp, hm_simps]:
  "\<not> hm_has [] k"
  "hm_has (hm_insert k v m) k' \<longleftrightarrow> k' = k \<or> hm_has m k'"
  "hm_has (hm_remove k m) k' \<longleftrightarrow> k' \<noteq> k \<and> hm_has m k'"
  by (auto simp: hm_has_def)

lemma hm_get_or_simps [simp, hm_simps]:
  "hm_get_or d [] k = d"
  "hm_get_or d (hm_insert k v m) k' = (if k' = k then v else hm_get_or d m k')"
  "hm_get_or d (hm_remove k m) k' = (if k' = k then d else hm_get_or d m k')"
  by (auto simp: hm_get_or_def)

lemma hm_get_or_Some: "hm_get m k = Some v \<Longrightarrow> hm_get_or d m k = v"
  by (simp add: hm_get_or_def)

lemma hm_get_or_None: "hm_get m k = None \<Longrightarrow> hm_get_or d m k = d"
  by (simp add: hm_get_or_def)

lemma hm_has_keys: "k \<in> set (hm_keys m) \<longleftrightarrow> hm_has m k"
  using hm_get_None_iff [of m k] by (auto simp: hm_keys_def hm_has_def)

text \<open>
  A change of the iteration order (a resize of the table) keeps the map: any rearrangement of
  the entries gives the same lookups.
\<close>

definition hm_rehash :: "('k, 'v) hmap \<Rightarrow> ('k, 'v) hmap \<Rightarrow> bool" where
  "hm_rehash m m' \<longleftrightarrow> mset m = mset m'"

lemma hm_rehash_wf: "hm_rehash m m' \<Longrightarrow> hm_wf m \<Longrightarrow> hm_wf m'"
  unfolding hm_rehash_def hm_wf_def
  by (metis mset_eq_imp_distinct_iff mset_map)

lemma hm_rehash_get:
  assumes "hm_rehash m m'" and "hm_wf m"
  shows "hm_get m' k = hm_get m k"
proof -
  have "set m = set m'" and "hm_wf m'"
    using assms hm_rehash_wf by (auto simp: hm_rehash_def dest: mset_eq_setD)
  then show ?thesis
    using assms(2) unfolding hm_get_def hm_wf_def by (metis map_of_inject_set)
qed

section \<open>State machines with an inductive invariant\<close>

inductive reach :: "('s \<Rightarrow> bool) \<Rightarrow> ('s \<Rightarrow> 's \<Rightarrow> bool) \<Rightarrow> 's \<Rightarrow> bool"
  for init :: "'s \<Rightarrow> bool" and step :: "'s \<Rightarrow> 's \<Rightarrow> bool" where
  start: "init s \<Longrightarrow> reach init step s"
| next_state: "reach init step s \<Longrightarrow> step s t \<Longrightarrow> reach init step t"

locale invariant_system =
  fixes init :: "'s \<Rightarrow> bool"
    and step :: "'s \<Rightarrow> 's \<Rightarrow> bool"
    and inv :: "'s \<Rightarrow> bool"
  assumes init_inv: "init s \<Longrightarrow> inv s"
    and step_inv: "step s t \<Longrightarrow> inv s \<Longrightarrow> inv t"
begin

lemma reach_inv: "reach init step s \<Longrightarrow> inv s"
  by (induction rule: reach.induct) (auto intro: init_inv step_inv)

lemma steps_inv: "step\<^sup>*\<^sup>* s t \<Longrightarrow> inv s \<Longrightarrow> inv t"
  by (induction rule: rtranclp_induct) (auto intro: step_inv)

end

section \<open>Iterator and string idioms of the standard library\<close>

text \<open>\<open>str::split\<close> on one separator: always at least one part.\<close>

fun split_on :: "'a \<Rightarrow> 'a list \<Rightarrow> 'a list list" where
  "split_on c [] = [[]]"
| "split_on c (x # xs) =
     (if x = c then [] # split_on c xs
      else (case split_on c xs of [] \<Rightarrow> [[x]] | y # ys \<Rightarrow> (x # y) # ys))"

fun join_with :: "'a \<Rightarrow> 'a list list \<Rightarrow> 'a list" where
  "join_with c [] = []"
| "join_with c [x] = x"
| "join_with c (x # y # ys) = x @ c # join_with c (y # ys)"

lemma split_on_not_Nil [simp]: "split_on c xs \<noteq> []"
  by (induction xs) (auto split: list.splits)

lemma join_split [simp]: "join_with c (split_on c xs) = xs"
proof (induction xs)
  case (Cons x xs)
  obtain y ys where "split_on c xs = y # ys"
    by (cases "split_on c xs") auto
  with Cons show ?case
    by (cases ys) auto
qed simp

lemma split_on_parts: "p \<in> set (split_on c xs) \<Longrightarrow> c \<notin> set p"
proof (induction xs arbitrary: p)
  case (Cons x xs)
  obtain y ys where "split_on c xs = y # ys"
    by (cases "split_on c xs") auto
  with Cons show ?case
    by (auto split: if_splits)
qed simp

lemma split_on_no_sep: "c \<notin> set xs \<Longrightarrow> split_on c xs = [xs]"
  by (induction xs) auto

lemma split_on_append_sep: "c \<notin> set xs \<Longrightarrow> split_on c (xs @ c # ys) = xs # split_on c ys"
  by (induction xs) auto

lemma split_join:
  "xss \<noteq> [] \<Longrightarrow> (\<forall>xs \<in> set xss. c \<notin> set xs) \<Longrightarrow> split_on c (join_with c xss) = xss"
  by (induction c xss rule: join_with.induct) (auto simp: split_on_no_sep split_on_append_sep)

lemma distinct_set_singleton: "distinct xs \<Longrightarrow> set xs = {x} \<longleftrightarrow> xs = [x]"
  by (cases xs; cases "tl xs") auto

text \<open>\<open>Iterator::min_by_key\<close>: the first entry whose key is least.\<close>

fun min_by_key :: "('a \<Rightarrow> 'b::linorder) \<Rightarrow> 'a list \<Rightarrow> 'a option" where
  "min_by_key f [] = None"
| "min_by_key f (x # xs) =
     (case min_by_key f xs of None \<Rightarrow> Some x | Some y \<Rightarrow> if f x \<le> f y then Some x else Some y)"

lemma min_by_key_None_iff [simp]: "min_by_key f xs = None \<longleftrightarrow> xs = []"
  by (cases xs) (auto split: option.splits)

lemma min_by_key_Some:
  "min_by_key f xs = Some x \<Longrightarrow> x \<in> set xs \<and> (\<forall>y \<in> set xs. f x \<le> f y)"
  by (induction xs arbitrary: x) (fastforce split: option.splits if_splits)+

text \<open>\<open>Iterator::position\<close> and \<open>Vec::remove\<close>.\<close>

fun position_of :: "('a \<Rightarrow> bool) \<Rightarrow> 'a list \<Rightarrow> nat option" where
  "position_of P [] = None"
| "position_of P (x # xs) = (if P x then Some 0 else map_option Suc (position_of P xs))"

definition remove_at :: "nat \<Rightarrow> 'a list \<Rightarrow> 'a list" where
  "remove_at i xs = take i xs @ drop (Suc i) xs"

lemma position_of_None_iff: "position_of P xs = None \<longleftrightarrow> (\<forall>x \<in> set xs. \<not> P x)"
  by (induction xs) auto

lemma position_of_Some:
  "position_of P xs = Some i \<Longrightarrow> i < length xs \<and> P (xs ! i) \<and> (\<forall>j < i. \<not> P (xs ! j))"
  by (induction xs arbitrary: i) (auto split: if_splits simp: less_Suc_eq_0_disj nth_Cons')

lemma position_of_append:
  "position_of P (xs @ ys) = (case position_of P xs of Some i \<Rightarrow> Some i
     | None \<Rightarrow> map_option (\<lambda>i. i + length xs) (position_of P ys))"
  by (induction xs) (auto simp: option.map_comp comp_def option.map_ident split: option.splits)

lemma remove_at_append: "remove_at (length xs) (xs @ x # ys) = xs @ ys"
  by (simp add: remove_at_def)

lemma mset_remove_at: "i < length xs \<Longrightarrow> add_mset (xs ! i) (mset (remove_at i xs)) = mset xs"
  unfolding remove_at_def by (subst (3) id_take_nth_drop [of i xs]) auto

lemma length_remove_at [simp]: "i < length xs \<Longrightarrow> length (remove_at i xs) = length xs - 1"
  by (simp add: remove_at_def)

lemma set_remove_at: "set (remove_at i xs) \<subseteq> set xs"
  unfolding remove_at_def by (auto dest: in_set_takeD in_set_dropD)

text \<open>
  The \<open>seen.insert(x)\<close> / \<open>out.push(x)\<close> idiom: append in order, skipping what was seen.
\<close>

definition push_unseen :: "'a \<Rightarrow> 'a list \<Rightarrow> 'a list" where
  "push_unseen x acc = (if x \<in> set acc then acc else acc @ [x])"

lemma set_push_unseen [simp]: "set (push_unseen x acc) = insert x (set acc)"
  by (auto simp: push_unseen_def)

lemma distinct_push_unseen [simp]: "distinct (push_unseen x acc) = distinct acc"
  by (simp add: push_unseen_def)

lemma set_fold_push_unseen [simp]: "set (fold push_unseen xs acc) = set acc \<union> set xs"
  by (induction xs arbitrary: acc) auto

lemma distinct_fold_push_unseen [simp]: "distinct (fold push_unseen xs acc) = distinct acc"
  by (induction xs arbitrary: acc) auto

text \<open>Character classes of \<open>char\<close>, on the bytes of a string.\<close>

definition byte_in :: "nat \<Rightarrow> nat \<Rightarrow> char \<Rightarrow> bool" where
  "byte_in lo hi c \<longleftrightarrow> lo \<le> of_char c \<and> of_char c \<le> hi"

definition is_ascii_alphanumeric :: "char \<Rightarrow> bool" where
  "is_ascii_alphanumeric c \<longleftrightarrow> byte_in 97 122 c \<or> byte_in 65 90 c \<or> byte_in 48 57 c"

definition is_ascii_hexdigit :: "char \<Rightarrow> bool" where
  "is_ascii_hexdigit c \<longleftrightarrow> byte_in 48 57 c \<or> byte_in 97 102 c \<or> byte_in 65 70 c"

text \<open>\<open>str::strip_prefix\<close>.\<close>

definition strip_prefix :: "string \<Rightarrow> string \<Rightarrow> string option" where
  "strip_prefix p s = (if prefix p s then Some (drop (length p) s) else None)"

lemma strip_prefix_Some: "strip_prefix p s = Some r \<longleftrightarrow> s = p @ r"
  by (auto simp: strip_prefix_def prefix_def)

end
