(* ===== verification/Channel.thy ===== *)
theory Channel
  imports Prelude
begin

text \<open>
  Channel and membership enumerations of \<^verbatim>\<open>crates/buzz-core/src/channel.rs\<close>: their canonical
  strings, the parsers of those strings, and the permission order on member roles. An error
  value carries the rejected input; the wording of the message around it is not modelled.
\<close>

section \<open>Enumerations and their canonical strings\<close>

datatype ChannelVisibility = Open | Private

fun visibility_as_str :: "ChannelVisibility \<Rightarrow> string" where
  "visibility_as_str Open = ''open''"
| "visibility_as_str Private = ''private''"

definition visibility_from_str :: "string \<Rightarrow> string + ChannelVisibility" where
  "visibility_from_str s =
     (if s = ''open'' then Inr Open
      else if s = ''private'' then Inr Private
      else Inl s)"

datatype ChannelType = Stream | Forum | Dm | Workflow

fun channel_type_as_str :: "ChannelType \<Rightarrow> string" where
  "channel_type_as_str Stream = ''stream''"
| "channel_type_as_str Forum = ''forum''"
| "channel_type_as_str Dm = ''dm''"
| "channel_type_as_str Workflow = ''workflow''"

definition channel_type_from_str :: "string \<Rightarrow> string + ChannelType" where
  "channel_type_from_str s =
     (if s = ''stream'' then Inr Stream
      else if s = ''forum'' then Inr Forum
      else if s = ''dm'' then Inr Dm
      else if s = ''workflow'' then Inr Workflow
      else Inl s)"

datatype MemberRole = Owner | Admin | Member | Guest | Bot

fun role_as_str :: "MemberRole \<Rightarrow> string" where
  "role_as_str Owner = ''owner''"
| "role_as_str Admin = ''admin''"
| "role_as_str Member = ''member''"
| "role_as_str Guest = ''guest''"
| "role_as_str Bot = ''bot''"

definition role_from_str :: "string \<Rightarrow> string + MemberRole" where
  "role_from_str s =
     (if s = ''owner'' then Inr Owner
      else if s = ''admin'' then Inr Admin
      else if s = ''member'' then Inr Member
      else if s = ''guest'' then Inr Guest
      else if s = ''bot'' then Inr Bot
      else Inl s)"

fun is_elevated :: "MemberRole \<Rightarrow> bool" where
  "is_elevated Owner = True"
| "is_elevated Admin = True"
| "is_elevated _ = False"

fun permission_level :: "MemberRole \<Rightarrow> nat" where
  "permission_level Owner = 4"
| "permission_level Admin = 3"
| "permission_level Member = 2"
| "permission_level Guest = 1"
| "permission_level Bot = 0"

definition has_at_least :: "MemberRole \<Rightarrow> MemberRole \<Rightarrow> bool" where
  "has_at_least r required \<longleftrightarrow> permission_level r \<ge> permission_level required"

section \<open>Round trips\<close>

text \<open>
  The three enumerations share one contract: the parser accepts exactly the canonical strings
  and inverts the printer.
\<close>

locale canonical_strings =
  fixes as_str :: "'a \<Rightarrow> string"
    and from_str :: "string \<Rightarrow> string + 'a"
  assumes from_as: "from_str (as_str x) = Inr x"
    and from_ok: "from_str s = Inr x \<Longrightarrow> as_str x = s"
    and from_err: "from_str s = Inl e \<Longrightarrow> e = s"
begin

lemma as_str_inject: "as_str x = as_str y \<longleftrightarrow> x = y"
  by (metis from_as sum.inject(2))

lemma from_str_cases: "from_str s = (if s \<in> range as_str then Inr (inv as_str s) else Inl s)"
proof (cases "from_str s")
  case (Inl e)
  then have "s \<notin> range as_str" using from_as by fastforce
  with Inl from_err show ?thesis by simp
next
  case (Inr x)
  then have "s = as_str x" by (simp add: from_ok)
  moreover have "inj as_str" by (rule injI) (simp add: as_str_inject)
  ultimately show ?thesis using Inr by simp
qed

end

interpretation visibility: canonical_strings visibility_as_str visibility_from_str
proof unfold_locales
  fix x show "visibility_from_str (visibility_as_str x) = Inr x"
    by (cases x) (simp_all add: visibility_from_str_def)
qed (auto simp: visibility_from_str_def split: if_splits)

interpretation channel_type: canonical_strings channel_type_as_str channel_type_from_str
proof unfold_locales
  fix x show "channel_type_from_str (channel_type_as_str x) = Inr x"
    by (cases x) (simp_all add: channel_type_from_str_def)
qed (auto simp: channel_type_from_str_def split: if_splits)

interpretation role: canonical_strings role_as_str role_from_str
proof unfold_locales
  fix x show "role_from_str (role_as_str x) = Inr x"
    by (cases x) (simp_all add: role_from_str_def)
qed (auto simp: role_from_str_def split: if_splits)

section \<open>The permission order\<close>

lemma permission_level_inject [simp]: "permission_level a = permission_level b \<longleftrightarrow> a = b"
  by (cases a; cases b) simp_all

text \<open>Roles are a linear order by permission level, so that the order library applies.\<close>

instantiation MemberRole :: linorder
begin

definition less_eq_MemberRole :: "MemberRole \<Rightarrow> MemberRole \<Rightarrow> bool" where
  "less_eq_MemberRole a b \<longleftrightarrow> permission_level a \<le> permission_level b"

definition less_MemberRole :: "MemberRole \<Rightarrow> MemberRole \<Rightarrow> bool" where
  "less_MemberRole a b \<longleftrightarrow> permission_level a < permission_level b"

instance
  by standard (auto simp: less_eq_MemberRole_def less_MemberRole_def)

end

lemma has_at_least_iff: "has_at_least r required \<longleftrightarrow> required \<le> r"
  by (simp add: has_at_least_def less_eq_MemberRole_def)

lemma role_less_iff: "a < b \<longleftrightarrow> permission_level a < permission_level b" for a b :: MemberRole
  by (simp add: less_MemberRole_def)

lemma role_le_iff: "a \<le> b \<longleftrightarrow> permission_level a \<le> permission_level b" for a b :: MemberRole
  by (simp add: less_eq_MemberRole_def)

end
