(* ===== verification/Git_Perms.thy ===== *)
theory Git_Perms
  imports Channel
begin

text \<open>
  Git push permissions, \<^verbatim>\<open>crates/buzz-core/src/git_perms.rs\<close>: ref patterns and their parser,
  \<^verbatim>\<open>buzz-protect\<close> tags, the union of the rules that match a ref, and the decision on a push.
  Strings are byte lists: \<open>str::len\<close> counts bytes, and the character tests the parser makes
  are tests for ASCII characters, which no byte of a multi-byte character satisfies.
  An \<open>unreachable!()\<close> arm is the value \<open>None\<close>.
\<close>

section \<open>Ref patterns\<close>

definition MAX_PROTECTION_RULES :: nat where "MAX_PROTECTION_RULES = 50"
definition MAX_PATTERN_LENGTH :: nat where "MAX_PATTERN_LENGTH = 256"
definition MAX_WILDCARDS_PER_PATTERN :: nat where "MAX_WILDCARDS_PER_PATTERN = 3"

datatype PatternSegment = Literal string | Wildcard | RecursiveWildcard

record RefPattern =
  raw :: string
  segments :: "PatternSegment list"

datatype PatternError =
    Empty
  | TooLong
  | MissingRefsPrefix
  | InvalidSegment string
  | TooManyWildcards

definition is_ref_char :: "char \<Rightarrow> bool" where
  "is_ref_char c \<longleftrightarrow>
     is_ascii_alphanumeric c \<or> c = CHR ''.'' \<or> c = CHR ''_'' \<or> c = CHR ''-''"

text \<open>The body of the parser's loop: \<open>i\<close> is the index of the part, \<open>n\<close> their number.\<close>

fun parse_parts ::
  "nat \<Rightarrow> nat \<Rightarrow> nat \<Rightarrow> PatternSegment list \<Rightarrow> string list \<Rightarrow> PatternError + PatternSegment list" where
  "parse_parts i n wildcard_count segs [] = Inr segs"
| "parse_parts i n wildcard_count segs (part # parts) =
     (if part = ''**'' then
        (if i \<noteq> n - 1 then Inl (InvalidSegment ''** must be the last segment'')
         else if wildcard_count + 1 > MAX_WILDCARDS_PER_PATTERN then Inl TooManyWildcards
         else parse_parts (i + 1) n (wildcard_count + 1) (segs @ [RecursiveWildcard]) parts)
      else if part = ''*'' then
        (if wildcard_count + 1 > MAX_WILDCARDS_PER_PATTERN then Inl TooManyWildcards
         else parse_parts (i + 1) n (wildcard_count + 1) (segs @ [Wildcard]) parts)
      else if part = [] then Inl (InvalidSegment [])
      else if CHR ''*'' \<in> set part \<or> CHR ''?'' \<in> set part \<or>
              CHR ''['' \<in> set part \<or> CHR '']'' \<in> set part then Inl (InvalidSegment part)
      else if \<not> list_all is_ref_char part then Inl (InvalidSegment part)
      else parse_parts (i + 1) n wildcard_count (segs @ [Literal part]) parts)"

definition parse_pattern :: "string \<Rightarrow> PatternError + RefPattern" where
  "parse_pattern pattern =
     (if pattern = [] then Inl Empty
      else if length pattern > MAX_PATTERN_LENGTH then Inl TooLong
      else if \<not> prefix ''refs/'' pattern then Inl MissingRefsPrefix
      else let parts = split_on (CHR ''/'') pattern in
        (case parse_parts 0 (length parts) 0 [] parts of
           Inl e \<Rightarrow> Inl e
         | Inr segs \<Rightarrow> Inr \<lparr>raw = pattern, segments = segs\<rparr>))"

text \<open>
  \<open>zip(..).all(..)\<close>: pairs are taken while both lists last, the first mismatch ends the walk,
  and a recursive wildcard met on the way is the \<open>unreachable!()\<close> arm.
\<close>

fun zip_all :: "PatternSegment list \<Rightarrow> string list \<Rightarrow> bool option" where
  "zip_all (Wildcard # ps) (s # ss) = zip_all ps ss"
| "zip_all (Literal lit # ps) (s # ss) = (if lit = s then zip_all ps ss else Some False)"
| "zip_all (RecursiveWildcard # ps) (s # ss) = None"
| "zip_all _ _ = Some True"

definition pattern_matches :: "RefPattern \<Rightarrow> string \<Rightarrow> bool option" where
  "pattern_matches p ref_name =
     (let ref_segments = split_on (CHR ''/'') ref_name in
      if segments p \<noteq> [] \<and> last (segments p) = RecursiveWildcard then
        (let prefix_len = length (segments p) - 1 in
         if length ref_segments \<le> prefix_len then Some False
         else zip_all (take prefix_len (segments p)) (take prefix_len ref_segments))
      else if length ref_segments \<noteq> length (segments p) then Some False
      else zip_all (segments p) ref_segments)"

section \<open>Ref updates and protection rules\<close>

datatype UpdateKind = Create | FastForward | NonFastForward | Delete

definition ZERO_OID :: string where
  "ZERO_OID = ''0000000000000000000000000000000000000000''"

definition classify_update :: "string \<Rightarrow> string \<Rightarrow> bool \<Rightarrow> UpdateKind" where
  "classify_update old_oid new_oid is_ancestor =
     (if old_oid = ZERO_OID then Create
      else if new_oid = ZERO_OID then Delete
      else if is_ancestor then FastForward
      else NonFastForward)"

record RefUpdate =
  ref_name :: string
  update_kind :: UpdateKind
  old_oid :: string
  new_oid :: string

record ProtectionRule =
  pattern :: RefPattern
  push_role :: "MemberRole option"
  no_force_push :: bool
  no_delete :: bool
  require_patch :: bool

datatype RuleParseError =
    TooFewValues
  | TooManyRules
  | InvalidPattern PatternError
  | UnknownRule string
  | InvalidRole string

text \<open>The strictest of the push roles met so far; the same match in both loops of the code.\<close>

definition stricter_role :: "MemberRole option \<Rightarrow> MemberRole \<Rightarrow> MemberRole" where
  "stricter_role push r =
     (case push of
        None \<Rightarrow> r
      | Some existing \<Rightarrow> if permission_level r > permission_level existing then r else existing)"

text \<open>One rule word; the accumulator is the rule under construction and the unknown words.\<close>

definition parse_rule_word ::
  "ProtectionRule \<times> string list \<Rightarrow> string \<Rightarrow> RuleParseError + (ProtectionRule \<times> string list)" where
  "parse_rule_word acc rule_str =
     (case acc of (rule, unknown) \<Rightarrow>
      (case strip_prefix ''push:'' rule_str of
         Some role_str \<Rightarrow>
           (case role_from_str role_str of
              Inl _ \<Rightarrow> Inl (InvalidRole role_str)
            | Inr r \<Rightarrow>
                if r = Bot \<or> r = Guest then Inl (InvalidRole role_str)
                else Inr (rule\<lparr>push_role := Some (stricter_role (push_role rule) r)\<rparr>, unknown))
       | None \<Rightarrow>
           if rule_str = ''no-force-push'' then Inr (rule\<lparr>no_force_push := True\<rparr>, unknown)
           else if rule_str = ''no-delete'' then Inr (rule\<lparr>no_delete := True\<rparr>, unknown)
           else if rule_str = ''require-patch'' then Inr (rule\<lparr>require_patch := True\<rparr>, unknown)
           else Inr (rule, unknown @ [rule_str])))"

fun parse_rule_words ::
  "ProtectionRule \<times> string list \<Rightarrow> string list \<Rightarrow> RuleParseError + (ProtectionRule \<times> string list)" where
  "parse_rule_words acc [] = Inr acc"
| "parse_rule_words acc (w # ws) =
     (case parse_rule_word acc w of Inl e \<Rightarrow> Inl e | Inr acc' \<Rightarrow> parse_rule_words acc' ws)"

definition parse_protection_tag_with_warnings ::
  "string list \<Rightarrow> RuleParseError + (ProtectionRule \<times> string list)" where
  "parse_protection_tag_with_warnings values =
     (case values of
        pat # w # ws \<Rightarrow>
          (case parse_pattern pat of
             Inl e \<Rightarrow> Inl (InvalidPattern e)
           | Inr p \<Rightarrow>
               parse_rule_words
                 (\<lparr>pattern = p, push_role = None, no_force_push = False, no_delete = False,
                   require_patch = False\<rparr>, []) (w # ws))
      | _ \<Rightarrow> Inl TooFewValues)"

definition parse_protection_tag :: "string list \<Rightarrow> RuleParseError + ProtectionRule" where
  "parse_protection_tag values =
     (case parse_protection_tag_with_warnings values of Inl e \<Rightarrow> Inl e | Inr (rule, _) \<Rightarrow> Inr rule)"

record ParsedProtection =
  pp_rules :: "ProtectionRule list"
  pp_unknown_rules :: "string list"

fun parse_tags_loop ::
  "ProtectionRule list \<Rightarrow> string list \<Rightarrow> string list list \<Rightarrow> RuleParseError + ParsedProtection" where
  "parse_tags_loop rules unknown [] = Inr \<lparr>pp_rules = rules, pp_unknown_rules = unknown\<rparr>"
| "parse_tags_loop rules unknown (tag # tags) =
     (case tag of
        [] \<Rightarrow> parse_tags_loop rules unknown tags
      | name # values \<Rightarrow>
          if name \<noteq> ''buzz-protect'' then parse_tags_loop rules unknown tags
          else if length rules \<ge> MAX_PROTECTION_RULES then Inl TooManyRules
          else (case parse_protection_tag_with_warnings values of
                  Inl e \<Rightarrow> Inl e
                | Inr (rule, unknowns) \<Rightarrow>
                    parse_tags_loop (rules @ [rule]) (unknown @ unknowns) tags))"

definition parse_protection_tags :: "string list list \<Rightarrow> RuleParseError + ParsedProtection" where
  "parse_protection_tags tags = parse_tags_loop [] [] tags"

section \<open>The decision on a push\<close>

definition default_min_role :: "string \<Rightarrow> UpdateKind \<Rightarrow> MemberRole" where
  "default_min_role name kind =
     (let is_branch = prefix ''refs/heads/'' name;
          is_tag = prefix ''refs/tags/'' name
      in case kind of
           Create \<Rightarrow> if is_branch \<or> is_tag then Member else Admin
         | FastForward \<Rightarrow> if is_branch then Member else if is_tag then Admin else Admin
         | NonFastForward \<Rightarrow> Admin
         | Delete \<Rightarrow> Admin)"

record EffectiveRules =
  eff_push_role :: "MemberRole option"
  eff_no_force_push :: bool
  eff_no_delete :: bool
  eff_require_patch :: bool
  has_explicit_match :: bool

definition no_effective_rules :: EffectiveRules where
  "no_effective_rules =
     \<lparr>eff_push_role = None, eff_no_force_push = False, eff_no_delete = False,
      eff_require_patch = False, has_explicit_match = False\<rparr>"

definition union_rule :: "EffectiveRules \<Rightarrow> ProtectionRule \<Rightarrow> EffectiveRules" where
  "union_rule eff rule =
     \<lparr>eff_push_role = (case push_role rule of
          None \<Rightarrow> eff_push_role eff
        | Some r \<Rightarrow> Some (stricter_role (eff_push_role eff) r)),
      eff_no_force_push = (eff_no_force_push eff \<or> no_force_push rule),
      eff_no_delete = (eff_no_delete eff \<or> no_delete rule),
      eff_require_patch = (eff_require_patch eff \<or> require_patch rule),
      has_explicit_match = True\<rparr>"

fun for_ref_loop :: "string \<Rightarrow> EffectiveRules \<Rightarrow> ProtectionRule list \<Rightarrow> EffectiveRules option" where
  "for_ref_loop name eff [] = Some eff"
| "for_ref_loop name eff (rule # rules) =
     (case pattern_matches (pattern rule) name of
        None \<Rightarrow> None
      | Some False \<Rightarrow> for_ref_loop name eff rules
      | Some True \<Rightarrow> for_ref_loop name (union_rule eff rule) rules)"

definition effective_rules_for_ref :: "string \<Rightarrow> ProtectionRule list \<Rightarrow> EffectiveRules option" where
  "effective_rules_for_ref name rules = for_ref_loop name no_effective_rules rules"

record Denial =
  denied_ref :: string
  reason :: string

definition check_effective :: "EffectiveRules \<Rightarrow> RefUpdate \<Rightarrow> MemberRole \<Rightarrow> Denial + unit" where
  "check_effective effective update r =
     (let default_role = default_min_role (ref_name update) (update_kind update) in
      if \<not> has_explicit_match effective then
        (if \<not> has_at_least r default_role then
           Inl \<lparr>denied_ref = ref_name update,
                reason = ''requires '' @ role_as_str default_role @ '' role (you have ''
                         @ role_as_str r @ ''), using built-in defaults''\<rparr>
         else Inr ())
      else if eff_require_patch effective then
        Inl \<lparr>denied_ref = ref_name update,
             reason = ''direct push denied: require-patch is set, submit a NIP-34 patch''\<rparr>
      else
        (let min_role =
           (case eff_push_role effective of
              Some explicit \<Rightarrow>
                if permission_level explicit \<ge> permission_level default_role then explicit
                else default_role
            | None \<Rightarrow> default_role)
         in
         if \<not> has_at_least r min_role then
           Inl \<lparr>denied_ref = ref_name update,
                reason = ''requires '' @ role_as_str min_role @ '' role (you have ''
                         @ role_as_str r @ '')''\<rparr>
         else if eff_no_force_push effective \<and> update_kind update = NonFastForward then
           Inl \<lparr>denied_ref = ref_name update,
                reason = ''non-fast-forward update denied: no-force-push is set''\<rparr>
         else if eff_no_delete effective \<and> update_kind update = Delete then
           Inl \<lparr>denied_ref = ref_name update,
                reason = ''ref deletion denied: no-delete is set''\<rparr>
         else Inr ()))"

definition evaluate_ref_update ::
  "RefUpdate \<Rightarrow> MemberRole \<Rightarrow> ProtectionRule list \<Rightarrow> (Denial + unit) option" where
  "evaluate_ref_update update r rules =
     map_option (\<lambda>effective. check_effective effective update r)
       (effective_rules_for_ref (ref_name update) rules)"

fun collect_denials ::
  "RefUpdate list \<Rightarrow> MemberRole \<Rightarrow> ProtectionRule list \<Rightarrow> Denial list option" where
  "collect_denials [] r rules = Some []"
| "collect_denials (u # us) r rules =
     (case evaluate_ref_update u r rules of
        None \<Rightarrow> None
      | Some (Inl d) \<Rightarrow> map_option (Cons d) (collect_denials us r rules)
      | Some (Inr _) \<Rightarrow> collect_denials us r rules)"

definition evaluate_push ::
  "RefUpdate list \<Rightarrow> MemberRole \<Rightarrow> ProtectionRule list \<Rightarrow> (Denial list + unit) option" where
  "evaluate_push updates r rules =
     map_option (\<lambda>denials. if denials = [] then Inr () else Inl denials)
       (collect_denials updates r rules)"

section \<open>Well-formed patterns\<close>

fun segment_str :: "PatternSegment \<Rightarrow> string" where
  "segment_str (Literal lit) = lit"
| "segment_str Wildcard = ''*''"
| "segment_str RecursiveWildcard = ''**''"

definition is_wild :: "PatternSegment \<Rightarrow> bool" where
  "is_wild s \<longleftrightarrow> s = Wildcard \<or> s = RecursiveWildcard"

definition wf_pattern :: "RefPattern \<Rightarrow> bool" where
  "wf_pattern p \<longleftrightarrow>
     map segment_str (segments p) = split_on (CHR ''/'') (raw p) \<and>
     RecursiveWildcard \<notin> set (butlast (segments p)) \<and>
     length (filter is_wild (segments p)) \<le> MAX_WILDCARDS_PER_PATTERN \<and>
     length (raw p) \<le> MAX_PATTERN_LENGTH \<and> prefix ''refs/'' (raw p)"

lemma is_wild_simps [simp]:
  "is_wild Wildcard" "is_wild RecursiveWildcard" "\<not> is_wild (Literal lit)"
  by (simp_all add: is_wild_def)

lemma parse_parts_Inr:
  assumes "parse_parts i n w segs parts = Inr out"
    and "i + length parts = n" and "w \<le> MAX_WILDCARDS_PER_PATTERN"
  shows "\<exists>tail. out = segs @ tail \<and> map segment_str tail = parts \<and>
           RecursiveWildcard \<notin> set (butlast tail) \<and>
           w + length (filter is_wild tail) \<le> MAX_WILDCARDS_PER_PATTERN"
  using assms
proof (induction i n w segs parts rule: parse_parts.induct)
  case (1 i n w segs)
  then show ?case by simp
next
  case (2 i n w segs part parts)
  consider (rec) "part = ''**''" | (star) "part = ''*''" | (lit) "part \<noteq> ''**''" "part \<noteq> ''*''"
    by blast
  then show ?case
  proof cases
    case rec
    with "2.prems"(1) have "i = n - 1" by (auto split: if_splits)
    with "2.prems"(2) have "parts = []" by (cases parts) simp_all
    with rec 2 show ?thesis by (auto split: if_splits)
  next
    case star
    with 2 obtain tail where "out = segs @ Wildcard # tail" "map segment_str tail = parts"
      "RecursiveWildcard \<notin> set (butlast tail)"
      "w + 1 + length (filter is_wild tail) \<le> MAX_WILDCARDS_PER_PATTERN"
      by (auto split: if_splits)
    with star show ?thesis
      by (intro exI [of _ "Wildcard # tail"]) auto
  next
    case lit
    with 2 obtain tail where "out = segs @ Literal part # tail" "map segment_str tail = parts"
      "RecursiveWildcard \<notin> set (butlast tail)"
      "w + length (filter is_wild tail) \<le> MAX_WILDCARDS_PER_PATTERN"
      by (auto split: if_splits)
    with lit show ?thesis
      by (intro exI [of _ "Literal part # tail"]) auto
  qed
qed

lemma parse_pattern_raw: "parse_pattern s = Inr p \<Longrightarrow> raw p = s"
  by (auto simp: parse_pattern_def Let_def split: if_splits sum.splits)

lemma parse_pattern_wf:
  assumes "parse_pattern s = Inr p"
  shows "wf_pattern p"
proof -
  let ?parts = "split_on (CHR ''/'') s"
  from assms have ok: "parse_parts 0 (length ?parts) 0 [] ?parts = Inr (segments p)"
    and len: "length s \<le> MAX_PATTERN_LENGTH" and pre: "prefix ''refs/'' s"
    by (auto simp: parse_pattern_def Let_def split: if_splits sum.splits)
  from parse_parts_Inr [OF ok] parse_pattern_raw [OF assms] len pre show ?thesis
    by (auto simp: wf_pattern_def)
qed

section \<open>Matching\<close>

text \<open>The grammar's reading of a pattern, segment by segment.\<close>

fun seg_match :: "PatternSegment list \<Rightarrow> string list \<Rightarrow> bool" where
  "seg_match [] [] = True"
| "seg_match (Literal lit # ps) (s # ss) = (lit = s \<and> seg_match ps ss)"
| "seg_match (Wildcard # ps) (s # ss) = seg_match ps ss"
| "seg_match (RecursiveWildcard # ps) (s # ss) = (ps = [])"
| "seg_match _ _ = False"

definition rule_matches :: "ProtectionRule \<Rightarrow> string \<Rightarrow> bool" where
  "rule_matches rule name \<longleftrightarrow>
     seg_match (segments (pattern rule)) (split_on (CHR ''/'') name)"

lemma zip_all_plain:
  "RecursiveWildcard \<notin> set ps \<Longrightarrow> length ss = length ps \<Longrightarrow> zip_all ps ss = Some (seg_match ps ss)"
  by (induction ps ss rule: zip_all.induct) auto

lemma zip_all_recursive:
  "RecursiveWildcard \<notin> set ps \<Longrightarrow> length ps < length ss \<Longrightarrow>
   zip_all ps (take (length ps) ss) = Some (seg_match (ps @ [RecursiveWildcard]) ss)"
  by (induction ps ss rule: seg_match.induct) auto

lemma seg_match_length: "RecursiveWildcard \<notin> set ps \<Longrightarrow> seg_match ps ss \<Longrightarrow> length ss = length ps"
  by (induction ps ss rule: seg_match.induct) auto

lemma seg_match_rec_length: "RecursiveWildcard \<notin> set ps \<Longrightarrow>
    seg_match (ps @ [RecursiveWildcard]) ss \<Longrightarrow> length ps < length ss"
  by (induction ps ss rule: seg_match.induct) auto

lemma pattern_matches_seg_match:
  assumes "wf_pattern p"
  shows "pattern_matches p name = Some (seg_match (segments p) (split_on (CHR ''/'') name))"
proof (cases "segments p \<noteq> [] \<and> last (segments p) = RecursiveWildcard")
  case True
  then obtain ps where ps: "segments p = ps @ [RecursiveWildcard]"
    by (metis append_butlast_last_id)
  with assms have "RecursiveWildcard \<notin> set ps" by (simp add: wf_pattern_def)
  with ps show ?thesis
    by (auto simp: pattern_matches_def Let_def zip_all_recursive dest: seg_match_rec_length)
next
  case False
  with assms have "RecursiveWildcard \<notin> set (segments p)"
    by (metis append_butlast_last_id insert_iff list.set(2) rotate1.simps(2) set_ConsD
        set_rotate1 split_list_last wf_pattern_def empty_iff list.set(1))
  then have "length ss = length (segments p) \<Longrightarrow> zip_all (segments p) ss = Some (seg_match (segments p) ss)"
    and "length ss \<noteq> length (segments p) \<Longrightarrow> \<not> seg_match (segments p) ss" for ss
    using zip_all_plain seg_match_length by blast+
  with False show ?thesis
    by (simp only: pattern_matches_def Let_def if_False split: if_splits) simp
qed

section \<open>The union of the matching rules\<close>

definition rules_wf :: "ProtectionRule list \<Rightarrow> bool" where
  "rules_wf rules \<longleftrightarrow> (\<forall>rule \<in> set rules. wf_pattern (pattern rule))"

lemma parse_rule_word_pattern:
  "parse_rule_word (rule, us) w = Inr (rule', us') \<Longrightarrow> pattern rule' = pattern rule"
  by (auto simp: parse_rule_word_def split: option.splits sum.splits if_splits)

lemma parse_rule_words_pattern:
  "parse_rule_words (rule, us) ws = Inr (rule', us') \<Longrightarrow> pattern rule' = pattern rule"
proof (induction ws arbitrary: rule us)
  case (Cons w ws)
  from Cons.prems obtain rule1 us1
    where "parse_rule_word (rule, us) w = Inr (rule1, us1)"
      and "parse_rule_words (rule1, us1) ws = Inr (rule', us')"
    by (auto split: sum.splits)
  then show ?case using Cons.IH parse_rule_word_pattern by metis
qed simp

lemma parse_protection_tag_wf:
  "parse_protection_tag_with_warnings values = Inr (rule, us) \<Longrightarrow> wf_pattern (pattern rule)"
  by (auto simp: parse_protection_tag_with_warnings_def simp del: parse_rule_words.simps
      split: list.splits sum.splits dest!: parse_rule_words_pattern parse_pattern_wf)

lemma parse_tags_loop_Inr:
  assumes "parse_tags_loop rules us tags = Inr pp"
    and "rules_wf rules" and "length rules \<le> MAX_PROTECTION_RULES"
  shows "rules_wf (pp_rules pp) \<and> length (pp_rules pp) \<le> MAX_PROTECTION_RULES \<and>
         (\<exists>new. pp_rules pp = rules @ new \<and>
            length new = length (filter (\<lambda>t. t \<noteq> [] \<and> hd t = ''buzz-protect'') tags))"
  using assms
proof (induction rules us tags rule: parse_tags_loop.induct)
  case (2 rules us tag tags)
  show ?case
  proof (cases "tag \<noteq> [] \<and> hd tag = ''buzz-protect''")
    case False
    with 2 show ?thesis by (cases tag) auto
  next
    case True
    then obtain vals where tag: "tag = ''buzz-protect'' # vals" by (cases tag) auto
    with "2.prems" obtain rule us1 where "length rules < MAX_PROTECTION_RULES"
      and rule: "parse_protection_tag_with_warnings vals = Inr (rule, us1)"
      and loop: "parse_tags_loop (rules @ [rule]) (us @ us1) tags = Inr pp"
      by (auto split: if_splits sum.splits)
    with 2 tag parse_protection_tag_wf [OF rule] show ?thesis
      by (fastforce simp: rules_wf_def)
  qed
qed auto

lemma parse_protection_tags_wf:
  "parse_protection_tags tags = Inr pp \<Longrightarrow> rules_wf (pp_rules pp)"
  unfolding parse_protection_tags_def
  by (drule parse_tags_loop_Inr) (auto simp: rules_wf_def)

lemma for_ref_loop_fold:
  "rules_wf rules \<Longrightarrow> for_ref_loop name eff rules =
     Some (fold (\<lambda>rule e. union_rule e rule) (filter (\<lambda>rule. rule_matches rule name) rules) eff)"
  by (induction rules arbitrary: eff)
    (auto simp: rules_wf_def rule_matches_def pattern_matches_seg_match)

lemma stricter_role_le_iff: "stricter_role push q \<le> r \<longleftrightarrow> pred_option (\<lambda>e. e \<le> r) push \<and> q \<le> r"
  by (cases push) (auto simp: stricter_role_def role_le_iff)

lemma union_fold:
  fixes rules and eff
  defines "e \<equiv> fold (\<lambda>rule e. union_rule e rule) rules eff"
  shows "has_explicit_match e \<longleftrightarrow> has_explicit_match eff \<or> rules \<noteq> []"
    and "eff_require_patch e \<longleftrightarrow> eff_require_patch eff \<or> (\<exists>rule \<in> set rules. require_patch rule)"
    and "eff_no_delete e \<longleftrightarrow> eff_no_delete eff \<or> (\<exists>rule \<in> set rules. no_delete rule)"
    and "eff_no_force_push e \<longleftrightarrow>
           eff_no_force_push eff \<or> (\<exists>rule \<in> set rules. no_force_push rule)"
    and "pred_option (\<lambda>q. q \<le> r) (eff_push_role e) \<longleftrightarrow>
           pred_option (\<lambda>q. q \<le> r) (eff_push_role eff) \<and>
           (\<forall>rule \<in> set rules. pred_option (\<lambda>q. q \<le> r) (push_role rule))"
  unfolding e_def
  by (induction rules arbitrary: eff)
    (auto simp: union_rule_def stricter_role_le_iff split: option.splits)

section \<open>What a push needs\<close>

text \<open>
  The declarative policy: the built-in default of the ref and the kind of update is always
  required, and every matching rule must permit the update.
\<close>

definition rule_permits :: "ProtectionRule \<Rightarrow> RefUpdate \<Rightarrow> MemberRole \<Rightarrow> bool" where
  "rule_permits rule u r \<longleftrightarrow>
     \<not> require_patch rule \<and>
     pred_option (\<lambda>q. has_at_least r q) (push_role rule) \<and>
     \<not> (no_force_push rule \<and> update_kind u = NonFastForward) \<and>
     \<not> (no_delete rule \<and> update_kind u = Delete)"

definition push_allowed :: "RefUpdate \<Rightarrow> MemberRole \<Rightarrow> ProtectionRule list \<Rightarrow> bool" where
  "push_allowed u r rules \<longleftrightarrow>
     has_at_least r (default_min_role (ref_name u) (update_kind u)) \<and>
     (\<forall>rule \<in> set rules. rule_matches rule (ref_name u) \<longrightarrow> rule_permits rule u r)"

lemma check_effective_ok_iff:
  "check_effective eff u r = Inr () \<longleftrightarrow>
     has_at_least r (default_min_role (ref_name u) (update_kind u)) \<and>
     (has_explicit_match eff \<longrightarrow>
        \<not> eff_require_patch eff \<and> pred_option (\<lambda>q. q \<le> r) (eff_push_role eff) \<and>
        \<not> (eff_no_force_push eff \<and> update_kind u = NonFastForward) \<and>
        \<not> (eff_no_delete eff \<and> update_kind u = Delete))"
  by (auto simp: check_effective_def Let_def has_at_least_def role_le_iff split: option.splits)

lemma check_effective_denied_ref: "check_effective eff u r = Inl d \<Longrightarrow> denied_ref d = ref_name u"
  by (auto simp: check_effective_def Let_def split: option.splits if_splits)

lemma evaluate_ref_update_total:
  assumes "rules_wf rules"
  shows "\<exists>res. evaluate_ref_update u r rules = Some res \<and>
           (res = Inr () \<longleftrightarrow> push_allowed u r rules) \<and> (\<forall>d. res = Inl d \<longrightarrow> denied_ref d = ref_name u)"
  using assms
  by (auto simp: evaluate_ref_update_def effective_rules_for_ref_def for_ref_loop_fold
      check_effective_ok_iff union_fold push_allowed_def rule_permits_def has_at_least_iff
      no_effective_rules_def filter_empty_conv dest: check_effective_denied_ref)

lemma collect_denials_total:
  assumes "rules_wf rules"
  shows "\<exists>ds. collect_denials us r rules = Some ds \<and>
           map denied_ref ds = map ref_name (filter (\<lambda>u. \<not> push_allowed u r rules) us)"
proof (induction us)
  case (Cons u us)
  obtain res where "evaluate_ref_update u r rules = Some res"
    and "res = Inr () \<longleftrightarrow> push_allowed u r rules"
    and "\<forall>d. res = Inl d \<longrightarrow> denied_ref d = ref_name u"
    using evaluate_ref_update_total [OF assms] by blast
  with Cons show ?case by (cases res) auto
qed simp

lemma evaluate_push_total:
  assumes "rules_wf rules"
  shows "\<exists>res. evaluate_push us r rules = Some res \<and>
           (res = Inr () \<longleftrightarrow> (\<forall>u \<in> set us. push_allowed u r rules)) \<and>
           (\<forall>ds. res = Inl ds \<longrightarrow>
              map denied_ref ds = map ref_name (filter (\<lambda>u. \<not> push_allowed u r rules) us))"
proof -
  obtain ds where "collect_denials us r rules = Some ds"
    and ds: "map denied_ref ds = map ref_name (filter (\<lambda>u. \<not> push_allowed u r rules) us)"
    using collect_denials_total [OF assms] by blast
  moreover have "ds = [] \<longleftrightarrow> (\<forall>u \<in> set us. push_allowed u r rules)"
    using ds by (auto simp: filter_empty_conv dest: map_is_Nil_conv [THEN iffD1, OF sym])
  ultimately show ?thesis by (auto simp: evaluate_push_def)
qed

section \<open>Properties\<close>

text \<open>
  C16. A push decided on rules that come from the repository's tags never reaches an
  \<open>unreachable!()\<close> arm, and one ref update is accepted exactly when the pusher has the built-in
  default role for the ref and the kind of update and every protection rule whose pattern
  matches the ref permits it: an explicit rule can only add requirements.
\<close>

theorem ref_update_decision:
  assumes "parse_protection_tags tags = Inr pp"
  shows "\<exists>res. evaluate_ref_update u r (pp_rules pp) = Some res \<and>
           (res = Inr () \<longleftrightarrow> push_allowed u r (pp_rules pp))"
  using evaluate_ref_update_total [OF parse_protection_tags_wf [OF assms]] by blast

definition sample_tags :: "string list list" where
  "sample_tags =
     [[''d'', ''repo''],
      [''buzz-protect'', ''refs/heads/main'', ''push:admin'', ''no-force-push''],
      [''buzz-protect'', ''refs/heads/**'', ''no-delete'', ''future-rule'']]"

definition sample_rules :: "ProtectionRule list" where
  "sample_rules =
     [\<lparr>pattern = \<lparr>raw = ''refs/heads/main'',
                  segments = [Literal ''refs'', Literal ''heads'', Literal ''main'']\<rparr>,
       push_role = Some Admin, no_force_push = True, no_delete = False, require_patch = False\<rparr>,
      \<lparr>pattern = \<lparr>raw = ''refs/heads/**'',
                  segments = [Literal ''refs'', Literal ''heads'', RecursiveWildcard]\<rparr>,
       push_role = None, no_force_push = False, no_delete = True, require_patch = False\<rparr>]"

lemma sample_parse:
  "parse_protection_tags sample_tags =
     Inr \<lparr>pp_rules = sample_rules, pp_unknown_rules = [''future-rule'']\<rparr>"
  by code_simp

definition sample_update :: RefUpdate where
  "sample_update = \<lparr>ref_name = ''refs/heads/main'', update_kind = FastForward,
     old_oid = ''1'', new_oid = ''2''\<rparr>"

theorem ref_update_decision_witness:
  "\<exists>res. evaluate_ref_update sample_update Member sample_rules = Some res \<and>
     (res = Inr () \<longleftrightarrow> push_allowed sample_update Member sample_rules)"
  using ref_update_decision [OF sample_parse] by simp

text \<open>
  Parsing and printing ref patterns: an accepted pattern keeps its text, its segments
  printed with slashes between them are that text, a recursive wildcard occurs at most as the
  last segment, and the documented limits hold.
\<close>

theorem pattern_parse_print:
  assumes "parse_pattern s = Inr p"
  shows "raw p = s \<and> join_with (CHR ''/'') (map segment_str (segments p)) = s \<and>
         RecursiveWildcard \<notin> set (butlast (segments p)) \<and>
         length (filter is_wild (segments p)) \<le> 3 \<and> length s \<le> 256"
proof -
  have wf: "wf_pattern p" and raw: "raw p = s"
    using parse_pattern_wf [OF assms] parse_pattern_raw [OF assms] by auto
  then have "join_with (CHR ''/'') (map segment_str (segments p)) = s"
    by (simp add: wf_pattern_def)
  with wf raw show ?thesis
    by (auto simp: wf_pattern_def MAX_WILDCARDS_PER_PATTERN_def MAX_PATTERN_LENGTH_def)
qed

theorem pattern_parse_print_witness:
  "join_with (CHR ''/'') (map segment_str [Literal ''refs'', Wildcard, RecursiveWildcard])
     = ''refs/*/**''"
proof -
  have "parse_pattern ''refs/*/**'' =
      Inr \<lparr>raw = ''refs/*/**'', segments = [Literal ''refs'', Wildcard, RecursiveWildcard]\<rparr>"
    by code_simp
  from pattern_parse_print [OF this] show ?thesis by simp
qed

text \<open>
  Matching: for every pattern the parser accepts, the length-first matcher of the code
  returns, without reaching an \<open>unreachable!()\<close> arm, exactly the segment-by-segment reading
  of the pattern: literals match themselves, \<open>*\<close> one segment, a final \<open>**\<close> one or more.
\<close>

theorem pattern_match_meaning:
  assumes "parse_pattern s = Inr p"
  shows "pattern_matches p name = Some (seg_match (segments p) (split_on (CHR ''/'') name))"
  by (rule pattern_matches_seg_match [OF parse_pattern_wf [OF assms]])

theorem pattern_match_meaning_witness:
  "pattern_matches \<lparr>raw = ''refs/heads/**'',
       segments = [Literal ''refs'', Literal ''heads'', RecursiveWildcard]\<rparr> ''refs/heads/a/b''
     = Some True"
proof -
  have "parse_pattern ''refs/heads/**'' = Inr \<lparr>raw = ''refs/heads/**'',
       segments = [Literal ''refs'', Literal ''heads'', RecursiveWildcard]\<rparr>"
    by code_simp
  from pattern_match_meaning [OF this, of "''refs/heads/a/b''"] show ?thesis by simp
qed

text \<open>
  A push is atomic: it is accepted exactly when every ref update of it is allowed, and a
  rejection lists the denied refs, each once per denied update and in the order of the push.
\<close>

theorem push_atomic:
  assumes "parse_protection_tags tags = Inr pp"
  shows "\<exists>res. evaluate_push us r (pp_rules pp) = Some res \<and>
           (res = Inr () \<longleftrightarrow> (\<forall>u \<in> set us. push_allowed u r (pp_rules pp))) \<and>
           (\<forall>ds. res = Inl ds \<longrightarrow> map denied_ref ds =
              map ref_name (filter (\<lambda>u. \<not> push_allowed u r (pp_rules pp)) us))"
  by (rule evaluate_push_total [OF parse_protection_tags_wf [OF assms]])

theorem push_atomic_witness:
  "evaluate_push [sample_update] Owner sample_rules = Some (Inr ())"
proof -
  have "has_at_least Owner (default_min_role (ref_name sample_update) (update_kind sample_update))"
    by code_simp
  then have "push_allowed sample_update Owner sample_rules"
    by (simp add: push_allowed_def rule_permits_def sample_rules_def sample_update_def
        has_at_least_def)
  with push_atomic [OF sample_parse, of "[sample_update]" Owner] show ?thesis by auto
qed

lemma parse_tags_loop_append:
  assumes "parse_tags_loop rules us (tags @ extra) = Inr pp'"
  shows "\<exists>pp. parse_tags_loop rules us tags = Inr pp \<and> (\<exists>new. pp_rules pp' = pp_rules pp @ new)"
  using assms
proof (induction rules us tags rule: parse_tags_loop.induct)
  case (1 rules us)
  then have "\<exists>new. pp_rules pp' = rules @ new"
  proof (induction rules us extra rule: parse_tags_loop.induct)
    case (2 rules us tag tags)
    then show ?case by (cases tag) (fastforce split: if_splits sum.splits)+
  qed auto
  then show ?case by simp
next
  case (2 rules us tag tags)
  then show ?case by (cases tag) (auto split: if_splits sum.splits)
qed

lemma push_allowed_antimono:
  "push_allowed u r (rules @ new) \<Longrightarrow> has_at_least r' r \<Longrightarrow> push_allowed u r' rules"
  by (auto simp: push_allowed_def rule_permits_def has_at_least_iff elim!: order_trans
      option.pred_mono_strong)

text \<open>
  Protection only ever restricts: if more tags are added to a repository, a push that is
  accepted afterwards was accepted before, also for any pusher with at least the same role.
\<close>

theorem protection_only_restricts:
  assumes "parse_protection_tags tags = Inr pp"
    and "parse_protection_tags (tags @ extra) = Inr pp'"
    and "evaluate_push us r (pp_rules pp') = Some (Inr ())" and "has_at_least r' r"
  shows "evaluate_push us r' (pp_rules pp) = Some (Inr ())"
proof -
  obtain new where "pp_rules pp' = pp_rules pp @ new"
    using parse_tags_loop_append assms(1,2) unfolding parse_protection_tags_def
    by (metis sum.inject(2))
  moreover have "\<forall>u \<in> set us. push_allowed u r (pp_rules pp')"
    using evaluate_push_total [OF parse_protection_tags_wf [OF assms(2)]] assms(3) by fastforce
  ultimately have "\<forall>u \<in> set us. push_allowed u r' (pp_rules pp)"
    using assms(4) by (auto intro: push_allowed_antimono)
  then show ?thesis
    using evaluate_push_total [OF parse_protection_tags_wf [OF assms(1)]] by fastforce
qed

theorem protection_only_restricts_witness:
  "evaluate_push [sample_update] Owner [] = Some (Inr ())"
proof -
  have before: "parse_protection_tags [] = Inr \<lparr>pp_rules = [], pp_unknown_rules = []\<rparr>"
    by code_simp
  have after: "parse_protection_tags ([] @ sample_tags) =
      Inr \<lparr>pp_rules = sample_rules, pp_unknown_rules = [''future-rule'']\<rparr>"
    using sample_parse by simp
  have accepted: "evaluate_push [sample_update] Admin
      (pp_rules \<lparr>pp_rules = sample_rules, pp_unknown_rules = [''future-rule'']\<rparr>) = Some (Inr ())"
    by code_simp
  have stronger: "has_at_least Owner Admin" by code_simp
  from protection_only_restricts [OF before after accepted stronger] show ?thesis by simp
qed

end
