(* ===== verification/Nostr_Event.thy ===== *)
theory Nostr_Event
  imports Prelude "HOL-Library.Word"
begin

text \<open>
  The view of a Nostr event that the modelled code has. The types \<open>Event\<close>, \<open>Tag\<close>, \<open>Kind\<close> and
  \<open>Timestamp\<close> belong to the \<^verbatim>\<open>nostr\<close> crate; the records below hold the values its accessors
  return (\<open>Tag::as_slice\<close>, \<open>Tag::kind().to_string()\<close>, \<open>Tag::content\<close>, \<open>EventId::to_hex\<close>,
  \<open>PublicKey::to_hex\<close>), and nothing is assumed about how these values relate. Ids and public
  keys appear in the hexadecimal form in which the code compares them.
  \<open>StoredEvent\<close> is the relay's wrapper of \<^verbatim>\<open>crates/buzz-core/src/event.rs\<close>.
\<close>

type_synonym uuid = "128 word"
type_synonym kind = "16 word"
type_synonym event_id = string
type_synonym pubkey = string

record tag =
  tag_slice :: "string list"
  tag_kind_str :: string
  tag_content :: "string option"

record event =
  ev_id :: event_id
  ev_pubkey :: pubkey
  ev_created_at :: nat
  ev_kind :: kind
  ev_tags :: "tag list"
  ev_content :: string

record StoredEvent =
  st_event :: event
  st_received_at :: nat
  st_channel_id :: "uuid option"
  st_verified :: bool

definition stored_event_new :: "event \<Rightarrow> uuid option \<Rightarrow> nat \<Rightarrow> StoredEvent" where
  "stored_event_new e ch now =
     \<lparr>st_event = e, st_received_at = now, st_channel_id = ch, st_verified = False\<rparr>"

definition is_verified :: "StoredEvent \<Rightarrow> bool" where
  "is_verified s = st_verified s"

definition stored_event_with_received_at ::
  "event \<Rightarrow> nat \<Rightarrow> uuid option \<Rightarrow> bool \<Rightarrow> StoredEvent" where
  "stored_event_with_received_at e at ch verified =
     \<lparr>st_event = e, st_received_at = at, st_channel_id = ch, st_verified = verified\<rparr>"

text \<open>A tag as the accessors of a plain string array would show it; used by the witnesses.\<close>

definition plain_tag :: "string list \<Rightarrow> tag" where
  "plain_tag parts =
     \<lparr>tag_slice = parts,
      tag_kind_str = (case parts of [] \<Rightarrow> [] | k # _ \<Rightarrow> k),
      tag_content = (case parts of _ # v # _ \<Rightarrow> Some v | _ \<Rightarrow> None)\<rparr>"

end
