(* ===== verification/Event_Filter.thy ===== *)
theory Event_Filter
  imports Kind
begin

text \<open>
  Event filters and thread markers: \<^verbatim>\<open>crates/buzz-core/src/filter.rs\<close> (NIP-01 matching with the
  channel fallback, result-level read authorization) and \<^verbatim>\<open>crates/buzz-core/src/nip10.rs\<close>
  (thread markers). A filter's \<open>BTreeSet\<close>s are lists; \<open>generic_tags\<close> maps the string of a
  single-letter tag to its values. \<open>Uuid::to_string\<close> is the parameter \<open>uuid_str\<close>.
\<close>

section \<open>Filters\<close>

record nostr_filter =
  f_ids :: "event_id list option"
  f_authors :: "pubkey list option"
  f_kinds :: "kind list option"
  f_since :: "nat option"
  f_until :: "nat option"
  f_generic_tags :: "(string, string list) hmap"

definition empty_filter :: nostr_filter where
  "empty_filter = \<lparr>f_ids = None, f_authors = None, f_kinds = None, f_since = None, f_until = None,
     f_generic_tags = []\<rparr>"

text \<open>One round of the loop over \<open>generic_tags\<close>; \<open>False\<close> is its \<open>return false\<close>.\<close>

definition generic_tag_match :: "(uuid \<Rightarrow> string) \<Rightarrow> StoredEvent \<Rightarrow> string \<Rightarrow> string list \<Rightarrow> bool" where
  "generic_tag_match uuid_str ev key values =
     (let tags = ev_tags (st_event ev);
          has_match = list_ex (\<lambda>filter_val.
            filter_val \<in> set (List.map_filter tag_content
              (filter (\<lambda>t. tag_kind_str t = key) tags))) values
      in
      if \<not> has_match \<and> key = ''h'' then
        (if \<not> list_ex (\<lambda>t. tag_kind_str t = ''h'') tags then
           (case st_channel_id ev of
              Some ch \<Rightarrow> uuid_str ch \<in> set values
            | None \<Rightarrow> False)
         else False)
      else has_match)"

definition filter_match_one :: "(uuid \<Rightarrow> string) \<Rightarrow> nostr_filter \<Rightarrow> StoredEvent \<Rightarrow> bool" where
  "filter_match_one uuid_str f ev =
     (let e = st_event ev in
      if (case f_kinds f of Some ks \<Rightarrow> ev_kind e \<notin> set ks | None \<Rightarrow> False) then False
      else if (case f_authors f of Some as \<Rightarrow> ev_pubkey e \<notin> set as | None \<Rightarrow> False) then False
      else if (case f_since f of Some t \<Rightarrow> ev_created_at e < t | None \<Rightarrow> False) then False
      else if (case f_until f of Some t \<Rightarrow> ev_created_at e > t | None \<Rightarrow> False) then False
      else if (case f_ids f of Some ids \<Rightarrow> \<not> list_ex (\<lambda>i. prefix i (ev_id e)) ids | None \<Rightarrow> False)
        then False
      else list_all (\<lambda>p. generic_tag_match uuid_str ev (fst p) (snd p)) (f_generic_tags f))"

definition filters_match :: "(uuid \<Rightarrow> string) \<Rightarrow> nostr_filter list \<Rightarrow> StoredEvent \<Rightarrow> bool" where
  "filters_match uuid_str fs ev = list_ex (\<lambda>f. filter_match_one uuid_str f ev) fs"

definition reader_authorized_for_event :: "event \<Rightarrow> pubkey \<Rightarrow> bool" where
  "reader_authorized_for_event e reader =
     (let k = event_kind_u32 e in
      if k \<noteq> KIND_DM_VISIBILITY \<and> k \<noteq> KIND_AGENT_TURN_METRIC then True
      else list_ex (\<lambda>t. tag_content t = Some reader)
             (filter (\<lambda>t. tag_kind_str t = ''p'') (ev_tags e)))"

section \<open>Thread markers\<close>

record ThreadMarkers =
  root_marker :: "event_id option"
  reply_marker :: "event_id option"

definition no_markers :: ThreadMarkers where
  "no_markers = \<lparr>root_marker = None, reply_marker = None\<rparr>"

definition resolve_markers :: "ThreadMarkers \<Rightarrow> (event_id \<times> event_id) option" where
  "resolve_markers m =
     (case (root_marker m, reply_marker m) of
        (Some root, Some reply) \<Rightarrow> Some (root, reply)
      | (None, Some reply) \<Rightarrow> Some (reply, reply)
      | (_, None) \<Rightarrow> None)"

definition is_event_id_hex :: "string \<Rightarrow> bool" where
  "is_event_id_hex i \<longleftrightarrow> length i = 64 \<and> list_all is_ascii_hexdigit i"

definition add_marker :: "string list \<Rightarrow> ThreadMarkers \<Rightarrow> ThreadMarkers" where
  "add_marker parts m =
     (if length parts \<ge> 4 \<and> parts ! 0 = ''e'' \<and> is_event_id_hex (parts ! 1) then
        (if parts ! 3 = ''root'' then m\<lparr>root_marker := Some (parts ! 1)\<rparr>
         else if parts ! 3 = ''reply'' then m\<lparr>reply_marker := Some (parts ! 1)\<rparr>
         else m)
      else m)"

definition parse_thread_markers_from_parts :: "string list list \<Rightarrow> ThreadMarkers" where
  "parse_thread_markers_from_parts tags = fold add_marker tags no_markers"

definition parse_thread_markers :: "tag list \<Rightarrow> ThreadMarkers" where
  "parse_thread_markers tags = parse_thread_markers_from_parts (map tag_slice tags)"

section \<open>Lemmas\<close>

lemma filter_match_kinds:
  "filter_match_one u f ev \<Longrightarrow> f_kinds f = Some ks \<Longrightarrow> ev_kind (st_event ev) \<in> set ks"
  by (auto simp: filter_match_one_def Let_def split: if_splits)

lemma filter_match_tag:
  "filter_match_one u f ev \<Longrightarrow> (k, vs) \<in> set (f_generic_tags f) \<Longrightarrow> generic_tag_match u ev k vs"
  by (auto simp: filter_match_one_def Let_def list_all_iff split: if_splits)

lemma in_map_filter: "v \<in> set (List.map_filter g xs) \<longleftrightarrow> (\<exists>x \<in> set xs. g x = Some v)"
  by (induction xs) (auto simp: List.map_filter_simps split: option.splits)

lemma generic_tag_match_not_h:
  "k \<noteq> ''h'' \<Longrightarrow> generic_tag_match u ev k vs \<longleftrightarrow>
     (\<exists>v \<in> set vs. \<exists>t \<in> set (ev_tags (st_event ev)). tag_kind_str t = k \<and> tag_content t = Some v)"
  by (auto simp: generic_tag_match_def Let_def list_ex_iff in_map_filter)

definition marker_at :: "string \<Rightarrow> event_id \<Rightarrow> string list \<Rightarrow> bool" where
  "marker_at name i parts \<longleftrightarrow>
     length parts \<ge> 4 \<and> parts ! 0 = ''e'' \<and> parts ! 1 = i \<and> is_event_id_hex i \<and> parts ! 3 = name"

definition last_marker :: "string \<Rightarrow> string list list \<Rightarrow> event_id option" where
  "last_marker name tags =
     (let ps = filter (\<lambda>p. marker_at name (p ! 1) p) tags in
      if ps = [] then None else Some (last ps ! 1))"

lemma last_marker_snoc:
  "last_marker name (tags @ [p]) =
     (if marker_at name (p ! 1) p then Some (p ! 1) else last_marker name tags)"
  by (simp add: last_marker_def Let_def)

lemma last_marker_hex: "last_marker name tags = Some i \<Longrightarrow> is_event_id_hex i"
  by (induction tags rule: rev_induct)
    (auto simp: last_marker_snoc marker_at_def last_marker_def split: if_splits)

lemma parse_markers_last:
  "parse_thread_markers_from_parts tags =
     \<lparr>root_marker = last_marker ''root'' tags, reply_marker = last_marker ''reply'' tags\<rparr>"
proof (induction tags rule: rev_induct)
  case Nil
  then show ?case by (simp add: parse_thread_markers_from_parts_def no_markers_def last_marker_def)
next
  case (snoc p tags)
  then show ?case
    by (auto simp: parse_thread_markers_from_parts_def last_marker_snoc add_marker_def marker_at_def)
qed

section \<open>Properties\<close>

text \<open>
  A filter accepts an event exactly when every constraint it carries holds (kinds, authors,
  the time window, an id prefix, and for each tag key one of the values), where a channel
  constraint on an event without any \<open>h\<close> tag is decided by the channel the relay stored it
  under; several filters are alternatives.
\<close>

theorem filters_match_meaning:
  "filters_match uuid_str fs ev \<longleftrightarrow>
     (\<exists>f \<in> set fs.
        pred_option (\<lambda>ks. ev_kind (st_event ev) \<in> set ks) (f_kinds f) \<and>
        pred_option (\<lambda>as. ev_pubkey (st_event ev) \<in> set as) (f_authors f) \<and>
        pred_option (\<lambda>t. t \<le> ev_created_at (st_event ev)) (f_since f) \<and>
        pred_option (\<lambda>t. ev_created_at (st_event ev) \<le> t) (f_until f) \<and>
        pred_option (\<lambda>ids. \<exists>i \<in> set ids. prefix i (ev_id (st_event ev))) (f_ids f) \<and>
        (\<forall>(k, vs) \<in> set (f_generic_tags f).
           (\<exists>t \<in> set (ev_tags (st_event ev)). tag_kind_str t = k \<and>
              (\<exists>v \<in> set vs. tag_content t = Some v)) \<or>
           k = ''h'' \<and> (\<forall>t \<in> set (ev_tags (st_event ev)). tag_kind_str t \<noteq> ''h'') \<and>
             (\<exists>ch. st_channel_id ev = Some ch \<and> uuid_str ch \<in> set vs)))"
proof -
  have tag: "generic_tag_match uuid_str ev k vs \<longleftrightarrow>
      (\<exists>t \<in> set (ev_tags (st_event ev)). tag_kind_str t = k \<and> (\<exists>v \<in> set vs. tag_content t = Some v)) \<or>
      k = ''h'' \<and> (\<forall>t \<in> set (ev_tags (st_event ev)). tag_kind_str t \<noteq> ''h'') \<and>
        (\<exists>ch. st_channel_id ev = Some ch \<and> uuid_str ch \<in> set vs)" for k vs
    by (auto simp: generic_tag_match_def Let_def list_ex_iff in_map_filter split: option.splits)
  have one: "filter_match_one uuid_str f ev \<longleftrightarrow>
      pred_option (\<lambda>ks. ev_kind (st_event ev) \<in> set ks) (f_kinds f) \<and>
      pred_option (\<lambda>as. ev_pubkey (st_event ev) \<in> set as) (f_authors f) \<and>
      pred_option (\<lambda>t. t \<le> ev_created_at (st_event ev)) (f_since f) \<and>
      pred_option (\<lambda>t. ev_created_at (st_event ev) \<le> t) (f_until f) \<and>
      pred_option (\<lambda>ids. \<exists>i \<in> set ids. prefix i (ev_id (st_event ev))) (f_ids f) \<and>
      (\<forall>(k, vs) \<in> set (f_generic_tags f). generic_tag_match uuid_str ev k vs)" for f
    unfolding filter_match_one_def Let_def list_all_iff list_ex_iff case_prod_beta
    by (simp add: option.pred_set not_less split: option.splits)
  show ?thesis
    unfolding filters_match_def list_ex_iff one tag by simp
qed

theorem filters_match_meaning_witness:
  "filters_match (\<lambda>_. ''room'')
     [empty_filter\<lparr>f_kinds := Some [9], f_generic_tags := [(''h'', [''room''])]\<rparr>]
     (stored_event_new \<lparr>ev_id = ''e'', ev_pubkey = ''pk'', ev_created_at = 5, ev_kind = 9,
        ev_tags = [], ev_content = []\<rparr> (Some 1) 6)"
  unfolding filters_match_meaning by (simp add: empty_filter_def stored_event_new_def)

text \<open>
  NIP-10 ancestry: the resolved pair is the last valid root marker and the last valid reply
  marker, the reply standing in for a missing root; without a valid reply marker (also with a
  lone root) the event is top-level, and both ids of a resolved pair are 64 hex digits.
\<close>

theorem thread_ancestry:
  "resolve_markers (parse_thread_markers_from_parts tags) =
     (case last_marker ''reply'' tags of
        None \<Rightarrow> None
      | Some reply \<Rightarrow>
          Some (case last_marker ''root'' tags of None \<Rightarrow> reply | Some root \<Rightarrow> root, reply)) \<and>
   pred_option (\<lambda>(root, parent). is_event_id_hex root \<and> is_event_id_hex parent)
     (resolve_markers (parse_thread_markers_from_parts tags))"
proof
  show res: "resolve_markers (parse_thread_markers_from_parts tags) =
     (case last_marker ''reply'' tags of
        None \<Rightarrow> None
      | Some reply \<Rightarrow>
          Some (case last_marker ''root'' tags of None \<Rightarrow> reply | Some root \<Rightarrow> root, reply))"
    by (auto simp: parse_markers_last resolve_markers_def split: option.splits)
  show "pred_option (\<lambda>(root, parent). is_event_id_hex root \<and> is_event_id_hex parent)
     (resolve_markers (parse_thread_markers_from_parts tags))"
    by (auto simp: res dest: last_marker_hex split: option.splits)
qed

end
