(* ===== verification/Event_Queue.thy ===== *)
theory Event_Queue
  imports Event_Filter
begin

text \<open>
  The per-channel event queue of the agent harness, \<^verbatim>\<open>crates/buzz-acp/src/queue.rs\<close>.
  One definition per method of \<open>EventQueue\<close>; a method that mutates returns the new state (and
  its result). \<open>Instant::now()\<close> is an argument \<open>now\<close>, instants and durations count
  nanoseconds in \<open>nat\<close> (an overflow of the clock type is not modelled). Hash maps list their
  entries in iteration order, which \<open>flush_next\<close> depends on. Log output is left out.
  The jittered backoff, computed in \<open>f64\<close> by the code, is exact rational arithmetic here.
\<close>

section \<open>State\<close>

definition MAX_PENDING_PER_CHANNEL :: nat where "MAX_PENDING_PER_CHANNEL = 500"
definition MAX_BATCH_EVENTS :: nat where "MAX_BATCH_EVENTS = 50"
definition MAX_RETRIES :: nat where "MAX_RETRIES = 10"
definition BASE_RETRY_DELAY_SECS :: nat where "BASE_RETRY_DELAY_SECS = 5"
definition MAX_RETRY_DELAY_SECS :: nat where "MAX_RETRY_DELAY_SECS = 300"
definition IN_FLIGHT_DEADLINE_BUFFER_SECS :: nat where "IN_FLIGHT_DEADLINE_BUFFER_SECS = 100"
definition DEFAULT_IN_FLIGHT_DEADLINE_SECS :: nat where "DEFAULT_IN_FLIGHT_DEADLINE_SECS = 7300"

definition secs :: "nat \<Rightarrow> nat" where "secs n = n * 10 ^ 9"

datatype DedupMode = Drop | Queue

record QueuedEvent =
  qe_channel_id :: uuid
  qe_event :: event
  qe_received_at :: nat
  qe_prompt_tag :: string

record BatchEvent =
  be_event :: event
  be_prompt_tag :: string
  be_received_at :: nat

datatype CancelReason = Interrupt | Steer

record FlushBatch =
  fb_channel_id :: uuid
  fb_events :: "BatchEvent list"
  fb_cancelled_events :: "BatchEvent list"
  fb_cancel_reason :: "CancelReason option"

record EventQueue =
  queues :: "(uuid, QueuedEvent list) hmap"
  in_flight_channels :: "uuid set"
  in_flight_deadlines :: "(uuid, nat) hmap"
  in_flight_batch_sizes :: "(uuid, nat) hmap"
  retry_after :: "(uuid, nat) hmap"
  retry_counts :: "(uuid, nat) hmap"
  dedup_mode :: DedupMode
  cancelled_batches :: "(uuid, BatchEvent list) hmap"
  cancel_reasons :: "(uuid, CancelReason) hmap"
  withheld_native_steer :: "(uuid, QueuedEvent list) hmap"
  in_flight_deadline :: nat

section \<open>Construction and deadlines\<close>

definition new_queue :: "DedupMode \<Rightarrow> EventQueue" where
  "new_queue mode =
     \<lparr>queues = [], in_flight_channels = {}, in_flight_deadlines = [], in_flight_batch_sizes = [],
      retry_after = [], retry_counts = [], dedup_mode = mode, cancelled_batches = [],
      cancel_reasons = [], withheld_native_steer = [],
      in_flight_deadline = secs DEFAULT_IN_FLIGHT_DEADLINE_SECS\<rparr>"

definition default_queue :: EventQueue where
  "default_queue = new_queue Drop"

definition with_in_flight_deadline :: "nat \<Rightarrow> EventQueue \<Rightarrow> EventQueue" where
  "with_in_flight_deadline max_turn_duration_secs q =
     q\<lparr>in_flight_deadline := secs (max_turn_duration_secs + IN_FLIGHT_DEADLINE_BUFFER_SECS)\<rparr>"

definition extend_in_flight_deadline :: "uuid \<Rightarrow> nat \<Rightarrow> nat \<Rightarrow> EventQueue \<Rightarrow> EventQueue" where
  "extend_in_flight_deadline ch max_turn_secs now q =
     (case hm_get (in_flight_deadlines q) ch of
        None \<Rightarrow> q
      | Some current \<Rightarrow>
          let extended = now + secs (max_turn_secs + IN_FLIGHT_DEADLINE_BUFFER_SECS) in
          if extended > current
          then q\<lparr>in_flight_deadlines := hm_insert ch extended (in_flight_deadlines q)\<rparr>
          else q)"

section \<open>Queueing\<close>

definition push_event :: "QueuedEvent \<Rightarrow> EventQueue \<Rightarrow> EventQueue \<times> bool" where
  "push_event ev q =
     (let ch = qe_channel_id ev in
      if dedup_mode q = Drop \<and> ch \<in> in_flight_channels q then (q, False)
      else
        (let queue = hm_get_or [] (queues q) ch;
             queue = (if length queue \<ge> MAX_PENDING_PER_CHANNEL then tl queue else queue)
         in (q\<lparr>queues := hm_insert ch (queue @ [ev]) (queues q)\<rparr>, True)))"

text \<open>\<open>while queue.len() > MAX_PENDING_PER_CHANNEL { queue.pop_back(); }\<close>\<close>

function enforce_cap :: "'a list \<Rightarrow> 'a list" where
  "enforce_cap queue =
     (if length queue > MAX_PENDING_PER_CHANNEL then enforce_cap (butlast queue) else queue)"
  by pat_completeness auto
termination
  by (relation "measure length") auto

declare enforce_cap.simps [simp del]

text \<open>\<open>for x in xs.rev() { queue.push_front(x) }\<close>\<close>

definition push_front_all :: "'a list \<Rightarrow> 'a list \<Rightarrow> 'a list" where
  "push_front_all xs queue = fold Cons (rev xs) queue"

definition recover_withheld_for_expired_channel :: "uuid \<Rightarrow> EventQueue \<Rightarrow> EventQueue" where
  "recover_withheld_for_expired_channel ch q =
     (case hm_get (withheld_native_steer q) ch of
        None \<Rightarrow> q
      | Some entries \<Rightarrow>
          q\<lparr>withheld_native_steer := hm_remove ch (withheld_native_steer q),
            queues := hm_insert ch
              (enforce_cap (push_front_all entries (hm_get_or [] (queues q) ch))) (queues q)\<rparr>)"

text \<open>The expiry block that opens \<open>flush_next\<close> and \<open>has_flushable_work\<close>.\<close>

definition expire_channel :: "uuid \<Rightarrow> EventQueue \<Rightarrow> EventQueue" where
  "expire_channel ch q =
     recover_withheld_for_expired_channel ch
       (q\<lparr>in_flight_batch_sizes := hm_remove ch (in_flight_batch_sizes q),
          in_flight_channels := in_flight_channels q - {ch},
          in_flight_deadlines := hm_remove ch (in_flight_deadlines q)\<rparr>)"

definition expired_channels :: "nat \<Rightarrow> EventQueue \<Rightarrow> uuid list" where
  "expired_channels now q = map fst (filter (\<lambda>p. now \<ge> snd p) (in_flight_deadlines q))"

definition expire_in_flight :: "nat \<Rightarrow> EventQueue \<Rightarrow> EventQueue" where
  "expire_in_flight now q = fold expire_channel (expired_channels now q) q"

section \<open>Flushing\<close>

definition to_batch_event :: "QueuedEvent \<Rightarrow> BatchEvent" where
  "to_batch_event qe =
     \<lparr>be_event = qe_event qe, be_prompt_tag = qe_prompt_tag qe, be_received_at = qe_received_at qe\<rparr>"

definition to_queued_event :: "uuid \<Rightarrow> BatchEvent \<Rightarrow> QueuedEvent" where
  "to_queued_event ch be =
     \<lparr>qe_channel_id = ch, qe_event = be_event be, qe_received_at = be_received_at be,
      qe_prompt_tag = be_prompt_tag be\<rparr>"

definition not_throttled :: "nat \<Rightarrow> EventQueue \<Rightarrow> uuid \<Rightarrow> bool" where
  "not_throttled now q ch = (case hm_get (retry_after q) ch of None \<Rightarrow> True | Some t \<Rightarrow> t \<le> now)"

definition flushable_queue :: "nat \<Rightarrow> EventQueue \<Rightarrow> uuid \<times> QueuedEvent list \<Rightarrow> bool" where
  "flushable_queue now q p \<longleftrightarrow>
     snd p \<noteq> [] \<and> fst p \<notin> in_flight_channels q \<and> not_throttled now q (fst p)"

definition start_in_flight :: "uuid \<Rightarrow> nat \<Rightarrow> nat \<Rightarrow> EventQueue \<Rightarrow> EventQueue" where
  "start_in_flight ch now n q =
     q\<lparr>in_flight_channels := insert ch (in_flight_channels q),
       in_flight_deadlines := hm_insert ch (now + in_flight_deadline q) (in_flight_deadlines q),
       in_flight_batch_sizes := hm_insert ch n (in_flight_batch_sizes q)\<rparr>"

definition take_cancelled :: "uuid \<Rightarrow> EventQueue \<Rightarrow> EventQueue" where
  "take_cancelled ch q =
     q\<lparr>cancelled_batches := hm_remove ch (cancelled_batches q),
       cancel_reasons := hm_remove ch (cancel_reasons q)\<rparr>"

definition flush_cancelled_only :: "uuid \<Rightarrow> nat \<Rightarrow> EventQueue \<Rightarrow> EventQueue \<times> FlushBatch option" where
  "flush_cancelled_only ch now q =
     (let cancelled = hm_get_or [] (cancelled_batches q) ch;
          cancel_reason = hm_get (cancel_reasons q) ch
      in (start_in_flight ch now (length cancelled) (take_cancelled ch q),
          Some \<lparr>fb_channel_id = ch, fb_events = cancelled, fb_cancelled_events = [],
                fb_cancel_reason = cancel_reason\<rparr>))"

definition flush_channel :: "uuid \<Rightarrow> nat \<Rightarrow> EventQueue \<Rightarrow> EventQueue \<times> FlushBatch option" where
  "flush_channel ch now q =
     (let queue = hm_get_or [] (queues q) ch;
          drain_count = min MAX_BATCH_EVENTS (length queue);
          events = sort_key (\<lambda>be. ev_created_at (be_event be))
                     (map to_batch_event (take drain_count queue));
          rest = drop drain_count queue;
          q1 = q\<lparr>queues := (if rest = [] then hm_remove ch (queues q)
                            else hm_insert ch rest (queues q))\<rparr>;
          q2 = start_in_flight ch now (length events) q1;
          cancelled_events = hm_get_or [] (cancelled_batches q2) ch;
          cancel_reason = (if cancelled_events = [] then None else hm_get (cancel_reasons q2) ch)
      in (take_cancelled ch q2,
          Some \<lparr>fb_channel_id = ch, fb_events = events, fb_cancelled_events = cancelled_events,
                fb_cancel_reason = cancel_reason\<rparr>))"

definition flush_next :: "nat \<Rightarrow> EventQueue \<Rightarrow> EventQueue \<times> FlushBatch option" where
  "flush_next now q0 =
     (let q = expire_in_flight now q0 in
      case min_by_key (\<lambda>p. qe_received_at (hd (snd p)))
             (filter (flushable_queue now q) (queues q)) of
        Some (ch, _) \<Rightarrow> flush_channel ch now q
      | None \<Rightarrow>
          (case find (\<lambda>ch. ch \<notin> in_flight_channels q) (hm_keys (cancelled_batches q)) of
             Some ch \<Rightarrow> flush_cancelled_only ch now q
           | None \<Rightarrow> (q, None)))"

section \<open>Completion, retry and cancellation\<close>

definition mark_complete :: "uuid \<Rightarrow> nat \<Rightarrow> EventQueue \<Rightarrow> EventQueue" where
  "mark_complete ch now q0 =
     (let q = q0\<lparr>in_flight_channels := in_flight_channels q0 - {ch},
                 in_flight_deadlines := hm_remove ch (in_flight_deadlines q0),
                 in_flight_batch_sizes := hm_remove ch (in_flight_batch_sizes q0)\<rparr>
      in case hm_get (retry_after q) ch of
           Some deadline \<Rightarrow>
             if deadline > now then q
             else q\<lparr>retry_after := hm_remove ch (retry_after q),
                    retry_counts := hm_remove ch (retry_counts q)\<rparr>
         | None \<Rightarrow> q\<lparr>retry_counts := hm_remove ch (retry_counts q)\<rparr>)"

text \<open>Capped exponential backoff in seconds, and the delay with the jitter factor
  \<open>0.8 + (nanos / u32::MAX) * 0.4\<close>, in nanoseconds.\<close>

definition backoff_secs :: "nat \<Rightarrow> nat" where
  "backoff_secs attempt =
     min (BASE_RETRY_DELAY_SECS * 2 ^ min (attempt - 1) 6) MAX_RETRY_DELAY_SECS"

definition retry_delay :: "nat \<Rightarrow> nat \<Rightarrow> nat" where
  "retry_delay attempt subsec_nanos =
     secs (backoff_secs attempt) * (8 * (2 ^ 32 - 1) + 4 * subsec_nanos) div (10 * (2 ^ 32 - 1))"

definition requeue_front :: "FlushBatch \<Rightarrow> EventQueue \<Rightarrow> EventQueue" where
  "requeue_front batch q =
     (let ch = fb_channel_id batch in
      q\<lparr>queues := hm_insert ch
          (enforce_cap (push_front_all (map (to_queued_event ch) (fb_events batch))
             (hm_get_or [] (queues q) ch))) (queues q)\<rparr>)"

definition requeue :: "FlushBatch \<Rightarrow> nat \<Rightarrow> nat \<Rightarrow> EventQueue \<Rightarrow> EventQueue \<times> FlushBatch option" where
  "requeue batch subsec_nanos now q =
     (let ch = fb_channel_id batch;
          attempt = hm_get_or 0 (retry_counts q) ch + 1;
          q1 = q\<lparr>retry_counts := hm_insert ch attempt (retry_counts q)\<rparr>
      in if attempt > MAX_RETRIES then
           (q1\<lparr>retry_counts := hm_remove ch (retry_counts q1),
               retry_after := hm_remove ch (retry_after q1)\<rparr>, Some batch)
         else
           (let q2 = requeue_front batch q1
            in (q2\<lparr>retry_after := hm_insert ch (now + retry_delay attempt subsec_nanos)
                     (retry_after q2)\<rparr>, None)))"

definition requeue_preserve_timestamps :: "FlushBatch \<Rightarrow> EventQueue \<Rightarrow> EventQueue" where
  "requeue_preserve_timestamps batch q = requeue_front batch q"

definition requeue_as_cancelled :: "FlushBatch \<Rightarrow> CancelReason \<Rightarrow> EventQueue \<Rightarrow> EventQueue" where
  "requeue_as_cancelled batch why q =
     (let ch = fb_channel_id batch;
          entry = hm_get_or [] (cancelled_batches q) ch
      in q\<lparr>cancelled_batches := hm_insert ch
             ((entry @ fb_cancelled_events batch) @ fb_events batch) (cancelled_batches q),
           cancel_reasons := hm_insert ch why (cancel_reasons q)\<rparr>)"

section \<open>Queries\<close>

definition has_flushable_work :: "nat \<Rightarrow> EventQueue \<Rightarrow> EventQueue \<times> bool" where
  "has_flushable_work now q0 =
     (let q = expire_in_flight now q0
      in (q, list_ex (flushable_queue now q) (queues q) \<or>
             list_ex (\<lambda>ch. ch \<notin> in_flight_channels q) (hm_keys (cancelled_batches q))))"

definition has_undispatched_work :: "EventQueue \<Rightarrow> bool" where
  "has_undispatched_work q \<longleftrightarrow>
     list_ex (\<lambda>p. snd p \<noteq> [] \<and> fst p \<notin> in_flight_channels q) (queues q) \<or>
     list_ex (\<lambda>ch. ch \<notin> in_flight_channels q) (hm_keys (cancelled_batches q)) \<or>
     list_ex (\<lambda>p. snd p \<noteq> [] \<and> fst p \<notin> in_flight_channels q) (withheld_native_steer q)"

definition pending_channels :: "EventQueue \<Rightarrow> nat" where
  "pending_channels q = length (queues q)"

definition is_channel_in_flight :: "EventQueue \<Rightarrow> uuid \<Rightarrow> bool" where
  "is_channel_in_flight q ch \<longleftrightarrow> ch \<in> in_flight_channels q"

definition has_in_flight :: "EventQueue \<Rightarrow> bool" where
  "has_in_flight q \<longleftrightarrow> in_flight_channels q \<noteq> {}"

section \<open>Draining and the native-steer side table\<close>

definition drain_channel :: "uuid \<Rightarrow> EventQueue \<Rightarrow> EventQueue \<times> event_id list" where
  "drain_channel ch q =
     (q\<lparr>queues := hm_remove ch (queues q),
        retry_after := hm_remove ch (retry_after q),
        retry_counts := hm_remove ch (retry_counts q),
        cancelled_batches := hm_remove ch (cancelled_batches q),
        cancel_reasons := hm_remove ch (cancel_reasons q),
        withheld_native_steer := hm_remove ch (withheld_native_steer q)\<rparr>,
      map (\<lambda>e. ev_id (qe_event e)) (hm_get_or [] (queues q) ch))"

definition has_event_id :: "event_id \<Rightarrow> QueuedEvent \<Rightarrow> bool" where
  "has_event_id i qe \<longleftrightarrow> ev_id (qe_event qe) = i"

text \<open>Store a list under a key, or drop the key when the list is empty.\<close>

definition put_or_remove :: "'k \<Rightarrow> 'a list \<Rightarrow> ('k, 'a list) hmap \<Rightarrow> ('k, 'a list) hmap" where
  "put_or_remove k xs m = (if xs = [] then hm_remove k m else hm_insert k xs m)"

definition mark_native_steer_pending :: "uuid \<Rightarrow> event_id \<Rightarrow> EventQueue \<Rightarrow> EventQueue \<times> bool" where
  "mark_native_steer_pending ch eid q =
     (case hm_get (queues q) ch of
        None \<Rightarrow> (q, False)
      | Some queue \<Rightarrow>
          (case position_of (has_event_id eid) queue of
             None \<Rightarrow> (q, False)
           | Some pos \<Rightarrow>
               (q\<lparr>queues := put_or_remove ch (remove_at pos queue) (queues q),
                  withheld_native_steer := hm_insert ch
                    (hm_get_or [] (withheld_native_steer q) ch @ [queue ! pos])
                    (withheld_native_steer q)\<rparr>, True)))"

definition release_native_steer :: "uuid \<Rightarrow> event_id \<Rightarrow> EventQueue \<Rightarrow> EventQueue" where
  "release_native_steer ch eid q =
     (case hm_get (withheld_native_steer q) ch of
        None \<Rightarrow> q
      | Some entries \<Rightarrow>
          (case position_of (has_event_id eid) entries of
             None \<Rightarrow> q
           | Some pos \<Rightarrow>
               q\<lparr>withheld_native_steer :=
                   put_or_remove ch (remove_at pos entries) (withheld_native_steer q),
                 queues := hm_insert ch
                   (enforce_cap (entries ! pos # hm_get_or [] (queues q) ch)) (queues q)\<rparr>))"

definition retain_other_events ::
  "uuid \<Rightarrow> event_id \<Rightarrow> (uuid, QueuedEvent list) hmap \<Rightarrow> (uuid, QueuedEvent list) hmap" where
  "retain_other_events ch eid m =
     (case hm_get m ch of
        None \<Rightarrow> m
      | Some xs \<Rightarrow> put_or_remove ch (filter (\<lambda>qe. \<not> has_event_id eid qe) xs) m)"

definition remove_event :: "uuid \<Rightarrow> event_id \<Rightarrow> EventQueue \<Rightarrow> EventQueue" where
  "remove_event ch eid q =
     q\<lparr>withheld_native_steer := retain_other_events ch eid (withheld_native_steer q),
       queues := retain_other_events ch eid (queues q)\<rparr>"

definition compact_expired_state :: "nat \<Rightarrow> EventQueue \<Rightarrow> EventQueue" where
  "compact_expired_state now q0 =
     (let q = q0\<lparr>retry_after := hm_retain (\<lambda>_ deadline. deadline > now) (retry_after q0)\<rparr>
      in q\<lparr>retry_counts := hm_retain (\<lambda>ch _.
            hm_has (retry_after q) ch \<or>
            (case hm_get (queues q) ch of None \<Rightarrow> False | Some xs \<Rightarrow> xs \<noteq> []) \<or>
            ch \<in> in_flight_channels q) (retry_counts q)\<rparr>)"

section \<open>Thread tags of a prompt\<close>

record ThreadTags =
  root_event_id :: "event_id option"
  parent_event_id :: "event_id option"
  mentioned_pubkeys :: "pubkey list"

definition parse_thread_tags :: "event \<Rightarrow> ThreadTags" where
  "parse_thread_tags e =
     (let resolved = resolve_markers (parse_thread_markers (ev_tags e))
      in \<lparr>root_event_id = map_option fst resolved,
          parent_event_id = map_option snd resolved,
          mentioned_pubkeys = List.map_filter
            (\<lambda>t. let parts = tag_slice t in
                 if length parts \<ge> 2 \<and> parts ! 0 = ''p'' then Some (parts ! 1) else None)
            (ev_tags e)\<rparr>)"

end
