(* ===== verification/Event_Queue_Inv.thy ===== *)
theory Event_Queue_Inv
  imports Event_Queue
begin

text \<open>
  The invariant of the event queue and its preservation by every operation: the per-channel
  cap, events filed under their own channel, the three in-flight tables in step, the bounds of
  the retry counters, the cancel tables in step, and no empty entry in the steer side table.
  \<open>queue_step\<close> is any call of any method with any argument, or a change of the iteration order
  of a hash map; \<open>queue\<close> interprets \<open>invariant_system\<close> on it.
\<close>

section \<open>Loop idioms\<close>

lemma enforce_cap_take: "enforce_cap xs = take MAX_PENDING_PER_CHANNEL xs"
proof (induction xs rule: enforce_cap.induct)
  case (1 xs)
  show ?case
  proof (cases "length xs > MAX_PENDING_PER_CHANNEL")
    case True
    with 1 have "enforce_cap xs = take MAX_PENDING_PER_CHANNEL (butlast xs)"
      by (simp add: enforce_cap.simps [of xs])
    with True show ?thesis
      by (simp add: butlast_conv_take)
  next
    case False
    then show ?thesis by (simp add: enforce_cap.simps [of xs])
  qed
qed

lemma push_front_all_append: "push_front_all xs ys = xs @ ys"
  by (simp add: push_front_all_def fold_Cons_rev)

lemmas queue_loops = enforce_cap_take push_front_all_append

section \<open>The invariant\<close>

definition channel_keyed :: "(uuid, QueuedEvent list) hmap \<Rightarrow> bool" where
  "channel_keyed m \<longleftrightarrow> (\<forall>ch. \<forall>e \<in> set (hm_get_or [] m ch). qe_channel_id e = ch)"

definition within_cap :: "(uuid, 'a list) hmap \<Rightarrow> bool" where
  "within_cap m \<longleftrightarrow> (\<forall>ch. length (hm_get_or [] m ch) \<le> MAX_PENDING_PER_CHANNEL)"

definition flight_ok :: "uuid set \<Rightarrow> (uuid, nat) hmap \<Rightarrow> (uuid, nat) hmap \<Rightarrow> bool" where
  "flight_ok channels deadlines sizes \<longleftrightarrow>
     hm_wf deadlines \<and> hm_wf sizes \<and>
     (\<forall>ch. ch \<in> channels \<longleftrightarrow> hm_has deadlines ch) \<and> (\<forall>ch. hm_has sizes ch \<longleftrightarrow> hm_has deadlines ch)"

definition retry_ok :: "(uuid, nat) hmap \<Rightarrow> (uuid, nat) hmap \<Rightarrow> bool" where
  "retry_ok after counts \<longleftrightarrow> hm_wf after \<and> hm_wf counts \<and>
     (\<forall>ch n. hm_get counts ch = Some n \<longrightarrow> 1 \<le> n \<and> n \<le> MAX_RETRIES)"

definition cancel_ok :: "(uuid, BatchEvent list) hmap \<Rightarrow> (uuid, CancelReason) hmap \<Rightarrow> bool" where
  "cancel_ok batches reasons \<longleftrightarrow> hm_wf batches \<and> hm_wf reasons \<and>
     (\<forall>ch. hm_has reasons ch \<longleftrightarrow> hm_has batches ch)"

definition withheld_ok :: "(uuid, QueuedEvent list) hmap \<Rightarrow> bool" where
  "withheld_ok m \<longleftrightarrow> hm_wf m \<and> channel_keyed m \<and> (\<forall>ch. hm_get m ch \<noteq> Some [])"

definition queues_ok :: "(uuid, QueuedEvent list) hmap \<Rightarrow> bool" where
  "queues_ok m \<longleftrightarrow> hm_wf m \<and> channel_keyed m \<and> within_cap m"

definition queue_inv :: "EventQueue \<Rightarrow> bool" where
  "queue_inv q \<longleftrightarrow>
     queues_ok (queues q) \<and>
     flight_ok (in_flight_channels q) (in_flight_deadlines q) (in_flight_batch_sizes q) \<and>
     retry_ok (retry_after q) (retry_counts q) \<and>
     cancel_ok (cancelled_batches q) (cancel_reasons q) \<and>
     withheld_ok (withheld_native_steer q)"

lemma wf_put_or_remove [simp]: "hm_wf m \<Longrightarrow> hm_wf (put_or_remove ch xs m)"
  by (simp add: put_or_remove_def)

lemma get_put_or_remove [simp]:
  "hm_get (put_or_remove ch xs m) k =
     (if k = ch then (if xs = [] then None else Some xs) else hm_get m k)"
  by (simp add: put_or_remove_def)

lemma get_or_put_or_remove [simp]:
  "hm_get_or [] (put_or_remove ch xs m) k = (if k = ch then xs else hm_get_or [] m k)"
  by (simp add: put_or_remove_def)

lemma wf_retain_other [simp]: "hm_wf m \<Longrightarrow> hm_wf (retain_other_events ch eid m)"
  by (simp add: retain_other_events_def split: option.splits)

lemma get_or_retain_other [simp]:
  "hm_get_or [] (retain_other_events ch eid m) k =
     filter (\<lambda>qe. k = ch \<longrightarrow> \<not> has_event_id eid qe) (hm_get_or [] m k)"
  by (auto simp: retain_other_events_def hm_get_or_None hm_get_or_Some split: option.splits)

lemma get_retain_other_not_Nil:
  "hm_get m k \<noteq> Some [] \<Longrightarrow> hm_get (retain_other_events ch eid m) k \<noteq> Some []"
  by (auto simp: retain_other_events_def split: option.splits if_splits)

lemma keyed_insert:
  "channel_keyed m \<Longrightarrow> \<forall>e \<in> set xs. qe_channel_id e = ch \<Longrightarrow> channel_keyed (hm_insert ch xs m)"
  by (simp add: channel_keyed_def)

lemma keyed_put_or_remove:
  "channel_keyed m \<Longrightarrow> \<forall>e \<in> set xs. qe_channel_id e = ch \<Longrightarrow> channel_keyed (put_or_remove ch xs m)"
  by (simp add: channel_keyed_def)

lemma keyed_remove: "channel_keyed m \<Longrightarrow> channel_keyed (hm_remove ch m)"
  by (simp add: channel_keyed_def)

lemma keyed_retain: "channel_keyed m \<Longrightarrow> channel_keyed (retain_other_events ch eid m)"
  by (simp add: channel_keyed_def)

lemma keyedD: "channel_keyed m \<Longrightarrow> e \<in> set (hm_get_or [] m ch) \<Longrightarrow> qe_channel_id e = ch"
  by (simp add: channel_keyed_def)

lemma cap_insert:
  "within_cap m \<Longrightarrow> length xs \<le> MAX_PENDING_PER_CHANNEL \<Longrightarrow> within_cap (hm_insert ch xs m)"
  by (simp add: within_cap_def)

lemma cap_put_or_remove:
  "within_cap m \<Longrightarrow> length xs \<le> MAX_PENDING_PER_CHANNEL \<Longrightarrow> within_cap (put_or_remove ch xs m)"
  by (simp add: within_cap_def)

lemma cap_remove: "within_cap m \<Longrightarrow> within_cap (hm_remove ch m)"
  by (simp add: within_cap_def)

lemma cap_retain: "within_cap m \<Longrightarrow> within_cap (retain_other_events ch eid m)"
  unfolding within_cap_def get_or_retain_other by (metis le_trans length_filter_le)

lemma capD: "within_cap m \<Longrightarrow> length (hm_get_or [] m ch) \<le> MAX_PENDING_PER_CHANNEL"
  by (simp add: within_cap_def)

lemma queues_ok_rules:
  assumes "queues_ok m"
  shows "\<forall>e \<in> set xs. qe_channel_id e = ch \<Longrightarrow> length xs \<le> MAX_PENDING_PER_CHANNEL \<Longrightarrow>
           queues_ok (hm_insert ch xs m)"
    and "\<forall>e \<in> set xs. qe_channel_id e = ch \<Longrightarrow> length xs \<le> MAX_PENDING_PER_CHANNEL \<Longrightarrow>
           queues_ok (put_or_remove ch xs m)"
    and "queues_ok (hm_remove ch m)"
    and "queues_ok (retain_other_events ch eid m)"
  using assms
  by (simp_all add: queues_ok_def keyed_insert keyed_put_or_remove keyed_remove keyed_retain
      cap_insert cap_put_or_remove cap_remove cap_retain)

lemma queues_okD:
  assumes "queues_ok m"
  shows "e \<in> set (hm_get_or [] m ch) \<Longrightarrow> qe_channel_id e = ch"
    and "length (hm_get_or [] m ch) \<le> MAX_PENDING_PER_CHANNEL"
  using assms keyedD capD by (auto simp: queues_ok_def)

lemma withheld_ok_rules:
  assumes "withheld_ok m"
  shows "\<forall>e \<in> set xs. qe_channel_id e = ch \<Longrightarrow> xs \<noteq> [] \<Longrightarrow> withheld_ok (hm_insert ch xs m)"
    and "\<forall>e \<in> set xs. qe_channel_id e = ch \<Longrightarrow> withheld_ok (put_or_remove ch xs m)"
    and "withheld_ok (hm_remove ch m)"
    and "withheld_ok (retain_other_events ch eid m)"
  using assms
  by (simp_all add: withheld_ok_def keyed_insert keyed_put_or_remove keyed_remove keyed_retain
      get_retain_other_not_Nil)

lemma withheld_okD:
  assumes "withheld_ok m"
  shows "hm_get m ch = Some xs \<Longrightarrow> e \<in> set xs \<Longrightarrow> qe_channel_id e = ch"
    and "e \<in> set (hm_get_or [] m ch) \<Longrightarrow> qe_channel_id e = ch"
  using assms keyedD [of m e ch] by (auto simp: withheld_ok_def hm_get_or_Some)

lemma flight_ok_rules:
  assumes "flight_ok F D S"
  shows "flight_ok (F - {ch}) (hm_remove ch D) (hm_remove ch S)"
    and "flight_ok (insert ch F) (hm_insert ch d D) (hm_insert ch n S)"
    and "hm_has D ch \<Longrightarrow> flight_ok F (hm_insert ch d D) S"
  using assms by (auto simp: flight_ok_def)

lemma retry_ok_rules:
  assumes "retry_ok A C"
  shows "retry_ok (hm_insert ch t A) C" and "retry_ok (hm_remove ch A) C"
    and "retry_ok A (hm_remove ch C)"
    and "1 \<le> n \<Longrightarrow> n \<le> MAX_RETRIES \<Longrightarrow> retry_ok A (hm_insert ch n C)"
    and "retry_ok (hm_retain P A) C" and "retry_ok A (hm_retain P' C)"
  using assms by (auto simp: retry_ok_def split: if_splits option.splits)

lemma cancel_ok_rules:
  assumes "cancel_ok B R"
  shows "cancel_ok (hm_remove ch B) (hm_remove ch R)"
    and "cancel_ok (hm_insert ch xs B) (hm_insert ch why R)"
  using assms by (simp_all add: cancel_ok_def)

lemmas table_rules =
  queues_ok_rules flight_ok_rules retry_ok_rules cancel_ok_rules withheld_ok_rules

section \<open>Every operation keeps it\<close>

lemma inv_new: "queue_inv (new_queue mode)"
  by (simp add: queue_inv_def new_queue_def queues_ok_def flight_ok_def retry_ok_def cancel_ok_def
      withheld_ok_def channel_keyed_def within_cap_def)

lemma inv_with_deadline: "queue_inv q \<Longrightarrow> queue_inv (with_in_flight_deadline n q)"
  by (simp add: queue_inv_def with_in_flight_deadline_def)

lemma inv_extend: "queue_inv q \<Longrightarrow> queue_inv (extend_in_flight_deadline ch n now q)"
  by (simp add: queue_inv_def extend_in_flight_deadline_def Let_def flight_ok_rules hm_has_def
      split: option.splits)

lemma set_tl_subset: "set (tl xs) \<subseteq> set xs"
  by (cases xs) auto

lemma inv_push:
  assumes "queue_inv q"
  shows "queue_inv (fst (push_event ev q))"
proof -
  let ?ch = "qe_channel_id ev"
  let ?old = "hm_get_or [] (queues q) ?ch"
  define kept where "kept = (if length ?old \<ge> MAX_PENDING_PER_CHANNEL then tl ?old else ?old)"
  have ok: "queues_ok (queues q)" using assms by (simp add: queue_inv_def)
  have "set kept \<subseteq> set ?old" using set_tl_subset [of ?old] by (simp add: kept_def)
  then have "\<forall>e \<in> set (kept @ [ev]). qe_channel_id e = ?ch"
    using queues_okD(1) [OF ok] by auto
  moreover have "length (kept @ [ev]) \<le> MAX_PENDING_PER_CHANNEL"
    using queues_okD(2) [OF ok, of ?ch] by (auto simp: kept_def MAX_PENDING_PER_CHANNEL_def)
  ultimately have "queues_ok (hm_insert ?ch (kept @ [ev]) (queues q))"
    by (rule queues_ok_rules(1) [OF ok])
  with assms show ?thesis
    by (simp add: push_event_def Let_def queue_inv_def kept_def)
qed

lemma capped_front:
  assumes "queues_ok m" and "\<forall>e \<in> set xs. qe_channel_id e = ch"
  shows "queues_ok (hm_insert ch (enforce_cap (push_front_all xs (hm_get_or [] m ch))) m)"
  by (rule queues_ok_rules(1) [OF assms(1)])
    (use assms queues_okD(1) in \<open>auto simp: queue_loops dest!: in_set_takeD\<close>)

lemma inv_recover: "queue_inv q \<Longrightarrow> queue_inv (recover_withheld_for_expired_channel ch q)"
  by (auto simp: recover_withheld_for_expired_channel_def queue_inv_def table_rules
      intro!: capped_front dest: withheld_okD(1) split: option.splits)

lemma inv_expire_channel: "queue_inv q \<Longrightarrow> queue_inv (expire_channel ch q)"
  unfolding expire_channel_def by (rule inv_recover) (simp add: queue_inv_def table_rules)

lemma inv_fold_expire: "queue_inv q \<Longrightarrow> queue_inv (fold expire_channel chs q)"
  by (induction chs arbitrary: q) (auto intro: inv_expire_channel)

lemma inv_expire: "queue_inv q \<Longrightarrow> queue_inv (expire_in_flight now q)"
  unfolding expire_in_flight_def by (rule inv_fold_expire)

lemma inv_flush_channel:
  assumes "queue_inv q"
  shows "queue_inv (fst (flush_channel ch now q))"
proof -
  let ?queue = "hm_get_or [] (queues q) ch"
  let ?n = "min MAX_BATCH_EVENTS (length ?queue)"
  have ok: "queues_ok (queues q)" using assms by (simp add: queue_inv_def)
  have "\<forall>e \<in> set (drop ?n ?queue). qe_channel_id e = ch"
    using queues_okD(1) [OF ok] by (auto dest: in_set_dropD)
  moreover have "length (drop ?n ?queue) \<le> MAX_PENDING_PER_CHANNEL"
    using queues_okD(2) [OF ok, of ch] by simp
  ultimately have "queues_ok (put_or_remove ch (drop ?n ?queue) (queues q))"
    by (rule queues_ok_rules(2) [OF ok])
  with assms show ?thesis
    by (simp add: flush_channel_def start_in_flight_def take_cancelled_def Let_def queue_inv_def
        table_rules put_or_remove_def)
qed

lemma inv_flush_next: "queue_inv q \<Longrightarrow> queue_inv (fst (flush_next now q))"
  using inv_expire [of q now] inv_flush_channel
  by (auto simp: flush_next_def Let_def flush_cancelled_only_def start_in_flight_def
      take_cancelled_def queue_inv_def table_rules split: option.splits prod.splits)

lemma inv_has_flushable: "queue_inv q \<Longrightarrow> queue_inv (fst (has_flushable_work now q))"
  by (simp add: has_flushable_work_def Let_def inv_expire)

lemma inv_mark_complete: "queue_inv q \<Longrightarrow> queue_inv (mark_complete ch now q)"
  by (simp add: mark_complete_def Let_def queue_inv_def table_rules split: option.splits)

lemma inv_requeue_front: "queue_inv q \<Longrightarrow> queue_inv (requeue_front b q)"
  unfolding requeue_front_def Let_def queue_inv_def
  by (simp, intro capped_front) (auto simp: to_queued_event_def)

lemma inv_requeue:
  assumes "queue_inv q"
  shows "queue_inv (fst (requeue b nanos now q))"
proof -
  let ?ch = "fb_channel_id b"
  let ?attempt = "hm_get_or 0 (retry_counts q) ?ch + 1"
  have "queue_inv (q\<lparr>retry_counts := hm_insert ?ch ?attempt (retry_counts q)\<rparr>)"
    if "?attempt \<le> MAX_RETRIES"
    using assms that by (simp add: queue_inv_def retry_ok_rules)
  then have "queue_inv (requeue_front b (q\<lparr>retry_counts := hm_insert ?ch ?attempt (retry_counts q)\<rparr>))"
    if "?attempt \<le> MAX_RETRIES" using that inv_requeue_front by blast
  moreover have "retry_ok (hm_remove ?ch (retry_after q))
      (hm_remove ?ch (hm_insert ?ch ?attempt (retry_counts q)))"
    using assms by (auto simp: queue_inv_def retry_ok_def split: if_splits)
  ultimately show ?thesis
    using assms by (auto simp: requeue_def Let_def queue_inv_def retry_ok_rules)
qed

lemma inv_requeue_preserve: "queue_inv q \<Longrightarrow> queue_inv (requeue_preserve_timestamps b q)"
  by (simp add: requeue_preserve_timestamps_def inv_requeue_front)

lemma inv_requeue_cancelled: "queue_inv q \<Longrightarrow> queue_inv (requeue_as_cancelled b why q)"
  by (simp add: requeue_as_cancelled_def Let_def queue_inv_def table_rules)

lemma inv_drain: "queue_inv q \<Longrightarrow> queue_inv (fst (drain_channel ch q))"
  by (simp add: drain_channel_def queue_inv_def table_rules)

lemma inv_steer_pending:
  assumes "queue_inv q"
  shows "queue_inv (fst (mark_native_steer_pending ch eid q))"
proof (cases "\<exists>queue pos. hm_get (queues q) ch = Some queue \<and> position_of (has_event_id eid) queue = Some pos")
  case False
  with assms show ?thesis by (auto simp: mark_native_steer_pending_def split: option.splits)
next
  case True
  then obtain queue pos where queue: "hm_get (queues q) ch = Some queue"
    and pos: "position_of (has_event_id eid) queue = Some pos" by blast
  have ok: "queues_ok (queues q)" and wok: "withheld_ok (withheld_native_steer q)"
    using assms by (auto simp: queue_inv_def)
  have mem: "qe_channel_id e = ch" if "e \<in> set queue" for e
    using queues_okD(1) [OF ok, of e ch] that queue by (simp add: hm_get_or_Some)
  have "pos < length queue" using position_of_Some [OF pos] by simp
  then have "queues_ok (put_or_remove ch (remove_at pos queue) (queues q))"
    using queues_okD(2) [OF ok, of ch] queue mem set_remove_at [of pos queue]
    by (intro queues_ok_rules(2) [OF ok]) (auto simp: hm_get_or_Some)
  moreover have "withheld_ok (hm_insert ch (hm_get_or [] (withheld_native_steer q) ch @ [queue ! pos])
      (withheld_native_steer q))"
    using withheld_okD(2) [OF wok] mem \<open>pos < length queue\<close>
    by (intro withheld_ok_rules(1) [OF wok]) auto
  ultimately show ?thesis
    using assms queue pos by (simp add: mark_native_steer_pending_def queue_inv_def)
qed

lemma inv_release:
  assumes "queue_inv q"
  shows "queue_inv (release_native_steer ch eid q)"
proof (cases "\<exists>es pos. hm_get (withheld_native_steer q) ch = Some es \<and>
                       position_of (has_event_id eid) es = Some pos")
  case False
  with assms show ?thesis by (auto simp: release_native_steer_def split: option.splits)
next
  case True
  then obtain es pos where es: "hm_get (withheld_native_steer q) ch = Some es"
    and pos: "position_of (has_event_id eid) es = Some pos" by blast
  have ok: "queues_ok (queues q)" and wok: "withheld_ok (withheld_native_steer q)"
    using assms by (auto simp: queue_inv_def)
  have "pos < length es" using position_of_Some [OF pos] by simp
  then have "qe_channel_id (es ! pos) = ch" and "\<forall>e \<in> set (remove_at pos es). qe_channel_id e = ch"
    using withheld_okD(1) [OF wok es] set_remove_at [of pos es] by auto
  then show ?thesis
    using assms es pos capped_front [OF ok, of "[es ! pos]" ch] withheld_ok_rules(2) [OF wok]
    by (simp add: release_native_steer_def queue_inv_def push_front_all_append)
qed

lemma inv_remove_event: "queue_inv q \<Longrightarrow> queue_inv (remove_event ch eid q)"
  by (simp add: remove_event_def queue_inv_def table_rules)

lemma inv_compact: "queue_inv q \<Longrightarrow> queue_inv (compact_expired_state now q)"
  by (simp add: compact_expired_state_def Let_def queue_inv_def table_rules)

section \<open>Reachable states\<close>

inductive queue_step :: "EventQueue \<Rightarrow> EventQueue \<Rightarrow> bool" where
  extend: "queue_step q (extend_in_flight_deadline ch n now q)"
| push: "queue_step q (fst (push_event ev q))"
| flush: "queue_step q (fst (flush_next now q))"
| complete: "queue_step q (mark_complete ch now q)"
| retry: "queue_step q (fst (requeue b nanos now q))"
| preserve: "queue_step q (requeue_preserve_timestamps b q)"
| cancelled: "queue_step q (requeue_as_cancelled b why q)"
| flushable: "queue_step q (fst (has_flushable_work now q))"
| drain: "queue_step q (fst (drain_channel ch q))"
| withhold: "queue_step q (fst (mark_native_steer_pending ch eid q))"
| release: "queue_step q (release_native_steer ch eid q)"
| remove: "queue_step q (remove_event ch eid q)"
| compact: "queue_step q (compact_expired_state now q)"
| rehash: "hm_rehash (queues q) qs \<Longrightarrow> hm_rehash (in_flight_deadlines q) ds \<Longrightarrow>
    hm_rehash (cancelled_batches q) cs \<Longrightarrow>
    queue_step q (q\<lparr>queues := qs, in_flight_deadlines := ds, cancelled_batches := cs\<rparr>)"

lemma hm_rehash_views:
  assumes "hm_rehash m m'" and "hm_wf m"
  shows "hm_has m' k \<longleftrightarrow> hm_has m k" and "hm_get_or d m' k = hm_get_or d m k" and "hm_wf m'"
  using hm_rehash_get [OF assms] hm_rehash_wf [OF assms] by (auto simp: hm_has_def hm_get_or_def)

lemma inv_rehash:
  assumes "queue_inv q" and "hm_rehash (queues q) qs" and "hm_rehash (in_flight_deadlines q) ds"
    and "hm_rehash (cancelled_batches q) cs"
  shows "queue_inv (q\<lparr>queues := qs, in_flight_deadlines := ds, cancelled_batches := cs\<rparr>)"
proof -
  have "hm_wf (queues q)" "hm_wf (in_flight_deadlines q)" "hm_wf (cancelled_batches q)"
    using assms(1) by (auto simp: queue_inv_def queues_ok_def flight_ok_def cancel_ok_def)
  with assms show ?thesis
    by (simp add: queue_inv_def queues_ok_def flight_ok_def cancel_ok_def channel_keyed_def
        within_cap_def hm_rehash_views)
qed

definition queue_start :: "EventQueue \<Rightarrow> bool" where
  "queue_start q \<longleftrightarrow>
     (\<exists>mode n. q = new_queue mode \<or> q = with_in_flight_deadline n (new_queue mode))"

interpretation queue: invariant_system queue_start queue_step queue_inv
proof unfold_locales
  fix q assume "queue_start q"
  then show "queue_inv q" by (auto simp: queue_start_def intro: inv_new inv_with_deadline)
next
  fix q q' assume "queue_step q q'" and "queue_inv q"
  then show "queue_inv q'"
    by (cases rule: queue_step.cases)
      (auto intro: inv_extend inv_push inv_flush_next inv_mark_complete inv_requeue
        inv_requeue_preserve inv_requeue_cancelled inv_has_flushable inv_drain inv_steer_pending
        inv_release inv_remove_event inv_compact inv_rehash)
qed

end
