(* ===== verification/Event_Queue_Props.thy ===== *)
theory Event_Queue_Props
  imports Event_Queue_Inv
begin

text \<open>
  The properties of the event queue: mutual exclusion per channel, fairness, batch contents,
  agreement of the two flush predicates, retry and dead-letter behaviour, the jittered delay,
  the steer side table, and what a re-queued merged batch loses.
\<close>

section \<open>What the expiry block does\<close>

abbreviation queue_of :: "EventQueue \<Rightarrow> uuid \<Rightarrow> QueuedEvent list" where
  "queue_of q ch \<equiv> hm_get_or [] (queues q) ch"

abbreviation withheld_of :: "EventQueue \<Rightarrow> uuid \<Rightarrow> QueuedEvent list" where
  "withheld_of q ch \<equiv> hm_get_or [] (withheld_native_steer q) ch"

lemma expire_channel_views [simp]:
  "in_flight_channels (expire_channel c q) = in_flight_channels q - {c}"
  "in_flight_deadlines (expire_channel c q) = hm_remove c (in_flight_deadlines q)"
  "retry_after (expire_channel c q) = retry_after q"
  "retry_counts (expire_channel c q) = retry_counts q"
  "cancelled_batches (expire_channel c q) = cancelled_batches q"
  "cancel_reasons (expire_channel c q) = cancel_reasons q"
  "in_flight_deadline (expire_channel c q) = in_flight_deadline q"
  "dedup_mode (expire_channel c q) = dedup_mode q"
  "withheld_native_steer (expire_channel c q) = hm_remove c (withheld_native_steer q)"
  by (auto simp: expire_channel_def recover_withheld_for_expired_channel_def hm_remove_absent
      split: option.splits)

lemma expire_channel_queue:
  "within_cap (queues q) \<Longrightarrow> queue_of (expire_channel c q) ch =
     (if ch = c then take MAX_PENDING_PER_CHANNEL (withheld_of q c @ queue_of q c) else queue_of q ch)"
  by (auto simp: expire_channel_def recover_withheld_for_expired_channel_def queue_loops
      hm_get_or_None hm_get_or_Some within_cap_def split: option.splits)

lemma fold_expire_views [simp]:
  "in_flight_channels (fold expire_channel cs q) = in_flight_channels q - set cs"
  "hm_get (in_flight_deadlines (fold expire_channel cs q)) ch =
     (if ch \<in> set cs then None else hm_get (in_flight_deadlines q) ch)"
  "retry_after (fold expire_channel cs q) = retry_after q"
  "retry_counts (fold expire_channel cs q) = retry_counts q"
  "cancelled_batches (fold expire_channel cs q) = cancelled_batches q"
  "cancel_reasons (fold expire_channel cs q) = cancel_reasons q"
  "in_flight_deadline (fold expire_channel cs q) = in_flight_deadline q"
  "dedup_mode (fold expire_channel cs q) = dedup_mode q"
  by (induction cs arbitrary: q) auto

lemma diff_min: "(n::nat) - min m n = n - m"
  by (simp add: min_def)

lemma fold_expire_queue:
  "queue_inv q \<Longrightarrow> queue_of (fold expire_channel cs q) ch =
     (if ch \<in> set cs then take MAX_PENDING_PER_CHANNEL (withheld_of q ch @ queue_of q ch)
      else queue_of q ch)"
proof (induction cs arbitrary: q)
  case (Cons c cs)
  have "within_cap (queues q)" using Cons.prems by (simp add: queue_inv_def queues_ok_def)
  with Cons.IH [OF inv_expire_channel [OF Cons.prems]] show ?case
    by (auto simp: expire_channel_queue diff_min)
qed simp

lemma expired_channels_iff:
  "queue_inv q \<Longrightarrow> ch \<in> set (expired_channels now q) \<longleftrightarrow>
     (\<exists>d. hm_get (in_flight_deadlines q) ch = Some d \<and> d \<le> now)"
  unfolding expired_channels_def queue_inv_def flight_ok_def
  by (auto simp: image_iff simp flip: hm_entries_get)

lemma expire_in_flight_channels:
  "queue_inv q \<Longrightarrow> ch \<in> in_flight_channels (expire_in_flight now q) \<longleftrightarrow>
     (\<exists>d. hm_get (in_flight_deadlines q) ch = Some d \<and> now < d)"
  by (auto simp: expire_in_flight_def expired_channels_iff queue_inv_def flight_ok_def hm_has_def
      not_le)

section \<open>The two ways a batch is flushed\<close>

lemma flush_next_cases:
  assumes "flush_next now q0 = (q', Some b)" and "queue_inv q0"
  defines "q \<equiv> expire_in_flight now q0" and "ch \<equiv> fb_channel_id b"
  obtains
    (queued) "flush_channel ch now q = (q', Some b)" "queue_of q ch \<noteq> []"
      "ch \<notin> in_flight_channels q" "not_throttled now q ch"
      "\<And>c. queue_of q c \<noteq> [] \<Longrightarrow> c \<notin> in_flight_channels q \<Longrightarrow> not_throttled now q c \<Longrightarrow>
         qe_received_at (hd (queue_of q ch)) \<le> qe_received_at (hd (queue_of q c))"
  | (cancelled) "flush_cancelled_only ch now q = (q', Some b)"
      "\<And>c. queue_of q c \<noteq> [] \<Longrightarrow> c \<notin> in_flight_channels q \<Longrightarrow> \<not> not_throttled now q c"
      "hm_has (cancelled_batches q) ch" "ch \<notin> in_flight_channels q"
proof -
  let ?head = "\<lambda>p. qe_received_at (hd (snd p))"
  let ?cands = "filter (flushable_queue now q) (queues q)"
  have wf: "hm_wf (queues q)"
    using inv_expire [OF assms(2)] by (simp add: q_def queue_inv_def queues_ok_def)
  have entry: "(c, xs) \<in> set ?cands \<longleftrightarrow> hm_get (queues q) c = Some xs \<and> xs \<noteq> [] \<and>
      c \<notin> in_flight_channels q \<and> not_throttled now q c" for c xs
    using wf by (auto simp: flushable_queue_def hm_entries_get)
  have cand: "queue_of q c \<noteq> [] \<and> c \<notin> in_flight_channels q \<and> not_throttled now q c \<longleftrightarrow>
      (c, queue_of q c) \<in> set ?cands" for c
    unfolding entry by (cases "hm_get (queues q) c") (auto simp: hm_get_or_def)
  show ?thesis
  proof (cases "min_by_key ?head ?cands")
    case None
    then have none: "?cands = []" by simp
    from assms(1) None obtain c where c: "find (\<lambda>ch. ch \<notin> in_flight_channels q)
          (hm_keys (cancelled_batches q)) = Some c"
      and fl: "flush_cancelled_only c now q = (q', Some b)"
      by (auto simp: flush_next_def Let_def q_def [symmetric] split: option.splits)
    from fl have "c = ch"
      by (auto simp: flush_cancelled_only_def Let_def ch_def)
    moreover have "hm_has (cancelled_batches q) c" and "c \<notin> in_flight_channels q"
      using c by (auto simp: find_Some_iff simp flip: hm_has_keys)
    moreover have "\<not> not_throttled now q c'"
      if "queue_of q c' \<noteq> []" "c' \<notin> in_flight_channels q" for c'
      using cand [of c'] none that by auto
    ultimately show ?thesis using fl cancelled by blast
  next
    case (Some p)
    obtain c xs where p: "p = (c, xs)" by fastforce
    from assms(1) Some p have fl: "flush_channel c now q = (q', Some b)"
      by (simp add: flush_next_def Let_def q_def [symmetric])
    then have "c = ch" by (auto simp: flush_channel_def Let_def ch_def)
    have mem: "(c, xs) \<in> set ?cands" and least: "\<forall>p' \<in> set ?cands. ?head (c, xs) \<le> ?head p'"
      using min_by_key_Some [OF Some] p by auto
    from mem have xs: "queue_of q c = xs" unfolding entry by (simp add: hm_get_or_Some)
    have "?head (c, xs) \<le> qe_received_at (hd (queue_of q c'))"
      if "queue_of q c' \<noteq> []" "c' \<notin> in_flight_channels q" "not_throttled now q c'" for c'
      using bspec [OF least, of "(c', queue_of q c')"] cand [of c'] that by simp
    then show ?thesis
      using queued fl mem xs \<open>c = ch\<close> unfolding entry by auto
  qed
qed

lemma flush_channel_views:
  assumes "flush_channel ch now q = (q', Some b)"
  shows "fb_events b = sort_key (\<lambda>be. ev_created_at (be_event be))
           (map to_batch_event (take MAX_BATCH_EVENTS (queue_of q ch)))"
    and "queue_of q' c = (if c = ch then drop MAX_BATCH_EVENTS (queue_of q ch) else queue_of q c)"
    and "fb_cancelled_events b = hm_get_or [] (cancelled_batches q) ch"
    and "in_flight_channels q' = insert ch (in_flight_channels q)"
    and "in_flight_deadlines q' = hm_insert ch (now + in_flight_deadline q) (in_flight_deadlines q)"
    and "cancelled_batches q' = hm_remove ch (cancelled_batches q)"
    and "withheld_native_steer q' = withheld_native_steer q"
proof -
  have td: "take (min n (length xs)) xs = take n xs" "drop (min n (length xs)) xs = drop n xs"
    for n and xs :: "QueuedEvent list"
    by (simp_all add: min_def)
  show "fb_events b = sort_key (\<lambda>be. ev_created_at (be_event be))
           (map to_batch_event (take MAX_BATCH_EVENTS (queue_of q ch)))"
    and "queue_of q' c = (if c = ch then drop MAX_BATCH_EVENTS (queue_of q ch) else queue_of q c)"
    and "fb_cancelled_events b = hm_get_or [] (cancelled_batches q) ch"
    and "in_flight_channels q' = insert ch (in_flight_channels q)"
    and "in_flight_deadlines q' = hm_insert ch (now + in_flight_deadline q) (in_flight_deadlines q)"
    and "cancelled_batches q' = hm_remove ch (cancelled_batches q)"
    and "withheld_native_steer q' = withheld_native_steer q"
    using assms
    by (auto simp: flush_channel_def Let_def start_in_flight_def take_cancelled_def td)
qed

lemma flush_cancelled_views:
  assumes "flush_cancelled_only ch now q = (q', Some b)"
  shows "fb_events b = hm_get_or [] (cancelled_batches q) ch" and "fb_cancelled_events b = []"
    and "queues q' = queues q"
    and "in_flight_channels q' = insert ch (in_flight_channels q)"
    and "in_flight_deadlines q' = hm_insert ch (now + in_flight_deadline q) (in_flight_deadlines q)"
    and "cancelled_batches q' = hm_remove ch (cancelled_batches q)"
  using assms
  by (auto simp: flush_cancelled_only_def Let_def start_in_flight_def take_cancelled_def)

section \<open>Sample states for the witnesses\<close>

definition sample_event :: "event_id \<Rightarrow> nat \<Rightarrow> event" where
  "sample_event i t = \<lparr>ev_id = i, ev_pubkey = ''pk'', ev_created_at = t, ev_kind = 9, ev_tags = [],
     ev_content = ''hi''\<rparr>"

definition sample_queued :: "uuid \<Rightarrow> event_id \<Rightarrow> nat \<Rightarrow> QueuedEvent" where
  "sample_queued ch i t = \<lparr>qe_channel_id = ch, qe_event = sample_event i t, qe_received_at = t,
     qe_prompt_tag = ''mention''\<rparr>"

definition sample_one :: EventQueue where
  "sample_one = fst (push_event (sample_queued 1 ''a'' 5) (new_queue Queue))"

definition sample_two :: EventQueue where
  "sample_two = fst (push_event (sample_queued 2 ''b'' 7) sample_one)"

definition sample_flying :: EventQueue where
  "sample_flying = fst (flush_next 10 sample_two)"

lemmas sample_defs =
  sample_one_def sample_two_def sample_flying_def sample_queued_def sample_event_def

lemma sample_reach:
  "reach queue_start queue_step sample_one" "reach queue_start queue_step sample_two"
  "reach queue_start queue_step sample_flying"
proof -
  have "reach queue_start queue_step (new_queue Queue)"
    by (rule reach.start) (auto simp: queue_start_def)
  then show one: "reach queue_start queue_step sample_one"
    unfolding sample_one_def by (rule reach.next_state) (rule queue_step.push)
  show two: "reach queue_start queue_step sample_two"
    unfolding sample_two_def by (rule reach.next_state [OF one]) (rule queue_step.push)
  show "reach queue_start queue_step sample_flying"
    unfolding sample_flying_def by (rule reach.next_state [OF two]) (rule queue_step.flush)
qed

lemmas queue_eval =
  push_event_def new_queue_def flush_next_def expire_in_flight_def expired_channels_def
  flush_channel_def flush_cancelled_only_def start_in_flight_def take_cancelled_def
  flushable_queue_def not_throttled_def to_batch_event_def to_queued_event_def
  mark_complete_def requeue_preserve_timestamps_def requeue_front_def requeue_as_cancelled_def
  hm_get_or_def hm_get_def hm_remove_def hm_keys_def enforce_cap_take push_front_all_def
  MAX_PENDING_PER_CHANNEL_def MAX_BATCH_EVENTS_def secs_def DEFAULT_IN_FLIGHT_DEADLINE_SECS_def

lemma sample_flush:
  "flush_next 10 sample_two = (sample_flying,
     Some \<lparr>fb_channel_id = 1,
       fb_events = [\<lparr>be_event = sample_event ''a'' 5, be_prompt_tag = ''mention'', be_received_at = 5\<rparr>],
       fb_cancelled_events = [], fb_cancel_reason = None\<rparr>)"
  by (simp add: sample_defs queue_eval)

section \<open>Properties\<close>

text \<open>
  C14. In every reachable state of the queue, whatever the order of the calls and of hash-map
  iteration: no channel holds more than 500 events, every queued event is filed under its own
  channel, a channel is in flight exactly when it has a deadline (so the backstop can always
  release it), retry counters stay within 10, and cancel reasons match cancelled batches.
\<close>

theorem queue_invariant:
  assumes "reach queue_start queue_step q"
  shows "length (queue_of q ch) \<le> 500 \<and> (\<forall>e \<in> set (queue_of q ch). qe_channel_id e = ch) \<and>
         (is_channel_in_flight q ch \<longleftrightarrow> hm_has (in_flight_deadlines q) ch) \<and>
         hm_get_or 0 (retry_counts q) ch \<le> 10 \<and>
         (hm_has (cancel_reasons q) ch \<longleftrightarrow> hm_has (cancelled_batches q) ch)"
proof -
  have "queue_inv q" using assms by (rule queue.reach_inv)
  then have ok: "queues_ok (queues q)" and "flight_ok (in_flight_channels q)
      (in_flight_deadlines q) (in_flight_batch_sizes q)"
    and retry: "retry_ok (retry_after q) (retry_counts q)"
    and "cancel_ok (cancelled_batches q) (cancel_reasons q)"
    by (auto simp: queue_inv_def)
  moreover have "hm_get_or 0 (retry_counts q) ch \<le> 10"
    using retry by (cases "hm_get (retry_counts q) ch")
      (auto simp: retry_ok_def hm_get_or_def MAX_RETRIES_def)
  ultimately show ?thesis
    using queues_okD [OF ok]
    by (auto simp: flight_ok_def cancel_ok_def is_channel_in_flight_def MAX_PENDING_PER_CHANNEL_def)
qed

theorem queue_invariant_witness:
  "is_channel_in_flight sample_flying 1 \<longleftrightarrow> hm_has (in_flight_deadlines sample_flying) 1"
  using queue_invariant [OF sample_reach(3), of 1] by simp

text \<open>
  Mutual exclusion: while a channel is in flight and its deadline has not passed, no flush
  returns a batch for it and its deadline stays; the channel a flush does return is in flight
  afterwards.
\<close>

theorem one_turn_per_channel:
  assumes "reach queue_start queue_step q" and "hm_get (in_flight_deadlines q) ch = Some d"
    and "now < d" and "flush_next now q = (q', Some b)"
  shows "fb_channel_id b \<noteq> ch \<and> hm_get (in_flight_deadlines q') ch = Some d \<and>
         is_channel_in_flight q' (fb_channel_id b)"
proof -
  have inv: "queue_inv q" using assms(1) by (rule queue.reach_inv)
  let ?e = "expire_in_flight now q"
  have fly: "ch \<in> in_flight_channels ?e"
    using assms(2,3) expire_in_flight_channels [OF inv] by blast
  have dl: "hm_get (in_flight_deadlines ?e) ch = Some d"
    using assms(2,3) expired_channels_iff [OF inv] by (simp add: expire_in_flight_def not_le)
  from assms(4) inv show ?thesis
  proof (cases rule: flush_next_cases)
    case queued
    with fly dl flush_channel_views(4,5) [OF queued(1)] show ?thesis
      by (auto simp: is_channel_in_flight_def)
  next
    case cancelled
    with fly dl flush_cancelled_views(4,5) [OF cancelled(1)] show ?thesis
      by (auto simp: is_channel_in_flight_def)
  qed
qed

theorem one_turn_per_channel_witness:
  "fb_channel_id (the (snd (flush_next 20 sample_flying))) \<noteq> 1"
proof -
  have dl: "hm_get (in_flight_deadlines sample_flying) 1 = Some 7300000000010"
    by (simp add: sample_defs queue_eval)
  obtain b where b: "flush_next 20 sample_flying = (fst (flush_next 20 sample_flying), Some b)"
    by (simp add: sample_defs queue_eval)
  from one_turn_per_channel [OF sample_reach(3) dl _ b] show ?thesis
    by (subst b) simp
qed

text \<open>
  Fairness: whenever some channel has flushable events (queued, not in flight, not
  throttled), the flushed channel is one whose oldest queued event arrived no later than the
  head event of any flushable channel.
\<close>

theorem flush_oldest_first:
  assumes "reach queue_start queue_step q" and "flush_next now q = (q', Some b)"
    and "queue_of (expire_in_flight now q) ch \<noteq> []"
    and "\<not> is_channel_in_flight (expire_in_flight now q) ch"
    and "not_throttled now (expire_in_flight now q) ch"
  shows "queue_of (expire_in_flight now q) (fb_channel_id b) \<noteq> [] \<and>
         qe_received_at (hd (queue_of (expire_in_flight now q) (fb_channel_id b)))
           \<le> qe_received_at (hd (queue_of (expire_in_flight now q) ch))"
  using assms(2) queue.reach_inv [OF assms(1)]
  by (cases rule: flush_next_cases) (use assms(3-5) in \<open>auto simp: is_channel_in_flight_def\<close>)

theorem flush_oldest_first_witness:
  "qe_received_at (hd (queue_of (expire_in_flight 10 sample_two) 1))
     \<le> qe_received_at (hd (queue_of (expire_in_flight 10 sample_two) 2))"
proof -
  have "queue_of (expire_in_flight 10 sample_two) 2 \<noteq> []"
    and "\<not> is_channel_in_flight (expire_in_flight 10 sample_two) 2"
    and "not_throttled 10 (expire_in_flight 10 sample_two) 2"
    by (simp_all add: sample_defs queue_eval is_channel_in_flight_def)
  from flush_oldest_first [OF sample_reach(2) sample_flush this] show ?thesis by simp
qed

definition channel_content :: "EventQueue \<Rightarrow> uuid \<Rightarrow> BatchEvent multiset" where
  "channel_content q ch =
     mset (map to_batch_event (queue_of q ch)) + mset (hm_get_or [] (cancelled_batches q) ch)"

definition batch_content :: "FlushBatch \<Rightarrow> uuid \<Rightarrow> BatchEvent multiset" where
  "batch_content b ch =
     (if ch = fb_channel_id b then mset (fb_events b) + mset (fb_cancelled_events b) else {#})"

lemma flush_conserves:
  assumes "reach queue_start queue_step q" and "flush_next now q = (q', Some b)"
  shows "batch_content b ch + channel_content q' ch = channel_content (expire_in_flight now q) ch"
proof -
  let ?e = "expire_in_flight now q"
  have split: "image_mset f (mset (take n xs)) + image_mset f (mset (drop n xs)) = image_mset f (mset xs)"
    for f :: "QueuedEvent \<Rightarrow> BatchEvent" and n xs
    by (metis append_take_drop_id image_mset_union mset_append)
  from assms(2) queue.reach_inv [OF assms(1)] show ?thesis
  proof (cases rule: flush_next_cases)
    case queued
    note v = flush_channel_views [OF queued(1)]
    show ?thesis
      using split [of to_batch_event MAX_BATCH_EVENTS "queue_of ?e ch"]
      by (auto simp: batch_content_def channel_content_def v add_ac)
  next
    case cancelled
    note v = flush_cancelled_views [OF cancelled(1)]
    show ?thesis by (auto simp: batch_content_def channel_content_def v)
  qed
qed

text \<open>
  C15. A flush neither loses nor duplicates an event: on every channel, what the batch carries
  (new and cancelled events) together with what stays queued or cancelled is exactly what was
  queued or cancelled after the expiry of stuck turns.
\<close>

theorem flush_conserves_events:
  assumes "reach queue_start queue_step q" and "flush_next now q = (q', Some b)"
  shows "batch_content b ch + channel_content q' ch = channel_content (expire_in_flight now q) ch"
  using assms by (rule flush_conserves)

theorem flush_conserves_events_witness:
  "channel_content sample_flying 2 = channel_content (expire_in_flight 10 sample_two) 2"
  using flush_conserves_events [OF sample_reach(2) sample_flush, of 2]
  by (simp add: batch_content_def)

text \<open>
  The batch of a channel with flushable events is the first 50 of its queue at most, in
  \<open>created_at\<close> order, and the rest stays queued in order: the last event of the batch is a
  newest one.
\<close>

theorem flush_batch_shape:
  assumes "reach queue_start queue_step q" and "flush_next now q = (q', Some b)"
    and "queue_of (expire_in_flight now q) ch \<noteq> []"
    and "\<not> is_channel_in_flight (expire_in_flight now q) ch"
    and "not_throttled now (expire_in_flight now q) ch"
  shows "fb_events b \<noteq> [] \<and> length (fb_events b) \<le> 50 \<and>
     sorted (map (\<lambda>be. ev_created_at (be_event be)) (fb_events b)) \<and>
     mset (fb_events b) = mset (map to_batch_event
        (take 50 (queue_of (expire_in_flight now q) (fb_channel_id b)))) \<and>
     queue_of q' (fb_channel_id b) = drop 50 (queue_of (expire_in_flight now q) (fb_channel_id b))"
  using assms(2) queue.reach_inv [OF assms(1)]
proof (cases rule: flush_next_cases)
  case queued
  have "queue_of q' (fb_channel_id b) =
      drop 50 (queue_of (expire_in_flight now q) (fb_channel_id b))"
    using flush_channel_views(2) [OF queued(1), of "fb_channel_id b"]
    by (simp add: MAX_BATCH_EVENTS_def)
  moreover have "fb_events b \<noteq> []"
    using arg_cong [OF flush_channel_views(1) [OF queued(1)], of length] queued(2)
    by (auto simp: MAX_BATCH_EVENTS_def min_def split: if_splits)
  ultimately show ?thesis
    using flush_channel_views(1) [OF queued(1)] queued(2) by (simp add: MAX_BATCH_EVENTS_def)
next
  case cancelled
  with assms(3-5) show ?thesis by (auto simp: is_channel_in_flight_def)
qed

theorem flush_batch_shape_witness:
  "queue_of sample_flying 1 = drop 50 (queue_of (expire_in_flight 10 sample_two) 1)"
proof -
  have "queue_of (expire_in_flight 10 sample_two) 2 \<noteq> []"
    and "\<not> is_channel_in_flight (expire_in_flight 10 sample_two) 2"
    and "not_throttled 10 (expire_in_flight 10 sample_two) 2"
    by (simp_all add: sample_defs queue_eval is_channel_in_flight_def)
  from flush_batch_shape [OF sample_reach(2) sample_flush this] show ?thesis by simp
qed

text \<open>
  The poll and the flush agree: \<open>has_flushable_work\<close> says yes exactly when \<open>flush_next\<close> at
  the same instant returns a batch, so the dispatch loop neither spins nor sleeps on work.
\<close>

theorem flushable_iff_flush: "snd (has_flushable_work now q) \<longleftrightarrow> snd (flush_next now q) \<noteq> None"
proof -
  let ?e = "expire_in_flight now q"
  have "list_ex P xs \<longleftrightarrow> filter P xs \<noteq> []" for P :: "uuid \<times> QueuedEvent list \<Rightarrow> bool" and xs
    by (auto simp: list_ex_iff filter_empty_conv)
  moreover have "list_ex P xs \<longleftrightarrow> find P xs \<noteq> None" for P :: "uuid \<Rightarrow> bool" and xs
    by (auto simp: list_ex_iff find_None_iff)
  ultimately show ?thesis
    by (auto simp: has_flushable_work_def flush_next_def Let_def flush_channel_def
        flush_cancelled_only_def dest: min_by_key_None_iff [THEN iffD1] split: option.splits)
qed

text \<open>
  Retry: a failed batch is handed back as a dead letter exactly when the channel already
  used its 10 retries, and then the channel's counter and throttle are cleared and its queue is
  left alone; otherwise its events go back to the front of the queue in order (cut at the cap)
  and the channel is throttled until the jittered delay of the next attempt has passed.
\<close>

theorem requeue_outcome:
  "snd (requeue b nanos now q) =
     (if hm_get_or 0 (retry_counts q) (fb_channel_id b) \<ge> 10 then Some b else None) \<and>
   hm_get (retry_counts (fst (requeue b nanos now q))) (fb_channel_id b) =
     (let n = hm_get_or 0 (retry_counts q) (fb_channel_id b) in
      if n \<ge> 10 then None else Some (n + 1)) \<and>
   hm_get (retry_after (fst (requeue b nanos now q))) (fb_channel_id b) =
     (let n = hm_get_or 0 (retry_counts q) (fb_channel_id b) in
      if n \<ge> 10 then None else Some (now + retry_delay (n + 1) nanos)) \<and>
   queue_of (fst (requeue b nanos now q)) (fb_channel_id b) =
     (if hm_get_or 0 (retry_counts q) (fb_channel_id b) \<ge> 10 then queue_of q (fb_channel_id b)
      else take 500 (map (to_queued_event (fb_channel_id b)) (fb_events b)
             @ queue_of q (fb_channel_id b)))"
  by (simp add: requeue_def requeue_front_def Let_def MAX_RETRIES_def queue_loops
      MAX_PENDING_PER_CHANNEL_def not_less Suc_le_eq)

lemma backoff_values:
  "backoff_secs attempt = (if attempt \<le> 1 then 5 else if attempt = 2 then 10 else if attempt = 3 then 20
     else if attempt = 4 then 40 else if attempt = 5 then 80 else if attempt = 6 then 160 else 300)"
proof (cases "attempt \<le> 6")
  case True
  then have "attempt \<in> {0, 1, 2, 3, 4, 5, 6}" by auto
  then show ?thesis
    by (auto simp: backoff_secs_def BASE_RETRY_DELAY_SECS_def MAX_RETRY_DELAY_SECS_def)
next
  case False
  then have "min (attempt - 1) 6 = 6" by simp
  with False show ?thesis
    by (simp add: backoff_secs_def BASE_RETRY_DELAY_SECS_def MAX_RETRY_DELAY_SECS_def)
qed

text \<open>
  The backoff delay: attempt 1 waits on the order of 5 seconds and the base doubles up to
  the cap of 300 seconds, and the jitter keeps the delay between 80\% and 90\% of the base. The
  jitter divides the sub-second nanoseconds (below \<open>10\<^sup>9\<close>) by \<open>u32::MAX\<close>, so the upper half of
  the documented range of 80\% to 120\% is never used.
\<close>

theorem retry_delay_bounds:
  assumes "1 \<le> attempt" and "subsec_nanos < 10 ^ 9"
  shows "backoff_secs attempt = min (5 * 2 ^ (attempt - 1)) 300 \<and>
         8 * secs (backoff_secs attempt) \<le> 10 * retry_delay attempt subsec_nanos \<and>
         10 * retry_delay attempt subsec_nanos < 9 * secs (backoff_secs attempt)"
proof -
  define U :: nat where "U = 2 ^ 32 - 1"
  define k where "k = backoff_secs attempt * 10 ^ 8"
  have k: "0 < k" "secs (backoff_secs attempt) = 10 * k"
    by (auto simp: k_def secs_def backoff_values)
  have delay: "retry_delay attempt subsec_nanos = k * (8 * U + 4 * subsec_nanos) div U"
  proof -
    have "10 * k * (8 * U + 4 * subsec_nanos) div (10 * U) = k * (8 * U + 4 * subsec_nanos) div U"
      using div_mult_mult1 [of 10 "k * (8 * U + 4 * subsec_nanos)" U] by (simp add: mult.assoc)
    then show ?thesis by (simp add: retry_delay_def k U_def)
  qed
  have "8 * k = k * (8 * U) div U" by (simp add: U_def)
  also have "\<dots> \<le> k * (8 * U + 4 * subsec_nanos) div U"
    by (intro div_le_mono mult_le_mono) auto
  finally have lower: "8 * k \<le> retry_delay attempt subsec_nanos" by (simp only: delay)
  have "8 * U + 4 * subsec_nanos < 9 * U" using assms(2) by (simp add: U_def)
  then have "k * (8 * U + 4 * subsec_nanos) < k * (9 * U)" using k(1) by simp
  then have "k * (8 * U + 4 * subsec_nanos) div U < 9 * k"
    by (intro less_mult_imp_div_less) (simp add: mult.commute mult.left_commute)
  with lower delay k have "8 * secs (backoff_secs attempt) \<le> 10 * retry_delay attempt subsec_nanos \<and>
      10 * retry_delay attempt subsec_nanos < 9 * secs (backoff_secs attempt)" by simp
  moreover have "backoff_secs attempt = min (5 * 2 ^ (attempt - 1)) 300"
  proof (cases "attempt - 1 \<le> 6")
    case True
    then show ?thesis
      by (simp add: backoff_secs_def BASE_RETRY_DELAY_SECS_def MAX_RETRY_DELAY_SECS_def min_absorb1)
  next
    case False
    then have "(2::nat) ^ 6 \<le> 2 ^ (attempt - 1)" by (intro power_increasing) auto
    with False show ?thesis
      by (simp add: backoff_secs_def BASE_RETRY_DELAY_SECS_def MAX_RETRY_DELAY_SECS_def min_absorb2)
  qed
  ultimately show ?thesis by blast
qed

theorem retry_delay_bounds_witness: "10 * retry_delay 10 999999999 < 9 * secs 300"
  using retry_delay_bounds [of 10 999999999] by (simp add: backoff_values)

text \<open>
  Withholding and releasing: marking a queued event for a native steer takes exactly that
  event out of the flushable queue, and releasing it puts it back at the head of the queue; the
  channel then holds the same events as before and the side table is as it was. Nothing is cut
  by the cap, although the release re-applies it.
\<close>

theorem withhold_release_round_trip:
  assumes "reach queue_start queue_step q" and "mark_native_steer_pending ch eid q = (q1, True)"
    and "list_all (\<lambda>e. \<not> has_event_id eid e) (withheld_of q ch)"
  shows "mset (queue_of (release_native_steer ch eid q1) ch) = mset (queue_of q ch) \<and>
         tl (queue_of (release_native_steer ch eid q1) ch) = queue_of q1 ch \<and>
         has_event_id eid (hd (queue_of (release_native_steer ch eid q1) ch)) \<and>
         withheld_of (release_native_steer ch eid q1) ch = withheld_of q ch"
proof -
  from assms(2) obtain queue pos where get: "hm_get (queues q) ch = Some queue"
    and pos: "position_of (has_event_id eid) queue = Some pos"
    and q1: "q1 = q\<lparr>queues := put_or_remove ch (remove_at pos queue) (queues q),
                  withheld_native_steer := hm_insert ch (withheld_of q ch @ [queue ! pos])
                    (withheld_native_steer q)\<rparr>"
    by (auto simp: mark_native_steer_pending_def split: option.splits)
  have bound: "pos < length queue" and hit: "has_event_id eid (queue ! pos)"
    using position_of_Some [OF pos] by auto
  have "queues_ok (queues q)" using queue.reach_inv [OF assms(1)] by (simp add: queue_inv_def)
  then have "length queue \<le> MAX_PENDING_PER_CHANNEL"
    using queues_okD [of "queues q"] get by (metis hm_get_or_Some)
  then have cap: "take MAX_PENDING_PER_CHANNEL (queue ! pos # remove_at pos queue)
      = queue ! pos # remove_at pos queue"
    using bound by simp
  have last: "position_of (has_event_id eid) (withheld_of q ch @ [queue ! pos])
      = Some (length (withheld_of q ch))"
    using assms(3) hit position_of_None_iff [of "has_event_id eid" "withheld_of q ch"]
    by (simp add: position_of_append list_all_iff)
  have "queue_of q1 ch = remove_at pos queue"
    by (simp add: q1 put_or_remove_def)
  then show ?thesis
    using bound hit last cap get
    by (simp add: release_native_steer_def q1 queue_loops put_or_remove_def hm_get_or_Some
        mset_remove_at remove_at_append)
qed

theorem withhold_release_round_trip_witness:
  "mset (queue_of (release_native_steer 1 ''a''
     (fst (mark_native_steer_pending 1 ''a'' sample_two))) 1) = mset (queue_of sample_two 1)"
proof -
  have "mark_native_steer_pending 1 ''a'' sample_two =
      (fst (mark_native_steer_pending 1 ''a'' sample_two), True)"
    by (simp add: sample_defs queue_eval mark_native_steer_pending_def has_event_id_def)
  moreover have "list_all (\<lambda>e. \<not> has_event_id ''a'' e) (withheld_of sample_two 1)"
    by (simp add: sample_defs queue_eval)
  ultimately show ?thesis
    using withhold_release_round_trip [OF sample_reach(2)] by blast
qed

text \<open>The trace: a turn is cancelled by a steer, merged into the next batch, and that batch is
  returned to the queue.\<close>

definition sample_steered :: EventQueue where
  "sample_steered = requeue_as_cancelled (the (snd (flush_next 10 sample_one))) Steer
     (fst (flush_next 10 sample_one))"

definition sample_merged :: EventQueue where
  "sample_merged = fst (push_event (sample_queued 1 ''c'' 8) (mark_complete 1 11 sample_steered))"

lemma sample_merged_reach: "reach queue_start queue_step sample_merged"
  unfolding sample_merged_def sample_steered_def
proof -
  note step = reach.next_state [of queue_start queue_step]
  show "reach queue_start queue_step (fst (push_event (sample_queued 1 ''c'' 8)
      (mark_complete 1 11 (requeue_as_cancelled (the (snd (flush_next 10 sample_one))) Steer
        (fst (flush_next 10 sample_one))))))"
    by (rule step [OF _ queue_step.push], rule step [OF _ queue_step.complete],
        rule step [OF _ queue_step.cancelled], rule step [OF sample_reach(1) queue_step.flush])
qed

text \<open>
  Returning a flushed batch to the queue (no agent was free, or the session was being set
  up): on every channel the queue then holds what it held before the flush, except for the
  batch's \<open>cancelled_events\<close>. These are not written back, so a batch that merged a cancelled
  turn loses that turn's events; a batch without them is restored in full.
\<close>

theorem requeue_restores_but_cancelled:
  assumes "reach queue_start queue_step q" and "flush_next now q = (q', Some b)"
    and "length (queue_of q' (fb_channel_id b)) + length (fb_events b) \<le> 500"
  shows "channel_content (mark_complete (fb_channel_id b) t (requeue_preserve_timestamps b q')) c
           + (if c = fb_channel_id b then mset (fb_cancelled_events b) else {#})
         = channel_content (expire_in_flight now q) c"
proof -
  let ?ch = "fb_channel_id b"
  let ?r = "mark_complete ?ch t (requeue_preserve_timestamps b q')"
  have views: "queue_of ?r c = (if c = ?ch then map (to_queued_event ?ch) (fb_events b) @ queue_of q' ?ch
        else queue_of q' c)" "cancelled_batches ?r = cancelled_batches q'"
    using assms(3)
    by (auto simp: mark_complete_def requeue_preserve_timestamps_def requeue_front_def Let_def
        queue_loops MAX_PENDING_PER_CHANNEL_def split: option.splits)
  have inverse: "to_batch_event (to_queued_event ?ch e) = e" for e
    by (simp add: to_batch_event_def to_queued_event_def)
  show ?thesis
    using flush_conserves [OF assms(1,2), of c]
    by (auto simp: channel_content_def batch_content_def views inverse multiset.map_comp comp_def add_ac)
qed

theorem requeue_restores_but_cancelled_witness:
  "channel_content (mark_complete 1 13 (requeue_preserve_timestamps
       (the (snd (flush_next 12 sample_merged))) (fst (flush_next 12 sample_merged)))) 1
     + {#to_batch_event (sample_queued 1 ''a'' 5)#}
   = channel_content (expire_in_flight 12 sample_merged) 1"
proof -
  let ?b = "\<lparr>fb_channel_id = 1, fb_events = [to_batch_event (sample_queued 1 ''c'' 8)],
      fb_cancelled_events = [to_batch_event (sample_queued 1 ''a'' 5)],
      fb_cancel_reason = Some Steer\<rparr>"
  have b: "flush_next 12 sample_merged = (fst (flush_next 12 sample_merged), Some ?b)"
    by (simp add: sample_merged_def sample_steered_def sample_defs queue_eval)
  have "queue_of (fst (flush_next 12 sample_merged)) 1 = []"
    by (simp add: sample_merged_def sample_steered_def sample_defs queue_eval)
  then show ?thesis
    using requeue_restores_but_cancelled [OF sample_merged_reach b, of 13 1] by (subst b) simp
qed

end
