(* ===== verification/Audio_Wire.thy ===== *)
theory Audio_Wire
  imports Prelude "HOL-Library.Word"
begin

text \<open>
  The huddle audio frame header, on both sides of the wire: the client's encoder and parser
  (\<^verbatim>\<open>app/src-tauri/src/huddle/wire.rs\<close>) and the relay's parser
  (\<^verbatim>\<open>crates/buzz-relay/src/audio/wire.rs\<close>). Bytes are 8-bit words; the \<open>i8\<close> level is the same
  8 bits read with \<open>sint\<close>, so the cast \<open>as u8\<close> is the identity.
\<close>

unbundle bit_operations_syntax

type_synonym u8 = "8 word"
type_synonym bytes = "u8 list"

section \<open>Big-endian integers\<close>

definition u16_to_be :: "16 word \<Rightarrow> bytes" where
  "u16_to_be x = [ucast (drop_bit 8 x), ucast x]"

definition u16_from_be :: "u8 \<Rightarrow> u8 \<Rightarrow> 16 word" where
  "u16_from_be a b = push_bit 8 (ucast a) OR ucast b"

definition u32_to_be :: "32 word \<Rightarrow> bytes" where
  "u32_to_be x = [ucast (drop_bit 24 x), ucast (drop_bit 16 x), ucast (drop_bit 8 x), ucast x]"

definition u32_from_be :: "u8 \<Rightarrow> u8 \<Rightarrow> u8 \<Rightarrow> u8 \<Rightarrow> 32 word" where
  "u32_from_be a b c d =
     push_bit 24 (ucast a) OR push_bit 16 (ucast b) OR push_bit 8 (ucast c) OR ucast d"

section \<open>The header\<close>

definition V2_HEADER_LEN :: nat where "V2_HEADER_LEN = 8"
definition FLAG_DTX :: u8 where "FLAG_DTX = 1"
definition RESERVED_FLAG_MASK :: u8 where "RESERVED_FLAG_MASK = NOT FLAG_DTX"
definition PROTOCOL_VERSION :: u8 where "PROTOCOL_VERSION = 2"

record FrameHeader =
  fh_seq :: "16 word"
  fh_ts_48k :: "32 word"
  fh_level_dbov :: u8
  fh_flags :: u8

definition FrameHeader_encode :: "FrameHeader \<Rightarrow> bytes" where
  "FrameHeader_encode h =
     (let out = replicate V2_HEADER_LEN 0;
          out = u16_to_be (fh_seq h) @ drop 2 out;
          out = take 2 out @ u32_to_be (fh_ts_48k h) @ drop 6 out;
          out = out[6 := fh_level_dbov h];
          out = out[7 := fh_flags h]
      in out)"

definition level_in_range :: "u8 \<Rightarrow> bool" where
  "level_in_range l \<longleftrightarrow> - 127 \<le> sint l \<and> sint l \<le> 0"

definition clamp_level :: "u8 \<Rightarrow> u8" where
  "clamp_level raw = (if level_in_range raw then raw else - 127)"

definition FrameHeader_parse :: "bytes \<Rightarrow> (FrameHeader \<times> bytes) option" where
  "FrameHeader_parse bs =
     (if length bs < V2_HEADER_LEN then None
      else
        (let seq = u16_from_be (bs ! 0) (bs ! 1);
             ts_48k = u32_from_be (bs ! 2) (bs ! 3) (bs ! 4) (bs ! 5);
             level_dbov = clamp_level (bs ! 6);
             flags = bs ! 7
         in Some (\<lparr>fh_seq = seq, fh_ts_48k = ts_48k, fh_level_dbov = level_dbov, fh_flags = flags\<rparr>,
                  drop V2_HEADER_LEN bs)))"

definition is_dtx :: "FrameHeader \<Rightarrow> bool" where
  "is_dtx h \<longleftrightarrow> fh_flags h AND FLAG_DTX \<noteq> 0"

text \<open>The relay's own copy of the parser.\<close>

definition relay_frame_header_parse :: "bytes \<Rightarrow> (FrameHeader \<times> bytes) option" where
  "relay_frame_header_parse bs =
     (if length bs < V2_HEADER_LEN then None
      else
        (let raw_level = bs ! 6
         in Some (\<lparr>fh_seq = u16_from_be (bs ! 0) (bs ! 1),
                   fh_ts_48k = u32_from_be (bs ! 2) (bs ! 3) (bs ! 4) (bs ! 5),
                   fh_level_dbov = (if - 127 \<le> sint raw_level \<and> sint raw_level \<le> 0
                                    then raw_level else - 127),
                   fh_flags = bs ! 7\<rparr>,
                  drop V2_HEADER_LEN bs)))"

definition relay_is_dtx :: "FrameHeader \<Rightarrow> bool" where
  "relay_is_dtx h \<longleftrightarrow> fh_flags h AND FLAG_DTX \<noteq> 0"

definition parse_relay_frame :: "bytes \<Rightarrow> (u8 \<times> FrameHeader \<times> bytes) option" where
  "parse_relay_frame bs =
     (case bs of
        [] \<Rightarrow> None
      | peer_index # framed_audio \<Rightarrow>
          (case FrameHeader_parse framed_audio of
             None \<Rightarrow> None
           | Some (header, opus_payload) \<Rightarrow>
               if opus_payload = [] then None else Some (peer_index, header, opus_payload)))"

section \<open>Lemmas\<close>

lemma u16_be_round_trip: "u16_from_be (ucast (drop_bit 8 x)) (ucast x) = x"
  unfolding u16_from_be_def by (rule bit_word_eqI) (auto simp: bit_simps)

lemma u32_be_round_trip:
  "u32_from_be (ucast (drop_bit 24 x)) (ucast (drop_bit 16 x)) (ucast (drop_bit 8 x)) (ucast x) = x"
  unfolding u32_from_be_def
proof (rule bit_word_eqI)
  fix n assume "n < LENGTH(32)"
  then consider "n < 8" | "8 \<le> n" "n < 16" | "16 \<le> n" "n < 24" | "24 \<le> n" "n < 32" by force
  then show "bit (push_bit 24 (ucast (ucast (drop_bit 24 x) :: u8)) OR
        push_bit 16 (ucast (ucast (drop_bit 16 x) :: u8)) OR
        push_bit 8 (ucast (ucast (drop_bit 8 x) :: u8)) OR ucast (ucast x :: u8) :: 32 word) n = bit x n"
    by cases (auto simp: bit_simps)
qed

lemma encode_bytes:
  "FrameHeader_encode h = u16_to_be (fh_seq h) @ u32_to_be (fh_ts_48k h) @ [fh_level_dbov h, fh_flags h]"
  by (simp add: FrameHeader_encode_def V2_HEADER_LEN_def u16_to_be_def u32_to_be_def numeral_eq_Suc)

lemma level_in_range_clamp [simp]: "level_in_range (clamp_level l)"
  by (simp add: clamp_level_def level_in_range_def)

lemma clamp_level_id: "level_in_range l \<Longrightarrow> clamp_level l = l"
  by (simp add: clamp_level_def)

lemma parse_encode:
  "FrameHeader_parse (FrameHeader_encode h @ payload) =
     Some (h\<lparr>fh_level_dbov := clamp_level (fh_level_dbov h)\<rparr>, payload)"
  by (simp add: FrameHeader_parse_def encode_bytes u16_to_be_def u32_to_be_def V2_HEADER_LEN_def
      u16_be_round_trip u32_be_round_trip)

lemma relay_parse_eq: "relay_frame_header_parse = FrameHeader_parse"
  by (rule ext)
    (simp add: relay_frame_header_parse_def FrameHeader_parse_def clamp_level_def level_in_range_def
      Let_def)

section \<open>Properties\<close>

text \<open>
  Header round trip on the wire: what the client encodes in front of an audio payload, both
  parsers read back with the payload untouched; only a level outside \<open>-127..=0\<close> is changed (to
  the silence floor), every parsed level is in that range, and parsing fails exactly on fewer
  than 8 bytes, never because of bad telemetry.
\<close>

theorem frame_header_round_trip:
  "FrameHeader_parse (FrameHeader_encode h @ payload) =
     Some (h\<lparr>fh_level_dbov := clamp_level (fh_level_dbov h)\<rparr>, payload) \<and>
   relay_frame_header_parse bs = FrameHeader_parse bs \<and>
   (FrameHeader_parse bs = None \<longleftrightarrow> length bs < 8) \<and>
   pred_option (\<lambda>(hd, rest). level_in_range (fh_level_dbov hd) \<and> rest = drop 8 bs)
     (FrameHeader_parse bs)"
  by (simp add: parse_encode relay_parse_eq) (simp add: FrameHeader_parse_def V2_HEADER_LEN_def Let_def)

end
