(* ===== verification/Audio_Room.thy ===== *)
theory Audio_Room
  imports Nostr_Event Audio_Wire
begin

text \<open>
  The huddle audio room of the relay, \<^verbatim>\<open>crates/buzz-relay/src/audio/room.rs\<close>: admission under
  one lock, routing indices and their epochs, roster publication, frame fan-out, and the
  registry of rooms. Every operation that takes the admission lock is one atomic step.
  \<^item> The senders of the \<^verbatim>\<open>tokio\<close> channels are values of the type parameters \<open>'a\<close> (audio) and \<open>'c\<close>
    (control). A fresh channel and the random peer id are arguments of the operation. Audio
    sends ignore their result, so fan-out returns the list of attempted sends; for the control
    channel the outcome matters and \<open>try_send\<close> is a parameter (\<open>None\<close> is the error).
  \<^item> \<open>roster_log\<close> is the sequence of deltas sent on the room's broadcast channel.
  \<^item> \<open>guard_poisoned\<close> is the poison flag of the \<^verbatim>\<open>std\<close> mutex, which each operation handles in
    its own way.
\<close>

section \<open>Data\<close>

type_synonym community_id = uuid

record ('a, 'c) AudioPeer =
  ap_pubkey :: pubkey
  ap_audio_tx :: 'a
  ap_ctrl_tx :: 'c
  ap_peer_index :: u8
  ap_epoch :: u8
  ap_protocol_version :: u8

datatype PeerCtrl = Json string | Close

definition MAX_PEERS_PER_ROOM :: nat where "MAX_PEERS_PER_ROOM = 25"

record RosterPeer =
  rp_pubkey :: pubkey
  rp_peer_index :: u8
  rp_epoch :: u8

record RosterSnapshot =
  rs_revision :: "64 word"
  rs_peers :: "RosterPeer list"

record RosterDelta =
  rd_revision :: "64 word"
  rd_joined :: "RosterPeer option"
  rd_left :: "RosterPeer option"

datatype AdmissionError = Ended | Full | VersionMismatch (pinned: u8) (requested: u8)

record AdmissionGuard =
  next_candidate :: u8
  active_indices :: "u8 set"
  index_epochs :: "(u8, u8) hmap"
  guard_ended :: bool
  pinned_version :: "u8 option"
  roster_revision :: "64 word"

record ('a, 'c) Room =
  room_community_id :: community_id
  room_channel_id :: uuid
  room_peers :: "(uuid, ('a, 'c) AudioPeer) hmap"
  room_guard :: AdmissionGuard
  guard_poisoned :: bool
  roster_log :: "RosterDelta list"

section \<open>The admission guard\<close>

definition guard_new :: AdmissionGuard where
  "guard_new = \<lparr>next_candidate = 0, active_indices = {}, index_epochs = [], guard_ended = False,
     pinned_version = None, roster_revision = 0\<rparr>"

definition next_epoch_for :: "u8 \<Rightarrow> AdmissionGuard \<Rightarrow> AdmissionGuard \<times> u8" where
  "next_epoch_for idx g =
     (let epoch = hm_get_or 0 (index_epochs g) idx
      in (g\<lparr>index_epochs := hm_insert idx (epoch + 1) (index_epochs g)\<rparr>, epoch))"

definition cursor_after :: "u8 \<Rightarrow> u8" where
  "cursor_after idx = (if idx = 254 then 0 else idx + 1)"

fun alloc_loop :: "nat \<Rightarrow> AdmissionGuard \<Rightarrow> AdmissionGuard \<times> (u8 \<times> u8) option" where
  "alloc_loop 0 g = (g, None)"
| "alloc_loop (Suc rounds) g =
     (let idx = next_candidate g;
          g = g\<lparr>next_candidate := cursor_after idx\<rparr>
      in if idx \<notin> active_indices g then
           (let (g, epoch) = next_epoch_for idx (g\<lparr>active_indices := insert idx (active_indices g)\<rparr>)
            in (g, Some (idx, epoch)))
         else alloc_loop rounds g)"

definition alloc :: "AdmissionGuard \<Rightarrow> AdmissionGuard \<times> (u8 \<times> u8) option" where
  "alloc g = alloc_loop 255 g"

section \<open>Room operations\<close>

definition room_new :: "community_id \<Rightarrow> uuid \<Rightarrow> ('a, 'c) Room" where
  "room_new community channel =
     \<lparr>room_community_id = community, room_channel_id = channel, room_peers = [],
      room_guard = guard_new, guard_poisoned = False, roster_log = []\<rparr>"

definition room_is_empty :: "('a, 'c) Room \<Rightarrow> bool" where
  "room_is_empty r \<longleftrightarrow> room_peers r = []"

definition mark_ended :: "('a, 'c) Room \<Rightarrow> ('a, 'c) Room \<times> bool" where
  "mark_ended r =
     (if guard_poisoned r then (r, False)
      else (r\<lparr>room_guard := room_guard r\<lparr>guard_ended := True\<rparr>\<rparr>, room_is_empty r))"

definition clear_ended :: "('a, 'c) Room \<Rightarrow> ('a, 'c) Room" where
  "clear_ended r =
     (if guard_poisoned r then r else r\<lparr>room_guard := room_guard r\<lparr>guard_ended := False\<rparr>\<rparr>)"

text \<open>The part that \<open>add_peer\<close> and \<open>add_peer_at_index\<close> share once the index is decided: pin the
  version, insert the peer, advance the revision and publish the join.\<close>

definition admit ::
  "pubkey \<Rightarrow> u8 \<Rightarrow> u8 \<Rightarrow> u8 \<Rightarrow> uuid \<Rightarrow> 'a \<Rightarrow> 'c \<Rightarrow> AdmissionGuard \<Rightarrow> ('a, 'c) Room \<Rightarrow> ('a, 'c) Room" where
  "admit pk requested_version idx epoch peer_id audio_tx ctrl_tx g r =
     (let revision = roster_revision g + 1;
          g = g\<lparr>pinned_version := Some (case pinned_version g of Some v \<Rightarrow> v | None \<Rightarrow> requested_version),
                roster_revision := revision\<rparr>
      in r\<lparr>room_guard := g,
           room_peers := hm_insert peer_id
             \<lparr>ap_pubkey = pk, ap_audio_tx = audio_tx, ap_ctrl_tx = ctrl_tx, ap_peer_index = idx,
              ap_epoch = epoch, ap_protocol_version = requested_version\<rparr> (room_peers r),
           roster_log := roster_log r @ [\<lparr>rd_revision = revision,
             rd_joined = Some \<lparr>rp_pubkey = pk, rp_peer_index = idx, rp_epoch = epoch\<rparr>,
             rd_left = None\<rparr>]\<rparr>)"

definition version_conflict :: "AdmissionGuard \<Rightarrow> u8 \<Rightarrow> AdmissionError option" where
  "version_conflict g requested_version =
     (case pinned_version g of
        Some p \<Rightarrow> if p \<noteq> requested_version then Some (VersionMismatch p requested_version) else None
      | None \<Rightarrow> None)"

definition add_peer ::
  "pubkey \<Rightarrow> u8 \<Rightarrow> uuid \<Rightarrow> 'a \<Rightarrow> 'c \<Rightarrow> ('a, 'c) Room \<Rightarrow>
     ('a, 'c) Room \<times> (AdmissionError + uuid \<times> u8 \<times> u8 \<times> 64 word)" where
  "add_peer pk requested_version peer_id audio_tx ctrl_tx r =
     (if guard_poisoned r then (r, Inl Ended)
      else if guard_ended (room_guard r) then (r, Inl Ended)
      else if length (room_peers r) \<ge> MAX_PEERS_PER_ROOM then (r, Inl Full)
      else
        (case version_conflict (room_guard r) requested_version of
           Some e \<Rightarrow> (r, Inl e)
         | None \<Rightarrow>
             (case alloc (room_guard r) of
                (g, None) \<Rightarrow> (r\<lparr>room_guard := g\<rparr>, Inl Full)
              | (g, Some (idx, epoch)) \<Rightarrow>
                  (let r' = admit pk requested_version idx epoch peer_id audio_tx ctrl_tx g r
                   in (r', Inr (peer_id, idx, epoch, roster_revision (room_guard r')))))))"

definition add_peer_at_index ::
  "pubkey \<Rightarrow> u8 \<Rightarrow> u8 \<Rightarrow> uuid \<Rightarrow> 'a \<Rightarrow> 'c \<Rightarrow> ('a, 'c) Room \<Rightarrow>
     ('a, 'c) Room \<times> (AdmissionError + uuid \<times> u8 \<times> 64 word)" where
  "add_peer_at_index pk requested_version idx peer_id audio_tx ctrl_tx r =
     (if guard_poisoned r then (r, Inl Ended)
      else if guard_ended (room_guard r) then (r, Inl Ended)
      else if length (room_peers r) \<ge> MAX_PEERS_PER_ROOM \<or> idx \<in> active_indices (room_guard r)
        then (r, Inl Full)
      else
        (case version_conflict (room_guard r) requested_version of
           Some e \<Rightarrow> (r, Inl e)
         | None \<Rightarrow>
             (let g = room_guard r;
                  (g, epoch) = next_epoch_for idx (g\<lparr>active_indices := insert idx (active_indices g)\<rparr>);
                  g = g\<lparr>next_candidate := cursor_after idx\<rparr>;
                  r' = admit pk requested_version idx epoch peer_id audio_tx ctrl_tx g r
              in (r', Inr (peer_id, epoch, roster_revision (room_guard r'))))))"

definition roster_peer :: "('a, 'c) AudioPeer \<Rightarrow> RosterPeer" where
  "roster_peer p =
     \<lparr>rp_pubkey = ap_pubkey p, rp_peer_index = ap_peer_index p, rp_epoch = ap_epoch p\<rparr>"

text \<open>Removal of a present peer, common to the two removing operations.\<close>

definition release_peer ::
  "uuid \<Rightarrow> ('a, 'c) AudioPeer \<Rightarrow> ('a, 'c) Room \<Rightarrow> ('a, 'c) Room \<times> RosterDelta" where
  "release_peer peer_id peer r =
     (let g = room_guard r;
          g = g\<lparr>active_indices := active_indices g - {ap_peer_index peer},
                roster_revision := roster_revision g + 1\<rparr>;
          delta = \<lparr>rd_revision = roster_revision g, rd_joined = None,
                   rd_left = Some (roster_peer peer)\<rparr>
      in (r\<lparr>room_peers := hm_remove peer_id (room_peers r), room_guard := g,
            roster_log := roster_log r @ [delta]\<rparr>, delta))"

definition remove_peer :: "uuid \<Rightarrow> ('a, 'c) Room \<Rightarrow> ('a, 'c) Room \<times> RosterDelta option" where
  "remove_peer peer_id r =
     (if guard_poisoned r then (r, None)
      else (case hm_get (room_peers r) peer_id of
              None \<Rightarrow> (r, None)
            | Some peer \<Rightarrow> (let (r', delta) = release_peer peer_id peer r in (r', Some delta))))"

definition remove_peer_and_check_ended ::
  "uuid \<Rightarrow> ('a, 'c) Room \<Rightarrow> ('a, 'c) Room \<times> (RosterDelta \<times> bool) option" where
  "remove_peer_and_check_ended peer_id r =
     (if guard_poisoned r then (r, None)
      else
        (case hm_get (room_peers r) peer_id of
           None \<Rightarrow> (r, None)
         | Some peer \<Rightarrow>
             (let (r', delta) = release_peer peer_id peer r
              in if \<not> guard_ended (room_guard r') \<and> room_is_empty r'
                 then (r'\<lparr>room_guard := room_guard r'\<lparr>guard_ended := True\<rparr>\<rparr>, Some (delta, True))
                 else (r', Some (delta, False)))))"

text \<open>Fan-out: the attempted sends, in iteration order, with the receiving peer.\<close>

definition broadcast_frame :: "uuid \<Rightarrow> bytes \<Rightarrow> ('a, 'c) Room \<Rightarrow> (uuid \<times> 'a \<times> bytes) list" where
  "broadcast_frame sender_id frame r =
     (case hm_get (room_peers r) sender_id of
        None \<Rightarrow> []
      | Some p \<Rightarrow>
          (let prefixed = [ap_peer_index p]
                 @ (if ap_protocol_version p \<ge> 3 then [ap_epoch p] else []) @ frame
           in map (\<lambda>(i, q). (i, ap_audio_tx q, prefixed))
                (filter (\<lambda>(i, _). i \<noteq> sender_id) (room_peers r))))"

definition deliver_prefixed :: "u8 \<Rightarrow> bytes \<Rightarrow> ('a, 'c) Room \<Rightarrow> (uuid \<times> 'a \<times> bytes) list" where
  "deliver_prefixed author_index prefixed r =
     map (\<lambda>(i, q). (i, ap_audio_tx q, prefixed))
       (filter (\<lambda>(_, q). ap_peer_index q \<noteq> author_index) (room_peers r))"

definition broadcast_control ::
  "('c \<Rightarrow> PeerCtrl \<Rightarrow> 'c option) \<Rightarrow> 'c \<Rightarrow> string \<Rightarrow> ('a, 'c) Room \<Rightarrow> ('a, 'c) Room" where
  "broadcast_control try_send closed_tx json r =
     r\<lparr>room_peers := map (\<lambda>(i, p).
         (i, p\<lparr>ap_ctrl_tx := (case try_send (ap_ctrl_tx p) (Json json) of
                 Some tx \<Rightarrow> tx | None \<Rightarrow> closed_tx)\<rparr>)) (room_peers r)\<rparr>"

definition roster_snapshot :: "('a, 'c) Room \<Rightarrow> RosterSnapshot" where
  "roster_snapshot r =
     \<lparr>rs_revision = roster_revision (room_guard r),
      rs_peers = sort_key rp_peer_index (map (roster_peer \<circ> snd) (room_peers r))\<rparr>"

definition peer_pubkeys :: "('a, 'c) Room \<Rightarrow> (pubkey \<times> u8) list" where
  "peer_pubkeys r = map (\<lambda>(_, p). (ap_pubkey p, ap_peer_index p)) (room_peers r)"

section \<open>The registry of rooms\<close>

type_synonym ('a, 'c) AudioRoomManager = "(community_id \<times> uuid, ('a, 'c) Room) hmap"

definition manager_new :: "('a, 'c) AudioRoomManager" where
  "manager_new = []"

definition get_or_create ::
  "community_id \<Rightarrow> uuid \<Rightarrow> ('a, 'c) AudioRoomManager \<Rightarrow> ('a, 'c) AudioRoomManager \<times> ('a, 'c) Room" where
  "get_or_create community channel m =
     (case hm_get m (community, channel) of
        Some room \<Rightarrow> (m, room)
      | None \<Rightarrow> (let room = room_new community channel
                 in (hm_insert (community, channel) room m, room)))"

definition get_room ::
  "community_id \<Rightarrow> uuid \<Rightarrow> ('a, 'c) AudioRoomManager \<Rightarrow> ('a, 'c) Room option" where
  "get_room community channel m = hm_get m (community, channel)"

definition get_unambiguous_by_channel ::
  "uuid \<Rightarrow> ('a, 'c) AudioRoomManager \<Rightarrow> ('a, 'c) Room option" where
  "get_unambiguous_by_channel channel m =
     (case filter (\<lambda>p. snd (fst p) = channel) m of
        [] \<Rightarrow> None
      | [p] \<Rightarrow> Some (snd p)
      | _ \<Rightarrow> None)"

definition cleanup_if_empty ::
  "community_id \<Rightarrow> uuid \<Rightarrow> ('a, 'c) AudioRoomManager \<Rightarrow> ('a, 'c) AudioRoomManager \<times> bool" where
  "cleanup_if_empty community channel m =
     (case hm_get m (community, channel) of
        Some room \<Rightarrow> if room_is_empty room then (hm_remove (community, channel) m, True) else (m, False)
      | None \<Rightarrow> (m, False))"

end
