(* ===== verification/Audio_Room_Props.thy ===== *)
theory Audio_Room_Props
  imports Audio_Room
begin

text \<open>
  Correctness of the audio room: the allocator finds an index whenever the room is below its
  cap, the admission table, the room invariant over every interleaving of the locked
  operations, the meaning of the published roster deltas, and the path of an audio frame.
\<close>

section \<open>The index allocator\<close>

lemma unat_cursor_after:
  assumes "unat idx < 255"
  shows "unat (cursor_after idx) = (unat idx + 1) mod 255"
proof (cases "idx = 254")
  case False
  then have "unat idx \<noteq> 254" by (simp add: word_unat_eq_iff)
  moreover have "unat (idx + 1) = unat idx + 1" using assms by (simp add: unat_word_ariths)
  ultimately show ?thesis using assms False by (simp add: cursor_after_def)
qed (simp add: cursor_after_def)

lemma alloc_loop_None:
  "unat (next_candidate g) < 255 \<Longrightarrow> snd (alloc_loop n g) = None \<Longrightarrow> i < n \<Longrightarrow>
     word_of_nat ((unat (next_candidate g) + i) mod 255) \<in> active_indices g"
proof (induction n arbitrary: g i)
  case (Suc n)
  let ?idx = "next_candidate g"
  let ?g = "g\<lparr>next_candidate := cursor_after ?idx\<rparr>"
  have used: "?idx \<in> active_indices g" and rest: "snd (alloc_loop n ?g) = None"
    using Suc.prems(2) by (auto simp: Let_def split: if_splits prod.splits)
  show ?case
  proof (cases i)
    case 0
    with used Suc.prems(1) show ?thesis by simp
  next
    case (Suc j)
    have "(unat (cursor_after ?idx) + j) mod 255 = (unat ?idx + i) mod 255"
      using Suc Suc.prems(1) by (simp add: unat_cursor_after mod_simps)
    moreover have "unat (next_candidate ?g) < 255"
      using Suc.prems(1) by (simp add: unat_cursor_after)
    ultimately show ?thesis
      using Suc.IH [of ?g j] rest Suc Suc.prems(3) by simp
  qed
qed simp

lemma alloc_loop_Some:
  "alloc_loop n g = (g', Some (idx, epoch)) \<Longrightarrow>
     idx \<notin> active_indices g \<and> epoch = hm_get_or 0 (index_epochs g) idx \<and>
     g' = g\<lparr>next_candidate := cursor_after idx, active_indices := insert idx (active_indices g),
            index_epochs := hm_insert idx (epoch + 1) (index_epochs g)\<rparr> \<and>
     (unat (next_candidate g) < 255 \<longrightarrow> unat idx < 255)"
proof (induction n arbitrary: g)
  case (Suc n)
  show ?case
  proof (cases "next_candidate g \<in> active_indices g")
    case True
    with Suc.prems Suc.IH [of "g\<lparr>next_candidate := cursor_after (next_candidate g)\<rparr>"]
    show ?thesis by (auto simp: Let_def unat_cursor_after)
  next
    case False
    with Suc.prems show ?thesis by (auto simp: Let_def next_epoch_for_def)
  qed
qed simp

text \<open>Below 255 active indices the rotation always finds a free one.\<close>

lemma alloc_succeeds:
  assumes "unat (next_candidate g) < 255" and "finite (active_indices g)"
    and "card (active_indices g) < 255"
  shows "snd (alloc g) \<noteq> None"
proof
  assume none: "snd (alloc g) = None"
  let ?f = "\<lambda>k. word_of_nat k :: u8"
  have "?f ` {..<255} \<subseteq> active_indices g"
  proof (rule image_subsetI)
    fix k :: nat assume "k \<in> {..<255}"
    let ?n = "unat (next_candidate g)"
    define i where "i = (k + 255 - ?n) mod 255"
    have "(?n + i) mod 255 = k"
      using \<open>k \<in> {..<255}\<close> assms(1) by (simp add: i_def mod_simps)
    moreover have "i < 255" by (simp add: i_def)
    ultimately show "?f k \<in> active_indices g"
      using alloc_loop_None [OF assms(1), of 255 i] none by (simp add: alloc_def)
  qed
  moreover have "inj_on ?f {..<255}"
    by (rule inj_on_inverseI [of _ unat]) (simp add: unat_of_nat)
  ultimately have "card {..<255::nat} \<le> card (active_indices g)"
    using assms(2) by (metis card_image card_mono)
  with assms(3) show False by simp
qed

section \<open>The room invariant\<close>

abbreviation seats :: "('a, 'c) Room \<Rightarrow> u8 list" where
  "seats r \<equiv> map (ap_peer_index \<circ> snd) (room_peers r)"

abbreviation roster :: "('a, 'c) Room \<Rightarrow> RosterPeer set" where
  "roster r \<equiv> set (map (roster_peer \<circ> snd) (room_peers r))"

text \<open>What a receiver of the published deltas does with one of them.\<close>

definition apply_delta :: "RosterDelta \<Rightarrow> RosterPeer set \<Rightarrow> RosterPeer set" where
  "apply_delta d ps = (ps - set_option (rd_left d)) \<union> set_option (rd_joined d)"

definition joins_at :: "u8 \<Rightarrow> RosterDelta list \<Rightarrow> nat" where
  "joins_at idx ds =
     length (filter (\<lambda>d. map_option rp_peer_index (rd_joined d) = Some idx) ds)"

definition seats_ok :: "('a, 'c) Room \<Rightarrow> bool" where
  "seats_ok r \<longleftrightarrow> hm_wf (room_peers r) \<and> distinct (seats r) \<and>
     active_indices (room_guard r) = set (seats r) \<and> length (room_peers r) \<le> MAX_PEERS_PER_ROOM \<and>
     unat (next_candidate (room_guard r)) < 255"

definition peers_ok :: "('a, 'c) Room \<Rightarrow> bool" where
  "peers_ok r \<longleftrightarrow> (\<forall>p \<in> set (room_peers r).
     pinned_version (room_guard r) = Some (ap_protocol_version (snd p)) \<and>
     hm_get (index_epochs (room_guard r)) (ap_peer_index (snd p)) = Some (ap_epoch (snd p) + 1))"

definition log_ok :: "('a, 'c) Room \<Rightarrow> bool" where
  "log_ok r \<longleftrightarrow>
     roster_revision (room_guard r) = word_of_nat (length (roster_log r)) \<and>
     map rd_revision (roster_log r) = map (\<lambda>i. word_of_nat (Suc i)) [0..<length (roster_log r)] \<and>
     (\<forall>idx. hm_get_or 0 (index_epochs (room_guard r)) idx = word_of_nat (joins_at idx (roster_log r))) \<and>
     (\<forall>i < length (roster_log r). \<forall>p. rd_joined (roster_log r ! i) = Some p \<longrightarrow>
        rp_epoch p = word_of_nat (joins_at (rp_peer_index p) (take i (roster_log r)))) \<and>
     (\<forall>d \<in> set (roster_log r). rd_joined d = None \<longleftrightarrow> rd_left d \<noteq> None) \<and>
     fold apply_delta (roster_log r) {} = roster r"

definition room_ok :: "('a, 'c) Room \<Rightarrow> bool" where
  "room_ok r \<longleftrightarrow> seats_ok r \<and> peers_ok r \<and> log_ok r"

inductive room_step :: "('a, 'c) Room \<Rightarrow> ('a, 'c) Room \<Rightarrow> bool" where
  join: "hm_get (room_peers r) peer_id = None \<Longrightarrow> room_step r (fst (add_peer pk v peer_id a c r))"
| join_at: "hm_get (room_peers r) peer_id = None \<Longrightarrow>
    room_step r (fst (add_peer_at_index pk v idx peer_id a c r))"
| leave: "room_step r (fst (remove_peer peer_id r))"
| leave_check: "room_step r (fst (remove_peer_and_check_ended peer_id r))"
| end_room: "room_step r (fst (mark_ended r))"
| reopen: "room_step r (clear_ended r)"
| control: "room_step r (broadcast_control try_send closed_tx json r)"
| poison: "room_step r (r\<lparr>guard_poisoned := True\<rparr>)"

definition room_start :: "('a, 'c) Room \<Rightarrow> bool" where
  "room_start r \<longleftrightarrow> (\<exists>community channel. r = room_new community channel)"

lemma unat_cursor_less: "unat (cursor_after idx) < 255"
proof (cases "unat idx < 255")
  case False
  moreover have "unat idx < 256" using unsigned_less [of idx] by simp
  ultimately have "unat idx = 255" by simp
  then have "idx = 255" by (simp add: word_unat_eq_iff)
  then show ?thesis by (simp add: cursor_after_def)
qed (simp add: unat_cursor_after)

lemma fold_apply_snoc: "fold apply_delta (ds @ [d]) ps = apply_delta d (fold apply_delta ds ps)"
  by simp

lemma joins_at_snoc: "joins_at idx (ds @ [d]) =
    joins_at idx ds + (if map_option rp_peer_index (rd_joined d) = Some idx then 1 else 0)"
  by (simp add: joins_at_def)

lemma admit_ok:
  fixes r :: "('a, 'c) Room"
  assumes "room_ok r" and fresh: "hm_get (room_peers r) peer_id = None"
    and cap: "length (room_peers r) < MAX_PEERS_PER_ROOM" and idx: "idx \<notin> active_indices (room_guard r)"
    and vers: "version_conflict (room_guard r) v = None"
    and epoch: "epoch = hm_get_or 0 (index_epochs (room_guard r)) idx"
  defines "g \<equiv> (room_guard r)\<lparr>next_candidate := cursor_after idx,
      active_indices := insert idx (active_indices (room_guard r)),
      index_epochs := hm_insert idx (epoch + 1) (index_epochs (room_guard r))\<rparr>"
  shows "room_ok (admit pk v idx epoch peer_id a c g r)"
proof -
  define r' where r': "r' = admit pk v idx epoch peer_id a c g r"
  have ok: "seats_ok r" "peers_ok r" "log_ok r" using assms(1) by (auto simp: room_ok_def)
  have peers: "room_peers r' = room_peers r @ [(peer_id, \<lparr>ap_pubkey = pk, ap_audio_tx = a,
      ap_ctrl_tx = c, ap_peer_index = idx, ap_epoch = epoch, ap_protocol_version = v\<rparr>)]"
    by (simp add: r' admit_def Let_def hm_insert_fresh [OF fresh])
  have guard: "room_guard r' = g\<lparr>pinned_version := Some v,
      roster_revision := roster_revision (room_guard r) + 1\<rparr>"
    using vers by (auto simp: r' admit_def Let_def g_def version_conflict_def split: option.splits if_splits)
  have log: "roster_log r' = roster_log r @ [\<lparr>rd_revision = roster_revision (room_guard r) + 1,
      rd_joined = Some \<lparr>rp_pubkey = pk, rp_peer_index = idx, rp_epoch = epoch\<rparr>, rd_left = None\<rparr>]"
    by (simp add: r' admit_def Let_def g_def)
  have "hm_wf (room_peers r')"
    using ok(1) by (simp add: r' admit_def Let_def seats_ok_def)
  then have "seats_ok r'"
    using ok(1) cap idx unfolding seats_ok_def by (auto simp: peers guard g_def unat_cursor_less)
  moreover have "peers_ok r'"
    using ok(1,2) vers idx unfolding peers_ok_def
    by (auto simp: peers guard g_def seats_ok_def version_conflict_def split: option.splits if_splits)
  moreover have "log_ok r'"
    using ok(3) unfolding log_ok_def log fold_apply_snoc joins_at_snoc
    by (auto simp: peers guard g_def epoch apply_delta_def roster_peer_def nth_append less_Suc_eq)
  ultimately show ?thesis by (simp add: room_ok_def r')
qed

lemma distinct_remove_one:
  assumes "mset xs = add_mset x (mset ys)" and "distinct xs"
  shows "distinct ys" and "set ys = set xs - {x}"
proof -
  have "mset xs = mset (x # ys)" using assms(1) by simp
  then have "distinct (x # ys)" and "set xs = set (x # ys)"
    using assms(2) mset_eq_imp_distinct_iff mset_eq_setD by metis+
  then show "distinct ys" and "set ys = set xs - {x}" by auto
qed

lemma release_ok:
  assumes "room_ok r" and get: "hm_get (room_peers r) peer_id = Some p"
  shows "room_ok (fst (release_peer peer_id p r))"
proof -
  define r' where r': "r' = fst (release_peer peer_id p r)"
  have ok: "seats_ok r" "peers_ok r" "log_ok r" using assms(1) by (auto simp: room_ok_def)
  have peers: "room_peers r' = hm_remove peer_id (room_peers r)"
    and guard: "room_guard r' = (room_guard r)
       \<lparr>active_indices := active_indices (room_guard r) - {ap_peer_index p},
        roster_revision := roster_revision (room_guard r) + 1\<rparr>"
    and log: "roster_log r' = roster_log r @ [\<lparr>rd_revision = roster_revision (room_guard r) + 1,
        rd_joined = None, rd_left = Some (roster_peer p)\<rparr>]"
    by (simp_all add: r' release_peer_def Let_def)
  have wf: "hm_wf (room_peers r)" and dist: "distinct (seats r)"
    using ok(1) by (auto simp: seats_ok_def)
  have m: "mset (room_peers r) = add_mset (peer_id, p) (mset (room_peers r'))"
    unfolding peers by (rule mset_hm_remove [OF wf get])
  have "mset (seats r) = add_mset (ap_peer_index p) (mset (seats r'))"
    using arg_cong [OF m, of "image_mset (ap_peer_index \<circ> snd)"] by simp
  note seats' = distinct_remove_one [OF this dist]
  have "distinct (map (roster_peer \<circ> snd) (room_peers r))"
    using dist by (auto simp: distinct_map inj_on_def roster_peer_def)
  moreover have "mset (map (roster_peer \<circ> snd) (room_peers r)) =
      add_mset (roster_peer p) (mset (map (roster_peer \<circ> snd) (room_peers r')))"
    using arg_cong [OF m, of "image_mset (roster_peer \<circ> snd)"] by simp
  ultimately have roster': "roster r' = roster r - {roster_peer p}"
    by (intro distinct_remove_one(2))
  have "length (room_peers r') \<le> length (room_peers r)"
    by (simp add: peers hm_remove_def)
  then have "seats_ok r'"
    using ok(1) seats' unfolding seats_ok_def by (simp add: guard) (simp add: peers)
  moreover have "peers_ok r'"
    using ok(2) unfolding peers_ok_def guard peers by (auto simp: hm_remove_def)
  moreover have "log_ok r'"
    using ok(3) roster' unfolding log_ok_def log fold_apply_snoc joins_at_snoc
    by (auto simp: guard apply_delta_def nth_append less_Suc_eq)
  ultimately show ?thesis by (simp add: room_ok_def r')
qed

lemma room_ok_guard_flag [simp]:
  "room_ok (r\<lparr>room_guard := (room_guard r)\<lparr>guard_ended := b\<rparr>\<rparr>) = room_ok r"
  "room_ok (r\<lparr>guard_poisoned := b'\<rparr>) = room_ok r"
  by (simp_all add: room_ok_def seats_ok_def peers_ok_def log_ok_def)

lemma room_ok_alloc:
  assumes "room_ok r" and "length (room_peers r) < MAX_PEERS_PER_ROOM"
  obtains idx epoch where "alloc (room_guard r) =
      ((room_guard r)\<lparr>next_candidate := cursor_after idx,
         active_indices := insert idx (active_indices (room_guard r)),
         index_epochs := hm_insert idx (epoch + 1) (index_epochs (room_guard r))\<rparr>,
       Some (idx, epoch))"
    and "idx \<notin> active_indices (room_guard r)" and "unat idx < 255"
    and "epoch = hm_get_or 0 (index_epochs (room_guard r)) idx"
proof -
  have cand: "unat (next_candidate (room_guard r)) < 255"
    and act: "active_indices (room_guard r) = set (seats r)"
    using assms(1) by (auto simp: room_ok_def seats_ok_def)
  have "card (set (seats r)) < 255"
    using card_length [of "seats r"] assms(2) by (simp add: MAX_PEERS_PER_ROOM_def)
  then have "snd (alloc (room_guard r)) \<noteq> None"
    using alloc_succeeds [OF cand] by (simp add: act)
  then obtain g idx epoch where "alloc (room_guard r) = (g, Some (idx, epoch))"
    by (cases "alloc (room_guard r)") auto
  with alloc_loop_Some [of 255 "room_guard r"] cand that show ?thesis
    unfolding alloc_def by blast
qed

lemma add_peer_ok:
  assumes "room_ok r" and "hm_get (room_peers r) peer_id = None"
  shows "room_ok (fst (add_peer pk v peer_id a c r))"
proof (cases "guard_poisoned r \<or> guard_ended (room_guard r) \<or>
    length (room_peers r) \<ge> MAX_PEERS_PER_ROOM \<or> version_conflict (room_guard r) v \<noteq> None")
  case True
  with assms(1) show ?thesis by (auto simp: add_peer_def split: option.splits)
next
  case False
  then have cap: "length (room_peers r) < MAX_PEERS_PER_ROOM"
    and vers: "version_conflict (room_guard r) v = None" by simp_all
  show ?thesis
    by (rule room_ok_alloc [OF assms(1) cap])
      (use False admit_ok [OF assms cap _ vers] in \<open>auto simp: add_peer_def Let_def\<close>)
qed

lemma cursor_update_last:
  "g\<lparr>active_indices := A, index_epochs := E, next_candidate := n\<rparr> =
   g\<lparr>next_candidate := n, active_indices := A, index_epochs := E\<rparr>" for g :: AdmissionGuard
  by simp

lemma add_peer_at_index_ok:
  assumes "room_ok r" and "hm_get (room_peers r) peer_id = None"
  shows "room_ok (fst (add_peer_at_index pk v idx peer_id a c r))"
  using assms(1) admit_ok [OF assms, of idx v]
  by (auto simp: add_peer_at_index_def next_epoch_for_def Let_def cursor_update_last
      split: option.splits)

lemma remove_peer_ok: "room_ok r \<Longrightarrow> room_ok (fst (remove_peer peer_id r))"
  using release_ok [of r peer_id]
  by (auto simp: remove_peer_def split: option.splits prod.splits)

lemma remove_check_ok: "room_ok r \<Longrightarrow> room_ok (fst (remove_peer_and_check_ended peer_id r))"
  using release_ok [of r peer_id]
  by (auto simp: remove_peer_and_check_ended_def split: option.splits prod.splits)

lemma map_peers_ok:
  assumes "\<And>p. ap_peer_index (f p) = ap_peer_index p" "\<And>p. roster_peer (f p) = roster_peer p"
    and "\<And>p. ap_protocol_version (f p) = ap_protocol_version p" "\<And>p. ap_epoch (f p) = ap_epoch p"
  shows "room_ok (r\<lparr>room_peers := map (\<lambda>(i, p). (i, f p)) (room_peers r)\<rparr>) = room_ok r"
  by (simp add: room_ok_def seats_ok_def peers_ok_def log_ok_def hm_wf_def assms comp_def
      case_prod_beta image_image)

lemma broadcast_control_ok: "room_ok (broadcast_control try_send closed_tx json r) = room_ok r"
  unfolding broadcast_control_def
  by (rule map_peers_ok) (simp_all add: roster_peer_def)

interpretation room: invariant_system room_start room_step room_ok
proof unfold_locales
  show "room_start r \<Longrightarrow> room_ok r" for r :: "('a, 'c) Room"
    by (auto simp: room_start_def room_new_def guard_new_def room_ok_def seats_ok_def peers_ok_def
        log_ok_def joins_at_def)
  show "room_step r r' \<Longrightarrow> room_ok r \<Longrightarrow> room_ok r'" for r r' :: "('a, 'c) Room"
    by (induction rule: room_step.induct)
      (simp_all add: add_peer_ok add_peer_at_index_ok remove_peer_ok remove_check_ok
        broadcast_control_ok mark_ended_def clear_ended_def)
qed

section \<open>Sample rooms for the witnesses\<close>

definition sample_room :: "(nat, nat) Room" where
  "sample_room = fst (add_peer ''bob'' 2 11 1 1 (fst (add_peer ''alice'' 2 10 0 0 (room_new 7 8))))"

lemma alloc_first:
  "next_candidate g \<notin> active_indices g \<Longrightarrow> alloc g =
     (let idx = next_candidate g; epoch = hm_get_or 0 (index_epochs g) idx in
      (g\<lparr>next_candidate := cursor_after idx, active_indices := insert idx (active_indices g),
         index_epochs := hm_insert idx (epoch + 1) (index_epochs g)\<rparr>, Some (idx, epoch)))"
  using alloc_loop.simps(2) [of 254 g] by (simp add: alloc_def next_epoch_for_def Let_def)

lemmas room_eval =
  add_peer_def admit_def version_conflict_def alloc_first MAX_PEERS_PER_ROOM_def cursor_after_def

lemma sample_first:
  "fst (add_peer ''alice'' 2 10 0 0 (room_new 7 8 :: (nat, nat) Room)) =
   \<lparr>room_community_id = 7, room_channel_id = 8,
     room_peers = [(10, \<lparr>ap_pubkey = ''alice'', ap_audio_tx = 0, ap_ctrl_tx = 0, ap_peer_index = 0,
                         ap_epoch = 0, ap_protocol_version = 2\<rparr>)],
     room_guard = \<lparr>next_candidate = 1, active_indices = {0}, index_epochs = [(0, 1)],
       guard_ended = False, pinned_version = Some 2, roster_revision = 1\<rparr>,
     guard_poisoned = False,
     roster_log = [\<lparr>rd_revision = 1, rd_joined = Some \<lparr>rp_pubkey = ''alice'', rp_peer_index = 0,
                     rp_epoch = 0\<rparr>, rd_left = None\<rparr>]\<rparr>"
  by (simp add: room_new_def guard_new_def room_eval)

lemma sample_room_eval:
  "sample_room = \<lparr>room_community_id = 7, room_channel_id = 8,
     room_peers = [(10, \<lparr>ap_pubkey = ''alice'', ap_audio_tx = 0, ap_ctrl_tx = 0, ap_peer_index = 0,
                         ap_epoch = 0, ap_protocol_version = 2\<rparr>),
                   (11, \<lparr>ap_pubkey = ''bob'', ap_audio_tx = 1, ap_ctrl_tx = 1, ap_peer_index = 1,
                         ap_epoch = 0, ap_protocol_version = 2\<rparr>)],
     room_guard = \<lparr>next_candidate = 2, active_indices = {0, 1}, index_epochs = [(0, 1), (1, 1)],
       guard_ended = False, pinned_version = Some 2, roster_revision = 2\<rparr>,
     guard_poisoned = False,
     roster_log = [\<lparr>rd_revision = 1, rd_joined = Some \<lparr>rp_pubkey = ''alice'', rp_peer_index = 0,
                     rp_epoch = 0\<rparr>, rd_left = None\<rparr>,
                   \<lparr>rd_revision = 2, rd_joined = Some \<lparr>rp_pubkey = ''bob'', rp_peer_index = 1,
                     rp_epoch = 0\<rparr>, rd_left = None\<rparr>]\<rparr>"
  unfolding sample_room_def sample_first
  by (simp add: room_eval hm_get_or_def hm_get_def insert_commute)

lemma sample_room_reach: "reach room_start room_step sample_room"
  unfolding sample_room_def
proof (rule reach.next_state [OF reach.next_state [OF reach.start]])
  show "room_start (room_new 7 8 :: (nat, nat) Room)" by (auto simp: room_start_def)
  show "room_step (room_new 7 8 :: (nat, nat) Room) (fst (add_peer ''alice'' 2 10 0 0 (room_new 7 8)))"
    by (rule room_step.join) (simp add: room_new_def)
  show "room_step (fst (add_peer ''alice'' 2 10 0 0 (room_new 7 8 :: (nat, nat) Room)))
     (fst (add_peer ''bob'' 2 11 1 1 (fst (add_peer ''alice'' 2 10 0 0 (room_new 7 8)))))"
    by (rule room_step.join) (simp add: sample_first hm_get_def)
qed

section \<open>Properties\<close>

text \<open>
  C24. In every state of a room, after any interleaving of joins, owner-assigned joins, leaves,
  ends, reopenings and control broadcasts: at most 25 peers, no two of them with the same
  routing index, the allocator's set of active indices is exactly theirs, every peer speaks the
  pinned protocol version, and the next epoch of a peer's index is one past its own.
\<close>

theorem room_invariant:
  assumes "reach room_start room_step r" and "hm_get (room_peers r) i = Some p"
  shows "length (room_peers r) \<le> 25 \<and> distinct (seats r) \<and>
         active_indices (room_guard r) = set (seats r) \<and>
         pinned_version (room_guard r) = Some (ap_protocol_version p) \<and>
         hm_get (index_epochs (room_guard r)) (ap_peer_index p) = Some (ap_epoch p + 1)"
  using room.reach_inv [OF assms(1)] hm_get_SomeD [OF assms(2)]
  by (auto simp: room_ok_def seats_ok_def peers_ok_def MAX_PEERS_PER_ROOM_def)

theorem room_invariant_witness: "distinct (seats sample_room)"
  using room_invariant [OF sample_room_reach, of 10] by (simp add: sample_room_eval hm_get_def)

text \<open>
  The admission table of \<open>add_peer\<close>: \<open>Ended\<close> wins over \<open>Full\<close>, which wins over
  \<open>VersionMismatch\<close>; \<open>Full\<close> is answered only at the cap of 25, so the rotation through 255
  indices never fails below it; an admitted peer gets an index nobody holds, the number of
  earlier occupants of that index (mod 256) as its epoch, and the next roster revision.
\<close>

theorem admission_table:
  assumes "reach room_start room_step r"
  shows "case snd (add_peer pk v i a c r) of
      Inl Ended \<Rightarrow> guard_poisoned r \<or> guard_ended (room_guard r)
    | Inl Full \<Rightarrow> \<not> guard_poisoned r \<and> \<not> guard_ended (room_guard r) \<and> length (room_peers r) = 25
    | Inl (VersionMismatch q w) \<Rightarrow> \<not> guard_poisoned r \<and> \<not> guard_ended (room_guard r) \<and>
        length (room_peers r) < 25 \<and> pinned_version (room_guard r) = Some q \<and> w = v \<and> q \<noteq> v
    | Inr (i', idx, epoch, revn) \<Rightarrow> \<not> guard_poisoned r \<and> \<not> guard_ended (room_guard r) \<and>
        length (room_peers r) < 25 \<and> pinned_version (room_guard r) \<in> {None, Some v} \<and> i' = i \<and>
        idx \<notin> set (seats r) \<and> unat idx < 255 \<and>
        epoch = word_of_nat (joins_at idx (roster_log r)) \<and> revn = roster_revision (room_guard r) + 1"
proof -
  have ok: "room_ok r" using assms by (rule room.reach_inv)
  then have cap: "length (room_peers r) \<le> 25" and act: "active_indices (room_guard r) = set (seats r)"
    and epochs: "hm_get_or 0 (index_epochs (room_guard r)) idx = word_of_nat (joins_at idx (roster_log r))"
    for idx by (auto simp: room_ok_def seats_ok_def log_ok_def MAX_PEERS_PER_ROOM_def)
  show ?thesis
  proof (cases "guard_poisoned r \<or> guard_ended (room_guard r) \<or>
      length (room_peers r) \<ge> MAX_PEERS_PER_ROOM \<or> version_conflict (room_guard r) v \<noteq> None")
    case True
    with cap show ?thesis
      by (auto simp: add_peer_def version_conflict_def MAX_PEERS_PER_ROOM_def split: option.splits if_splits)
  next
    case False
    then have "length (room_peers r) < MAX_PEERS_PER_ROOM" by simp
    moreover have "pinned_version (room_guard r) \<in> {None, Some v}"
      using False by (auto simp: version_conflict_def split: option.splits if_splits)
    ultimately show ?thesis
      using False act epochs
      by (elim room_ok_alloc [OF ok])
        (simp add: add_peer_def admit_def Let_def MAX_PEERS_PER_ROOM_def)
  qed
qed

theorem admission_table_witness:
  "pinned_version (room_guard sample_room) = Some 2 \<and>
   snd (add_peer ''eve'' 3 12 2 2 sample_room) = Inl (VersionMismatch 2 3)"
proof -
  have "snd (add_peer ''eve'' 3 12 2 2 sample_room) = Inl (VersionMismatch 2 3)"
    by (simp add: sample_room_eval add_peer_def version_conflict_def MAX_PEERS_PER_ROOM_def)
  with admission_table [OF sample_room_reach, where pk = "''eve''" and v = 3 and i = 12 and a = 2 and c = 2] show ?thesis by simp
qed

text \<open>
  Epochs number the occupancies of an index: the join published at position \<open>n\<close> of the
  roster history carries, as its epoch, the number of earlier joins at the same index modulo
  256. Two occupants of one index get equal epochs only if a multiple of 256 occupancies lies
  between them, which is what lets a receiver fence the frames of a departed peer.
\<close>

theorem epochs_number_occupancies:
  assumes "reach room_start room_step r" and "n < length (roster_log r)"
    and "rd_joined (roster_log r ! n) = Some p"
  shows "rp_epoch p = word_of_nat (joins_at (rp_peer_index p) (take n (roster_log r)))"
  using room.reach_inv [OF assms(1)] assms(2,3) by (simp add: room_ok_def log_ok_def)

theorem epochs_number_occupancies_witness:
  "rp_epoch (the (rd_joined (roster_log sample_room ! 1))) =
     word_of_nat (joins_at 1 (take 1 (roster_log sample_room)))"
  using epochs_number_occupancies [OF sample_room_reach, of 1] by (simp add: sample_room_eval)

lemma step_log:
  assumes "room_step r r'"
  shows "\<exists>new. roster_log r' = roster_log r @ new"
  using assms
proof (cases rule: room_step.cases)
  case (join i pk v a c)
  then show ?thesis
    by (auto simp: add_peer_def admit_def Let_def split: option.splits prod.splits)
next
  case (leave i)
  then show ?thesis
    by (auto simp: remove_peer_def release_peer_def Let_def split: option.splits)
next
  case (leave_check i)
  then show ?thesis
    by (auto simp: remove_peer_and_check_ended_def release_peer_def Let_def split: option.splits)
qed (auto simp: add_peer_at_index_def admit_def Let_def mark_ended_def clear_ended_def
      broadcast_control_def split: option.splits prod.splits)

lemma steps_log: "room_step\<^sup>*\<^sup>* r r' \<Longrightarrow> \<exists>new. roster_log r' = roster_log r @ new"
  by (induction rule: rtranclp_induct) (auto dest!: step_log)

lemma snapshot_peers: "set (rs_peers (roster_snapshot r)) = roster r"
  by (simp add: roster_snapshot_def)

lemma roster_history:
  assumes "room_ok r" "room_ok r'" and "roster_log r' = roster_log r @ new"
  shows "set (rs_peers (roster_snapshot r')) =
           fold apply_delta new (set (rs_peers (roster_snapshot r))) \<and>
         rs_revision (roster_snapshot r') = rs_revision (roster_snapshot r) + word_of_nat (length new) \<and>
         map rd_revision new =
           map (\<lambda>i. rs_revision (roster_snapshot r) + word_of_nat (Suc i)) [0..<length new]"
proof -
  let ?rev = "\<lambda>i. word_of_nat (Suc i) :: 64 word"
  have log: "log_ok r" "log_ok r'" using assms(1,2) by (auto simp: room_ok_def)
  have "map ?rev [0..<length (roster_log r)] @ map rd_revision new =
      map ?rev [0..<length (roster_log r) + length new]"
    using log assms(3) unfolding log_ok_def by (metis length_append map_append)
  then have "map rd_revision new = map ?rev [length (roster_log r)..<length (roster_log r) + length new]"
    by (simp add: upt_add_eq_append [of 0])
  moreover have "[length (roster_log r)..<length (roster_log r) + length new] =
      map (\<lambda>i. i + length (roster_log r)) [0..<length new]"
    by (simp add: map_add_upt add.commute)
  ultimately show ?thesis
    unfolding snapshot_peers using log
    by (simp add: log_ok_def assms(3) roster_snapshot_def add_ac)
qed

text \<open>
  C23. Roster replication: between any two points of a room's life, the later snapshot is the
  earlier one with the deltas published in between applied in order, and their revisions are
  consecutive and start one past the earlier snapshot. A subscriber that takes a snapshot and
  then follows the deltas therefore holds the authoritative roster.
\<close>

theorem roster_replication:
  assumes "reach room_start room_step r" and "room_step\<^sup>*\<^sup>* r r'"
  shows "\<exists>new. roster_log r' = roster_log r @ new \<and>
     set (rs_peers (roster_snapshot r')) =
       fold apply_delta new (set (rs_peers (roster_snapshot r))) \<and>
     rs_revision (roster_snapshot r') = rs_revision (roster_snapshot r) + word_of_nat (length new) \<and>
     map rd_revision new =
       map (\<lambda>i. rs_revision (roster_snapshot r) + word_of_nat (Suc i)) [0..<length new]"
proof -
  have ok: "room_ok r" using assms(1) by (rule room.reach_inv)
  then have "room_ok r'" using room.steps_inv [OF assms(2)] by simp
  with ok steps_log [OF assms(2)] show ?thesis using roster_history by blast
qed

definition sample_left :: "(nat, nat) Room" where
  "sample_left = fst (remove_peer 10 sample_room)"

theorem roster_replication_witness:
  "\<exists>new. roster_log sample_left = roster_log sample_room @ new \<and>
     set (rs_peers (roster_snapshot sample_left)) =
       fold apply_delta new (set (rs_peers (roster_snapshot sample_room)))"
proof -
  have "room_step\<^sup>*\<^sup>* sample_room sample_left"
    unfolding sample_left_def by (rule r_into_rtranclp) (rule room_step.leave)
  from roster_replication [OF sample_room_reach this] show ?thesis by blast
qed

text \<open>
  Ending a room: the removal that empties a room which has not ended, and no other, reports
  that the room should end; from then on the room is ended under the same lock, so no joiner is
  admitted and no second removal reports it again.
\<close>

theorem auto_end_once:
  assumes "snd (remove_peer_and_check_ended i r) = Some (d, should_end)" and "hm_wf (room_peers r)"
  defines "r' \<equiv> fst (remove_peer_and_check_ended i r)"
  shows "(should_end \<longleftrightarrow> hm_keys (room_peers r) = [i] \<and> \<not> guard_ended (room_guard r)) \<and>
         (should_end \<longrightarrow> room_is_empty r' \<and> snd (add_peer pk v j a c r') = Inl Ended) \<and>
         (should_end \<longrightarrow> snd (remove_peer_and_check_ended k r') = None)"
proof -
  obtain p where get: "hm_get (room_peers r) i = Some p" and pois: "\<not> guard_poisoned r"
    using assms(1) by (auto simp: remove_peer_and_check_ended_def split: option.splits if_splits)
  have "hm_remove i (room_peers r) = [] \<longleftrightarrow> hm_keys (room_peers r) = [i]"
  proof
    assume "hm_remove i (room_peers r) = []"
    then have "mset (room_peers r) = {#(i, p)#}" using mset_hm_remove [OF assms(2) get] by simp
    then have "room_peers r = [(i, p)]" by simp
    then show "hm_keys (room_peers r) = [i]" by (simp add: hm_keys_def)
  qed (auto simp: hm_keys_def hm_remove_def)
  then have "should_end \<longleftrightarrow> hm_keys (room_peers r) = [i] \<and> \<not> guard_ended (room_guard r)"
    and closed: "should_end \<Longrightarrow> room_peers r' = [] \<and> guard_ended (room_guard r')"
    using assms(1) get pois unfolding r'_def
    by (auto simp: remove_peer_and_check_ended_def release_peer_def Let_def room_is_empty_def
        split: if_splits)
  moreover have "should_end \<Longrightarrow> snd (add_peer pk v j a c r') = Inl Ended"
    using closed by (simp add: add_peer_def)
  moreover have "should_end \<Longrightarrow> snd (remove_peer_and_check_ended k r') = None"
    using closed by (simp add: remove_peer_and_check_ended_def)
  ultimately show ?thesis using closed by (auto simp: room_is_empty_def)
qed

theorem auto_end_once_witness:
  "snd (add_peer ''eve'' 2 12 0 0 (fst (remove_peer_and_check_ended 11 sample_left))) = Inl Ended"
proof -
  have "snd (remove_peer_and_check_ended 11 sample_left) =
      Some (\<lparr>rd_revision = 4, rd_joined = None, rd_left = Some \<lparr>rp_pubkey = ''bob'', rp_peer_index = 1,
              rp_epoch = 0\<rparr>\<rparr>, True)"
    and "hm_wf (room_peers sample_left)"
    by (simp_all add: sample_left_def sample_room_eval remove_peer_def remove_peer_and_check_ended_def
        release_peer_def roster_peer_def room_is_empty_def hm_get_def hm_remove_def hm_wf_def
        Let_def)
  from auto_end_once [OF this] show ?thesis by blast
qed

lemma seat_owner:
  assumes "room_ok r" and "hm_get (room_peers r) i = Some p" and "hm_get (room_peers r) j = Some q"
    and "ap_peer_index p = ap_peer_index q"
  shows "i = j"
proof -
  have "inj_on (ap_peer_index \<circ> snd) (set (room_peers r))"
    using assms(1) by (simp add: room_ok_def seats_ok_def distinct_map)
  from inj_onD [OF this, of "(i, p)" "(j, q)"] assms(4) hm_get_SomeD [OF assms(2)]
    hm_get_SomeD [OF assms(3)] show ?thesis by simp
qed

text \<open>
  The path of a frame in a room pinned to the released protocol: when a peer sends an
  encoded header with a non-empty payload, every other peer is sent exactly one frame, which its
  client parses to the sender's routing index, the sender's header (level clamped) and the
  payload; the sender is sent nothing. Fan-out of the same bytes by author index, as the mesh
  path does it, reaches the same receivers, because routing indices are unique.
\<close>

theorem frame_path:
  assumes "reach room_start room_step r" and "hm_get (room_peers r) i = Some p"
    and "hm_get (room_peers r) j = Some q" and "j \<noteq> i" and "ap_protocol_version p < 3"
    and "payload \<noteq> []"
  shows "\<exists>wire. (\<forall>d \<in> set (broadcast_frame i (FrameHeader_encode h @ payload) r). snd (snd d) = wire) \<and>
     parse_relay_frame wire =
       Some (ap_peer_index p, h\<lparr>fh_level_dbov := clamp_level (fh_level_dbov h)\<rparr>, payload) \<and>
     filter (\<lambda>d. fst d = j) (broadcast_frame i (FrameHeader_encode h @ payload) r) = [(j, ap_audio_tx q, wire)] \<and>
     i \<notin> fst ` set (broadcast_frame i (FrameHeader_encode h @ payload) r) \<and>
     broadcast_frame i (FrameHeader_encode h @ payload) r = deliver_prefixed (ap_peer_index p) wire r"
proof (intro exI conjI)
  have ok: "room_ok r" using assms(1) by (rule room.reach_inv)
  then have wf: "hm_wf (room_peers r)" by (simp add: room_ok_def seats_ok_def)
  let ?wire = "ap_peer_index p # FrameHeader_encode h @ payload"
  have "\<not> 3 \<le> ap_protocol_version p" using assms(5) by simp
  then have out: "broadcast_frame i (FrameHeader_encode h @ payload) r =
      map (\<lambda>(k, q). (k, ap_audio_tx q, ?wire)) (filter (\<lambda>(k, _). k \<noteq> i) (room_peers r))"
    using assms(2) by (simp add: broadcast_frame_def)
  show "\<forall>d \<in> set (broadcast_frame i (FrameHeader_encode h @ payload) r). snd (snd d) = ?wire"
    and "i \<notin> fst ` set (broadcast_frame i (FrameHeader_encode h @ payload) r)"
    unfolding out by auto
  show "parse_relay_frame ?wire =
      Some (ap_peer_index p, h\<lparr>fh_level_dbov := clamp_level (fh_level_dbov h)\<rparr>, payload)"
    using assms(6) by (simp add: parse_relay_frame_def parse_encode)
  show "filter (\<lambda>d. fst d = j) (broadcast_frame i (FrameHeader_encode h @ payload) r) =
      [(j, ap_audio_tx q, ?wire)]"
  proof -
    have "filter (\<lambda>x. fst x \<noteq> i \<and> fst x = j) (room_peers r) = filter (\<lambda>x. fst x = j) (room_peers r)"
      using assms(4) by (intro filter_cong) auto
    then show ?thesis
      using hm_filter_key [OF wf assms(3)] by (simp add: out filter_map comp_def case_prod_beta)
  qed
  show "broadcast_frame i (FrameHeader_encode h @ payload) r = deliver_prefixed (ap_peer_index p) ?wire r"
    unfolding out deliver_prefixed_def
  proof (rule arg_cong [where f = "map _"], rule filter_cong [OF refl])
    fix x assume "x \<in> set (room_peers r)"
    then have "hm_get (room_peers r) (fst x) = Some (snd x)" using hm_entries_get [OF wf, of "fst x" "snd x"] by simp
    then show "(case x of (k, _) \<Rightarrow> k \<noteq> i) = (case x of (_, q) \<Rightarrow> ap_peer_index q \<noteq> ap_peer_index p)"
      using seat_owner [OF ok] assms(2) by (auto simp: case_prod_beta)
  qed
qed

theorem frame_path_witness:
  "\<exists>wire. filter (\<lambda>d. fst d = 11)
     (broadcast_frame 10 (FrameHeader_encode \<lparr>fh_seq = 1, fh_ts_48k = 960, fh_level_dbov = - 40,
        fh_flags = 0\<rparr> @ [42]) sample_room) = [(11, 1, wire)]"
proof -
  let ?p = "\<lparr>ap_pubkey = ''alice'', ap_audio_tx = 0, ap_ctrl_tx = 0, ap_peer_index = 0,
      ap_epoch = 0, ap_protocol_version = 2\<rparr> :: (nat, nat) AudioPeer"
  let ?q = "\<lparr>ap_pubkey = ''bob'', ap_audio_tx = 1, ap_ctrl_tx = 1, ap_peer_index = 1,
      ap_epoch = 0, ap_protocol_version = 2\<rparr> :: (nat, nat) AudioPeer"
  have "hm_get (room_peers sample_room) 10 = Some ?p" "hm_get (room_peers sample_room) 11 = Some ?q"
    by (simp_all add: sample_room_eval hm_get_def)
  note path = frame_path [OF sample_room_reach this]
  have "(11::uuid) \<noteq> 10" "ap_protocol_version ?p < 3" "[42::u8] \<noteq> []" "ap_audio_tx ?q = 1" by simp_all
  with path show ?thesis by metis
qed

section \<open>The registry\<close>

definition manager_ok :: "('a, 'c) AudioRoomManager \<Rightarrow> bool" where
  "manager_ok m \<longleftrightarrow> hm_wf m \<and> (\<forall>e \<in> set m. room_ok (snd e) \<and>
     fst e = (room_community_id (snd e), room_channel_id (snd e)))"

inductive manager_step :: "('a, 'c) AudioRoomManager \<Rightarrow> ('a, 'c) AudioRoomManager \<Rightarrow> bool" where
  create: "manager_step m (fst (get_or_create community channel m))"
| cleanup: "manager_step m (fst (cleanup_if_empty community channel m))"
| in_room: "hm_get m key = Some r \<Longrightarrow> room_step r r' \<Longrightarrow> manager_step m (hm_insert key r' m)"

lemma step_labels:
  assumes "room_step r r'"
  shows "room_community_id r' = room_community_id r \<and> room_channel_id r' = room_channel_id r"
  using assms
  by cases (auto simp: add_peer_def add_peer_at_index_def admit_def Let_def remove_peer_def
      remove_peer_and_check_ended_def release_peer_def mark_ended_def clear_ended_def
      broadcast_control_def split: option.splits prod.splits)

lemma set_hm_insert: "set (hm_insert k v m) \<subseteq> insert (k, v) (set m)"
  by (induction m) auto

lemma manager_ok_insert:
  "manager_ok m \<Longrightarrow> room_ok r \<Longrightarrow> manager_ok (hm_insert (room_community_id r, room_channel_id r) r m)"
  unfolding manager_ok_def using set_hm_insert [of "(room_community_id r, room_channel_id r)" r m]
  by fastforce

interpretation rooms: invariant_system "\<lambda>m. m = manager_new" manager_step manager_ok
proof unfold_locales
  show "m = manager_new \<Longrightarrow> manager_ok m" for m :: "('a, 'c) AudioRoomManager"
    by (simp add: manager_new_def manager_ok_def)
  show "manager_step m m' \<Longrightarrow> manager_ok m \<Longrightarrow> manager_ok m'" for m m' :: "('a, 'c) AudioRoomManager"
  proof (induction rule: manager_step.induct)
    case (create m community channel)
    have "room_ok (room_new community channel :: ('a, 'c) Room)"
      by (rule room.init_inv) (auto simp: room_start_def)
    from manager_ok_insert [OF create this] create show ?case
      by (auto simp: get_or_create_def room_new_def Let_def split: option.splits)
  next
    case (cleanup m community channel)
    then show ?case
      by (auto simp: cleanup_if_empty_def manager_ok_def hm_remove_def hm_wf_filter split: option.splits)
  next
    case (in_room m key r r')
    then have "room_ok r" and key: "key = (room_community_id r, room_channel_id r)"
      using hm_get_SomeD [OF in_room(1)] by (auto simp: manager_ok_def)
    then have "room_ok r'" using room.step_inv in_room(2) by blast
    with manager_ok_insert [OF in_room(3) this] key step_labels [OF in_room(2)] show ?case by simp
  qed
qed

definition sample_rooms :: "(nat, nat) AudioRoomManager" where
  "sample_rooms = fst (get_or_create 7 8 manager_new)"

lemma sample_rooms_reach: "reach (\<lambda>m. m = manager_new) manager_step sample_rooms"
  unfolding sample_rooms_def
proof (rule reach.next_state)
  show "reach (\<lambda>m. m = manager_new) manager_step (manager_new :: (nat, nat) AudioRoomManager)"
    by (simp add: reach.start)
qed (rule manager_step.create)

text \<open>
  Tenant isolation: channel ids may repeat across communities. A lookup by community and
  channel only ever returns the room with these labels, whose state satisfies the room
  invariant; the lookup by channel alone answers exactly when a single community has a room on
  that channel, and then with that community's room.
\<close>

theorem registry_isolation:
  assumes "reach (\<lambda>m. m = manager_new) manager_step m"
  shows "pred_option (\<lambda>r. room_ok r \<and> room_community_id r = community \<and> room_channel_id r = channel)
           (get_room community channel m) \<and>
         (get_unambiguous_by_channel channel m = Some r \<longleftrightarrow>
            (\<exists>c. get_room c channel m = Some r \<and> (\<forall>c'. get_room c' channel m \<noteq> None \<longrightarrow> c' = c)))"
proof -
  have ok: "manager_ok m" using assms by (rule rooms.reach_inv)
  then have wf: "hm_wf m" by (simp add: manager_ok_def)
  let ?hits = "filter (\<lambda>p. snd (fst p) = channel) m"
  have hit: "((c, channel), x) \<in> set ?hits \<longleftrightarrow> get_room c channel m = Some x" for c x
    using hm_entries_get [OF wf] by (simp add: get_room_def)
  have shape: "fst e = (fst (fst e), channel)" if "e \<in> set ?hits" for e using that by auto
  have dist: "distinct (map fst ?hits)" using wf by (simp add: hm_wf_def distinct_map_filter)
  have "get_unambiguous_by_channel channel m = Some r \<longleftrightarrow> (\<exists>e. ?hits = [e] \<and> snd e = r)"
    by (auto simp: get_unambiguous_by_channel_def split: list.splits)
  also have "\<dots> \<longleftrightarrow> (\<exists>c. ?hits = [((c, channel), r)])"
    using shape by (metis list.set_intros(1) prod.collapse snd_conv)
  also have "\<dots> \<longleftrightarrow> (\<exists>c. set ?hits = {((c, channel), r)})"
    using distinct_set_singleton [of ?hits] dist by (simp add: distinct_map)
  also have "\<dots> \<longleftrightarrow> (\<exists>c. get_room c channel m = Some r \<and>
      (\<forall>c'. get_room c' channel m \<noteq> None \<longrightarrow> c' = c))"
    using hit shape by (auto simp: set_eq_iff) (metis option.inject prod.collapse)+
  finally show ?thesis
    using ok hm_get_SomeD [of m "(community, channel)"]
    by (cases "get_room community channel m") (auto simp: get_room_def manager_ok_def)
qed

theorem registry_isolation_witness: "get_unambiguous_by_channel 8 sample_rooms = Some (room_new 7 8)"
proof -
  have "get_room c 8 sample_rooms = (if c = 7 then Some (room_new 7 8) else None)" for c
    by (simp add: sample_rooms_def manager_new_def get_or_create_def get_room_def Let_def hm_get_def)
  with registry_isolation [OF sample_rooms_reach, of 7 8 "room_new 7 8"] show ?thesis by simp
qed

end
