(* ===== verification/Mesh_Wire.thy ===== *)
theory Mesh_Wire
  imports Nostr_Event
begin

text \<open>
  The vocabulary of the relay mesh: frames and headers of
  \<^verbatim>\<open>crates/buzz-relay-mesh/src/wire.rs\<close> and the error type of
  \<^verbatim>\<open>crates/buzz-relay-mesh/src/lib.rs\<close>. The 32 bytes of a runtime id are a 256-bit word. The
  postcard encoding of the frames is third-party code; where a component encodes or decodes, the
  outcome is a parameter of the definition.
\<close>

type_synonym RuntimeId = "256 word"
type_synonym u64 = "64 word"

record FencedHeader =
  fenced_session_id :: uuid
  fenced_generation :: u64
  fenced_owner :: RuntimeId

datatype Profile = ReliableStream | RealtimeMedia | HuddleControl

datatype StreamRole = Control | Session FencedHeader Profile

record StreamHello =
  hello_sender :: RuntimeId
  hello_role :: StreamRole

datatype GoodbyeReason = GoodbyeSessionEnded | GoodbyeDraining | GoodbyeStaleGeneration

datatype MeshStreamFrame =
  Hello StreamHello
| Data FencedHeader "8 word list"
| Goodbye FencedHeader GoodbyeReason
| Gossip "8 word list"

text \<open>The payload of the third-party errors (postcard, redis) is not looked at by the code.\<close>

datatype MeshError =
  EncodeError
| DecodeError
| UnknownWireVersion "8 word"
| EmptyFrame
| FrameTooLarge nat nat
| DatagramTooLarge nat nat
| PeerNotConnected RuntimeId
| PeerDraining RuntimeId
| StaleGeneration uuid u64 u64
| NoActiveLease uuid u64 u64 RuntimeId
| OwnerMismatch uuid u64 RuntimeId RuntimeId
| FutureGeneration uuid u64 u64
| Disabled
| Transport string
| Redis

end
