(* ===== verification/Huddle_Control.thy ===== *)
theory Huddle_Control
  imports Audio_Room Mesh_Wire
begin

text \<open>
  Cross-pod huddles, \<^verbatim>\<open>crates/buzz-relay/src/audio/join.rs\<close>: the owner side that serves one
  \<open>HuddleControl\<close> stream of another pod (\<open>accept_inbound\<close>, \<open>serve_control_loop\<close>,
  \<open>register_remote_peer\<close>) and the non-owner side that follows the owner's roster
  (\<open>read_owner_control\<close>).
  \<^item> The asynchronous loops are functions over the sequence of what their \<open>select!\<close> or
    \<open>recv_frame\<close> yields. An element carries, besides the event, what the environment answers
    during that round: the result of the Redis fence, of encoding, of sending, the drain flag,
    the fresh peer id and channels, and (\<open>env_world\<close>) what other tasks did to the rooms while
    this one was suspended.
  \<^item> A \<open>break\<close> of the owner's loop runs the teardown below it; the \<open>?\<close> operator returns from the
    function. The two exits are kept apart.
  \<^item> The JSON text of a client message is \<open>render\<close> of its fields, a parameter.
\<close>

section \<open>Messages\<close>

record RosterEntry =
  re_pubkey :: pubkey
  re_peer_index :: u8
  re_epoch :: u8

definition RosterEntry_from :: "RosterPeer \<Rightarrow> RosterEntry" where
  "RosterEntry_from p = \<lparr>re_pubkey = rp_pubkey p, re_peer_index = rp_peer_index p, re_epoch = rp_epoch p\<rparr>"

datatype FenceRejection =
  FenceStaleGeneration | FenceNoActiveLease | FenceOwnerMismatch | FenceFutureGeneration

datatype RegisterRejection =
  RoomFull | RoomEnded | RejectedVersion u8 u8 | Fenced FenceRejection

datatype HuddleControlMsg =
  RegisterPeer uuid pubkey u8
| PeerRegistered pubkey u8 u8 u64 "RosterEntry list"
| MsgRosterSnapshot u64 "RosterEntry list"
| MsgRosterDelta u64 "RosterEntry option" "RosterEntry option"
| RosterResync
| RegisterRejected pubkey RegisterRejection
| UnregisterPeer pubkey

text \<open>The JSON messages a client receives.\<close>

datatype ClientMsg =
  ClientRoster u64 "RosterEntry list"
| ClientJoined u64 RosterEntry
| ClientLeft u64 RosterEntry

definition fence_from_mesh_error :: "MeshError \<Rightarrow> FenceRejection option" where
  "fence_from_mesh_error e =
     (case e of
        StaleGeneration _ _ _ \<Rightarrow> Some FenceStaleGeneration
      | NoActiveLease _ _ _ _ \<Rightarrow> Some FenceNoActiveLease
      | OwnerMismatch _ _ _ _ \<Rightarrow> Some FenceOwnerMismatch
      | FutureGeneration _ _ _ \<Rightarrow> Some FenceFutureGeneration
      | _ \<Rightarrow> None)"

fun fence_code :: "FenceRejection \<Rightarrow> string" where
  "fence_code FenceStaleGeneration = ''stale_generation''"
| "fence_code FenceNoActiveLease = ''no_active_lease''"
| "fence_code FenceOwnerMismatch = ''owner_mismatch''"
| "fence_code FenceFutureGeneration = ''future_generation''"

fun admission_to_rejection :: "AdmissionError \<Rightarrow> RegisterRejection" where
  "admission_to_rejection Full = RoomFull"
| "admission_to_rejection Ended = RoomEnded"
| "admission_to_rejection (VersionMismatch p r) = RejectedVersion p r"

definition snapshot_entries :: "('a, 'c) Room \<Rightarrow> RosterEntry list" where
  "snapshot_entries room = map RosterEntry_from (rs_peers (roster_snapshot room))"

definition roster_snapshot_msg :: "('a, 'c) Room \<Rightarrow> HuddleControlMsg" where
  "roster_snapshot_msg room = MsgRosterSnapshot (rs_revision (roster_snapshot room)) (snapshot_entries room)"

definition roster_delta_msg :: "RosterDelta \<Rightarrow> HuddleControlMsg" where
  "roster_delta_msg d =
     MsgRosterDelta (rd_revision d) (map_option RosterEntry_from (rd_joined d))
       (map_option RosterEntry_from (rd_left d))"

section \<open>Owner side\<close>

text \<open>What the environment answers in one round.\<close>

record ('a, 'c) round_env =
  env_draining :: bool
  env_fence :: "MeshError option"
  env_encode :: "MeshError option"
  env_send :: "MeshError option"
  env_peer_id :: uuid
  env_audio_tx :: 'a
  env_ctrl_tx :: 'c
  env_world :: "('a, 'c) AudioRoomManager \<Rightarrow> ('a, 'c) AudioRoomManager"

datatype received = Frame MeshStreamFrame | CleanClose | RecvError MeshError

datatype roster_recv = Delta RosterDelta | Lagged | RosterClosed

datatype owner_event = DrainFired | LostFired | RosterEvent roster_recv | StreamEvent received

record ('a, 'c) owner_loop =
  ol_rooms :: "('a, 'c) AudioRoomManager"
  ol_registered :: "(pubkey, uuid) hmap"
  ol_community :: "uuid option"
  ol_following :: bool
  ol_sent :: "HuddleControlMsg list"

datatype loop_exit = Break "MeshError option" "GoodbyeReason option" | EarlyReturn MeshError

text \<open>The parameters that stand for third-party code: decoding, JSON text, control channels.\<close>

record 'c stream_env =
  decode_control :: "bytes \<Rightarrow> HuddleControlMsg option"
  render :: "ClientMsg \<Rightarrow> string"
  try_send :: "'c \<Rightarrow> PeerCtrl \<Rightarrow> 'c option"
  closed_tx :: 'c

definition control_all :: "'c stream_env \<Rightarrow> ClientMsg \<Rightarrow> ('a, 'c) Room \<Rightarrow> ('a, 'c) Room" where
  "control_all se msg room = broadcast_control (try_send se) (closed_tx se) (render se msg) room"

definition broadcast_peer_left ::
  "'c stream_env \<Rightarrow> RosterDelta \<Rightarrow> ('a, 'c) Room \<Rightarrow> ('a, 'c) Room" where
  "broadcast_peer_left se delta room =
     (case rd_left delta of
        None \<Rightarrow> room
      | Some left \<Rightarrow> control_all se (ClientLeft (rd_revision delta) (RosterEntry_from left)) room)"

text \<open>Removal of one registered peer from the stream's room, if both still exist.\<close>

definition drop_registered ::
  "'c stream_env \<Rightarrow> uuid option \<Rightarrow> uuid \<Rightarrow> uuid \<Rightarrow> ('a, 'c) AudioRoomManager \<Rightarrow> ('a, 'c) AudioRoomManager" where
  "drop_registered se community session_id peer_id rooms =
     (case community of
        None \<Rightarrow> rooms
      | Some c \<Rightarrow>
          (case get_room c session_id rooms of
             None \<Rightarrow> rooms
           | Some room \<Rightarrow>
               (case remove_peer peer_id room of
                  (room', Some delta) \<Rightarrow>
                    hm_insert (c, session_id) (broadcast_peer_left se delta room') rooms
                | (room', None) \<Rightarrow> hm_insert (c, session_id) room' rooms)))"

definition register_remote_peer ::
  "'c stream_env \<Rightarrow> ('a, 'c) round_env \<Rightarrow> pubkey \<Rightarrow> u8 \<Rightarrow> ('a, 'c) Room \<Rightarrow> (pubkey, uuid) hmap \<Rightarrow>
     ('a, 'c) Room \<times> (pubkey, uuid) hmap \<times> HuddleControlMsg" where
  "register_remote_peer se env pk version room registered =
     (case add_peer pk version (env_peer_id env) (env_audio_tx env) (env_ctrl_tx env) room of
        (room', Inr (peer_id, idx, epoch, revision)) \<Rightarrow>
          (let entry = \<lparr>re_pubkey = pk, re_peer_index = idx, re_epoch = epoch\<rparr>;
               room'' = control_all se (ClientJoined revision entry) room'
           in (room'', hm_insert pk peer_id registered,
               PeerRegistered pk idx epoch (rs_revision (roster_snapshot room''))
                 (snapshot_entries room'')))
      | (room', Inl reason) \<Rightarrow> (room', registered, RegisterRejected pk (admission_to_rejection reason)))"

definition is_peer_registered :: "HuddleControlMsg \<Rightarrow> bool" where
  "is_peer_registered m = (case m of PeerRegistered _ _ _ _ _ \<Rightarrow> True | _ \<Rightarrow> False)"

text \<open>\<open>stream.send_frame(Data {payload: encode_control(&msg)?}).await?\<close>: both failures return.\<close>

definition send_or_return ::
  "('a, 'c) round_env \<Rightarrow> HuddleControlMsg \<Rightarrow> ('a, 'c) owner_loop \<Rightarrow> ('a, 'c) owner_loop \<times> loop_exit option" where
  "send_or_return env msg st =
     (case env_encode env of
        Some e \<Rightarrow> (st, Some (EarlyReturn e))
      | None \<Rightarrow>
          (case env_send env of
             Some e \<Rightarrow> (st, Some (EarlyReturn e))
           | None \<Rightarrow> (st\<lparr>ol_sent := ol_sent st @ [msg]\<rparr>, None)))"

definition on_register ::
  "'c stream_env \<Rightarrow> ('a, 'c) round_env \<Rightarrow> uuid \<Rightarrow> uuid \<Rightarrow> pubkey \<Rightarrow> u8 \<Rightarrow> ('a, 'c) owner_loop \<Rightarrow>
     ('a, 'c) owner_loop \<times> loop_exit option" where
  "on_register se env session_id community pk version st0 =
     (if ol_community st0 \<noteq> None \<and> ol_community st0 \<noteq> Some community
      then (st0, Some (Break (Some (Transport ''huddle-control stream community changed'')) None))
      else
        (let st = st0\<lparr>ol_community := Some community\<rparr> in
         if env_draining env then (st, Some (Break None (Some GoodbyeDraining)))
         else
           (let (rooms, room) = get_or_create community session_id (ol_rooms st);
                st1 = st\<lparr>ol_rooms := rooms\<rparr>;
                answer = (case env_fence env of
                   None \<Rightarrow>
                     (let (room', registered', reply) =
                        register_remote_peer se env pk version room (ol_registered st1)
                      in Inr (st1\<lparr>ol_rooms := hm_insert (community, session_id) room' rooms,
                                  ol_registered := registered'\<rparr>, reply))
                 | Some e \<Rightarrow>
                     (case fence_from_mesh_error e of
                        Some reason \<Rightarrow> Inr (st1, RegisterRejected pk (Fenced reason))
                      | None \<Rightarrow> Inl e))
            in case answer of
                 Inl e \<Rightarrow> (st1, Some (Break (Some e) None))
               | Inr (st2, reply) \<Rightarrow>
                   (case env_encode env of
                      Some e \<Rightarrow> (st2, Some (EarlyReturn e))
                    | None \<Rightarrow>
                        (case env_send env of
                           Some e \<Rightarrow> (st2, Some (Break (Some e) None))
                         | None \<Rightarrow>
                             (st2\<lparr>ol_sent := ol_sent st2 @ [reply],
                                  ol_following := ol_following st2 \<or> is_peer_registered reply\<rparr>,
                              None))))))"

definition on_message ::
  "'c stream_env \<Rightarrow> ('a, 'c) round_env \<Rightarrow> uuid \<Rightarrow> HuddleControlMsg \<Rightarrow> ('a, 'c) owner_loop \<Rightarrow>
     ('a, 'c) owner_loop \<times> loop_exit option" where
  "on_message se env session_id msg st =
     (case msg of
        RegisterPeer community pk version \<Rightarrow> on_register se env session_id community pk version st
      | UnregisterPeer pk \<Rightarrow>
          (case hm_get (ol_registered st) pk of
             None \<Rightarrow> (st, None)
           | Some peer_id \<Rightarrow>
               (st\<lparr>ol_registered := hm_remove pk (ol_registered st),
                   ol_rooms := drop_registered se (ol_community st) session_id peer_id (ol_rooms st)\<rparr>,
                None))
      | RosterResync \<Rightarrow>
          (case ol_community st of
             None \<Rightarrow> (st, Some (Break None None))
           | Some c \<Rightarrow>
               (case get_room c session_id (ol_rooms st) of
                  None \<Rightarrow> (st, Some (Break None None))
                | Some room \<Rightarrow> send_or_return env (roster_snapshot_msg room) st))
      | _ \<Rightarrow> (st, Some (Break (Some (Transport
              ''huddle-control owner received an owner-to-non-owner reply'')) None)))"

definition on_frame ::
  "'c stream_env \<Rightarrow> ('a, 'c) round_env \<Rightarrow> RuntimeId \<Rightarrow> FencedHeader \<Rightarrow> received \<Rightarrow> ('a, 'c) owner_loop \<Rightarrow>
     ('a, 'c) owner_loop \<times> loop_exit option" where
  "on_frame se env local_runtime_id fenced r st =
     (case r of
        Frame (Data f payload) \<Rightarrow>
          if f \<noteq> fenced then
            (st, Some (Break (Some (OwnerMismatch (fenced_session_id fenced) (fenced_generation f)
                    (fenced_owner f) local_runtime_id)) None))
          else (case decode_control se payload of
                  Some m \<Rightarrow> on_message se env (fenced_session_id fenced) m st
                | None \<Rightarrow> (st, Some (Break (Some DecodeError) None)))
      | Frame (Goodbye _ _) \<Rightarrow> (st, Some (Break None None))
      | CleanClose \<Rightarrow> (st, Some (Break None None))
      | Frame _ \<Rightarrow> (st, Some (Break (Some (Transport
              ''huddle-control stream got unexpected frame'')) None))
      | RecvError e \<Rightarrow> (st, Some (Break (Some e) None)))"

definition on_roster_event ::
  "('a, 'c) round_env \<Rightarrow> uuid \<Rightarrow> roster_recv \<Rightarrow> ('a, 'c) owner_loop \<Rightarrow>
     ('a, 'c) owner_loop \<times> loop_exit option" where
  "on_roster_event env session_id ev st =
     (case ev of
        Delta d \<Rightarrow> send_or_return env (roster_delta_msg d) st
      | Lagged \<Rightarrow>
          (case ol_community st of
             None \<Rightarrow> (st, Some (Break None None))
           | Some c \<Rightarrow>
               (case get_room c session_id (ol_rooms st) of
                  None \<Rightarrow> (st, Some (Break None None))
                | Some room \<Rightarrow> send_or_return env (roster_snapshot_msg room) st))
      | RosterClosed \<Rightarrow> (st, Some (Break None None)))"

text \<open>One round. A roster event is only selected once the stream follows the roster.\<close>

definition owner_round ::
  "'c stream_env \<Rightarrow> RuntimeId \<Rightarrow> FencedHeader \<Rightarrow> owner_event \<times> ('a, 'c) round_env \<Rightarrow>
     ('a, 'c) owner_loop \<Rightarrow> ('a, 'c) owner_loop \<times> loop_exit option" where
  "owner_round se local_runtime_id fenced ee st0 =
     (let st = st0\<lparr>ol_rooms := env_world (snd ee) (ol_rooms st0)\<rparr> in
      case fst ee of
        DrainFired \<Rightarrow> (st, Some (Break None (Some GoodbyeDraining)))
      | LostFired \<Rightarrow> (st, Some (Break None (Some GoodbyeStaleGeneration)))
      | RosterEvent ev \<Rightarrow>
          if ol_following st then on_roster_event (snd ee) (fenced_session_id fenced) ev st
          else (st, None)
      | StreamEvent r \<Rightarrow> on_frame se (snd ee) local_runtime_id fenced r st)"

definition owner_teardown ::
  "'c stream_env \<Rightarrow> uuid \<Rightarrow> ('a, 'c) owner_loop \<Rightarrow> ('a, 'c) owner_loop" where
  "owner_teardown se session_id st =
     st\<lparr>ol_rooms := fold (\<lambda>e. drop_registered se (ol_community st) session_id (snd e))
          (ol_registered st) (ol_rooms st)\<rparr>"

fun serve_control_loop ::
  "'c stream_env \<Rightarrow> RuntimeId \<Rightarrow> FencedHeader \<Rightarrow> (owner_event \<times> ('a, 'c) round_env) list \<Rightarrow>
     ('a, 'c) owner_loop \<Rightarrow> ('a, 'c) owner_loop \<times> loop_exit option" where
  "serve_control_loop se rid fenced [] st = (st, None)"
| "serve_control_loop se rid fenced (ee # rest) st =
     (case owner_round se rid fenced ee st of
        (st', None) \<Rightarrow> serve_control_loop se rid fenced rest st'
      | (st', Some (Break res why)) \<Rightarrow>
          (owner_teardown se (fenced_session_id fenced) st', Some (Break res why))
      | (st', Some (EarlyReturn e)) \<Rightarrow> (st', Some (EarlyReturn e)))"

definition fresh_loop :: "('a, 'c) AudioRoomManager \<Rightarrow> ('a, 'c) owner_loop" where
  "fresh_loop rooms = \<lparr>ol_rooms = rooms, ol_registered = [], ol_community = None,
     ol_following = False, ol_sent = []\<rparr>"

definition accept_inbound ::
  "'c stream_env \<Rightarrow> RuntimeId \<Rightarrow> RuntimeId \<Rightarrow> StreamHello \<Rightarrow> (owner_event \<times> ('a, 'c) round_env) list \<Rightarrow>
     ('a, 'c) AudioRoomManager \<Rightarrow> MeshError + ('a, 'c) owner_loop \<times> loop_exit option" where
  "accept_inbound se local_runtime_id from hello events rooms =
     (if hello_sender hello \<noteq> from
      then Inl (Transport ''huddle-control hello.sender is not the authenticated peer'')
      else
        (case hello_role hello of
           Control \<Rightarrow> Inl (Transport ''huddle-control stream Hello was not a session role'')
         | Session fenced profile \<Rightarrow>
             if profile \<noteq> HuddleControl
             then Inl (Transport ''huddle-control acceptor got another profile'')
             else if fenced_owner fenced \<noteq> local_runtime_id
             then Inl (OwnerMismatch (fenced_session_id fenced) (fenced_generation fenced)
                    (fenced_owner fenced) local_runtime_id)
             else Inr (serve_control_loop se local_runtime_id fenced events (fresh_loop rooms))))"

section \<open>Non-owner side\<close>

datatype HuddleTeardownCause = OwnerLost | OwnerDraining | SessionEnded | StreamClosed

fun from_goodbye :: "GoodbyeReason \<Rightarrow> HuddleTeardownCause" where
  "from_goodbye GoodbyeStaleGeneration = OwnerLost"
| "from_goodbye GoodbyeDraining = OwnerDraining"
| "from_goodbye GoodbyeSessionEnded = SessionEnded"

text \<open>The state of the reader: its revision, what it passed to the client, how many resync
  requests it sent. An input is what was received and whether the send of that round works.\<close>

record roster_reader =
  rr_revision :: u64
  rr_forwarded :: "ClientMsg list"
  rr_resyncs :: nat

definition forward ::
  "ClientMsg \<Rightarrow> bool \<Rightarrow> roster_reader \<Rightarrow> roster_reader \<times> HuddleTeardownCause option" where
  "forward msg ok rr =
     (if ok then (rr\<lparr>rr_forwarded := rr_forwarded rr @ [msg]\<rparr>, None) else (rr, Some SessionEnded))"

definition reader_message ::
  "HuddleControlMsg \<Rightarrow> bool \<Rightarrow> roster_reader \<Rightarrow> roster_reader \<times> HuddleTeardownCause option" where
  "reader_message msg ok rr =
     (case msg of
        MsgRosterSnapshot nxt peers \<Rightarrow> forward (ClientRoster nxt peers) ok (rr\<lparr>rr_revision := nxt\<rparr>)
      | MsgRosterDelta nxt joined left \<Rightarrow>
          if nxt = rr_revision rr + 1 then
            (let rr' = rr\<lparr>rr_revision := nxt\<rparr> in
             case joined of
               Some peer \<Rightarrow> forward (ClientJoined nxt peer) ok rr'
             | None \<Rightarrow>
                 (case left of
                    Some peer \<Rightarrow> forward (ClientLeft nxt peer) ok rr'
                  | None \<Rightarrow> (rr', None)))
          else if nxt \<le> rr_revision rr then (rr, None)
          else if ok then (rr\<lparr>rr_resyncs := Suc (rr_resyncs rr)\<rparr>, None)
          else (rr, Some StreamClosed)
      | _ \<Rightarrow> (rr, None))"

definition reader_round ::
  "(bytes \<Rightarrow> HuddleControlMsg option) \<Rightarrow> received \<times> bool \<Rightarrow> roster_reader \<Rightarrow>
     roster_reader \<times> HuddleTeardownCause option" where
  "reader_round decode inp rr =
     (case fst inp of
        Frame (Goodbye _ reason) \<Rightarrow> (rr, Some (from_goodbye reason))
      | Frame (Data _ payload) \<Rightarrow>
          (case decode payload of
             Some msg \<Rightarrow> reader_message msg (snd inp) rr
           | None \<Rightarrow> (rr, None))
      | Frame _ \<Rightarrow> (rr, None)
      | CleanClose \<Rightarrow> (rr, Some StreamClosed)
      | RecvError _ \<Rightarrow> (rr, Some StreamClosed))"

fun read_owner_control ::
  "(bytes \<Rightarrow> HuddleControlMsg option) \<Rightarrow> (received \<times> bool) list \<Rightarrow> roster_reader \<Rightarrow>
     roster_reader \<times> HuddleTeardownCause option" where
  "read_owner_control decode [] rr = (rr, None)"
| "read_owner_control decode (inp # rest) rr =
     (case reader_round decode inp rr of
        (rr', None) \<Rightarrow> read_owner_control decode rest rr'
      | (rr', Some cause) \<Rightarrow> (rr', Some cause))"

fun read_teardown_cause :: "received list \<Rightarrow> HuddleTeardownCause option" where
  "read_teardown_cause [] = None"
| "read_teardown_cause (r # rest) =
     (case r of
        Frame (Goodbye _ reason) \<Rightarrow> Some (from_goodbye reason)
      | Frame _ \<Rightarrow> read_teardown_cause rest
      | CleanClose \<Rightarrow> Some StreamClosed
      | RecvError _ \<Rightarrow> Some StreamClosed)"

end
