(* ===== verification/Huddle_Control_Props.thy ===== *)
theory Huddle_Control_Props
  imports Audio_Room_Props Huddle_Control
begin

text \<open>
  Correctness of the cross-pod control path: a pod that follows the owner's stream shows its
  client the authoritative roster at the revision it has reached, whatever the stream loses,
  repeats or reorders; and which exits of the owner's loop take the registered peers out of the
  room.
\<close>

section \<open>The non-owner reader\<close>

text \<open>What the client does with a forwarded message, and the owner's roster at a revision.\<close>

definition client_apply :: "ClientMsg \<Rightarrow> RosterEntry set \<Rightarrow> RosterEntry set" where
  "client_apply m es =
     (case m of
        ClientRoster _ ps \<Rightarrow> set ps
      | ClientJoined _ p \<Rightarrow> insert p es
      | ClientLeft _ p \<Rightarrow> es - {p})"

definition entries_at :: "RosterDelta list \<Rightarrow> nat \<Rightarrow> RosterEntry set" where
  "entries_at log n = RosterEntry_from ` fold apply_delta (take n log) {}"

text \<open>A message the owner may have sent at some point of the history \<open>log\<close>.\<close>

definition truthful :: "RosterDelta list \<Rightarrow> HuddleControlMsg \<Rightarrow> bool" where
  "truthful log msg =
     (case msg of
        MsgRosterSnapshot revn ps \<Rightarrow> (\<exists>n \<le> length log. revn = word_of_nat n \<and> set ps = entries_at log n)
      | MsgRosterDelta _ _ _ \<Rightarrow> (\<exists>n < length log. msg = roster_delta_msg (log ! n))
      | _ \<Rightarrow> True)"

lemma inj_RosterEntry_from: "inj RosterEntry_from"
  by (rule injI) (auto simp: RosterEntry_from_def)

lemma entries_at_Suc:
  assumes "n < length log"
  shows "entries_at log (Suc n) =
    (entries_at log n - RosterEntry_from ` set_option (rd_left (log ! n)))
      \<union> RosterEntry_from ` set_option (rd_joined (log ! n))"
  using assms
  by (simp add: entries_at_def take_Suc_conv_app_nth apply_delta_def image_Un
      image_set_diff [OF inj_RosterEntry_from])

lemma snapshot_truthful:
  assumes "room_ok r"
  shows "truthful (roster_log r) (roster_snapshot_msg r)"
proof -
  have "set (snapshot_entries r) = entries_at (roster_log r) (length (roster_log r))"
    using assms snapshot_peers [of r]
    by (simp add: snapshot_entries_def entries_at_def room_ok_def log_ok_def)
  moreover have "rs_revision (roster_snapshot r) = word_of_nat (length (roster_log r))"
    using assms by (simp add: roster_snapshot_def room_ok_def log_ok_def)
  ultimately show ?thesis by (auto simp: truthful_def roster_snapshot_msg_def)
qed

lemma delta_of_history:
  assumes "log_ok r" and "n < length (roster_log r)"
  shows "rd_revision (roster_log r ! n) = word_of_nat (Suc n)"
proof -
  have "map rd_revision (roster_log r) ! n = map (\<lambda>i. word_of_nat (Suc i)) [0..<length (roster_log r)] ! n"
    using assms(1) by (simp add: log_ok_def)
  with assms(2) show ?thesis by simp
qed

definition mirrors :: "RosterDelta list \<Rightarrow> RosterEntry set \<Rightarrow> roster_reader \<Rightarrow> nat \<Rightarrow> bool" where
  "mirrors log start rr n \<longleftrightarrow> n \<le> length log \<and>
     fold client_apply (rr_forwarded rr) start = entries_at log n"

lemma reader_message_mirrors:
  assumes ok: "log_ok r" and short: "Suc (length (roster_log r)) < 2 ^ 64"
    and inv: "mirrors (roster_log r) start rr n" "rr_revision rr = word_of_nat n"
    and "truthful (roster_log r) msg" and res: "reader_message msg b rr = (rr', ex)"
  shows "\<exists>n'. mirrors (roster_log r) start rr' n' \<and> (ex = None \<longrightarrow> rr_revision rr' = word_of_nat n')"
proof (cases msg)
  case (MsgRosterSnapshot revn ps)
  with assms(5) obtain m where "m \<le> length (roster_log r)" "revn = word_of_nat m"
    "set ps = entries_at (roster_log r) m" by (auto simp: truthful_def)
  with MsgRosterSnapshot res inv show ?thesis
    by (cases b) (auto simp: reader_message_def forward_def mirrors_def client_apply_def)
next
  case (MsgRosterDelta nxt joined left)
  with assms(5) obtain m where m: "m < length (roster_log r)" "msg = roster_delta_msg (roster_log r ! m)"
    by (auto simp: truthful_def)
  let ?d = "roster_log r ! m"
  have nxt: "nxt = word_of_nat (Suc m)" and fields: "joined = map_option RosterEntry_from (rd_joined ?d)"
      "left = map_option RosterEntry_from (rd_left ?d)"
    using MsgRosterDelta m delta_of_history [OF ok m(1)] by (auto simp: roster_delta_msg_def)
  show ?thesis
  proof (cases "nxt = rr_revision rr + 1")
    case False
    with MsgRosterDelta res inv show ?thesis
      by (auto simp: reader_message_def mirrors_def split: if_splits)
  next
    case True
    then have "word_of_nat (Suc m) = (word_of_nat (Suc n) :: u64)" using nxt inv(2) by (simp add: add.commute)
    moreover have "Suc m < 2 ^ 64" "Suc n < 2 ^ 64"
      using m(1) short inv(1) by (auto simp: mirrors_def)
    ultimately have "m = n"
      by (simp add: word_of_nat_eq_iff take_bit_nat_eq_self)
    have xor: "rd_joined ?d = None \<longleftrightarrow> rd_left ?d \<noteq> None" using ok m(1) by (simp add: log_ok_def)
    have reply: "reader_message msg b rr =
        (case rd_joined ?d of
           Some p \<Rightarrow> forward (ClientJoined nxt (RosterEntry_from p)) b (rr\<lparr>rr_revision := nxt\<rparr>)
         | None \<Rightarrow> forward (ClientLeft nxt (RosterEntry_from (the (rd_left ?d)))) b
                     (rr\<lparr>rr_revision := nxt\<rparr>))"
      using True xor unfolding MsgRosterDelta
      by (auto simp: reader_message_def Let_def fields split: option.splits)
    show ?thesis
    proof (cases b)
      case True
      have "rr_revision rr' = word_of_nat (Suc n)"
        using res True nxt \<open>m = n\<close> unfolding reply
        by (cases "rd_joined ?d") (auto simp: forward_def)
      moreover have "fold client_apply (rr_forwarded rr') start = entries_at (roster_log r) (Suc n)"
      proof (cases "rd_joined ?d")
        case None
        with xor obtain p where "rd_left ?d = Some p" by blast
        with None res True have
          "rr_forwarded rr' = rr_forwarded rr @ [ClientLeft nxt (RosterEntry_from p)]"
          unfolding reply by (auto simp: forward_def)
        with None \<open>rd_left ?d = Some p\<close> inv(1) show ?thesis
          using entries_at_Suc [OF m(1)] unfolding \<open>m = n\<close>
          by (simp add: mirrors_def client_apply_def)
      next
        case (Some p)
        with res True have
          "rr_forwarded rr' = rr_forwarded rr @ [ClientJoined nxt (RosterEntry_from p)]"
          unfolding reply by (auto simp: forward_def)
        moreover have "rd_left ?d = None" using Some xor by simp
        ultimately show ?thesis
          using Some inv(1) entries_at_Suc [OF m(1)] unfolding \<open>m = n\<close>
          by (simp add: mirrors_def client_apply_def)
      qed
      ultimately show ?thesis using m(1) \<open>m = n\<close> by (auto simp: mirrors_def intro!: exI [of _ "Suc n"])
    next
      case False
      with res inv(1) show ?thesis
        unfolding reply by (auto simp: forward_def mirrors_def split: option.splits)
    qed
  qed
qed (use res inv in \<open>auto simp: reader_message_def\<close>)

lemma reader_loop_mirrors:
  assumes ok: "log_ok r" and short: "Suc (length (roster_log r)) < 2 ^ 64"
    and told: "\<And>p m. decode p = Some m \<Longrightarrow> truthful (roster_log r) m"
  shows "mirrors (roster_log r) start rr n \<Longrightarrow> rr_revision rr = word_of_nat n \<Longrightarrow>
     read_owner_control decode inputs rr = (rr', ex) \<Longrightarrow>
     \<exists>n'. mirrors (roster_log r) start rr' n' \<and> (ex = None \<longrightarrow> rr_revision rr' = word_of_nat n')"
proof (induction inputs arbitrary: rr n)
  case Nil
  then show ?case by auto
next
  case (Cons inp rest)
  obtain rr1 ex1 where r1: "reader_round decode inp rr = (rr1, ex1)" by fastforce
  have "\<exists>n1. mirrors (roster_log r) start rr1 n1 \<and> (ex1 = None \<longrightarrow> rr_revision rr1 = word_of_nat n1)"
  proof (cases "\<exists>f payload msg. fst inp = Frame (Data f payload) \<and> decode payload = Some msg")
    case True
    then obtain f payload msg where "fst inp = Frame (Data f payload)" "decode payload = Some msg" by blast
    with r1 reader_message_mirrors [OF ok short Cons.prems(1,2) told] show ?thesis
      by (auto simp: reader_round_def)
  next
    case False
    with r1 have "rr1 = rr"
      by (auto simp: reader_round_def split: received.splits MeshStreamFrame.splits option.splits)
    with Cons.prems show ?thesis by auto
  qed
  with Cons r1 show ?case by (cases ex1) auto
qed


definition sample_decode :: "bytes \<Rightarrow> HuddleControlMsg option" where
  "sample_decode p = (if p = [1] then Some (roster_delta_msg (roster_log sample_room ! 1)) else None)"


section \<open>The owner's loop\<close>

definition seated :: "('a, 'c) AudioRoomManager \<Rightarrow> uuid \<Rightarrow> uuid \<Rightarrow> uuid \<Rightarrow> bool" where
  "seated rooms c session_id peer_id \<longleftrightarrow>
     (case get_room c session_id rooms of None \<Rightarrow> False | Some room \<Rightarrow> hm_has (room_peers room) peer_id)"

definition lock_alive :: "('a, 'c) AudioRoomManager \<Rightarrow> uuid \<Rightarrow> uuid \<Rightarrow> bool" where
  "lock_alive rooms c session_id \<longleftrightarrow>
     (case get_room c session_id rooms of None \<Rightarrow> True | Some room \<Rightarrow> \<not> guard_poisoned room)"

lemma hm_has_map_values: "hm_has (map (\<lambda>(i, p). (i, f p)) m) k = hm_has m k"
  by (induction m) (auto simp: hm_has_def hm_get_Cons)

lemma peer_left_views [simp]:
  "hm_has (room_peers (broadcast_peer_left se d room)) j = hm_has (room_peers room) j"
  "guard_poisoned (broadcast_peer_left se d room) = guard_poisoned room"
  by (auto simp: broadcast_peer_left_def control_all_def broadcast_control_def hm_has_map_values
      split: option.splits)

lemma remove_peer_views:
  "remove_peer i room = (room', d) \<Longrightarrow> \<not> guard_poisoned room \<Longrightarrow>
     (hm_has (room_peers room') j \<longleftrightarrow> hm_has (room_peers room) j \<and> j \<noteq> i) \<and> \<not> guard_poisoned room'"
  by (auto simp: remove_peer_def release_peer_def Let_def hm_has_def split: option.splits if_splits)

lemma drop_registered_seated:
  assumes "lock_alive rooms c s"
  shows "seated (drop_registered se (Some c) s i rooms) c s j \<longleftrightarrow> seated rooms c s j \<and> j \<noteq> i"
    and "lock_alive (drop_registered se (Some c) s i rooms) c s"
proof -
  have "(seated (drop_registered se (Some c) s i rooms) c s j \<longleftrightarrow> seated rooms c s j \<and> j \<noteq> i) \<and>
      lock_alive (drop_registered se (Some c) s i rooms) c s"
  proof (cases "get_room c s rooms")
    case None
    then show ?thesis by (simp add: drop_registered_def seated_def lock_alive_def)
  next
    case (Some room)
    obtain room' d where r: "remove_peer i room = (room', d)" by fastforce
    have "\<not> guard_poisoned room" using assms Some by (simp add: lock_alive_def)
    from remove_peer_views [OF r this] Some r show ?thesis
      by (cases d) (auto simp: drop_registered_def seated_def lock_alive_def get_room_def)
  qed
  then show "seated (drop_registered se (Some c) s i rooms) c s j \<longleftrightarrow> seated rooms c s j \<and> j \<noteq> i"
    and "lock_alive (drop_registered se (Some c) s i rooms) c s" by auto
qed

lemma fold_drop_seated:
  "lock_alive rooms c s \<Longrightarrow>
     seated (fold (\<lambda>e. drop_registered se (Some c) s (snd e)) es rooms) c s j \<longleftrightarrow>
       seated rooms c s j \<and> j \<notin> snd ` set es"
proof (induction es arbitrary: rooms)
  case (Cons e es)
  have "lock_alive (drop_registered se (Some c) s (snd e) rooms) c s"
    by (rule drop_registered_seated(2) [OF Cons.prems])
  with Cons.IH Cons.prems show ?case by (auto simp: drop_registered_seated(1))
qed simp

text \<open>
  Teardown on \<open>break\<close>: however other tasks interleave, when the loop that serves a remote
  pod breaks (goodbye, close, protocol or fence error, drain, lost lease), every peer then in
  its \<open>registered\<close> map has left the owner's room, and no other peer has been touched by the
  teardown. The room's lock must not be poisoned.
\<close>

theorem break_frees_registered_peers:
  assumes "owner_round se rid fenced ee st = (st', Some (Break res why))"
    and "ol_community st' = Some c" and "lock_alive (ol_rooms st') c (fenced_session_id fenced)"
  shows "\<exists>st''. serve_control_loop se rid fenced (ee # rest) st = (st'', Some (Break res why)) \<and>
     ol_registered st'' = ol_registered st' \<and>
     (\<forall>peer_id. seated (ol_rooms st'') c (fenced_session_id fenced) peer_id \<longleftrightarrow>
        seated (ol_rooms st') c (fenced_session_id fenced) peer_id \<and>
        peer_id \<notin> snd ` set (ol_registered st'))"
  using assms(1,2) by (simp add: owner_teardown_def fold_drop_seated [OF assms(3)])

definition sample_fenced :: FencedHeader where
  "sample_fenced = \<lparr>fenced_session_id = 8, fenced_generation = 1, fenced_owner = 5\<rparr>"

definition sample_stream_env :: "nat stream_env" where
  "sample_stream_env = \<lparr>decode_control = \<lambda>p. if p = [1] then Some (RegisterPeer 7 ''carol'' 2) else None,
     render = \<lambda>_. [], try_send = \<lambda>tx _. Some tx, closed_tx = 0\<rparr>"

definition sample_env :: "(nat, nat) round_env" where
  "sample_env = \<lparr>env_draining = False, env_fence = None, env_encode = None, env_send = None,
     env_peer_id = 20, env_audio_tx = 0, env_ctrl_tx = 0, env_world = id\<rparr>"

text \<open>The stream after carol registered through another pod.\<close>

definition sample_served :: "(nat, nat) owner_loop" where
  "sample_served = fst (serve_control_loop sample_stream_env 5 sample_fenced
     [(StreamEvent (Frame (Data sample_fenced [1])), sample_env)] (fresh_loop manager_new))"

lemma sample_served_views:
  "ol_registered sample_served = [(''carol'', 20)]" "ol_following sample_served"
  "ol_community sample_served = Some 7" "seated (ol_rooms sample_served) 7 8 20"
  "lock_alive (ol_rooms sample_served) 7 8"
  by (simp_all add: sample_served_def sample_fenced_def sample_stream_env_def sample_env_def
      fresh_loop_def manager_new_def owner_round_def on_frame_def on_message_def on_register_def
      get_or_create_def register_remote_peer_def room_new_def guard_new_def room_eval control_all_def
      broadcast_control_def is_peer_registered_def seated_def lock_alive_def get_room_def Let_def
      hm_get_def hm_has_def)

theorem break_frees_registered_peers_witness:
  "\<not> seated (ol_rooms (fst (serve_control_loop sample_stream_env 5 sample_fenced
       [(DrainFired, sample_env)] sample_served))) 7 8 20"
proof -
  have "owner_round sample_stream_env 5 sample_fenced (DrainFired, sample_env) sample_served =
      (sample_served, Some (Break None (Some GoodbyeDraining)))"
    by (simp add: owner_round_def sample_env_def)
  moreover have "fenced_session_id sample_fenced = 8" by (simp add: sample_fenced_def)
  ultimately show ?thesis
    using break_frees_registered_peers [of sample_stream_env 5 sample_fenced "(DrainFired, sample_env)"
        sample_served sample_served None "Some GoodbyeDraining" 7 "[]"] sample_served_views
    by auto
qed

text \<open>
  The exits through \<open>?\<close> skip the teardown: when a roster delta cannot be sent (the remote
  pod is gone, which is when sends fail), the loop returns with the rooms as they were, so the
  peers this stream registered keep their seats and routing indices in the owner's room.
\<close>

theorem failed_delta_keeps_peers_seated:
  assumes "ol_following st" and "env_world env = id" and "env_send env = Some e"
    and "env_encode env = None"
  shows "serve_control_loop se rid fenced ((RosterEvent (Delta d), env) # rest) st =
           (st, Some (EarlyReturn e))"
  using assms by (simp add: owner_round_def on_roster_event_def send_or_return_def)

theorem failed_delta_keeps_peers_seated_witness:
  "serve_control_loop sample_stream_env 5 sample_fenced
     [(RosterEvent (Delta \<lparr>rd_revision = 2, rd_joined = None, rd_left = None\<rparr>),
       sample_env\<lparr>env_send := Some (Transport ''closed'')\<rparr>)] sample_served =
     (sample_served, Some (EarlyReturn (Transport ''closed''))) \<and>
   ol_registered sample_served = [(''carol'', 20)] \<and> seated (ol_rooms sample_served) 7 8 20"
  by (intro conjI failed_delta_keeps_peers_seated sample_served_views) (simp_all add: sample_env_def)

end
