(* ===== verification/Subscription.thy ===== *)
theory Subscription
  imports Event_Filter
begin

text \<open>
  The relay's subscription registry, \<^verbatim>\<open>crates/buzz-relay/src/subscription.rs\<close>: active WebSocket
  subscriptions, the five fan-out indexes, registration, removal and fan-out. Each public
  operation is one step; \<open>DashMap\<close> and \<open>HashMap\<close> are association lists with distinct keys and
  \<open>Uuid::to_string\<close> is the parameter \<open>uuid_str\<close> of the filter matching. Metrics are left out.
\<close>

section \<open>Data\<close>

type_synonym ConnId = uuid
type_synonym SubId = string
type_synonym CommunityId = uuid

datatype SubscriptionScope = Global | Channels "uuid list"

type_synonym SubEntry = "nostr_filter list \<times> CommunityId \<times> SubscriptionScope"
type_synonym postings = "(ConnId \<times> SubId) list"

fun matches_channel :: "SubscriptionScope \<Rightarrow> uuid option \<Rightarrow> bool" where
  "matches_channel Global None = True"
| "matches_channel (Channels channels) (Some channel_id) = (channel_id \<in> set channels)"
| "matches_channel _ _ = False"

fun channel_ids :: "SubscriptionScope \<Rightarrow> uuid list" where
  "channel_ids Global = []"
| "channel_ids (Channels channels) = channels"

definition scope_is_global :: "SubscriptionScope \<Rightarrow> bool" where
  "scope_is_global s \<longleftrightarrow> s = Global"

record IndexKey =
  ik_channel_id :: uuid
  ik_kind :: kind

record GlobalPKindIndexKey =
  gk_community_id :: CommunityId
  gk_kind :: kind
  gk_p :: string

record RemovedSubscription =
  rem_community_id :: CommunityId
  rem_scope :: SubscriptionScope

record ChannelSubscriptionUpdate =
  upd_sub_id :: SubId
  upd_removed :: bool

record SubscriptionRegistry =
  subs :: "(ConnId, (SubId, SubEntry) hmap) hmap"
  channel_kind_index :: "(CommunityId \<times> IndexKey, postings) hmap"
  channel_wildcard_index :: "(CommunityId \<times> uuid, postings) hmap"
  global_kind_index :: "(CommunityId \<times> kind, postings) hmap"
  global_p_kind_index :: "(GlobalPKindIndexKey, postings) hmap"
  global_wildcard_index :: "(CommunityId, postings) hmap"

definition registry_new :: SubscriptionRegistry where
  "registry_new = \<lparr>subs = [], channel_kind_index = [], channel_wildcard_index = [],
     global_kind_index = [], global_p_kind_index = [], global_wildcard_index = []\<rparr>"

section \<open>Keys of a subscription and of an event\<close>

fun extract_kinds_loop :: "nostr_filter list \<Rightarrow> kind list \<Rightarrow> kind list option" where
  "extract_kinds_loop [] kinds = Some kinds"
| "extract_kinds_loop (f # fs) kinds =
     (case f_kinds f of
        Some filter_kinds \<Rightarrow> extract_kinds_loop fs (fold push_unseen filter_kinds kinds)
      | None \<Rightarrow> None)"

definition extract_kinds_from_filters :: "nostr_filter list \<Rightarrow> kind list option" where
  "extract_kinds_from_filters filters = extract_kinds_loop filters []"

definition p_tag :: string where "p_tag = ''p''"

fun global_p_keys_loop ::
  "CommunityId \<Rightarrow> nostr_filter list \<Rightarrow> GlobalPKindIndexKey list \<Rightarrow> GlobalPKindIndexKey list option" where
  "global_p_keys_loop community [] keys = Some keys"
| "global_p_keys_loop community (f # fs) keys =
     (case f_kinds f of
        None \<Rightarrow> None
      | Some kinds \<Rightarrow>
          if kinds = [] then global_p_keys_loop community fs keys
          else
            (case hm_get (f_generic_tags f) p_tag of
               None \<Rightarrow> None
             | Some p_values \<Rightarrow>
                 if p_values = [] then None
                 else global_p_keys_loop community fs
                   (fold push_unseen
                      (concat (map (\<lambda>k. map (\<lambda>p. \<lparr>gk_community_id = community, gk_kind = k, gk_p = p\<rparr>)
                         p_values) kinds)) keys)))"

definition extract_global_p_kind_index_keys ::
  "CommunityId \<Rightarrow> nostr_filter list \<Rightarrow> GlobalPKindIndexKey list option" where
  "extract_global_p_kind_index_keys community filters = global_p_keys_loop community filters []"

definition event_p_tag_values :: "StoredEvent \<Rightarrow> string list" where
  "event_p_tag_values ev =
     fold push_unseen (List.map_filter tag_content
       (filter (\<lambda>t. tag_kind_str t = ''p'') (ev_tags (st_event ev)))) []"

section \<open>The indexes\<close>

text \<open>\<open>index.entry(key).or_default().push(entry)\<close>, and the removal that drops an emptied list.\<close>

definition index_push :: "'k \<Rightarrow> 'e \<Rightarrow> ('k, 'e list) hmap \<Rightarrow> ('k, 'e list) hmap" where
  "index_push key entry m = hm_insert key (hm_get_or [] m key @ [entry]) m"

definition index_drop :: "'k \<Rightarrow> 'e \<Rightarrow> ('k, 'e list) hmap \<Rightarrow> ('k, 'e list) hmap" where
  "index_drop key entry m =
     (case hm_get m key of
        None \<Rightarrow> m
      | Some entries \<Rightarrow>
          (let kept = filter (\<lambda>e. e \<noteq> entry) entries
           in if kept = [] then hm_remove key m else hm_insert key kept m))"

definition add_channel_to_index ::
  "ConnId \<times> SubId \<Rightarrow> nostr_filter list \<Rightarrow> CommunityId \<Rightarrow> uuid \<Rightarrow> SubscriptionRegistry \<Rightarrow> SubscriptionRegistry" where
  "add_channel_to_index e filters community ch r =
     (case extract_kinds_from_filters filters of
        None \<Rightarrow> r\<lparr>channel_wildcard_index := index_push (community, ch) e (channel_wildcard_index r)\<rparr>
      | Some kinds \<Rightarrow>
          r\<lparr>channel_kind_index := fold (\<lambda>k. index_push (community, \<lparr>ik_channel_id = ch, ik_kind = k\<rparr>) e)
              kinds (channel_kind_index r)\<rparr>)"

definition add_to_index ::
  "ConnId \<times> SubId \<Rightarrow> nostr_filter list \<Rightarrow> CommunityId \<Rightarrow> SubscriptionScope \<Rightarrow> SubscriptionRegistry \<Rightarrow>
     SubscriptionRegistry" where
  "add_to_index e filters community scope r =
     (case scope of
        Channels chs \<Rightarrow> fold (add_channel_to_index e filters community) chs r
      | Global \<Rightarrow>
          (case extract_global_p_kind_index_keys community filters of
             Some keys \<Rightarrow>
               r\<lparr>global_p_kind_index := fold (\<lambda>k. index_push k e) keys (global_p_kind_index r)\<rparr>
           | None \<Rightarrow>
               (case extract_kinds_from_filters filters of
                  None \<Rightarrow>
                    r\<lparr>global_wildcard_index := index_push community e (global_wildcard_index r)\<rparr>
                | Some kinds \<Rightarrow>
                    r\<lparr>global_kind_index := fold (\<lambda>k. index_push (community, k) e) kinds
                        (global_kind_index r)\<rparr>)))"

definition drop_channel_from_index ::
  "ConnId \<times> SubId \<Rightarrow> nostr_filter list \<Rightarrow> CommunityId \<Rightarrow> uuid \<Rightarrow> SubscriptionRegistry \<Rightarrow> SubscriptionRegistry" where
  "drop_channel_from_index e filters community ch r =
     (case extract_kinds_from_filters filters of
        None \<Rightarrow> r\<lparr>channel_wildcard_index := index_drop (community, ch) e (channel_wildcard_index r)\<rparr>
      | Some kinds \<Rightarrow>
          r\<lparr>channel_kind_index := fold (\<lambda>k. index_drop (community, \<lparr>ik_channel_id = ch, ik_kind = k\<rparr>) e)
              kinds (channel_kind_index r)\<rparr>)"

definition remove_from_index ::
  "ConnId \<Rightarrow> SubId \<Rightarrow> nostr_filter list \<Rightarrow> CommunityId \<Rightarrow> SubscriptionScope \<Rightarrow> SubscriptionRegistry \<Rightarrow>
     SubscriptionRegistry" where
  "remove_from_index conn_id sub_id filters community scope r =
     (let e = (conn_id, sub_id) in
      case scope of
        Channels chs \<Rightarrow> fold (drop_channel_from_index e filters community) chs r
      | Global \<Rightarrow>
          (case extract_global_p_kind_index_keys community filters of
             Some keys \<Rightarrow>
               r\<lparr>global_p_kind_index := fold (\<lambda>k. index_drop k e) keys (global_p_kind_index r)\<rparr>
           | None \<Rightarrow>
               (case extract_kinds_from_filters filters of
                  None \<Rightarrow>
                    r\<lparr>global_wildcard_index := index_drop community e (global_wildcard_index r)\<rparr>
                | Some kinds \<Rightarrow>
                    r\<lparr>global_kind_index := fold (\<lambda>k. index_drop (community, k) e) kinds
                        (global_kind_index r)\<rparr>)))"

section \<open>Registration and removal\<close>

definition get_sub :: "SubscriptionRegistry \<Rightarrow> ConnId \<Rightarrow> SubId \<Rightarrow> SubEntry option" where
  "get_sub r conn_id sub_id = hm_get (hm_get_or [] (subs r) conn_id) sub_id"

definition remove_subscription ::
  "ConnId \<Rightarrow> SubId \<Rightarrow> SubscriptionRegistry \<Rightarrow> SubscriptionRegistry \<times> RemovedSubscription option" where
  "remove_subscription conn_id sub_id r =
     (case hm_get (subs r) conn_id of
        None \<Rightarrow> (r, None)
      | Some conn_subs \<Rightarrow>
          (case hm_get conn_subs sub_id of
             None \<Rightarrow> (r, None)
           | Some (filters, community, scope) \<Rightarrow>
               (remove_from_index conn_id sub_id filters community scope
                  (r\<lparr>subs := hm_insert conn_id (hm_remove sub_id conn_subs) (subs r)\<rparr>),
                Some \<lparr>rem_community_id = community, rem_scope = scope\<rparr>)))"

definition register_with_scope ::
  "CommunityId \<Rightarrow> ConnId \<Rightarrow> SubId \<Rightarrow> nostr_filter list \<Rightarrow> SubscriptionScope \<Rightarrow> SubscriptionRegistry \<Rightarrow>
     SubscriptionRegistry \<times> RemovedSubscription option" where
  "register_with_scope community conn_id sub_id filters scope r0 =
     (let (r, removed) = remove_subscription conn_id sub_id r0;
          r1 = r\<lparr>subs := hm_insert conn_id
                 (hm_insert sub_id (filters, community, scope) (hm_get_or [] (subs r) conn_id)) (subs r)\<rparr>
      in (add_to_index (conn_id, sub_id) filters community scope r1, removed))"

definition register_scoped ::
  "CommunityId \<Rightarrow> ConnId \<Rightarrow> SubId \<Rightarrow> nostr_filter list \<Rightarrow> uuid option \<Rightarrow> SubscriptionRegistry \<Rightarrow>
     SubscriptionRegistry \<times> RemovedSubscription option" where
  "register_scoped community conn_id sub_id filters channel_id r =
     register_with_scope community conn_id sub_id filters
       (case channel_id of Some ch \<Rightarrow> Channels [ch] | None \<Rightarrow> Global) r"

definition register_channels_scoped ::
  "CommunityId \<Rightarrow> ConnId \<Rightarrow> SubId \<Rightarrow> nostr_filter list \<Rightarrow> uuid list \<Rightarrow> SubscriptionRegistry \<Rightarrow>
     SubscriptionRegistry \<times> RemovedSubscription option" where
  "register_channels_scoped community conn_id sub_id filters chs r =
     register_with_scope community conn_id sub_id filters (Channels chs) r"

definition remove_connection ::
  "ConnId \<Rightarrow> SubscriptionRegistry \<Rightarrow> SubscriptionRegistry \<times> RemovedSubscription list" where
  "remove_connection conn_id r =
     (case hm_get (subs r) conn_id of
        None \<Rightarrow> (r, [])
      | Some conn_subs \<Rightarrow>
          (fold (\<lambda>(sub_id, filters, community, scope). remove_from_index conn_id sub_id filters community scope)
             conn_subs (r\<lparr>subs := hm_remove conn_id (subs r)\<rparr>),
           map (\<lambda>(_, _, community, scope). \<lparr>rem_community_id = community, rem_scope = scope\<rparr>) conn_subs))"

text \<open>One round of the loop of \<open>remove_channel_subscriptions_scoped\<close>.\<close>

definition revoke_channel ::
  "CommunityId \<Rightarrow> ConnId \<Rightarrow> uuid \<Rightarrow> SubId \<Rightarrow> SubscriptionRegistry \<times> ChannelSubscriptionUpdate list \<Rightarrow>
     SubscriptionRegistry \<times> ChannelSubscriptionUpdate list" where
  "revoke_channel community conn_id channel_id sub_id acc =
     (let (r, updates) = acc;
          conn_subs = hm_get_or [] (subs r) conn_id
      in case hm_get conn_subs sub_id of
           Some (filters, sub_community, Channels chs) \<Rightarrow>
             (let chs' = filter (\<lambda>c. c \<noteq> channel_id) chs;
                  removed = (chs' = []);
                  conn_subs' = (if removed then hm_remove sub_id conn_subs
                                else hm_insert sub_id (filters, sub_community, Channels chs') conn_subs);
                  r' = remove_from_index conn_id sub_id filters community (Channels [channel_id])
                         (r\<lparr>subs := hm_insert conn_id conn_subs' (subs r)\<rparr>)
              in (r', updates @ [\<lparr>upd_sub_id = sub_id, upd_removed = removed\<rparr>]))
         | _ \<Rightarrow> (r, updates))"

definition remove_channel_subscriptions_scoped ::
  "CommunityId \<Rightarrow> ConnId \<Rightarrow> uuid \<Rightarrow> SubscriptionRegistry \<Rightarrow>
     SubscriptionRegistry \<times> ChannelSubscriptionUpdate list" where
  "remove_channel_subscriptions_scoped community conn_id channel_id r =
     (let sub_ids = map fst (filter (\<lambda>(_, _, sub_community, scope).
            sub_community = community \<and> channel_id \<in> set (channel_ids scope))
            (hm_get_or [] (subs r) conn_id))
      in fold (revoke_channel community conn_id channel_id) sub_ids (r, []))"

section \<open>Fan-out and queries\<close>

definition push_match ::
  "(uuid \<Rightarrow> string) \<Rightarrow> SubscriptionRegistry \<Rightarrow> CommunityId \<Rightarrow> StoredEvent \<Rightarrow> ConnId \<times> SubId \<Rightarrow> postings \<Rightarrow> postings" where
  "push_match uuid_str r community ev e results =
     (case get_sub r (fst e) (snd e) of
        None \<Rightarrow> results
      | Some (filters, sub_community, scope) \<Rightarrow>
          if sub_community = community \<and> matches_channel scope (st_channel_id ev) \<and>
             filters_match uuid_str filters ev
          then push_unseen e results else results)"

definition fan_out_scoped ::
  "(uuid \<Rightarrow> string) \<Rightarrow> CommunityId \<Rightarrow> StoredEvent \<Rightarrow> SubscriptionRegistry \<Rightarrow> postings" where
  "fan_out_scoped uuid_str community ev r =
     (let push = push_match uuid_str r community ev;
          k = ev_kind (st_event ev)
      in case st_channel_id ev of
           Some ch \<Rightarrow>
             fold push (hm_get_or [] (channel_wildcard_index r) (community, ch))
               (fold push (hm_get_or [] (channel_kind_index r)
                  (community, \<lparr>ik_channel_id = ch, ik_kind = k\<rparr>)) [])
         | None \<Rightarrow>
             fold push (hm_get_or [] (global_wildcard_index r) community)
               (fold push (hm_get_or [] (global_kind_index r) (community, k))
                  (fold (\<lambda>p. fold push (hm_get_or [] (global_p_kind_index r)
                       \<lparr>gk_community_id = community, gk_kind = k, gk_p = p\<rparr>))
                     (event_p_tag_values ev) [])))"

definition channel_subscriber_conns_scoped ::
  "CommunityId \<Rightarrow> uuid \<Rightarrow> SubscriptionRegistry \<Rightarrow> ConnId list" where
  "channel_subscriber_conns_scoped community channel_id r =
     (let by_kind = concat (map snd (filter (\<lambda>p. fst (fst p) = community \<and>
              ik_channel_id (snd (fst p)) = channel_id) (channel_kind_index r)));
          wildcard = hm_get_or [] (channel_wildcard_index r) (community, channel_id)
      in fold push_unseen (map fst (by_kind @ wildcard)) [])"

definition get_filters :: "ConnId \<Rightarrow> SubId \<Rightarrow> SubscriptionRegistry \<Rightarrow> nostr_filter list option" where
  "get_filters conn_id sub_id r = map_option fst (get_sub r conn_id sub_id)"

definition total_subscriptions :: "SubscriptionRegistry \<Rightarrow> nat" where
  "total_subscriptions r = sum_list (map (\<lambda>p. length (snd p)) (subs r))"

definition total_connections :: "SubscriptionRegistry \<Rightarrow> nat" where
  "total_connections r = length (subs r)"

definition per_community_subscriptions :: "SubscriptionRegistry \<Rightarrow> (CommunityId, nat) hmap" where
  "per_community_subscriptions r =
     fold (\<lambda>(_, _, community, _) counts. hm_insert community (hm_get_or 0 counts community + 1) counts)
       (concat (map snd (subs r))) []"

end
