(* ===== verification/Subscription_Props.thy ===== *)
theory Subscription_Props
  imports Subscription
begin

text \<open>
  Correctness of the subscription registry. A subscription is filed under a set of routes (keys
  of one of the five indexes); the invariant says that the postings of every route are exactly
  the live subscriptions with that route, and \<open>fanout_index\<close> is the interface under which
  looking only at the routes of an event finds every subscription that accepts it.
\<close>

section \<open>The interface of an indexed fan-out\<close>

locale fanout_index =
  fixes keys_of :: "'s \<Rightarrow> 'k set"
    and consulted :: "'e \<Rightarrow> 'k set"
    and accepts :: "'s \<Rightarrow> 'e \<Rightarrow> bool"
  assumes complete: "accepts s e \<Longrightarrow> keys_of s \<inter> consulted e \<noteq> {}"
begin

lemma candidates_suffice:
  assumes "\<And>i k. i \<in> posted k \<longleftrightarrow> (\<exists>s. live i = Some s \<and> k \<in> keys_of s)"
  shows "(\<exists>k \<in> consulted e. i \<in> posted k) \<and> (\<exists>s. live i = Some s \<and> accepts s e) \<longleftrightarrow>
         (\<exists>s. live i = Some s \<and> accepts s e)"
  using assms complete by blast

end

section \<open>Routes\<close>

datatype route =
  RChannelKind CommunityId uuid kind
| RChannelWild CommunityId uuid
| RGlobalKind CommunityId kind
| RGlobalP CommunityId kind string
| RGlobalWild CommunityId

fun postings_of :: "SubscriptionRegistry \<Rightarrow> route \<Rightarrow> postings option" where
  "postings_of r (RChannelKind c ch k) = hm_get (channel_kind_index r) (c, \<lparr>ik_channel_id = ch, ik_kind = k\<rparr>)"
| "postings_of r (RChannelWild c ch) = hm_get (channel_wildcard_index r) (c, ch)"
| "postings_of r (RGlobalKind c k) = hm_get (global_kind_index r) (c, k)"
| "postings_of r (RGlobalP c k p) =
     hm_get (global_p_kind_index r) \<lparr>gk_community_id = c, gk_kind = k, gk_p = p\<rparr>"
| "postings_of r (RGlobalWild c) = hm_get (global_wildcard_index r) c"

definition bucket :: "SubscriptionRegistry \<Rightarrow> route \<Rightarrow> postings" where
  "bucket r k = (case postings_of r k of None \<Rightarrow> [] | Some es \<Rightarrow> es)"

definition channel_routes :: "CommunityId \<Rightarrow> nostr_filter list \<Rightarrow> uuid \<Rightarrow> route set" where
  "channel_routes c fs ch =
     (case extract_kinds_from_filters fs of
        None \<Rightarrow> {RChannelWild c ch}
      | Some ks \<Rightarrow> RChannelKind c ch ` set ks)"

definition routes :: "CommunityId \<Rightarrow> nostr_filter list \<Rightarrow> SubscriptionScope \<Rightarrow> route set" where
  "routes c fs scope =
     (case scope of
        Channels chs \<Rightarrow> (\<Union>ch \<in> set chs. channel_routes c fs ch)
      | Global \<Rightarrow>
          (case extract_global_p_kind_index_keys c fs of
             Some keys \<Rightarrow> (\<lambda>k. RGlobalP (gk_community_id k) (gk_kind k) (gk_p k)) ` set keys
           | None \<Rightarrow>
               (case extract_kinds_from_filters fs of
                  None \<Rightarrow> {RGlobalWild c}
                | Some ks \<Rightarrow> RGlobalKind c ` set ks)))"

lemma bucket_simps [simp]:
  "bucket r (RChannelKind c ch k) = hm_get_or [] (channel_kind_index r) (c, \<lparr>ik_channel_id = ch, ik_kind = k\<rparr>)"
  "bucket r (RChannelWild c ch) = hm_get_or [] (channel_wildcard_index r) (c, ch)"
  "bucket r (RGlobalKind c k) = hm_get_or [] (global_kind_index r) (c, k)"
  "bucket r (RGlobalP c k p) =
     hm_get_or [] (global_p_kind_index r) \<lparr>gk_community_id = c, gk_kind = k, gk_p = p\<rparr>"
  "bucket r (RGlobalWild c) = hm_get_or [] (global_wildcard_index r) c"
  by (auto simp: bucket_def hm_get_or_def)

section \<open>What pushing and dropping do to postings\<close>

lemma set_index_push [simp]:
  "set (hm_get_or [] (index_push k e m) k') = set (hm_get_or [] m k') \<union> (if k' = k then {e} else {})"
  by (auto simp: index_push_def)

lemma set_index_drop [simp]:
  "set (hm_get_or [] (index_drop k e m) k') = set (hm_get_or [] m k') - (if k' = k then {e} else {})"
  by (auto simp: index_drop_def Let_def hm_get_or_def filter_empty_conv split: option.splits)

lemma set_fold_push [simp]:
  "set (hm_get_or [] (fold (\<lambda>k. index_push (g k) e) ks m) k') =
     set (hm_get_or [] m k') \<union> (if k' \<in> g ` set ks then {e} else {})"
  by (induction ks arbitrary: m) auto

lemma set_fold_drop [simp]:
  "set (hm_get_or [] (fold (\<lambda>k. index_drop (g k) e) ks m) k') =
     set (hm_get_or [] m k') - (if k' \<in> g ` set ks then {e} else {})"
  by (induction ks arbitrary: m) auto

definition no_empty :: "('k, 'e list) hmap \<Rightarrow> bool" where
  "no_empty m \<longleftrightarrow> (\<forall>k. hm_get m k \<noteq> Some [])"

lemma no_empty_push [simp]: "no_empty m \<Longrightarrow> no_empty (index_push k e m)"
  by (simp add: no_empty_def index_push_def)

lemma no_empty_drop [simp]: "no_empty m \<Longrightarrow> no_empty (index_drop k e m)"
  by (auto simp: no_empty_def index_drop_def Let_def split: option.splits)

lemma no_empty_folds [simp]:
  "no_empty m \<Longrightarrow> no_empty (fold (\<lambda>k. index_push (g k) e) ks m)"
  "no_empty m \<Longrightarrow> no_empty (fold (\<lambda>k. index_drop (g k) e) ks m)"
  by (induction ks arbitrary: m) auto

definition no_empty_postings :: "SubscriptionRegistry \<Rightarrow> bool" where
  "no_empty_postings r \<longleftrightarrow> no_empty (channel_kind_index r) \<and> no_empty (channel_wildcard_index r) \<and>
     no_empty (global_kind_index r) \<and> no_empty (global_p_kind_index r) \<and>
     no_empty (global_wildcard_index r)"

lemma add_channel_bucket:
  "set (bucket (add_channel_to_index e fs c ch r) k) =
     set (bucket r k) \<union> (if k \<in> channel_routes c fs ch then {e} else {})"
  "subs (add_channel_to_index e fs c ch r) = subs r"
  "no_empty_postings r \<Longrightarrow> no_empty_postings (add_channel_to_index e fs c ch r)"
  by (cases k; auto simp: add_channel_to_index_def channel_routes_def no_empty_postings_def
      split: option.splits)+

lemma drop_channel_bucket:
  "set (bucket (drop_channel_from_index e fs c ch r) k) =
     set (bucket r k) - (if k \<in> channel_routes c fs ch then {e} else {})"
  "subs (drop_channel_from_index e fs c ch r) = subs r"
  "no_empty_postings r \<Longrightarrow> no_empty_postings (drop_channel_from_index e fs c ch r)"
  by (cases k; auto simp: drop_channel_from_index_def channel_routes_def no_empty_postings_def
      split: option.splits)+

lemma fold_add_channels:
  "set (bucket (fold (add_channel_to_index e fs c) chs r) k) =
     set (bucket r k) \<union> (if k \<in> (\<Union>ch \<in> set chs. channel_routes c fs ch) then {e} else {})"
  "subs (fold (add_channel_to_index e fs c) chs r) = subs r"
  "no_empty_postings r \<Longrightarrow> no_empty_postings (fold (add_channel_to_index e fs c) chs r)"
  by (induction chs arbitrary: r) (auto simp: add_channel_bucket)

lemma fold_drop_channels:
  "set (bucket (fold (drop_channel_from_index e fs c) chs r) k) =
     set (bucket r k) - (if k \<in> (\<Union>ch \<in> set chs. channel_routes c fs ch) then {e} else {})"
  "subs (fold (drop_channel_from_index e fs c) chs r) = subs r"
  "no_empty_postings r \<Longrightarrow> no_empty_postings (fold (drop_channel_from_index e fs c) chs r)"
  by (induction chs arbitrary: r) (auto simp: drop_channel_bucket)

text \<open>A key of the \<open>(kind, #p)\<close> index carries the community it was made for.\<close>

lemma p_keys_community:
  "global_p_keys_loop c fs acc = Some keys \<Longrightarrow> \<forall>k \<in> set acc. gk_community_id k = c \<Longrightarrow>
     \<forall>k \<in> set keys. gk_community_id k = c"
proof (induction c fs acc rule: global_p_keys_loop.induct)
  case (2 c f fs acc)
  then show ?case by (fastforce split: option.splits if_splits)
qed simp

lemma route_of_p_key:
  "RGlobalP c k p \<in> (\<lambda>x. RGlobalP (gk_community_id x) (gk_kind x) (gk_p x)) ` set keys \<longleftrightarrow>
     \<lparr>gk_community_id = c, gk_kind = k, gk_p = p\<rparr> \<in> set keys"
proof
  assume "RGlobalP c k p \<in> (\<lambda>x. RGlobalP (gk_community_id x) (gk_kind x) (gk_p x)) ` set keys"
  then obtain x where mem: "x \<in> set keys" and "c = gk_community_id x" "k = gk_kind x" "p = gk_p x"
    by auto
  then have "\<lparr>gk_community_id = c, gk_kind = k, gk_p = p\<rparr> = x" by simp
  with mem show "\<lparr>gk_community_id = c, gk_kind = k, gk_p = p\<rparr> \<in> set keys" by simp
qed (force intro: rev_image_eqI)

lemma add_to_index_bucket:
  "set (bucket (add_to_index e fs c scope r) k) =
     set (bucket r k) \<union> (if k \<in> routes c fs scope then {e} else {})"
proof (cases scope)
  case (Channels chs)
  then show ?thesis by (simp add: add_to_index_def routes_def fold_add_channels)
next
  case Global
  have id: "set (hm_get_or [] (fold (\<lambda>k. index_push k e) ks m) k') =
     set (hm_get_or [] m k') \<union> (if k' \<in> set ks then {e} else {})" for ks m and k' :: GlobalPKindIndexKey
    using set_fold_push [of "\<lambda>x. x"] by simp
  show ?thesis
    unfolding Global add_to_index_def routes_def
    by (cases k; auto simp: id route_of_p_key split: option.splits)
qed

lemma remove_from_index_bucket:
  "set (bucket (remove_from_index conn sid fs c scope r) k) =
     set (bucket r k) - (if k \<in> routes c fs scope then {(conn, sid)} else {})"
proof (cases scope)
  case (Channels chs)
  then show ?thesis by (simp add: remove_from_index_def routes_def fold_drop_channels)
next
  case Global
  have id: "set (hm_get_or [] (fold (\<lambda>k. index_drop k e) ks m) k') =
     set (hm_get_or [] m k') - (if k' \<in> set ks then {e} else {})"
    for e :: "ConnId \<times> SubId" and ks m and k' :: GlobalPKindIndexKey
    using set_fold_drop [of "\<lambda>x. x"] by simp
  show ?thesis
    unfolding Global remove_from_index_def routes_def Let_def
    by (cases k; auto simp: id route_of_p_key split: option.splits)
qed

lemma index_subs [simp]:
  "subs (add_to_index e fs c scope r) = subs r"
  "subs (remove_from_index conn sid fs c scope r) = subs r"
  by (auto simp: add_to_index_def remove_from_index_def Let_def fold_add_channels fold_drop_channels
      split: SubscriptionScope.splits option.splits)

lemma no_empty_p_folds:
  "no_empty m \<Longrightarrow> no_empty (fold (\<lambda>k. index_push k e) ks m)"
  "no_empty m \<Longrightarrow> no_empty (fold (\<lambda>k. index_drop k e) ks m)"
  using no_empty_folds [of m "\<lambda>x. x"] by simp_all

lemma index_no_empty [simp]:
  assumes "no_empty_postings r"
  shows "no_empty_postings (add_to_index e fs c scope r)"
    and "no_empty_postings (remove_from_index conn sid fs c scope r)"
proof -
  show "no_empty_postings (add_to_index e fs c scope r)"
  proof (cases scope)
    case Global
    with assms show ?thesis
      by (simp add: add_to_index_def no_empty_postings_def no_empty_p_folds split: option.split)
  qed (simp add: add_to_index_def fold_add_channels(3) assms)
  show "no_empty_postings (remove_from_index conn sid fs c scope r)"
  proof (cases scope)
    case Global
    with assms show ?thesis
      by (simp add: remove_from_index_def Let_def no_empty_postings_def no_empty_p_folds split: option.split)
  qed (simp add: remove_from_index_def fold_drop_channels(3) assms)
qed

section \<open>The invariant\<close>

definition filed :: "SubscriptionRegistry \<Rightarrow> ConnId \<times> SubId \<Rightarrow> route \<Rightarrow> bool" where
  "filed r i k \<longleftrightarrow> (\<exists>fs c scope. get_sub r (fst i) (snd i) = Some (fs, c, scope) \<and> k \<in> routes c fs scope)"

definition subs_wf :: "SubscriptionRegistry \<Rightarrow> bool" where
  "subs_wf r \<longleftrightarrow> hm_wf (subs r) \<and> (\<forall>conn. hm_wf (hm_get_or [] (subs r) conn))"

definition reg_inv :: "SubscriptionRegistry \<Rightarrow> bool" where
  "reg_inv r \<longleftrightarrow> subs_wf r \<and> no_empty_postings r \<and> (\<forall>i k. i \<in> set (bucket r k) \<longleftrightarrow> filed r i k)"

lemma get_sub_put:
  "get_sub (r\<lparr>subs := hm_insert conn m (subs r)\<rparr>) conn' sid =
     (if conn' = conn then hm_get m sid else get_sub r conn' sid)"
  by (simp add: get_sub_def)

lemma get_sub_index [simp]:
  "get_sub (add_to_index e fs c scope r) = get_sub r"
  "get_sub (remove_from_index conn sid fs c scope r) = get_sub r"
  by (auto simp: get_sub_def fun_eq_iff)

lemma bucket_subs [simp]: "bucket (r\<lparr>subs := m\<rparr>) k = bucket r k"
  by (cases k) simp_all

lemma no_empty_subs [simp]: "no_empty_postings (r\<lparr>subs := m\<rparr>) = no_empty_postings r"
  by (simp add: no_empty_postings_def)

lemma subs_wf_put:
  "subs_wf r \<Longrightarrow> hm_wf m \<Longrightarrow> subs_wf (r\<lparr>subs := hm_insert conn m (subs r)\<rparr>)"
  by (simp add: subs_wf_def)

lemma subs_wf_index [simp]:
  "subs_wf (add_to_index e fs c scope r) = subs_wf r"
  "subs_wf (remove_from_index conn sid fs c scope r) = subs_wf r"
  by (simp_all add: subs_wf_def)

lemma inner_wf: "subs_wf r \<Longrightarrow> hm_get (subs r) conn = Some m \<Longrightarrow> hm_wf m"
  unfolding subs_wf_def by (metis hm_get_or_Some)

lemma remove_subscription_inv:
  assumes "reg_inv r"
  shows "reg_inv (fst (remove_subscription conn sid r))"
    and "get_sub (fst (remove_subscription conn sid r)) conn' sid' =
      (if conn' = conn \<and> sid' = sid then None else get_sub r conn' sid')"
proof -
  have "reg_inv (fst (remove_subscription conn sid r)) \<and>
    get_sub (fst (remove_subscription conn sid r)) conn' sid' =
      (if conn' = conn \<and> sid' = sid then None else get_sub r conn' sid')"
  proof (cases "get_sub r conn sid")
    case None
    then show ?thesis using assms
      by (auto simp: remove_subscription_def get_sub_def hm_get_or_def split: option.splits)
  next
    case (Some entry)
    obtain fs c scope where e: "entry = (fs, c, scope)" by (cases entry)
    obtain m where m: "hm_get (subs r) conn = Some m" "hm_get m sid = Some (fs, c, scope)"
      using Some e by (cases "hm_get (subs r) conn") (auto simp: get_sub_def hm_get_or_def)
    let ?r = "r\<lparr>subs := hm_insert conn (hm_remove sid m) (subs r)\<rparr>"
    have rem: "fst (remove_subscription conn sid r) = remove_from_index conn sid fs c scope ?r"
      by (simp add: remove_subscription_def m)
    have get: "get_sub ?r a b = (if a = conn \<and> b = sid then None else get_sub r a b)" for a b
      using m(1) by (auto simp: get_sub_put) (simp_all add: get_sub_def hm_get_or_Some)
    have "filed (remove_from_index conn sid fs c scope ?r) i k \<longleftrightarrow> filed r i k \<and> i \<noteq> (conn, sid)" for i k
      by (cases i) (auto simp: filed_def get)
    moreover have "filed r (conn, sid) k \<longleftrightarrow> k \<in> routes c fs scope" for k
      using Some e by (simp add: filed_def)
    ultimately show ?thesis
      using assms inner_wf [OF _ m(1)] get rem unfolding reg_inv_def
      by (auto simp: remove_from_index_bucket subs_wf_put)
  qed
  then show "reg_inv (fst (remove_subscription conn sid r))"
    and "get_sub (fst (remove_subscription conn sid r)) conn' sid' =
      (if conn' = conn \<and> sid' = sid then None else get_sub r conn' sid')" by auto
qed

lemma register_inv:
  assumes "reg_inv r"
  shows "reg_inv (fst (register_with_scope c conn sid fs scope r))"
    and "get_sub (fst (register_with_scope c conn sid fs scope r)) conn' sid' =
      (if conn' = conn \<and> sid' = sid then Some (fs, c, scope) else get_sub r conn' sid')"
proof -
  let ?q = "fst (remove_subscription conn sid r)"
  let ?m = "hm_insert sid (fs, c, scope) (hm_get_or [] (subs ?q) conn)"
  let ?r = "?q\<lparr>subs := hm_insert conn ?m (subs ?q)\<rparr>"
  have reg: "fst (register_with_scope c conn sid fs scope r) = add_to_index (conn, sid) fs c scope ?r"
    by (simp add: register_with_scope_def Let_def case_prod_beta)
  have q: "reg_inv ?q" by (rule remove_subscription_inv(1) [OF assms])
  have get: "get_sub ?r a b = (if a = conn \<and> b = sid then Some (fs, c, scope) else get_sub ?q a b)" for a b
    by (auto simp: get_sub_put) (simp_all add: get_sub_def)
  have "filed (add_to_index (conn, sid) fs c scope ?r) i k \<longleftrightarrow>
      filed ?q i k \<or> i = (conn, sid) \<and> k \<in> routes c fs scope" for i k
    by (cases i) (auto simp: filed_def get remove_subscription_inv(2) [OF assms])
  then show "reg_inv (fst (register_with_scope c conn sid fs scope r))"
    using q unfolding reg reg_inv_def
    by (auto simp: add_to_index_bucket subs_wf_put subs_wf_def)
  show "get_sub (fst (register_with_scope c conn sid fs scope r)) conn' sid' =
      (if conn' = conn \<and> sid' = sid then Some (fs, c, scope) else get_sub r conn' sid')"
    by (simp add: reg get remove_subscription_inv(2) [OF assms])
qed

fun entry_routes :: "SubEntry \<Rightarrow> route set" where
  "entry_routes (fs, c, scope) = routes c fs scope"

lemma fold_remove_entries:
  "set (bucket (fold (\<lambda>(sid, fs, c, scope). remove_from_index conn sid fs c scope) es r) k) =
     set (bucket r k) - (\<lambda>p. (conn, fst p)) ` set (filter (\<lambda>p. k \<in> entry_routes (snd p)) es)"
  "subs (fold (\<lambda>(sid, fs, c, scope). remove_from_index conn sid fs c scope) es r) = subs r"
  "no_empty_postings r \<Longrightarrow>
     no_empty_postings (fold (\<lambda>(sid, fs, c, scope). remove_from_index conn sid fs c scope) es r)"
  by (induction es arbitrary: r) (auto simp: remove_from_index_bucket)

lemma remove_connection_inv:
  assumes "reg_inv r"
  shows "reg_inv (fst (remove_connection conn r))"
    and "get_sub (fst (remove_connection conn r)) conn' sid =
      (if conn' = conn then None else get_sub r conn' sid)"
proof -
  have "reg_inv (fst (remove_connection conn r)) \<and>
      (\<forall>conn' sid. get_sub (fst (remove_connection conn r)) conn' sid =
      (if conn' = conn then None else get_sub r conn' sid))"
  proof (cases "hm_get (subs r) conn")
    case None
    then show ?thesis using assms by (simp add: remove_connection_def get_sub_def hm_get_or_None)
  next
    case (Some m)
    let ?q = "r\<lparr>subs := hm_remove conn (subs r)\<rparr>"
    let ?r = "fold (\<lambda>(sid, fs, c, scope). remove_from_index conn sid fs c scope) m ?q"
    have rem: "fst (remove_connection conn r) = ?r" by (simp add: remove_connection_def Some)
    have m: "hm_wf m" using assms inner_wf [OF _ Some] by (simp add: reg_inv_def)
    have get: "get_sub ?r a b = (if a = conn then None else get_sub r a b)" for a b
      by (simp add: get_sub_def fold_remove_entries(2))
    have mine: "get_sub r conn b = hm_get m b" for b by (simp add: get_sub_def hm_get_or_Some [OF Some])
    have "filed ?r i k \<longleftrightarrow> filed r i k \<and> i \<notin> (\<lambda>p. (conn, fst p)) ` set (filter (\<lambda>p. k \<in> entry_routes (snd p)) m)"
      for i k
      unfolding filed_def get by (cases i) (force simp: mine simp flip: hm_entries_get [OF m])
    then show ?thesis
      using assms get unfolding rem reg_inv_def
      by (auto simp: fold_remove_entries subs_wf_def)
  qed
  then show "reg_inv (fst (remove_connection conn r))"
    and "get_sub (fst (remove_connection conn r)) conn' sid =
      (if conn' = conn then None else get_sub r conn' sid)" by auto
qed

lemma channel_routes_disjoint: "ch \<noteq> ch' \<Longrightarrow> k \<in> channel_routes c fs ch \<Longrightarrow> k \<notin> channel_routes c fs ch'"
  by (auto simp: channel_routes_def split: option.splits)

lemma routes_without_channel:
  "routes c fs (Channels (filter (\<lambda>x. x \<noteq> ch) chs)) = routes c fs (Channels chs) - channel_routes c fs ch"
  using channel_routes_disjoint [of _ ch] by (auto simp: routes_def)

text \<open>The entry that revoking a channel leaves of a subscription.\<close>

definition revoked :: "uuid \<Rightarrow> SubEntry option \<Rightarrow> SubEntry option" where
  "revoked ch e =
     (case e of
        Some (fs, c, Channels chs) \<Rightarrow>
          (let chs' = filter (\<lambda>x. x \<noteq> ch) chs in if chs' = [] then None else Some (fs, c, Channels chs'))
      | e \<Rightarrow> e)"

lemma revoke_inv:
  assumes "reg_inv r" and "get_sub r conn sid = Some (fs, c, Channels chs)"
  shows "reg_inv (fst (revoke_channel c conn ch sid (r, us)))"
    and "get_sub (fst (revoke_channel c conn ch sid (r, us))) a b =
      (if a = conn \<and> b = sid then revoked ch (get_sub r conn sid) else get_sub r a b)"
proof -
  let ?chs = "filter (\<lambda>x. x \<noteq> ch) chs"
  let ?m = "hm_get_or [] (subs r) conn"
  let ?m' = "if ?chs = [] then hm_remove sid ?m else hm_insert sid (fs, c, Channels ?chs) ?m"
  let ?r = "r\<lparr>subs := hm_insert conn ?m' (subs r)\<rparr>"
  have rev: "fst (revoke_channel c conn ch sid (r, us)) =
      remove_from_index conn sid fs c (Channels [ch]) ?r"
    using assms(2) by (simp add: revoke_channel_def get_sub_def Let_def)
  have get: "get_sub ?r a b =
      (if a = conn \<and> b = sid then revoked ch (get_sub r conn sid) else get_sub r a b)" for a b
    unfolding get_sub_put using assms(2) by (auto simp: revoked_def get_sub_def Let_def)
  have wf: "hm_wf ?m" using assms(1) by (simp add: reg_inv_def subs_wf_def)
  have one: "routes c fs (Channels [ch]) = channel_routes c fs ch" by (simp add: routes_def)
  have self: "filed r (conn, sid) k \<longleftrightarrow> k \<in> routes c fs (Channels chs)" for k
    using assms(2) by (simp add: filed_def)
  have "get_sub ?r conn sid = (if ?chs = [] then None else Some (fs, c, Channels ?chs))"
    using assms(2) by (simp add: get revoked_def Let_def)
  then have "filed (remove_from_index conn sid fs c (Channels [ch]) ?r) (conn, sid) k \<longleftrightarrow>
      k \<in> routes c fs (Channels ?chs)" for k
    by (cases "?chs = []") (simp_all add: filed_def routes_def)
  then have "filed (remove_from_index conn sid fs c (Channels [ch]) ?r) i k \<longleftrightarrow>
      filed r i k \<and> \<not> (i = (conn, sid) \<and> k \<in> channel_routes c fs ch)" for i k
    using self unfolding routes_without_channel
    by (cases "i = (conn, sid)") (auto simp: filed_def get)
  then show "reg_inv (fst (revoke_channel c conn ch sid (r, us)))"
    using assms(1) wf unfolding rev reg_inv_def
    by (auto simp: remove_from_index_bucket one subs_wf_put)
  show "get_sub (fst (revoke_channel c conn ch sid (r, us))) a b =
      (if a = conn \<and> b = sid then revoked ch (get_sub r conn sid) else get_sub r a b)"
    by (simp add: rev get)
qed

lemma fold_revoke_inv:
  assumes "reg_inv r" and "distinct sids"
    and "\<And>sid. sid \<in> set sids \<Longrightarrow> \<exists>fs chs. get_sub r conn sid = Some (fs, c, Channels chs)"
  shows "reg_inv (fst (fold (revoke_channel c conn ch) sids (r, us))) \<and>
     (\<forall>a b. get_sub (fst (fold (revoke_channel c conn ch) sids (r, us))) a b =
       (if a = conn \<and> b \<in> set sids then revoked ch (get_sub r conn b) else get_sub r a b))"
  using assms
proof (induction sids arbitrary: r us)
  case (Cons sid sids)
  from Cons.prems(3) obtain fs chs where g: "get_sub r conn sid = Some (fs, c, Channels chs)" by force
  obtain r' us' where r': "revoke_channel c conn ch sid (r, us) = (r', us')" by fastforce
  note step = revoke_inv [OF Cons.prems(1) g, of ch us, unfolded r' fst_conv]
  have "\<exists>fs chs. get_sub r' conn b = Some (fs, c, Channels chs)" if "b \<in> set sids" for b
    using that Cons.prems(2,3) step(2) [of conn b] by auto
  from Cons.IH [OF step(1) _ this] Cons.prems(2) step(2) show ?case by (auto simp: r')
qed simp

lemma in_channel_ids: "ch \<in> set (channel_ids scope) \<longleftrightarrow> (\<exists>chs. scope = Channels chs \<and> ch \<in> set chs)"
  by (cases scope) auto

lemma remove_channel_inv:
  assumes "reg_inv r"
  shows "reg_inv (fst (remove_channel_subscriptions_scoped c conn ch r)) \<and>
     (\<forall>a b. get_sub (fst (remove_channel_subscriptions_scoped c conn ch r)) a b =
       (case get_sub r a b of
          Some (fs, c', Channels chs) \<Rightarrow>
            if a = conn \<and> c' = c \<and> ch \<in> set chs then revoked ch (get_sub r a b) else get_sub r a b
        | e \<Rightarrow> e))"
proof -
  let ?m = "hm_get_or [] (subs r) conn"
  let ?sids = "map fst (filter (\<lambda>(_, _, c', scope). c' = c \<and> ch \<in> set (channel_ids scope)) ?m)"
  have wf: "hm_wf ?m" using assms by (simp add: reg_inv_def subs_wf_def)
  have mem: "b \<in> set ?sids \<longleftrightarrow> (\<exists>fs chs. get_sub r conn b = Some (fs, c, Channels chs) \<and> ch \<in> set chs)" for b
  proof -
    have "b \<in> set ?sids \<longleftrightarrow> (\<exists>fs scope. (b, fs, c, scope) \<in> set ?m \<and> ch \<in> set (channel_ids scope))"
      by force
    also have "\<dots> \<longleftrightarrow> (\<exists>fs chs. get_sub r conn b = Some (fs, c, Channels chs) \<and> ch \<in> set chs)"
      unfolding hm_entries_get [OF wf] get_sub_def
      by (auto simp: in_channel_ids)
    finally show ?thesis .
  qed
  have "distinct ?sids" using wf by (simp add: hm_wf_def distinct_map_filter)
  moreover have "\<exists>fs chs. get_sub r conn b = Some (fs, c, Channels chs)" if "b \<in> set ?sids" for b
    using that unfolding mem by blast
  ultimately have inv: "reg_inv (fst (fold (revoke_channel c conn ch) ?sids (r, [])))"
    and get: "get_sub (fst (fold (revoke_channel c conn ch) ?sids (r, []))) a b =
       (if a = conn \<and> b \<in> set ?sids then revoked ch (get_sub r conn b) else get_sub r a b)" for a b
    using fold_revoke_inv [OF assms] by blast+
  have "get_sub (fst (fold (revoke_channel c conn ch) ?sids (r, []))) a b =
       (case get_sub r a b of
          Some (fs, c', Channels chs) \<Rightarrow>
            if a = conn \<and> c' = c \<and> ch \<in> set chs then revoked ch (get_sub r a b) else get_sub r a b
        | e \<Rightarrow> e)" for a b
    unfolding get mem by (simp split: option.split SubscriptionScope.split)
  with inv show ?thesis
    unfolding remove_channel_subscriptions_scoped_def Let_def by blast
qed

section \<open>Reachable registries\<close>

inductive registry_step :: "SubscriptionRegistry \<Rightarrow> SubscriptionRegistry \<Rightarrow> bool" where
  register: "registry_step r (fst (register_scoped c conn sid fs ch r))"
| register_channels: "registry_step r (fst (register_channels_scoped c conn sid fs chs r))"
| unsubscribe: "registry_step r (fst (remove_subscription conn sid r))"
| disconnect: "registry_step r (fst (remove_connection conn r))"
| revoke: "registry_step r (fst (remove_channel_subscriptions_scoped c conn ch r))"

lemma registry_new_inv: "reg_inv registry_new"
proof -
  have "bucket registry_new k = []" for k by (cases k) (simp_all add: registry_new_def)
  then show ?thesis
    by (simp add: reg_inv_def filed_def get_sub_def subs_wf_def no_empty_postings_def no_empty_def
        registry_new_def)
qed

interpretation registry: invariant_system "\<lambda>r. r = registry_new" registry_step reg_inv
proof unfold_locales
  show "registry_step r r' \<Longrightarrow> reg_inv r \<Longrightarrow> reg_inv r'" for r r'
    by (induction rule: registry_step.induct)
      (simp_all add: register_scoped_def register_channels_scoped_def register_inv(1)
        remove_subscription_inv(1) remove_connection_inv(1) remove_channel_inv)
qed (simp add: registry_new_inv)

section \<open>The routes of an event find every subscription that accepts it\<close>

fun accepts :: "(uuid \<Rightarrow> string) \<Rightarrow> SubEntry \<Rightarrow> CommunityId \<times> StoredEvent \<Rightarrow> bool" where
  "accepts uuid_str (fs, c', scope) (c, ev) \<longleftrightarrow>
     c' = c \<and> matches_channel scope (st_channel_id ev) \<and> filters_match uuid_str fs ev"

fun consulted :: "CommunityId \<times> StoredEvent \<Rightarrow> route set" where
  "consulted (c, ev) =
     (let k = ev_kind (st_event ev) in
      case st_channel_id ev of
        Some ch \<Rightarrow> {RChannelKind c ch k, RChannelWild c ch}
      | None \<Rightarrow> {RGlobalKind c k, RGlobalWild c} \<union> RGlobalP c k ` set (event_p_tag_values ev))"

lemma kinds_loop:
  "extract_kinds_loop fs acc = Some ks \<Longrightarrow>
     set acc \<subseteq> set ks \<and> (\<forall>f \<in> set fs. \<exists>fk. f_kinds f = Some fk \<and> set fk \<subseteq> set ks)"
  by (induction fs acc rule: extract_kinds_loop.induct) (auto split: option.splits)

lemma kinds_complete:
  assumes "extract_kinds_from_filters fs = Some ks" and "filters_match u fs ev"
  shows "ev_kind (st_event ev) \<in> set ks"
proof -
  obtain f where "f \<in> set fs" "filter_match_one u f ev"
    using assms(2) by (auto simp: filters_match_def list_ex_iff)
  with assms(1) kinds_loop [of fs "[]" ks] filter_match_kinds show ?thesis
    unfolding extract_kinds_from_filters_def by blast
qed

lemma p_keys_loop:
  "global_p_keys_loop c fs acc = Some keys \<Longrightarrow> set acc \<subseteq> set keys \<and>
     (\<forall>f \<in> set fs. \<exists>ks. f_kinds f = Some ks \<and>
        (ks \<noteq> [] \<longrightarrow> (\<exists>ps. hm_get (f_generic_tags f) p_tag = Some ps \<and>
           (\<forall>k \<in> set ks. \<forall>p \<in> set ps. \<lparr>gk_community_id = c, gk_kind = k, gk_p = p\<rparr> \<in> set keys))))"
proof (induction c fs acc rule: global_p_keys_loop.induct)
  case (2 c f fs acc)
  show ?case
  proof (cases "f_kinds f")
    case (Some ks)
    show ?thesis
    proof (cases "ks = []")
      case True
      with 2 Some show ?thesis by auto
    next
      case False
      with 2(3) Some obtain ps where ps: "hm_get (f_generic_tags f) p_tag = Some ps" "ps \<noteq> []"
        by (auto split: option.splits if_splits)
      let ?new = "concat (map (\<lambda>k. map (\<lambda>p. \<lparr>gk_community_id = c, gk_kind = k, gk_p = p\<rparr>) ps) ks)"
      have "global_p_keys_loop c fs (fold push_unseen ?new acc) = Some keys"
        using 2(3) Some False ps by simp
      from 2(2) [OF Some False ps this] have sub: "set acc \<union> set ?new \<subseteq> set keys"
        and rest: "\<forall>f \<in> set fs. \<exists>ks. f_kinds f = Some ks \<and>
          (ks \<noteq> [] \<longrightarrow> (\<exists>ps. hm_get (f_generic_tags f) p_tag = Some ps \<and>
             (\<forall>k \<in> set ks. \<forall>p \<in> set ps. \<lparr>gk_community_id = c, gk_kind = k, gk_p = p\<rparr> \<in> set keys)))"
        by simp_all
      have "\<lparr>gk_community_id = c, gk_kind = k, gk_p = p\<rparr> \<in> set ?new" if "k \<in> set ks" "p \<in> set ps" for k p
        using that by auto
      with sub have "set acc \<subseteq> set keys"
        and "\<forall>k \<in> set ks. \<forall>p \<in> set ps. \<lparr>gk_community_id = c, gk_kind = k, gk_p = p\<rparr> \<in> set keys" by blast+
      with rest Some ps(1) show ?thesis by simp
    qed
  qed (use 2 in simp)
qed simp

lemma event_p_values:
  "p \<in> set (event_p_tag_values ev) \<longleftrightarrow>
     (\<exists>t \<in> set (ev_tags (st_event ev)). tag_kind_str t = ''p'' \<and> tag_content t = Some p)"
  by (auto simp: event_p_tag_values_def in_map_filter)

lemma p_keys_complete:
  assumes "extract_global_p_kind_index_keys c fs = Some keys" and "filters_match u fs ev"
  shows "\<exists>p \<in> set (event_p_tag_values ev).
     \<lparr>gk_community_id = c, gk_kind = ev_kind (st_event ev), gk_p = p\<rparr> \<in> set keys"
proof -
  obtain f where f: "f \<in> set fs" "filter_match_one u f ev"
    using assms(2) by (auto simp: filters_match_def list_ex_iff)
  from p_keys_loop [OF assms(1) [unfolded extract_global_p_kind_index_keys_def]] f(1)
  obtain ks where ks: "f_kinds f = Some ks" and rest: "ks \<noteq> [] \<longrightarrow> (\<exists>ps. hm_get (f_generic_tags f) p_tag = Some ps \<and>
      (\<forall>k \<in> set ks. \<forall>p \<in> set ps. \<lparr>gk_community_id = c, gk_kind = k, gk_p = p\<rparr> \<in> set keys))" by blast
  have k: "ev_kind (st_event ev) \<in> set ks" by (rule filter_match_kinds [OF f(2) ks])
  then have "ks \<noteq> []" by auto
  with rest obtain ps where ps: "hm_get (f_generic_tags f) p_tag = Some ps"
    and keys: "\<forall>k \<in> set ks. \<forall>p \<in> set ps. \<lparr>gk_community_id = c, gk_kind = k, gk_p = p\<rparr> \<in> set keys" by blast
  have "generic_tag_match u ev p_tag ps" by (rule filter_match_tag [OF f(2) hm_get_SomeD [OF ps]])
  then obtain p where "p \<in> set ps" "p \<in> set (event_p_tag_values ev)"
    by (auto simp: p_tag_def generic_tag_match_not_h event_p_values)
  with keys k show ?thesis by blast
qed

interpretation relay: fanout_index entry_routes consulted "accepts uuid_str" for uuid_str
proof
  fix s :: SubEntry and e :: "CommunityId \<times> StoredEvent"
  obtain fs c' scope where s: "s = (fs, c', scope)" by (cases s)
  obtain c ev where e: "e = (c, ev)" by (cases e)
  assume "accepts uuid_str s e"
  then have c: "c' = c" and ch: "matches_channel scope (st_channel_id ev)"
    and m: "filters_match uuid_str fs ev" by (simp_all add: s e)
  show "entry_routes s \<inter> consulted e \<noteq> {}"
  proof (cases scope)
    case Global
    with ch have none: "st_channel_id ev = None" by (cases "st_channel_id ev") auto
    show ?thesis
    proof (cases "extract_global_p_kind_index_keys c fs")
      case None
      with none kinds_complete [OF _ m] Global c show ?thesis
        by (auto simp: s e routes_def Let_def split: option.splits)
    next
      case (Some keys)
      from p_keys_complete [OF Some m] obtain p where "p \<in> set (event_p_tag_values ev)"
        and "\<lparr>gk_community_id = c, gk_kind = ev_kind (st_event ev), gk_p = p\<rparr> \<in> set keys" by blast
      then have "RGlobalP c (ev_kind (st_event ev)) p \<in> entry_routes s \<inter> consulted e"
        using none Some Global c by (auto simp: s e routes_def Let_def route_of_p_key)
      then show ?thesis by blast
    qed
  next
    case (Channels chs)
    with ch obtain x where x: "st_channel_id ev = Some x" "x \<in> set chs" by (cases "st_channel_id ev") auto
    with Channels kinds_complete [OF _ m] c show ?thesis
      by (cases "extract_kinds_from_filters fs")
        (auto simp: s e routes_def channel_routes_def Let_def)
  qed
qed

lemma push_match_accepts:
  "push_match uuid_str r c ev e acc =
     (if \<exists>s. get_sub r (fst e) (snd e) = Some s \<and> accepts uuid_str s (c, ev) then push_unseen e acc else acc)"
  by (auto simp: push_match_def split: option.splits)

lemma fold_push_match:
  "set (fold (push_match u r c ev) es acc) = set acc \<union> {e \<in> set es.
     \<exists>s. get_sub r (fst e) (snd e) = Some s \<and> accepts u s (c, ev)}"
  "distinct (fold (push_match u r c ev) es acc) = distinct acc"
  by (induction es arbitrary: acc) (auto simp: push_match_accepts)

lemma fold_fold_push_match:
  "set (fold (\<lambda>p. fold (push_match u r c ev) (b p)) ps acc) = set acc \<union> {e \<in> (\<Union>p \<in> set ps. set (b p)).
     \<exists>s. get_sub r (fst e) (snd e) = Some s \<and> accepts u s (c, ev)}"
  "distinct (fold (\<lambda>p. fold (push_match u r c ev) (b p)) ps acc) = distinct acc"
  by (induction ps arbitrary: acc) (auto simp: fold_push_match)

lemma fan_out_candidates:
  "set (fan_out_scoped u c ev r) = {e. (\<exists>k \<in> consulted (c, ev). e \<in> set (bucket r k)) \<and>
     (\<exists>s. get_sub r (fst e) (snd e) = Some s \<and> accepts u s (c, ev))}"
  "distinct (fan_out_scoped u c ev r)"
  by (cases "st_channel_id ev";
      auto simp: fan_out_scoped_def Let_def fold_push_match fold_fold_push_match)+

section \<open>Sample registry for the witnesses\<close>

definition sample_registry :: SubscriptionRegistry where
  "sample_registry = fst (register_scoped 1 10 ''s'' [empty_filter\<lparr>f_kinds := Some [9]\<rparr>] (Some 5) registry_new)"

definition sample_stored :: StoredEvent where
  "sample_stored = stored_event_new \<lparr>ev_id = ''e'', ev_pubkey = ''pk'', ev_created_at = 3, ev_kind = 9,
     ev_tags = [], ev_content = []\<rparr> (Some 5) 4"

lemma sample_registry_reach: "reach (\<lambda>r. r = registry_new) registry_step sample_registry"
proof (rule reach.next_state)
  show "reach (\<lambda>r. r = registry_new) registry_step registry_new" by (simp add: reach.start)
  show "registry_step registry_new sample_registry"
    unfolding sample_registry_def by (rule registry_step.register)
qed

lemma sample_registry_sub:
  "get_sub sample_registry 10 ''s'' = Some ([empty_filter\<lparr>f_kinds := Some [9]\<rparr>], 1, Channels [5])"
  by (simp add: sample_registry_def register_scoped_def register_inv(2) [OF registry_new_inv])

section \<open>Properties\<close>

lemma registry_fan_out:
  assumes "reach (\<lambda>r. r = registry_new) registry_step r"
  shows "(conn, sid) \<in> set (fan_out_scoped uuid_str c ev r) \<longleftrightarrow>
        (\<exists>fs scope. get_sub r conn sid = Some (fs, c, scope) \<and>
           matches_channel scope (st_channel_id ev) \<and> filters_match uuid_str fs ev)"
proof -
  have "reg_inv r" using assms by (rule registry.reach_inv)
  then have "i \<in> set (bucket r k) \<longleftrightarrow> (\<exists>s. get_sub r (fst i) (snd i) = Some s \<and> k \<in> entry_routes s)" for i k
    by (cases i) (simp add: reg_inv_def filed_def split_paired_Ex)
  from relay.candidates_suffice [of "\<lambda>k. set (bucket r k)" "\<lambda>i. get_sub r (fst i) (snd i)", OF this,
      where e = "(c, ev)" and i = "(conn, sid)" and uuid_str = uuid_str]
  show ?thesis by (simp add: fan_out_candidates split_paired_Ex del: consulted.simps)
qed

lemma matches_channels_iff: "matches_channel (Channels chs) x \<longleftrightarrow> (\<exists>y. x = Some y \<and> y \<in> set chs)"
  by (cases x) auto

lemma revoked_covers:
  "(\<exists>fs scope. revoked ch (Some (fs0, c0, Channels chs)) = Some (fs, c, scope) \<and>
      matches_channel scope x \<and> filters_match u fs ev) \<longleftrightarrow>
   c0 = c \<and> (\<exists>y. x = Some y \<and> y \<in> set chs \<and> y \<noteq> ch) \<and> filters_match u fs0 ev"
proof (cases "filter (\<lambda>y. y \<noteq> ch) chs = []")
  case True
  then have "\<And>y. y \<in> set chs \<Longrightarrow> y = ch" by (auto simp: filter_empty_conv)
  with True show ?thesis by (auto simp: revoked_def)
next
  case False
  then show ?thesis by (auto simp: revoked_def matches_channels_iff)
qed

text \<open>
  C2. Indexed fan-out is exact: in every reachable registry, the result for an event of a
  community lists, without repetition, precisely the live subscriptions of that community whose
  scope covers the event's channel (global subscriptions for an event without one) and whose
  filters match. The five indexes neither miss a subscription nor let one of another community
  or scope through.
\<close>

theorem fan_out_exact:
  assumes "reach (\<lambda>r. r = registry_new) registry_step r"
  shows "distinct (fan_out_scoped uuid_str c ev r) \<and>
     ((conn, sid) \<in> set (fan_out_scoped uuid_str c ev r) \<longleftrightarrow>
        (\<exists>fs scope. get_sub r conn sid = Some (fs, c, scope) \<and>
           matches_channel scope (st_channel_id ev) \<and> filters_match uuid_str fs ev))"
  using fan_out_candidates(2) registry_fan_out [OF assms] by blast

theorem fan_out_exact_witness:
  "(10, ''s'') \<in> set (fan_out_scoped (\<lambda>_. []) 1 sample_stored sample_registry)"
proof -
  have "filters_match (\<lambda>_. []) [empty_filter\<lparr>f_kinds := Some [9]\<rparr>] sample_stored"
    and "matches_channel (Channels [5]) (st_channel_id sample_stored)"
    by (simp_all add: filters_match_def filter_match_one_def empty_filter_def sample_stored_def
        stored_event_new_def)
  with fan_out_exact [OF sample_registry_reach, of "\<lambda>_. []" 1 sample_stored 10 "''s''"]
  show ?thesis by (simp add: sample_registry_sub)
qed

text \<open>
  The indexes do not leak: in every reachable registry each posting list that exists is
  non-empty and names only live subscriptions, so the indexes shrink back as subscriptions,
  channels and connections go; a closed connection appears nowhere.
\<close>

theorem indexes_hold_live_subscriptions_only:
  assumes "reach (\<lambda>r. r = registry_new) registry_step r" and "postings_of r k = Some es"
  shows "es \<noteq> [] \<and> list_all (\<lambda>e. get_sub r (fst e) (snd e) \<noteq> None) es \<and>
         list_all (\<lambda>e. fst e \<noteq> conn) (bucket (fst (remove_connection conn r)) k)"
proof -
  have inv: "reg_inv r" using assms(1) by (rule registry.reach_inv)
  have "es \<noteq> []"
    using inv assms(2) by (cases k) (auto simp: reg_inv_def no_empty_postings_def no_empty_def)
  moreover have "\<forall>e \<in> set es. filed r e k"
    using inv assms(2) unfolding reg_inv_def by (metis bucket_def option.simps(5))
  moreover have "\<forall>e \<in> set (bucket (fst (remove_connection conn r)) k). fst e \<noteq> conn"
    using remove_connection_inv [OF inv] by (auto simp: reg_inv_def filed_def)
  ultimately show ?thesis by (auto simp: list_all_iff filed_def)
qed

theorem indexes_hold_live_subscriptions_only_witness:
  "list_all (\<lambda>e. get_sub sample_registry (fst e) (snd e) \<noteq> None)
     (bucket sample_registry (RChannelKind 1 5 9))"
proof -
  have "postings_of sample_registry (RChannelKind 1 5 9) = Some [(10, ''s'')]"
    by (simp add: sample_registry_def register_scoped_def register_with_scope_def remove_subscription_def
        registry_new_def add_to_index_def add_channel_to_index_def extract_kinds_from_filters_def
        empty_filter_def push_unseen_def index_push_def hm_get_def)
  from indexes_hold_live_subscriptions_only [OF sample_registry_reach this] this show ?thesis
    by (simp add: bucket_def)
qed

text \<open>
  Revoking a channel for a connection: afterwards no event of that channel and community
  reaches the connection, while every subscription keeps receiving what it received on other
  channels, and nothing changes for other connections or communities.
\<close>

theorem revocation_is_precise:
  fixes c :: CommunityId and conn :: ConnId and ch :: uuid
  assumes "reach (\<lambda>r. r = registry_new) registry_step r"
  defines "r' \<equiv> fst (remove_channel_subscriptions_scoped c conn ch r)"
  shows "(a, sid) \<in> set (fan_out_scoped uuid_str c' ev r') \<longleftrightarrow>
     (a, sid) \<in> set (fan_out_scoped uuid_str c' ev r) \<and>
     \<not> (a = conn \<and> c' = c \<and> st_channel_id ev = Some ch)"
proof -
  have inv: "reg_inv r" using assms(1) by (rule registry.reach_inv)
  have reach': "reach (\<lambda>r. r = registry_new) registry_step r'"
    unfolding r'_def by (rule reach.next_state [OF assms(1) registry_step.revoke])
  have get: "get_sub r' a sid = (case get_sub r a sid of
        Some (fs, c', Channels chs) \<Rightarrow>
          if a = conn \<and> c' = c \<and> ch \<in> set chs then revoked ch (get_sub r a sid) else get_sub r a sid
      | e \<Rightarrow> e)"
    using remove_channel_inv [OF inv] unfolding r'_def by blast
  show ?thesis
  proof (cases "get_sub r a sid")
    case None
    then show ?thesis
      using registry_fan_out [OF assms(1)] registry_fan_out [OF reach'] get by simp
  next
    case (Some s)
    obtain fs c0 scope where s: "s = (fs, c0, scope)" by (cases s)
    show ?thesis
    proof (cases scope)
      case Global
      with Some s get show ?thesis
        using registry_fan_out [OF assms(1)] registry_fan_out [OF reach']
        by (cases "st_channel_id ev") auto
    next
      case (Channels chs)
      have "get_sub r' a sid = (if a = conn \<and> c0 = c \<and> ch \<in> set chs
          then revoked ch (Some (fs, c0, Channels chs)) else Some (fs, c0, Channels chs))"
        using get unfolding Some s Channels by auto
      then show ?thesis
        unfolding registry_fan_out [OF assms(1)] registry_fan_out [OF reach']
        using Some s Channels
        by (cases "a = conn \<and> c0 = c \<and> ch \<in> set chs")
          (auto simp: revoked_covers matches_channels_iff)
    qed
  qed
qed

theorem revocation_is_precise_witness:
  "(10, ''s'') \<notin> set (fan_out_scoped (\<lambda>_. []) 1 sample_stored
     (fst (remove_channel_subscriptions_scoped 1 10 5 sample_registry)))"
  using revocation_is_precise [OF sample_registry_reach, of 10 "''s''" "\<lambda>_. []" 1 sample_stored 1 10 5]
  by (simp add: sample_stored_def stored_event_new_def)

end
