(* ===== verification/Gossip.thy ===== *)
theory Gossip
  imports Mesh_Wire
begin

text \<open>
  Mesh membership gossip: the scuttlebutt state of \<^verbatim>\<open>crates/buzz-relay-mesh/src/gossip.rs\<close> and the
  membership table of \<^verbatim>\<open>crates/buzz-relay-mesh/src/membership.rs\<close>.
  \<^item> The floating-point load is only stored and copied; its type is the parameter \<open>'l\<close>. The
    suspicion level \<open>phi_at\<close> is floating-point arithmetic and not modelled, so the view of
    non-suspect peers takes the suspicion test as a parameter.
  \<^item> Time is a number of milliseconds (wall clock) and an argument.
  \<^item> The schnorr verification of a ready record and the hexadecimal form of a runtime id are
    parameters (\<open>verify_sig\<close>, \<open>to_hex\<close>). Sorting by the 64-digit hexadecimal form is sorting by
    the number it denotes.
\<close>

section \<open>Gossip state\<close>

record 'l GossipRecord =
  gr_runtime_id :: RuntimeId
  gr_endpoint_addrs :: "string list"
  gr_proto_version :: "16 word"
  gr_load :: 'l
  gr_draining :: bool
  gr_capabilities :: "string list"
  gr_version :: u64
  gr_heartbeat_millis :: u64

definition GossipRecord_new ::
  "'l \<Rightarrow> RuntimeId \<Rightarrow> string list \<Rightarrow> 16 word \<Rightarrow> u64 \<Rightarrow> 'l GossipRecord" where
  "GossipRecord_new zero_load runtime_id addrs proto now =
     \<lparr>gr_runtime_id = runtime_id, gr_endpoint_addrs = addrs, gr_proto_version = proto,
      gr_load = zero_load, gr_draining = False, gr_capabilities = [], gr_version = 1,
      gr_heartbeat_millis = now\<rparr>"

definition GOSSIP_PAYLOAD_VERSION :: "8 word" where "GOSSIP_PAYLOAD_VERSION = 1"

record GossipDigestEntry =
  de_runtime_id :: RuntimeId
  de_version :: u64

datatype 'l GossipMessage =
  Digest "8 word" "GossipDigestEntry list"
| GossipDelta "8 word" "'l GossipRecord list"

definition decode_message ::
  "('b \<Rightarrow> 'l GossipMessage option) \<Rightarrow> 'b \<Rightarrow> MeshError + 'l GossipMessage" where
  "decode_message from_bytes bs =
     (case from_bytes bs of
        None \<Rightarrow> Inl DecodeError
      | Some message \<Rightarrow>
          (let version = (case message of Digest v _ \<Rightarrow> v | GossipDelta v _ \<Rightarrow> v)
           in if version \<noteq> GOSSIP_PAYLOAD_VERSION
              then Inl (Transport ''unknown gossip payload version'')
              else Inr message))"

type_synonym 'l GossipState = "(RuntimeId, 'l GossipRecord) hmap"

definition GossipState_new :: "'l GossipRecord \<Rightarrow> 'l GossipState" where
  "GossipState_new local = hm_insert (gr_runtime_id local) local []"

definition saturating_inc :: "u64 \<Rightarrow> u64" where
  "saturating_inc v = (if v = - 1 then - 1 else v + 1)"

definition bump :: "('l GossipRecord \<Rightarrow> 'l GossipRecord) \<Rightarrow> u64 \<Rightarrow> 'l GossipRecord \<Rightarrow> 'l GossipRecord" where
  "bump update now record =
     (let record = update record
      in record\<lparr>gr_version := saturating_inc (gr_version record), gr_heartbeat_millis := now\<rparr>)"

definition gossip_update_local ::
  "RuntimeId \<Rightarrow> ('l GossipRecord \<Rightarrow> 'l GossipRecord) \<Rightarrow> u64 \<Rightarrow> 'l GossipState \<Rightarrow>
     'l GossipState \<times> 'l GossipRecord option" where
  "gossip_update_local runtime_id update now st =
     (case hm_get st runtime_id of
        None \<Rightarrow> (st, None)
      | Some record \<Rightarrow>
          (let record' = bump update now record in (hm_insert runtime_id record' st, Some record')))"

definition digest_of :: "'l GossipRecord list \<Rightarrow> 'l GossipMessage" where
  "digest_of records =
     Digest GOSSIP_PAYLOAD_VERSION (sort_key de_runtime_id
       (map (\<lambda>r. \<lparr>de_runtime_id = gr_runtime_id r, de_version = gr_version r\<rparr>) records))"

definition remote_versions :: "GossipDigestEntry list \<Rightarrow> (RuntimeId, u64) hmap" where
  "remote_versions digest = fold (\<lambda>e. hm_insert (de_runtime_id e) (de_version e)) digest []"

definition delta_of :: "'l GossipRecord list \<Rightarrow> GossipDigestEntry list \<Rightarrow> 'l GossipMessage" where
  "delta_of records digest =
     GossipDelta GOSSIP_PAYLOAD_VERSION (sort_key gr_runtime_id
       (filter (\<lambda>r. case hm_get (remote_versions digest) (gr_runtime_id r) of
                      None \<Rightarrow> True | Some v \<Rightarrow> v < gr_version r) records))"

definition gossip_digest :: "'l GossipState \<Rightarrow> 'l GossipMessage" where
  "gossip_digest st = digest_of (map snd st)"

definition gossip_delta_for :: "'l GossipState \<Rightarrow> GossipDigestEntry list \<Rightarrow> 'l GossipMessage" where
  "gossip_delta_for st digest = delta_of (map snd st) digest"

definition apply_record ::
  "'l GossipRecord \<Rightarrow> 'l GossipState \<times> RuntimeId list \<Rightarrow> 'l GossipState \<times> RuntimeId list" where
  "apply_record record acc =
     (let (st, changed) = acc;
          should_apply = (case hm_get st (gr_runtime_id record) of
             None \<Rightarrow> True | Some existing \<Rightarrow> gr_version record > gr_version existing)
      in if should_apply
         then (hm_insert (gr_runtime_id record) record st, changed @ [gr_runtime_id record])
         else (st, changed))"

definition gossip_apply_delta ::
  "'l GossipRecord list \<Rightarrow> 'l GossipState \<Rightarrow> 'l GossipState \<times> RuntimeId list" where
  "gossip_apply_delta records st = fold apply_record records (st, [])"

section \<open>Heartbeat history\<close>

record PhiAccrual =
  phi_samples :: "nat list"
  phi_last_heartbeat :: "u64 option"
  phi_max_samples :: nat

definition PhiAccrual_new :: "nat \<Rightarrow> PhiAccrual" where
  "PhiAccrual_new max_samples =
     \<lparr>phi_samples = [], phi_last_heartbeat = None, phi_max_samples = max max_samples 1\<rparr>"

definition phi_observe :: "u64 \<Rightarrow> PhiAccrual \<Rightarrow> PhiAccrual" where
  "phi_observe at p =
     (let samples = (case phi_last_heartbeat p of
            None \<Rightarrow> phi_samples p
          | Some prev \<Rightarrow>
              if prev < at then
                (let s = phi_samples p @ [unat at - unat prev]
                 in if length s > phi_max_samples p then tl s else s)
              else phi_samples p)
      in p\<lparr>phi_samples := samples, phi_last_heartbeat := Some at\<rparr>)"

section \<open>Membership\<close>

datatype ConnectionState = Disconnected | Connecting | Connected | Suspect

record MeshPeerCounters =
  streams_opened :: u64
  streams_received :: u64
  datagrams_sent :: u64
  datagrams_received :: u64
  gossip_frames_sent :: u64
  gossip_frames_received :: u64
  peer_stale_rejections :: u64

definition no_counters :: MeshPeerCounters where
  "no_counters = \<lparr>streams_opened = 0, streams_received = 0, datagrams_sent = 0, datagrams_received = 0,
     gossip_frames_sent = 0, gossip_frames_received = 0, peer_stale_rejections = 0\<rparr>"

record 'l PeerState =
  ps_record :: "'l GossipRecord"
  ps_phi :: PhiAccrual
  ps_connection_state :: ConnectionState
  ps_counters :: MeshPeerCounters

record ReadyRecord =
  rr_runtime_id :: RuntimeId
  rr_runtime_pubkey :: string
  rr_relay_pubkey :: string
  rr_relay_sig :: string
  rr_endpoint_addrs :: "string list"
  rr_proto_version :: "16 word"
  rr_capabilities :: "string list"

definition verify_attestation ::
  "(RuntimeId \<Rightarrow> string) \<Rightarrow> (RuntimeId \<Rightarrow> string \<Rightarrow> string \<Rightarrow> bool) \<Rightarrow> ReadyRecord \<Rightarrow> bool" where
  "verify_attestation to_hex verify_sig ready \<longleftrightarrow>
     rr_runtime_pubkey ready = to_hex (rr_runtime_id ready) \<and>
     verify_sig (rr_runtime_id ready) (rr_relay_pubkey ready) (rr_relay_sig ready)"

record 'l MeshMembership =
  mm_local_runtime_id :: RuntimeId
  mm_local_record :: "'l GossipRecord"
  mm_peers :: "(RuntimeId, 'l PeerState) hmap"
  mm_draining :: bool
  mm_stale_generation_rejections :: u64
  mm_foreign_relay_rejections :: u64
  mm_expected_relay_pubkey :: "string option"

definition MeshMembership_new :: "'l GossipRecord \<Rightarrow> 'l MeshMembership" where
  "MeshMembership_new local =
     \<lparr>mm_local_runtime_id = gr_runtime_id local, mm_local_record = local, mm_peers = [],
      mm_draining = False, mm_stale_generation_rejections = 0, mm_foreign_relay_rejections = 0,
      mm_expected_relay_pubkey = None\<rparr>"

definition with_expected_relay_pubkey :: "string \<Rightarrow> 'l MeshMembership \<Rightarrow> 'l MeshMembership" where
  "with_expected_relay_pubkey pubkey_hex m = m\<lparr>mm_expected_relay_pubkey := Some pubkey_hex\<rparr>"

definition apply_gossip_record :: "'l GossipRecord \<Rightarrow> 'l MeshMembership \<Rightarrow> 'l MeshMembership \<times> bool" where
  "apply_gossip_record record m =
     (if gr_runtime_id record = mm_local_runtime_id m then (m, False)
      else
        (let heartbeat = gr_heartbeat_millis record in
         case hm_get (mm_peers m) (gr_runtime_id record) of
           Some peer \<Rightarrow>
             if gr_version record \<le> gr_version (ps_record peer) then (m, False)
             else (m\<lparr>mm_peers := hm_insert (gr_runtime_id record)
                       (peer\<lparr>ps_record := record, ps_connection_state := Connected,
                             ps_phi := phi_observe heartbeat (ps_phi peer)\<rparr>) (mm_peers m)\<rparr>, True)
         | None \<Rightarrow>
             (m\<lparr>mm_peers := hm_insert (gr_runtime_id record)
                  \<lparr>ps_record = record, ps_phi = phi_observe heartbeat (PhiAccrual_new 100),
                   ps_connection_state = Connected, ps_counters = no_counters\<rparr> (mm_peers m)\<rparr>, True)))"

text \<open>One round of the loop of \<open>apply_ready_records\<close>.\<close>

definition apply_ready_record ::
  "'l \<Rightarrow> (RuntimeId \<Rightarrow> string) \<Rightarrow> (RuntimeId \<Rightarrow> string \<Rightarrow> string \<Rightarrow> bool) \<Rightarrow> u64 \<Rightarrow> ReadyRecord \<Rightarrow>
     'l MeshMembership \<Rightarrow> 'l MeshMembership" where
  "apply_ready_record zero_load to_hex verify_sig now ready m =
     (if rr_runtime_id ready = mm_local_runtime_id m then m
      else if mm_expected_relay_pubkey m \<noteq> Some (rr_relay_pubkey ready)
      then m\<lparr>mm_foreign_relay_rejections := mm_foreign_relay_rejections m + 1\<rparr>
      else if \<not> verify_attestation to_hex verify_sig ready then m
      else
        (let record = GossipRecord_new zero_load (rr_runtime_id ready) (rr_endpoint_addrs ready)
                        (rr_proto_version ready) now;
             record = record\<lparr>gr_capabilities := rr_capabilities ready\<rparr>
         in fst (apply_gossip_record record m)))"

definition apply_ready_records ::
  "'l \<Rightarrow> (RuntimeId \<Rightarrow> string) \<Rightarrow> (RuntimeId \<Rightarrow> string \<Rightarrow> string \<Rightarrow> bool) \<Rightarrow> u64 \<Rightarrow> ReadyRecord list \<Rightarrow>
     'l MeshMembership \<Rightarrow> 'l MeshMembership" where
  "apply_ready_records zero_load to_hex verify_sig now readies m =
     fold (apply_ready_record zero_load to_hex verify_sig now) readies m"

definition mark_connection_state :: "RuntimeId \<Rightarrow> ConnectionState \<Rightarrow> 'l MeshMembership \<Rightarrow> 'l MeshMembership" where
  "mark_connection_state runtime_id state m =
     (case hm_get (mm_peers m) runtime_id of
        None \<Rightarrow> m
      | Some peer \<Rightarrow>
          m\<lparr>mm_peers := hm_insert runtime_id (peer\<lparr>ps_connection_state := state\<rparr>) (mm_peers m)\<rparr>)"

definition membership_update_local ::
  "('l GossipRecord \<Rightarrow> 'l GossipRecord) \<Rightarrow> u64 \<Rightarrow> 'l MeshMembership \<Rightarrow> 'l MeshMembership" where
  "membership_update_local update now m = m\<lparr>mm_local_record := bump update now (mm_local_record m)\<rparr>"

definition begin_drain :: "u64 \<Rightarrow> 'l MeshMembership \<Rightarrow> 'l MeshMembership" where
  "begin_drain now m =
     membership_update_local (\<lambda>record. record\<lparr>gr_draining := True\<rparr>) now (m\<lparr>mm_draining := True\<rparr>)"

definition has_peer :: "RuntimeId \<Rightarrow> 'l MeshMembership \<Rightarrow> bool" where
  "has_peer runtime_id m \<longleftrightarrow> hm_has (mm_peers m) runtime_id"

definition membership_records :: "'l MeshMembership \<Rightarrow> 'l GossipRecord list" where
  "membership_records m = map (\<lambda>p. ps_record (snd p)) (mm_peers m) @ [mm_local_record m]"

definition membership_digest :: "'l MeshMembership \<Rightarrow> 'l GossipMessage" where
  "membership_digest m = digest_of (membership_records m)"

definition membership_delta_for :: "'l MeshMembership \<Rightarrow> GossipDigestEntry list \<Rightarrow> 'l GossipMessage" where
  "membership_delta_for m digest = delta_of (membership_records m) digest"

definition update_peer_counters ::
  "RuntimeId \<Rightarrow> (MeshPeerCounters \<Rightarrow> MeshPeerCounters) \<Rightarrow> 'l MeshMembership \<Rightarrow> 'l MeshMembership" where
  "update_peer_counters runtime_id update m =
     (case hm_get (mm_peers m) runtime_id of
        None \<Rightarrow> m
      | Some peer \<Rightarrow>
          m\<lparr>mm_peers := hm_insert runtime_id (peer\<lparr>ps_counters := update (ps_counters peer)\<rparr>) (mm_peers m)\<rparr>)"

definition record_stream_opened :: "RuntimeId \<Rightarrow> 'l MeshMembership \<Rightarrow> 'l MeshMembership" where
  "record_stream_opened i = update_peer_counters i (\<lambda>c. c\<lparr>streams_opened := saturating_inc (streams_opened c)\<rparr>)"

definition record_stream_received :: "RuntimeId \<Rightarrow> 'l MeshMembership \<Rightarrow> 'l MeshMembership" where
  "record_stream_received i = update_peer_counters i (\<lambda>c. c\<lparr>streams_received := saturating_inc (streams_received c)\<rparr>)"

definition record_datagram_sent :: "RuntimeId \<Rightarrow> 'l MeshMembership \<Rightarrow> 'l MeshMembership" where
  "record_datagram_sent i = update_peer_counters i (\<lambda>c. c\<lparr>datagrams_sent := saturating_inc (datagrams_sent c)\<rparr>)"

definition record_datagram_received :: "RuntimeId \<Rightarrow> 'l MeshMembership \<Rightarrow> 'l MeshMembership" where
  "record_datagram_received i = update_peer_counters i (\<lambda>c. c\<lparr>datagrams_received := saturating_inc (datagrams_received c)\<rparr>)"

definition record_gossip_frame_sent :: "RuntimeId \<Rightarrow> 'l MeshMembership \<Rightarrow> 'l MeshMembership" where
  "record_gossip_frame_sent i = update_peer_counters i (\<lambda>c. c\<lparr>gossip_frames_sent := saturating_inc (gossip_frames_sent c)\<rparr>)"

definition record_gossip_frame_received :: "RuntimeId \<Rightarrow> 'l MeshMembership \<Rightarrow> 'l MeshMembership" where
  "record_gossip_frame_received i = update_peer_counters i (\<lambda>c. c\<lparr>gossip_frames_received := saturating_inc (gossip_frames_received c)\<rparr>)"

definition record_stale_generation_rejection :: "RuntimeId option \<Rightarrow> 'l MeshMembership \<Rightarrow> 'l MeshMembership" where
  "record_stale_generation_rejection i m0 =
     (let m = m0\<lparr>mm_stale_generation_rejections := mm_stale_generation_rejections m0 + 1\<rparr>
      in case i of
           None \<Rightarrow> m
         | Some runtime_id \<Rightarrow> update_peer_counters runtime_id
             (\<lambda>c. c\<lparr>peer_stale_rejections := saturating_inc (peer_stale_rejections c)\<rparr>) m)"

definition membership_peers :: "(PhiAccrual \<Rightarrow> bool) \<Rightarrow> 'l MeshMembership \<Rightarrow> RuntimeId list" where
  "membership_peers suspect m =
     map (\<lambda>p. gr_runtime_id (ps_record (snd p)))
       (filter (\<lambda>p. \<not> suspect (ps_phi (snd p))) (mm_peers m))"

end
