(* ===== verification/Gossip_Props.thy ===== *)
theory Gossip_Props
  imports Gossip
begin

text \<open>
  Correctness of gossip. \<open>lww_store\<close> is the interface of a last-version-wins store of records;
  the scuttlebutt state and the membership table are its two interpretations, and convergence
  is proved once, inside it.
\<close>

section \<open>Last version wins\<close>

definition newer :: "'l GossipRecord option \<Rightarrow> 'l GossipRecord \<Rightarrow> bool" where
  "newer e r = (case e of None \<Rightarrow> True | Some x \<Rightarrow> gr_version x < gr_version r)"

definition latest :: "'l GossipRecord \<Rightarrow> 'l GossipRecord option \<Rightarrow> 'l GossipRecord option" where
  "latest r e = (if newer e r then Some r else e)"

text \<open>Only a runtime increments its own record: equal owner and version mean equal records.\<close>

definition one_writer :: "'l GossipRecord set \<Rightarrow> bool" where
  "one_writer R \<longleftrightarrow> (\<forall>r \<in> R. \<forall>s \<in> R.
     gr_runtime_id r = gr_runtime_id s \<and> gr_version r = gr_version s \<longrightarrow> r = s)"

lemma one_writerD:
  "one_writer R \<Longrightarrow> r \<in> R \<Longrightarrow> s \<in> R \<Longrightarrow> gr_runtime_id r = gr_runtime_id s \<Longrightarrow>
     gr_version r = gr_version s \<Longrightarrow> r = s"
  by (simp add: one_writer_def)

locale lww_store =
  fixes get :: "'st \<Rightarrow> RuntimeId \<Rightarrow> 'l GossipRecord option"
    and put :: "'l GossipRecord \<Rightarrow> 'st \<Rightarrow> 'st"
    and takes :: "'st \<Rightarrow> RuntimeId \<Rightarrow> bool"
  assumes get_put: "get (put r s) i =
      (if i = gr_runtime_id r \<and> takes s i then latest r (get s i) else get s i)"
    and takes_put: "takes (put r s) i = takes s i"
begin

lemma takes_fold: "takes (fold put rs s) i = takes s i"
  by (induction rs arbitrary: s) (auto simp: takes_put)

lemma get_fold:
  "get (fold put rs s) i =
     (if takes s i then fold latest (filter (\<lambda>r. gr_runtime_id r = i) rs) (get s i) else get s i)"
  by (induction rs arbitrary: s) (auto simp: get_put takes_put)

lemma fold_latest:
  "\<exists>r. fold latest rs e = r \<and> (\<forall>x \<in> set rs \<union> set_option e. \<exists>y. r = Some y \<and> gr_version x \<le> gr_version y)
     \<and> set_option r \<subseteq> set rs \<union> set_option e"
proof (induction rs arbitrary: e)
  case Nil
  then show ?case by (cases e) auto
next
  case (Cons x rs)
  have "latest x e = Some x \<or> (\<exists>y. e = Some y \<and> latest x e = Some y \<and> gr_version x \<le> gr_version y)"
    by (cases e) (auto simp: latest_def newer_def)
  moreover have "\<forall>y \<in> set_option e. \<exists>z. latest x e = Some z \<and> gr_version y \<le> gr_version z"
    by (cases e) (auto simp: latest_def newer_def)
  ultimately show ?case
    using Cons [of "latest x e"] by (fastforce intro: order_trans)
qed

text \<open>Versions never go back.\<close>

lemma monotone:
  assumes "get s i = Some x"
  shows "\<exists>y. get (fold put rs s) i = Some y \<and> gr_version x \<le> gr_version y"
  using fold_latest [of "filter (\<lambda>r. gr_runtime_id r = i) rs" "get s i"] assms
  by (auto simp: get_fold)

text \<open>The result does not depend on the order or the multiplicity of the records.\<close>

lemma order_insensitive:
  assumes "set rs = set rs'" and "one_writer (set rs \<union> set_option (get s i))"
    and "pred_option (\<lambda>r. gr_runtime_id r = i) (get s i)"
  shows "get (fold put rs s) i = get (fold put rs' s) i"
proof (cases "takes s i")
  case True
  let ?f = "filter (\<lambda>r. gr_runtime_id r = i)"
  from fold_latest [of "?f rs" "get s i"] fold_latest [of "?f rs'" "get s i"]
  have "fold latest (?f rs) (get s i) = fold latest (?f rs') (get s i)"
  proof (cases "fold latest (?f rs) (get s i)"; cases "fold latest (?f rs') (get s i)")
    fix y z
    assume y: "fold latest (?f rs) (get s i) = Some y" and z: "fold latest (?f rs') (get s i) = Some z"
    have mem: "y \<in> set (?f rs) \<union> set_option (get s i)" "z \<in> set (?f rs) \<union> set_option (get s i)"
      using fold_latest [of "?f rs" "get s i"] fold_latest [of "?f rs'" "get s i"] assms(1) y z by auto
    have "gr_version z \<le> gr_version y" "gr_version y \<le> gr_version z"
      using fold_latest [of "?f rs" "get s i"] fold_latest [of "?f rs'" "get s i"] assms(1) y z mem by auto
    then have "gr_version y = gr_version z" by simp
    moreover have "gr_runtime_id y = gr_runtime_id z" using mem assms(3) by auto
    ultimately have "y = z" using one_writerD [OF assms(2), of y z] mem by auto
    with y z show ?thesis by simp
  qed (use assms(1) in auto)
  with True show ?thesis by (simp add: get_fold)
qed (simp add: get_fold)

end

section \<open>The two stores\<close>

definition gossip_put :: "'l GossipRecord \<Rightarrow> 'l GossipState \<Rightarrow> 'l GossipState" where
  "gossip_put r st = fst (apply_record r (st, []))"

lemma gossip_put_eq:
  "gossip_put r st = (if newer (hm_get st (gr_runtime_id r)) r then hm_insert (gr_runtime_id r) r st else st)"
  by (simp add: gossip_put_def apply_record_def newer_def)

lemma apply_record_state: "fst (apply_record r acc) = gossip_put r (fst acc)"
  by (cases acc) (simp add: gossip_put_def apply_record_def)

lemma fold_apply_record: "fst (fold apply_record rs acc) = fold gossip_put rs (fst acc)"
  by (induction rs arbitrary: acc) (auto simp: apply_record_state)

interpretation gossip: lww_store hm_get gossip_put "\<lambda>_ _. True"
  by unfold_locales (auto simp: gossip_put_eq latest_def)

abbreviation peer_record :: "'l MeshMembership \<Rightarrow> RuntimeId \<Rightarrow> 'l GossipRecord option" where
  "peer_record m i \<equiv> map_option ps_record (hm_get (mm_peers m) i)"

abbreviation membership_put :: "'l GossipRecord \<Rightarrow> 'l MeshMembership \<Rightarrow> 'l MeshMembership" where
  "membership_put r m \<equiv> fst (apply_gossip_record r m)"

lemma put_local_id [simp]: "mm_local_runtime_id (membership_put r m) = mm_local_runtime_id m"
  by (simp add: apply_gossip_record_def Let_def split: option.split)

interpretation membership: lww_store peer_record membership_put "\<lambda>m i. i \<noteq> mm_local_runtime_id m"
  by unfold_locales
    (auto simp: apply_gossip_record_def Let_def latest_def newer_def not_le split: option.splits)

section \<open>Digest exchange\<close>

definition gossip_inv :: "'l GossipState \<Rightarrow> bool" where
  "gossip_inv st \<longleftrightarrow> hm_wf st \<and> (\<forall>e \<in> set st. gr_runtime_id (snd e) = fst e)"

lemma gossip_inv_key: "gossip_inv st \<Longrightarrow> hm_get st i = Some r \<Longrightarrow> gr_runtime_id r = i"
  by (auto simp: gossip_inv_def dest!: hm_get_SomeD)

fun digest_entries :: "'l GossipMessage \<Rightarrow> GossipDigestEntry list" where
  "digest_entries (Digest _ es) = es"
| "digest_entries (GossipDelta _ _) = []"

fun delta_records :: "'l GossipMessage \<Rightarrow> 'l GossipRecord list" where
  "delta_records (GossipDelta _ rs) = rs"
| "delta_records (Digest _ _) = []"

lemma remote_versions_get:
  "hm_get (remote_versions es) i = map_option de_version (find (\<lambda>e. de_runtime_id e = i) (rev es))"
proof -
  have "hm_get (fold (\<lambda>e. hm_insert (de_runtime_id e) (de_version e)) es m) i =
      (case find (\<lambda>e. de_runtime_id e = i) (rev es) of None \<Rightarrow> hm_get m i | Some e \<Rightarrow> Some (de_version e))" for m
    by (induction es arbitrary: m rule: rev_induct) auto
  then show ?thesis by (auto simp: remote_versions_def split: option.splits)
qed

lemma find_unique:
  assumes "\<And>x y. x \<in> set xs \<Longrightarrow> y \<in> set xs \<Longrightarrow> P x \<Longrightarrow> P y \<Longrightarrow> x = y"
  shows "find P xs = Some x \<longleftrightarrow> x \<in> set xs \<and> P x"
  using assms by (induction xs) auto

lemma digest_versions:
  assumes "gossip_inv st"
  shows "hm_get (remote_versions (digest_entries (gossip_digest st))) i = map_option gr_version (hm_get st i)"
proof -
  let ?es = "rev (digest_entries (gossip_digest st))"
  have mem: "e \<in> set (digest_entries (gossip_digest st)) \<longleftrightarrow> (\<exists>r. hm_get st (de_runtime_id e) = Some r \<and> de_version e = gr_version r)" for e
    using assms hm_entries_get [of st]
    by (cases e) (force simp: gossip_digest_def digest_of_def gossip_inv_def image_iff)
  have find: "find (\<lambda>e. de_runtime_id e = i) ?es = Some e \<longleftrightarrow>
      e \<in> set (digest_entries (gossip_digest st)) \<and> de_runtime_id e = i" for e
    by (subst find_unique) (auto simp: mem intro!: GossipDigestEntry.equality)
  show ?thesis
  proof (cases "hm_get st i")
    case None
    then have "find (\<lambda>e. de_runtime_id e = i) ?es = None"
      using find mem by (metis not_None_eq option.distinct(1))
    with None show ?thesis by (simp add: remote_versions_get)
  next
    case (Some r)
    then have "find (\<lambda>e. de_runtime_id e = i) ?es =
        Some \<lparr>de_runtime_id = i, de_version = gr_version r\<rparr>" unfolding find mem by simp
    with Some show ?thesis by (simp add: remote_versions_get)
  qed
qed

lemma records_of_id:
  assumes "gossip_inv st"
  shows "filter (\<lambda>r. gr_runtime_id r = i) (map snd st) = (case hm_get st i of None \<Rightarrow> [] | Some r \<Rightarrow> [r])"
proof -
  have "filter (\<lambda>r. gr_runtime_id r = i) (map snd st) = map snd (filter (\<lambda>e. fst e = i) st)"
    using assms by (auto simp: filter_map comp_def gossip_inv_def intro!: arg_cong [where f = "map snd"] filter_cong)
  also have "\<dots> = (case hm_get st i of None \<Rightarrow> [] | Some r \<Rightarrow> [r])"
  proof (cases "hm_get st i")
    case None
    then have "filter (\<lambda>e. fst e = i) st = []"
      unfolding hm_get_None_iff by (auto simp: filter_empty_conv)
    with None show ?thesis by simp
  next
    case (Some r)
    with assms hm_filter_key [of st i] show ?thesis by (simp add: gossip_inv_def)
  qed
  finally show ?thesis .
qed

lemma pull_get:
  assumes "gossip_inv a" and "gossip_inv b"
  shows "hm_get (fst (gossip_apply_delta
      (delta_records (gossip_delta_for a (digest_entries (gossip_digest b)))) b)) i =
    (case hm_get a i of None \<Rightarrow> hm_get b i | Some r \<Rightarrow> latest r (hm_get b i))"
proof -
  let ?rs = "delta_records (gossip_delta_for a (digest_entries (gossip_digest b)))"
  have "filter (\<lambda>r. gr_runtime_id r = i) ?rs = sort_key gr_runtime_id
      (filter (newer (hm_get b i)) (filter (\<lambda>r. gr_runtime_id r = i) (map snd a)))"
    unfolding gossip_delta_for_def delta_of_def delta_records.simps filter_sort digest_versions [OF assms(2)]
    by (auto simp: filter_filter newer_def intro!: arg_cong [where f = "sort_key gr_runtime_id"]
        filter_cong split: option.splits)
  also have "\<dots> = (case hm_get a i of None \<Rightarrow> [] | Some r \<Rightarrow> if newer (hm_get b i) r then [r] else [])"
    by (simp add: records_of_id [OF assms(1)] split: option.split)
  finally show ?thesis
    by (simp add: gossip_apply_delta_def fold_apply_record gossip.get_fold latest_def split: option.split)
qed

section \<open>Properties\<close>

definition sample_record :: "RuntimeId \<Rightarrow> u64 \<Rightarrow> nat GossipRecord" where
  "sample_record i v = (GossipRecord_new 0 i [''addr''] 1 100)\<lparr>gr_version := v\<rparr>"

definition sample_a :: "nat GossipState" where
  "sample_a = [(1, sample_record 1 3), (2, sample_record 2 1)]"

definition sample_b :: "nat GossipState" where
  "sample_b = [(2, sample_record 2 4)]"

lemma sample_gossip:
  "gossip_inv sample_a" "gossip_inv sample_b" "one_writer (snd ` set sample_a \<union> snd ` set sample_b)"
  by (simp_all add: sample_a_def sample_b_def sample_record_def gossip_inv_def hm_wf_def one_writer_def
      GossipRecord_new_def)

text \<open>
  One push and pull makes two runtimes agree: if each sends the other the records its
  digest lacks or has in an older version, and applies what it receives, then afterwards both
  hold the same record for every runtime, namely the newer of the two they had.
\<close>

theorem push_pull_agrees:
  assumes "gossip_inv a" and "gossip_inv b" and "one_writer (snd ` set a \<union> snd ` set b)"
  defines "a' \<equiv> fst (gossip_apply_delta (delta_records (gossip_delta_for b (digest_entries (gossip_digest a)))) a)"
    and "b' \<equiv> fst (gossip_apply_delta (delta_records (gossip_delta_for a (digest_entries (gossip_digest b)))) b)"
  shows "hm_get a' i = hm_get b' i \<and>
         (case (hm_get a i, hm_get b i) of
            (Some r, Some s) \<Rightarrow> hm_get a' i = Some (if gr_version r < gr_version s then s else r)
          | (Some r, None) \<Rightarrow> hm_get a' i = Some r
          | (None, e) \<Rightarrow> hm_get a' i = e)"
proof -
  have "r = s" if "hm_get a i = Some r" "hm_get b i = Some s" "gr_version r = gr_version s" for r s
  proof (rule one_writerD [OF assms(3)])
    show "r \<in> snd ` set a \<union> snd ` set b" "s \<in> snd ` set a \<union> snd ` set b"
      using that(1,2) by (auto dest!: hm_get_SomeD intro: rev_image_eqI)
    show "gr_runtime_id r = gr_runtime_id s"
      using gossip_inv_key [OF assms(1) that(1)] gossip_inv_key [OF assms(2) that(2)] by simp
  qed (rule that(3))
  then show ?thesis
    unfolding a'_def b'_def pull_get [OF assms(1,2)] pull_get [OF assms(2,1)]
    by (auto simp: latest_def newer_def not_less split: option.split)
qed

theorem push_pull_agrees_witness:
  "hm_get (fst (gossip_apply_delta (delta_records
       (gossip_delta_for sample_a (digest_entries (gossip_digest sample_b)))) sample_b)) 2 =
     Some (sample_record 2 4)"
proof -
  have "hm_get sample_a 2 = Some (sample_record 2 1)" "hm_get sample_b 2 = Some (sample_record 2 4)"
    by (simp_all add: sample_a_def sample_b_def hm_get_def)
  moreover have "gr_version (sample_record 2 1) < gr_version (sample_record 2 4)"
    by (simp add: sample_record_def)
  ultimately show ?thesis using push_pull_agrees [OF sample_gossip, of 2] by auto
qed

definition membership_inv :: "'l MeshMembership \<Rightarrow> bool" where
  "membership_inv m \<longleftrightarrow> hm_wf (mm_peers m) \<and> \<not> hm_has (mm_peers m) (mm_local_runtime_id m) \<and>
     (\<forall>i. pred_option (\<lambda>r. gr_runtime_id r = i) (peer_record m i))"

lemma membership_put_inv: "membership_inv m \<Longrightarrow> membership_inv (membership_put r m)"
  by (auto simp: membership_inv_def apply_gossip_record_def Let_def split: option.splits)

lemma fold_membership_put_inv: "membership_inv m \<Longrightarrow> membership_inv (fold membership_put rs m)"
  by (induction rs arbitrary: m) (auto simp: membership_put_inv)

lemma fold_put_local: "mm_local_runtime_id (fold membership_put rs m) = mm_local_runtime_id m"
  by (induction rs arbitrary: m) auto

text \<open>
  Gossip converges in the membership table whatever way it travels: the records end up the
  same for two deliveries with the same records in any order and any number of times, a known
  peer's version never goes back, and a runtime never enters its own peer table.
\<close>

theorem gossip_order_is_irrelevant:
  assumes "membership_inv m" and "set rs = set rs'"
    and "one_writer (set rs \<union> set_option (peer_record m i))"
  shows "peer_record (fold membership_put rs m) i = peer_record (fold membership_put rs' m) i \<and>
         pred_option (\<lambda>r. pred_option (\<lambda>r'. gr_version r \<le> gr_version r')
            (peer_record (fold membership_put rs m) i)) (peer_record m i) \<and>
         \<not> has_peer (mm_local_runtime_id m) (fold membership_put rs m)"
proof -
  have key: "pred_option (\<lambda>r. gr_runtime_id r = i) (peer_record m i)"
    using assms(1) by (simp add: membership_inv_def)
  have "pred_option (\<lambda>r. pred_option (\<lambda>r'. gr_version r \<le> gr_version r')
      (peer_record (fold membership_put rs m) i)) (peer_record m i)"
    using membership.monotone [of m i _ rs] by (cases "peer_record m i") fastforce+
  moreover have "\<not> has_peer (mm_local_runtime_id m) (fold membership_put rs m)"
    using fold_membership_put_inv [OF assms(1), of rs] fold_put_local [of rs m]
    by (simp add: membership_inv_def has_peer_def)
  ultimately show ?thesis using membership.order_insensitive [OF assms(2,3) key] by blast
qed

theorem gossip_order_is_irrelevant_witness:
  "peer_record (fold membership_put [sample_record 2 1, sample_record 2 4] (MeshMembership_new (sample_record 1 1))) 2
   = peer_record (fold membership_put [sample_record 2 4, sample_record 2 1] (MeshMembership_new (sample_record 1 1))) 2"
proof -
  let ?m = "MeshMembership_new (sample_record 1 1)"
  have "membership_inv ?m" and "set [sample_record 2 1, sample_record 2 4] = set [sample_record 2 4, sample_record 2 1]"
    and "one_writer (set [sample_record 2 1, sample_record 2 4] \<union> set_option (peer_record ?m 2))"
    by (auto simp: MeshMembership_new_def membership_inv_def one_writer_def sample_record_def GossipRecord_new_def)
  from gossip_order_is_irrelevant [OF this] show ?thesis by blast
qed

lemma ready_step:
  "has_peer i (apply_ready_record z hex vs now ready m) \<longrightarrow> has_peer i m \<or>
     rr_runtime_id ready = i \<and> mm_expected_relay_pubkey m = Some (rr_relay_pubkey ready) \<and>
     verify_attestation hex vs ready"
  "mm_expected_relay_pubkey (apply_ready_record z hex vs now ready m) = mm_expected_relay_pubkey m"
  "peer_record m i = Some r \<Longrightarrow> 1 \<le> gr_version r \<Longrightarrow>
     peer_record (apply_ready_record z hex vs now ready m) i = Some r"
  by (auto simp: apply_ready_record_def apply_gossip_record_def GossipRecord_new_def Let_def has_peer_def
      split: option.splits if_splits)

lemma ready_fold:
  fixes m :: "'l MeshMembership"
  defines "enters \<equiv> \<lambda>e hex vs i ready. rr_runtime_id ready = i \<and> e = Some (rr_relay_pubkey ready) \<and>
     verify_attestation hex vs ready"
  shows "has_peer i (apply_ready_records z hex vs now readies m) \<Longrightarrow>
     has_peer i m \<or> list_ex (enters (mm_expected_relay_pubkey m) hex vs i) readies"
  unfolding apply_ready_records_def
proof (induction readies arbitrary: m)
  case (Cons ready readies)
  let ?m = "apply_ready_record z hex vs now ready m"
  from Cons.prems have "has_peer i (fold (apply_ready_record z hex vs now) readies ?m)" by simp
  from Cons.IH [OF this] ready_step(1) [of i z hex vs now ready m] show ?case
    by (auto simp: ready_step(2) enters_def)
qed simp

lemma ready_fold_keeps:
  assumes "1 \<le> gr_version r"
  shows "peer_record m j = Some r \<Longrightarrow> peer_record (apply_ready_records z hex vs now readies m) j = Some r"
  unfolding apply_ready_records_def
proof (induction readies arbitrary: m)
  case (Cons ready readies)
  from Cons.IH [OF ready_step(3) [OF Cons.prems assms]] show ?case by simp
qed simp

text \<open>
  Bootstrap is anchored: a peer that enters through ready records carries the expected
  relay key and a verified attestation of its runtime id (so without an anchor nobody enters),
  and a record that gossip already brought is never replaced by a ready record.
\<close>

theorem ready_records_are_anchored:
  assumes "has_peer i (apply_ready_records zero_load to_hex verify_sig now readies m)" and "\<not> has_peer i m"
  shows "list_ex (\<lambda>ready. rr_runtime_id ready = i \<and>
           mm_expected_relay_pubkey m = Some (rr_relay_pubkey ready) \<and>
           verify_attestation to_hex verify_sig ready) readies \<and>
         pred_option (\<lambda>r. 1 \<le> gr_version r \<longrightarrow>
           peer_record (apply_ready_records zero_load to_hex verify_sig now readies m) j = Some r)
           (peer_record m j)"
  using ready_fold [OF assms(1)] assms(2) ready_fold_keeps [of _ m j]
  by (auto simp: option.pred_set)

definition sample_ready :: ReadyRecord where
  "sample_ready = \<lparr>rr_runtime_id = 2, rr_runtime_pubkey = ''02'', rr_relay_pubkey = ''relay'',
     rr_relay_sig = ''sig'', rr_endpoint_addrs = [], rr_proto_version = 1, rr_capabilities = []\<rparr>"

theorem ready_records_are_anchored_witness:
  "list_ex (\<lambda>ready. rr_runtime_id ready = 2 \<and> Some ''relay'' = Some (rr_relay_pubkey ready) \<and>
     verify_attestation (\<lambda>_. ''02'') (\<lambda>_ _ _. True) ready) [sample_ready]"
proof -
  let ?m = "with_expected_relay_pubkey ''relay'' (MeshMembership_new (sample_record 1 1))"
  have "has_peer 2 (apply_ready_records 0 (\<lambda>_. ''02'') (\<lambda>_ _ _. True) 5 [sample_ready] ?m)" "\<not> has_peer 2 ?m"
    by (simp_all add: apply_ready_records_def apply_ready_record_def sample_ready_def
        with_expected_relay_pubkey_def MeshMembership_new_def sample_record_def GossipRecord_new_def
        verify_attestation_def apply_gossip_record_def has_peer_def hm_has_def hm_get_def)
  from ready_records_are_anchored [OF this] show ?thesis
    by (simp add: with_expected_relay_pubkey_def)
qed

end
