(* ===== verification/Pairing.thy ===== *)
theory Pairing
  imports Kind Audio_Wire Decimal
begin

text \<open>
  NIP-AB device pairing, \<^verbatim>\<open>crates/buzz-core/src/pairing\<close>: the key derivations of \<^verbatim>\<open>crypto.rs\<close>,
  the messages of \<^verbatim>\<open>types.rs\<close>, the errors of \<^verbatim>\<open>mod.rs\<close> and the session state machine of
  \<^verbatim>\<open>session.rs\<close>.
  \<^item> Third-party cryptography and encodings (HKDF, ECDH, NIP-44, JSON, hex, event signing and
    verification) are the fields of the record \<open>crypto\<close>, a parameter of every operation.
  \<^item> Fresh keys, the session secret, the clock and the random jitter are arguments.
  \<^item> A method returns the session together with its result, so that what an error leaves behind
    is visible. Zeroizing of buffers has no counterpart.
\<close>

section \<open>Types\<close>

type_synonym bytes32 = bytes
type_synonym secret_key = bytes32

datatype PayloadType = Nsec | Bunker | Connect | Custom

datatype AbortReason = ReasonSasMismatch | UserDenied | Timeout | ProtocolError | Unknown

datatype PairingMessage =
  Offer string "32 word"
| SasConfirm string
| Payload PayloadType string
| Complete bool
| Abort AbortReason

datatype PairingError =
  InvalidQr string
| InvalidSessionId
| SasMismatch
| TranscriptMismatch
| UnexpectedMessage string string
| SessionExpired
| Nip44Error
| JsonError
| InvalidPubkey string
| SigningError string

record crypto =
  hkdf32 :: "bytes \<Rightarrow> bytes \<Rightarrow> string \<Rightarrow> bytes32"
  public_key :: "secret_key \<Rightarrow> pubkey"
  pk_to_bytes :: "pubkey \<Rightarrow> bytes32"
  generate_shared_key :: "secret_key \<Rightarrow> pubkey \<Rightarrow> bytes32 option"
  hex_encode :: "bytes \<Rightarrow> string"
  hex_decode :: "string \<Rightarrow> bytes option"
  to_json :: "PairingMessage \<Rightarrow> string option"
  from_json :: "string \<Rightarrow> PairingMessage option"
  nip44_encrypt :: "secret_key \<Rightarrow> pubkey \<Rightarrow> string \<Rightarrow> string option"
  nip44_decrypt :: "secret_key \<Rightarrow> pubkey \<Rightarrow> string \<Rightarrow> string option"
  sign_with_keys :: "secret_key \<Rightarrow> kind \<Rightarrow> string \<Rightarrow> pubkey \<Rightarrow> nat \<Rightarrow> event option"
  event_verify :: "event \<Rightarrow> bool"

section \<open>Key derivation\<close>

definition INFO_SESSION_ID :: string where "INFO_SESSION_ID = ''nostr-pair-session-id''"
definition INFO_SAS :: string where "INFO_SAS = ''nostr-pair-sas-v1''"
definition INFO_TRANSCRIPT :: string where "INFO_TRANSCRIPT = ''nostr-pair-transcript-v1''"

definition derive_session_id :: "crypto \<Rightarrow> bytes32 \<Rightarrow> bytes32" where
  "derive_session_id cr session_secret = hkdf32 cr [] session_secret INFO_SESSION_ID"

definition derive_sas :: "crypto \<Rightarrow> bytes32 \<Rightarrow> bytes32 \<Rightarrow> 32 word \<times> bytes32" where
  "derive_sas cr ecdh_shared session_secret =
     (let sas_input = hkdf32 cr session_secret ecdh_shared INFO_SAS;
          sas_code = u32_from_be (sas_input ! 0) (sas_input ! 1) (sas_input ! 2) (sas_input ! 3) mod 1000000
      in (sas_code, sas_input))"

definition derive_transcript_hash ::
  "crypto \<Rightarrow> bytes32 \<Rightarrow> bytes32 \<Rightarrow> bytes32 \<Rightarrow> bytes32 \<Rightarrow> bytes32 \<Rightarrow> bytes32" where
  "derive_transcript_hash cr session_id source_pubkey target_pubkey sas_input session_secret =
     (let transcript = session_id @ source_pubkey @ target_pubkey @ sas_input
      in hkdf32 cr session_secret transcript INFO_TRANSCRIPT)"

text \<open>\<open>{code:06}\<close>: decimal, padded with zeros to six digits.\<close>

definition format_sas :: "32 word \<Rightarrow> string" where
  "format_sas code = (let ds = decimal (unat code) in replicate (6 - length ds) (CHR ''0'') @ ds)"

definition ct_eq :: "bytes32 \<Rightarrow> bytes32 \<Rightarrow> bool" where
  "ct_eq a b \<longleftrightarrow> a = b"

section \<open>The session\<close>

datatype Role = Source | Target

datatype SessionState =
  Waiting | Confirming | AwaitingConfirmation | Transferring | PayloadExchanged | Completed | Aborted

record PairingSession =
  ps_role :: Role
  ps_state :: SessionState
  ps_keys :: secret_key
  ps_session_secret :: bytes32
  ps_relay_urls :: "string list"
  ps_peer_pubkey :: "pubkey option"
  ps_session_id :: bytes32
  ps_sas_code :: "32 word option"
  ps_sas_input :: "bytes32 option"
  ps_processed_ids :: "event_id set"
  ps_created_at :: nat
  ps_timeout :: nat

record QrPayload =
  qr_source_pubkey :: pubkey
  qr_session_secret :: bytes32
  qr_relays :: "string list"
  qr_version :: "32 word"

definition DEFAULT_TIMEOUT :: nat where "DEFAULT_TIMEOUT = 120 * 10 ^ 9"

definition PAIRING_KIND :: kind where "PAIRING_KIND = word_of_nat KIND_PAIRING"

fun role_name :: "Role \<Rightarrow> string" where
  "role_name Source = ''Source''"
| "role_name Target = ''Target''"

fun state_name :: "SessionState \<Rightarrow> string" where
  "state_name Waiting = ''Waiting''"
| "state_name Confirming = ''Confirming''"
| "state_name AwaitingConfirmation = ''AwaitingConfirmation''"
| "state_name Transferring = ''Transferring''"
| "state_name PayloadExchanged = ''PayloadExchanged''"
| "state_name Completed = ''Completed''"
| "state_name Aborted = ''Aborted''"

fun unexpected :: "string \<Rightarrow> PairingMessage \<Rightarrow> PairingError" where
  "unexpected expected (Offer _ _) = UnexpectedMessage expected ''offer''"
| "unexpected expected (SasConfirm _) = UnexpectedMessage expected ''sas-confirm''"
| "unexpected expected (Payload _ _) = UnexpectedMessage expected ''payload''"
| "unexpected expected (Complete _) = UnexpectedMessage expected ''complete''"
| "unexpected expected (Abort _) = UnexpectedMessage expected ''abort''"

subsection \<open>Checks\<close>

definition is_expired :: "nat \<Rightarrow> PairingSession \<Rightarrow> bool" where
  "is_expired now s \<longleftrightarrow> now - ps_created_at s > ps_timeout s"

definition check_expired :: "nat \<Rightarrow> PairingSession \<Rightarrow> PairingError option" where
  "check_expired now s = (if is_expired now s then Some SessionExpired else None)"

definition expect_state :: "SessionState \<Rightarrow> PairingSession \<Rightarrow> PairingError option" where
  "expect_state expected s =
     (if ps_state s \<noteq> expected
      then Some (UnexpectedMessage (''state '' @ state_name expected) (''state '' @ state_name (ps_state s)))
      else None)"

definition expect_role :: "Role \<Rightarrow> PairingSession \<Rightarrow> PairingError option" where
  "expect_role expected s =
     (if ps_role s \<noteq> expected
      then Some (UnexpectedMessage (''role '' @ role_name expected) (''role '' @ role_name (ps_role s)))
      else None)"

definition validate_event_basics :: "crypto \<Rightarrow> event \<Rightarrow> PairingSession \<Rightarrow> PairingError option" where
  "validate_event_basics cr ev s =
     (if \<not> event_verify cr ev then Some (InvalidPubkey ''event verification failed'')
      else if ev_id ev \<in> ps_processed_ids s
      then Some (UnexpectedMessage ''new event'' ''duplicate event id'')
      else if ev_kind ev \<noteq> PAIRING_KIND
      then Some (UnexpectedMessage (''kind '' @ decimal (unat PAIRING_KIND)) (''kind '' @ decimal (unat (ev_kind ev))))
      else if \<not> list_ex (\<lambda>t. case tag_slice t of
                  a # b # _ \<Rightarrow> a = ''p'' \<and> b = public_key cr (ps_keys s) | _ \<Rightarrow> False) (ev_tags ev)
      then Some (InvalidPubkey ''event p-tag does not match our ephemeral pubkey'')
      else None)"

definition validate_event_from_peer :: "crypto \<Rightarrow> event \<Rightarrow> PairingSession \<Rightarrow> PairingError option" where
  "validate_event_from_peer cr ev s =
     (case validate_event_basics cr ev s of
        Some e \<Rightarrow> Some e
      | None \<Rightarrow>
          (case ps_peer_pubkey s of
             Some expected \<Rightarrow>
               if ev_pubkey ev \<noteq> expected
               then Some (InvalidPubkey (''event from '' @ ev_pubkey ev @ '' but expected '' @ expected))
               else None
           | None \<Rightarrow> None))"

fun first_error :: "PairingError option list \<Rightarrow> PairingError option" where
  "first_error [] = None"
| "first_error (Some e # _) = Some e"
| "first_error (None # cs) = first_error cs"

subsection \<open>Events\<close>

definition build_event ::
  "crypto \<Rightarrow> nat \<Rightarrow> nat \<Rightarrow> PairingMessage \<Rightarrow> PairingSession \<Rightarrow> PairingError + event" where
  "build_event cr unix_now rnd message s =
     (case ps_peer_pubkey s of
        None \<Rightarrow> Inl (InvalidPubkey ''no peer pubkey set'')
      | Some peer \<Rightarrow>
          (case to_json cr message of
             None \<Rightarrow> Inl JsonError
           | Some plaintext \<Rightarrow>
               (case nip44_encrypt cr (ps_keys s) peer plaintext of
                  None \<Rightarrow> Inl Nip44Error
                | Some encrypted \<Rightarrow>
                    (let ts = unix_now - rnd mod 31
                     in case sign_with_keys cr (ps_keys s) PAIRING_KIND encrypted peer ts of
                          None \<Rightarrow> Inl (SigningError ''sign'')
                        | Some ev \<Rightarrow> Inr ev))))"

definition decrypt_message :: "crypto \<Rightarrow> event \<Rightarrow> PairingSession \<Rightarrow> PairingError + PairingMessage" where
  "decrypt_message cr ev s =
     (let content_len = length (ev_content ev) in
      if \<not> (132 \<le> content_len \<and> content_len \<le> 87472)
      then Inl (UnexpectedMessage ''NIP-44 content (132-87472 chars)'' (decimal content_len @ '' chars''))
      else
        (case nip44_decrypt cr (ps_keys s) (ev_pubkey ev) (ev_content ev) of
           None \<Rightarrow> Inl Nip44Error
         | Some decrypted \<Rightarrow>
             if length decrypted > 65535
             then Inl (UnexpectedMessage ''plaintext <= 65535 bytes'' (decimal 0 @ '' bytes''))
             else (case from_json cr decrypted of None \<Rightarrow> Inl JsonError | Some m \<Rightarrow> Inr m)))"

definition record_event :: "event \<Rightarrow> PairingSession \<Rightarrow> PairingSession" where
  "record_event ev s = s\<lparr>ps_processed_ids := insert (ev_id ev) (ps_processed_ids s)\<rparr>"

definition decode32 :: "crypto \<Rightarrow> string \<Rightarrow> bytes32 option" where
  "decode32 cr h = (case hex_decode cr h of Some b \<Rightarrow> if length b = 32 then Some b else None | None \<Rightarrow> None)"

subsection \<open>Source side\<close>

definition new_source ::
  "crypto \<Rightarrow> secret_key \<Rightarrow> bytes32 \<Rightarrow> string \<Rightarrow> nat \<Rightarrow> PairingSession \<times> QrPayload" where
  "new_source cr keys session_secret relay_url now =
     (\<lparr>ps_role = Source, ps_state = Waiting, ps_keys = keys, ps_session_secret = session_secret,
       ps_relay_urls = [relay_url], ps_peer_pubkey = None,
       ps_session_id = derive_session_id cr session_secret, ps_sas_code = None, ps_sas_input = None,
       ps_processed_ids = {}, ps_created_at = now, ps_timeout = DEFAULT_TIMEOUT\<rparr>,
      \<lparr>qr_source_pubkey = public_key cr keys, qr_session_secret = session_secret,
       qr_relays = [relay_url], qr_version = 1\<rparr>)"

definition handle_offer ::
  "crypto \<Rightarrow> nat \<Rightarrow> event \<Rightarrow> PairingSession \<Rightarrow> PairingSession \<times> (PairingError + string)" where
  "handle_offer cr now ev s =
     (case first_error [check_expired now s, expect_state Waiting s, expect_role Source s,
             validate_event_basics cr ev s] of
        Some e \<Rightarrow> (s, Inl e)
      | None \<Rightarrow>
          (case decrypt_message cr ev s of
             Inl e \<Rightarrow> (s, Inl e)
           | Inr (Offer session_id_hex version) \<Rightarrow>
               if version \<noteq> 1
               then (s, Inl (UnexpectedMessage ''version 1'' (''version '' @ decimal (unat version))))
               else if \<not> (case decode32 cr session_id_hex of
                            Some i \<Rightarrow> ct_eq i (ps_session_id s) | None \<Rightarrow> False)
               then (s, Inl InvalidSessionId)
               else
                 (let peer = ev_pubkey ev;
                      s1 = s\<lparr>ps_peer_pubkey := Some peer\<rparr>
                  in case generate_shared_key cr (ps_keys s1) peer of
                       None \<Rightarrow> (s1, Inl (SigningError ''ecdh''))
                     | Some ecdh \<Rightarrow>
                         (let (code, sas_input) = derive_sas cr ecdh (ps_session_secret s1)
                          in (record_event ev (s1\<lparr>ps_sas_code := Some code, ps_sas_input := Some sas_input,
                                ps_state := Confirming\<rparr>), Inr (format_sas code))))
           | Inr other \<Rightarrow> (s, Inl (unexpected ''offer'' other))))"

definition confirm_sas ::
  "crypto \<Rightarrow> nat \<Rightarrow> nat \<Rightarrow> nat \<Rightarrow> PairingSession \<Rightarrow> PairingSession \<times> (PairingError + event)" where
  "confirm_sas cr now unix_now rnd s =
     (case first_error [check_expired now s, expect_state Confirming s, expect_role Source s] of
        Some e \<Rightarrow> (s, Inl e)
      | None \<Rightarrow>
          (case (ps_sas_input s, ps_peer_pubkey s) of
             (None, _) \<Rightarrow> (s, Inl SasMismatch)
           | (Some _, None) \<Rightarrow> (s, Inl (InvalidPubkey ''no peer''))
           | (Some sas_input, Some peer) \<Rightarrow>
               (let hash = derive_transcript_hash cr (ps_session_id s)
                      (pk_to_bytes cr (public_key cr (ps_keys s))) (pk_to_bytes cr peer) sas_input
                      (ps_session_secret s)
                in case build_event cr unix_now rnd (SasConfirm (hex_encode cr hash)) s of
                     Inl e \<Rightarrow> (s, Inl e)
                   | Inr ev \<Rightarrow> (s\<lparr>ps_state := Transferring\<rparr>, Inr ev))))"

text \<open>\<open>handle_return_payload\<close> of the source and \<open>handle_payload\<close> of the target share their body.\<close>

definition take_payload ::
  "crypto \<Rightarrow> Role \<Rightarrow> nat \<Rightarrow> event \<Rightarrow> PairingSession \<Rightarrow>
     PairingSession \<times> (PairingError + PayloadType \<times> string)" where
  "take_payload cr role now ev s =
     (case first_error [check_expired now s, expect_state Transferring s, expect_role role s,
             validate_event_from_peer cr ev s] of
        Some e \<Rightarrow> (s, Inl e)
      | None \<Rightarrow>
          (case decrypt_message cr ev s of
             Inl e \<Rightarrow> (s, Inl e)
           | Inr (Payload payload_type payload) \<Rightarrow>
               (record_event ev (s\<lparr>ps_state := PayloadExchanged\<rparr>), Inr (payload_type, payload))
           | Inr other \<Rightarrow> (s, Inl (unexpected ''payload'' other))))"

definition handle_return_payload ::
  "crypto \<Rightarrow> nat \<Rightarrow> event \<Rightarrow> PairingSession \<Rightarrow> PairingSession \<times> (PairingError + PayloadType \<times> string)" where
  "handle_return_payload cr now ev s = take_payload cr Source now ev s"

definition send_source_complete ::
  "crypto \<Rightarrow> nat \<Rightarrow> nat \<Rightarrow> nat \<Rightarrow> bool \<Rightarrow> PairingSession \<Rightarrow> PairingSession \<times> (PairingError + event)" where
  "send_source_complete cr now unix_now rnd success s =
     (case first_error [check_expired now s, expect_state PayloadExchanged s, expect_role Source s] of
        Some e \<Rightarrow> (s, Inl e)
      | None \<Rightarrow>
          (case build_event cr unix_now rnd (Complete success) s of
             Inl e \<Rightarrow> (s, Inl e)
           | Inr ev \<Rightarrow> (s\<lparr>ps_state := (if success then Completed else Aborted)\<rparr>, Inr ev)))"

definition send_payload ::
  "crypto \<Rightarrow> nat \<Rightarrow> nat \<Rightarrow> nat \<Rightarrow> PayloadType \<Rightarrow> string \<Rightarrow> PairingSession \<Rightarrow>
     PairingSession \<times> (PairingError + event)" where
  "send_payload cr now unix_now rnd payload_type payload s =
     (case first_error [check_expired now s, expect_state Transferring s, expect_role Source s] of
        Some e \<Rightarrow> (s, Inl e)
      | None \<Rightarrow>
          (case build_event cr unix_now rnd (Payload payload_type payload) s of
             Inl e \<Rightarrow> (s, Inl e)
           | Inr ev \<Rightarrow> (s\<lparr>ps_state := PayloadExchanged\<rparr>, Inr ev)))"

definition handle_complete ::
  "crypto \<Rightarrow> nat \<Rightarrow> event \<Rightarrow> PairingSession \<Rightarrow> PairingSession \<times> (PairingError + unit)" where
  "handle_complete cr now ev s =
     (case first_error [check_expired now s, expect_state PayloadExchanged s, expect_role Source s,
             validate_event_from_peer cr ev s] of
        Some e \<Rightarrow> (s, Inl e)
      | None \<Rightarrow>
          (case decrypt_message cr ev s of
             Inl e \<Rightarrow> (s, Inl e)
           | Inr (Complete True) \<Rightarrow> (record_event ev (s\<lparr>ps_state := Completed\<rparr>), Inr ())
           | Inr (Complete False) \<Rightarrow>
               (s\<lparr>ps_state := Aborted\<rparr>,
                Inl (UnexpectedMessage ''complete(success=true)'' ''complete(success=false)''))
           | Inr other \<Rightarrow> (s, Inl (unexpected ''complete'' other))))"

subsection \<open>Target side\<close>

definition new_target ::
  "crypto \<Rightarrow> secret_key \<Rightarrow> nat \<Rightarrow> nat \<Rightarrow> nat \<Rightarrow> QrPayload \<Rightarrow> PairingError + PairingSession \<times> event" where
  "new_target cr keys now unix_now rnd qr =
     (let session_id = derive_session_id cr (qr_session_secret qr) in
      case generate_shared_key cr keys (qr_source_pubkey qr) of
        None \<Rightarrow> Inl (SigningError ''ecdh'')
      | Some ecdh \<Rightarrow>
          (let (code, sas_input) = derive_sas cr ecdh (qr_session_secret qr);
               s = \<lparr>ps_role = Target, ps_state = Waiting, ps_keys = keys,
                    ps_session_secret = qr_session_secret qr, ps_relay_urls = qr_relays qr,
                    ps_peer_pubkey = Some (qr_source_pubkey qr), ps_session_id = session_id,
                    ps_sas_code = Some code, ps_sas_input = Some sas_input, ps_processed_ids = {},
                    ps_created_at = now, ps_timeout = DEFAULT_TIMEOUT\<rparr>
           in case build_event cr unix_now rnd (Offer (hex_encode cr session_id) 1) s of
                Inl e \<Rightarrow> Inl e
              | Inr ev \<Rightarrow> Inr (s\<lparr>ps_state := Confirming\<rparr>, ev)))"

definition handle_sas_confirm ::
  "crypto \<Rightarrow> nat \<Rightarrow> event \<Rightarrow> PairingSession \<Rightarrow> PairingSession \<times> (PairingError + string)" where
  "handle_sas_confirm cr now ev s =
     (case first_error [check_expired now s, expect_state Confirming s, expect_role Target s,
             validate_event_from_peer cr ev s] of
        Some e \<Rightarrow> (s, Inl e)
      | None \<Rightarrow>
          (case decrypt_message cr ev s of
             Inl e \<Rightarrow> (s, Inl e)
           | Inr (SasConfirm received_hash) \<Rightarrow>
               (case (ps_sas_input s, ps_peer_pubkey s) of
                  (None, _) \<Rightarrow> (s, Inl SasMismatch)
                | (Some _, None) \<Rightarrow> (s, Inl (InvalidPubkey ''no peer''))
                | (Some sas_input, Some peer) \<Rightarrow>
                    (let expected_hash = derive_transcript_hash cr (ps_session_id s) (pk_to_bytes cr peer)
                           (pk_to_bytes cr (public_key cr (ps_keys s))) sas_input (ps_session_secret s)
                     in if \<not> (case decode32 cr received_hash of Some rb \<Rightarrow> ct_eq rb expected_hash | None \<Rightarrow> False)
                        then (s\<lparr>ps_state := Aborted\<rparr>, Inl TranscriptMismatch)
                        else
                          (let s1 = record_event ev (s\<lparr>ps_state := AwaitingConfirmation\<rparr>)
                           in case ps_sas_code s1 of
                                None \<Rightarrow> (s1, Inl SasMismatch)
                              | Some code \<Rightarrow> (s1, Inr (format_sas code)))))
           | Inr other \<Rightarrow> (s, Inl (unexpected ''sas-confirm'' other))))"

definition confirm_target_sas :: "nat \<Rightarrow> PairingSession \<Rightarrow> PairingSession \<times> (PairingError + unit)" where
  "confirm_target_sas now s =
     (case first_error [check_expired now s, expect_state AwaitingConfirmation s, expect_role Target s] of
        Some e \<Rightarrow> (s, Inl e)
      | None \<Rightarrow> (s\<lparr>ps_state := Transferring\<rparr>, Inr ()))"

definition handle_payload ::
  "crypto \<Rightarrow> nat \<Rightarrow> event \<Rightarrow> PairingSession \<Rightarrow> PairingSession \<times> (PairingError + PayloadType \<times> string)" where
  "handle_payload cr now ev s = take_payload cr Target now ev s"

definition send_complete ::
  "crypto \<Rightarrow> nat \<Rightarrow> nat \<Rightarrow> nat \<Rightarrow> PairingSession \<Rightarrow> PairingSession \<times> (PairingError + event)" where
  "send_complete cr now unix_now rnd s =
     (case first_error [check_expired now s, expect_state PayloadExchanged s, expect_role Target s] of
        Some e \<Rightarrow> (s, Inl e)
      | None \<Rightarrow>
          (case build_event cr unix_now rnd (Complete True) s of
             Inl e \<Rightarrow> (s, Inl e)
           | Inr ev \<Rightarrow> (s\<lparr>ps_state := Completed\<rparr>, Inr ev)))"

subsection \<open>Abort\<close>

definition terminal_error :: "PairingSession \<Rightarrow> PairingError option" where
  "terminal_error s =
     (if ps_state s = Completed \<or> ps_state s = Aborted
      then Some (UnexpectedMessage ''non-terminal state'' (''state '' @ state_name (ps_state s))) else None)"

definition abort_session ::
  "crypto \<Rightarrow> nat \<Rightarrow> nat \<Rightarrow> AbortReason \<Rightarrow> PairingSession \<Rightarrow> PairingSession \<times> (PairingError + event option)" where
  "abort_session cr unix_now rnd reason s =
     (case terminal_error s of
        Some e \<Rightarrow> (s, Inl e)
      | None \<Rightarrow>
          if ps_peer_pubkey s = None then (s\<lparr>ps_state := Aborted\<rparr>, Inr None)
          else
            (case build_event cr unix_now rnd (Abort reason) s of
               Inl e \<Rightarrow> (s, Inl e)
             | Inr ev \<Rightarrow> (s\<lparr>ps_state := Aborted\<rparr>, Inr (Some ev))))"

definition handle_abort ::
  "crypto \<Rightarrow> event \<Rightarrow> PairingSession \<Rightarrow> PairingSession \<times> (PairingError + AbortReason)" where
  "handle_abort cr ev s =
     (case terminal_error s of
        Some e \<Rightarrow> (s, Inl e)
      | None \<Rightarrow>
          if ps_peer_pubkey s = None
          then (s, Inl (InvalidPubkey ''cannot accept abort before peer is known''))
          else
            (case validate_event_from_peer cr ev s of
               Some e \<Rightarrow> (s, Inl e)
             | None \<Rightarrow>
                 (case decrypt_message cr ev s of
                    Inl e \<Rightarrow> (s, Inl e)
                  | Inr (Abort reason) \<Rightarrow> (record_event ev (s\<lparr>ps_state := Aborted\<rparr>), Inr reason)
                  | Inr other \<Rightarrow> (s, Inl (unexpected ''abort'' other)))))"

definition session_sas_code :: "PairingSession \<Rightarrow> string option" where
  "session_sas_code s = map_option format_sas (ps_sas_code s)"

end
