(* ===== verification/Pairing_Props.thy ===== *)
theory Pairing_Props
  imports Pairing
begin

text \<open>
  What any sequence of calls can and cannot do to a pairing session: the invariant of a session
  and of the list of calls that succeeded on it. \<open>perform\<close> puts the methods of a session under one type of calls, so that properties
  can speak of every method.
\<close>

section \<open>Calls\<close>

datatype call =
  OfferIn nat event
| ConfirmSas nat nat nat
| ReturnPayloadIn nat event
| SourceComplete nat nat nat bool
| SendPayload nat nat nat PayloadType string
| CompleteIn nat event
| SasConfirmIn nat event
| ConfirmTarget nat
| PayloadIn nat event
| SendComplete nat nat nat
| AbortOut nat nat AbortReason
| AbortIn event

definition outcome :: "PairingSession \<times> (PairingError + 'r) \<Rightarrow> PairingSession \<times> bool" where
  "outcome x = (fst x, case snd x of Inl _ \<Rightarrow> False | Inr _ \<Rightarrow> True)"

fun perform :: "crypto \<Rightarrow> call \<Rightarrow> PairingSession \<Rightarrow> PairingSession \<times> bool" where
  "perform cr (OfferIn now ev) s = outcome (handle_offer cr now ev s)"
| "perform cr (ConfirmSas now u rnd) s = outcome (confirm_sas cr now u rnd s)"
| "perform cr (ReturnPayloadIn now ev) s = outcome (handle_return_payload cr now ev s)"
| "perform cr (SourceComplete now u rnd ok) s = outcome (send_source_complete cr now u rnd ok s)"
| "perform cr (SendPayload now u rnd pt p) s = outcome (send_payload cr now u rnd pt p s)"
| "perform cr (CompleteIn now ev) s = outcome (handle_complete cr now ev s)"
| "perform cr (SasConfirmIn now ev) s = outcome (handle_sas_confirm cr now ev s)"
| "perform cr (ConfirmTarget now) s = outcome (confirm_target_sas now s)"
| "perform cr (PayloadIn now ev) s = outcome (handle_payload cr now ev s)"
| "perform cr (SendComplete now u rnd) s = outcome (send_complete cr now u rnd s)"
| "perform cr (AbortOut u rnd why) s = outcome (abort_session cr u rnd why s)"
| "perform cr (AbortIn ev) s = outcome (handle_abort cr ev s)"

fun call_event :: "call \<Rightarrow> event option" where
  "call_event (OfferIn _ ev) = Some ev"
| "call_event (ReturnPayloadIn _ ev) = Some ev"
| "call_event (CompleteIn _ ev) = Some ev"
| "call_event (SasConfirmIn _ ev) = Some ev"
| "call_event (PayloadIn _ ev) = Some ev"
| "call_event (AbortIn ev) = Some ev"
| "call_event _ = None"

fun call_time :: "call \<Rightarrow> nat option" where
  "call_time (OfferIn now _) = Some now"
| "call_time (ConfirmSas now _ _) = Some now"
| "call_time (ReturnPayloadIn now _) = Some now"
| "call_time (SourceComplete now _ _ _) = Some now"
| "call_time (SendPayload now _ _ _ _) = Some now"
| "call_time (CompleteIn now _) = Some now"
| "call_time (SasConfirmIn now _) = Some now"
| "call_time (ConfirmTarget now) = Some now"
| "call_time (PayloadIn now _) = Some now"
| "call_time (SendComplete now _ _) = Some now"
| "call_time (AbortOut _ _ _) = None"
| "call_time (AbortIn _) = None"

definition accepted_ids :: "call list \<Rightarrow> event_id list" where
  "accepted_ids log = map ev_id (List.map_filter call_event log)"

lemma accepted_ids_simps [simp]:
  "accepted_ids [] = []"
  "accepted_ids (c # log) = (case call_event c of None \<Rightarrow> [] | Some ev \<Rightarrow> [ev_id ev]) @ accepted_ids log"
  by (simp_all add: accepted_ids_def List.map_filter_simps split: option.split)

lemma accepted_ids_append [simp]: "accepted_ids (xs @ ys) = accepted_ids xs @ accepted_ids ys"
  by (induction xs) auto

lemma accepted_ids_mem: "i \<in> set (accepted_ids log) \<longleftrightarrow> (\<exists>c \<in> set log. \<exists>ev. call_event c = Some ev \<and> i = ev_id ev)"
  by (induction log) (auto split: option.split dest: sym)

lemmas session_defs =
  handle_offer_def confirm_sas_def handle_return_payload_def take_payload_def send_source_complete_def
  send_payload_def handle_complete_def handle_sas_confirm_def confirm_target_sas_def
  handle_payload_def send_complete_def abort_session_def handle_abort_def

lemma first_error_None [simp]:
  "first_error (c # cs) = None \<longleftrightarrow> c = None \<and> first_error cs = None"
  by (cases c) auto

lemma check_None [simp]:
  "check_expired now s = None \<longleftrightarrow> \<not> is_expired now s"
  "expect_state st s = None \<longleftrightarrow> ps_state s = st"
  "expect_role role s = None \<longleftrightarrow> ps_role s = role"
  "terminal_error s = None \<longleftrightarrow> ps_state s \<noteq> Completed \<and> ps_state s \<noteq> Aborted"
  by (auto simp: check_expired_def expect_state_def expect_role_def terminal_error_def)

lemma first_error_cases:
  "(case first_error cs of None \<Rightarrow> a | Some e \<Rightarrow> b e) =
     (if first_error cs = None then a else b (the (first_error cs)))"
  by (cases "first_error cs") auto

lemma terminal_cases:
  "(case terminal_error s of None \<Rightarrow> a | Some e \<Rightarrow> b e) =
     (if terminal_error s = None then a else b (the (terminal_error s)))"
  by (simp add: terminal_error_def)

lemma validate_Some:
  "ev_id ev \<in> ps_processed_ids s \<Longrightarrow> validate_event_basics cr ev s \<noteq> None"
  "ev_id ev \<in> ps_processed_ids s \<Longrightarrow> validate_event_from_peer cr ev s \<noteq> None"
  by (auto simp: validate_event_basics_def validate_event_from_peer_def)

lemma validate_None:
  "validate_event_basics cr ev s = None \<Longrightarrow> event_verify cr ev \<and> ev_id ev \<notin> ps_processed_ids s"
  "validate_event_from_peer cr ev s = None \<Longrightarrow> event_verify cr ev \<and> ev_id ev \<notin> ps_processed_ids s \<and>
     pred_option (\<lambda>p. ev_pubkey ev = p) (ps_peer_pubkey s)"
  by (auto simp: validate_event_basics_def validate_event_from_peer_def split: if_splits option.splits)

section \<open>Terminal states, replays and the peer\<close>

lemma terminal_perform:
  "ps_state s = Completed \<or> ps_state s = Aborted \<Longrightarrow> perform cr c s = (s, False)"
  by (cases c) (auto simp: session_defs outcome_def first_error_cases terminal_cases)

lemma replay_perform:
  assumes "ev_id ev \<in> ps_processed_ids s" and "call_event c = Some ev"
  shows "perform cr c s = (s, False)"
  using assms validate_Some [OF assms(1), of cr]
  by (cases c) (auto simp: session_defs outcome_def first_error_cases terminal_cases split: option.splits)


section \<open>What one call can do\<close>

text \<open>
  \<open>rank\<close> numbers the phases of the protocol. \<open>kept\<close> lists what no call touches: the role, the
  keys, the secret and the clock of the session and, on the target, the peer and the SAS as well.
\<close>

fun rank :: "SessionState \<Rightarrow> nat" where
  "rank Waiting = 0"
| "rank Confirming = 1"
| "rank AwaitingConfirmation = 2"
| "rank Transferring = 3"
| "rank PayloadExchanged = 4"
| "rank Completed = 5"
| "rank Aborted = 5"

definition kept :: "PairingSession \<Rightarrow> PairingSession \<Rightarrow> bool" where
  "kept s t \<longleftrightarrow>
     ps_role t = ps_role s \<and> ps_keys t = ps_keys s \<and> ps_session_secret t = ps_session_secret s \<and>
     ps_session_id t = ps_session_id s \<and> ps_created_at t = ps_created_at s \<and> ps_timeout t = ps_timeout s \<and>
     (ps_role s = Target \<longrightarrow> ps_peer_pubkey t = ps_peer_pubkey s \<and> ps_sas_input t = ps_sas_input s \<and>
        ps_sas_code t = ps_sas_code s)"

lemma kept_refl [simp]: "kept s s"
  by (simp add: kept_def)

lemma kept_trans: "kept s t \<Longrightarrow> kept t u \<Longrightarrow> kept s u"
  by (simp add: kept_def)

lemma outcome_simps [simp]:
  "outcome (s, Inl e) = (s, False)"
  "outcome (s, Inr r) = (s, True)"
  by (simp_all add: outcome_def)

lemmas perform_splits =
  option.splits sum.splits PairingMessage.splits if_splits prod.splits bool.splits

lemma kept_perform: "perform cr c s = (t, b) \<Longrightarrow> kept s t"
  by (cases c; simp add: session_defs first_error_cases terminal_cases kept_def record_event_def Let_def
        split: perform_splits; auto)

lemma rank_perform: "perform cr c s = (t, True) \<Longrightarrow> rank (ps_state s) < rank (ps_state t)"
  by (cases c; simp add: session_defs first_error_cases terminal_cases record_event_def Let_def
        split: perform_splits; cases "ps_state s"; auto)


lemma processed_perform: "perform cr c s = (t, b) \<Longrightarrow> ps_processed_ids s \<subseteq> ps_processed_ids t"
  by (cases c; simp add: session_defs first_error_cases terminal_cases record_event_def Let_def
        split: perform_splits; auto)

lemma failed_rank: "perform cr c s = (t, False) \<Longrightarrow> rank (ps_state s) \<le> rank (ps_state t)"
  by (cases c; simp add: session_defs first_error_cases terminal_cases record_event_def Let_def
        split: perform_splits; cases "ps_state s"; auto)

lemma failed_outcome:
  "perform cr c s = (t, False) \<Longrightarrow> (ps_sas_input s \<noteq> None \<longrightarrow> ps_sas_code s \<noteq> None) \<Longrightarrow>
     ps_state t = ps_state s \<and> (ps_state s = Waiting \<or> ps_peer_pubkey t = ps_peer_pubkey s) \<or>
     ps_state t = Aborted \<and> ps_state s \<noteq> Waiting \<and> ps_peer_pubkey t = ps_peer_pubkey s"
  by (cases c; simp add: session_defs first_error_cases terminal_cases record_event_def Let_def
        split: perform_splits; auto)

lemma successful_event:
  assumes "perform cr c s = (t, True)" and "call_event c = Some ev"
    and "ps_state s = Waiting \<or> ps_peer_pubkey s \<noteq> None"
  shows "event_verify cr ev" and "ev_id ev \<notin> ps_processed_ids s"
    and "ev_id ev \<in> ps_processed_ids t" and "ps_peer_pubkey t = Some (ev_pubkey ev)"
  using assms
  by (cases c; simp add: session_defs first_error_cases terminal_cases record_event_def Let_def
        split: perform_splits; fastforce dest: validate_None)+

lemma successful_peer:
  assumes "perform cr c s = (t, True)"
  shows "ps_state s \<noteq> Waiting \<Longrightarrow> ps_peer_pubkey t = ps_peer_pubkey s"
    and "ps_state s = Waiting \<Longrightarrow> ps_peer_pubkey t \<noteq> None \<or> ps_state t = Aborted"
    and "ps_state s = Aborted \<Longrightarrow> False"
  using assms
  by (cases c; simp add: session_defs first_error_cases terminal_cases record_event_def Let_def
        split: perform_splits; auto)+


lemma sas_perform:
  "perform cr c s = (t, b) \<Longrightarrow> (ps_sas_input s \<noteq> None \<longrightarrow> ps_sas_code s \<noteq> None) \<Longrightarrow>
     ps_sas_input t \<noteq> None \<longrightarrow> ps_sas_code t \<noteq> None"
  by (cases c; simp add: session_defs first_error_cases terminal_cases record_event_def Let_def
        split: perform_splits; auto)

section \<open>Sessions and their history\<close>

text \<open>
  A session is followed together with the list of the calls that succeeded on it. It starts from
  one of the two constructors and then takes any calls, in any order, with any events.
\<close>

definition started :: "crypto \<Rightarrow> PairingSession \<Rightarrow> bool" where
  "started cr s \<longleftrightarrow>
     (\<exists>keys secret url now. s = fst (new_source cr keys secret url now)) \<or>
     (\<exists>keys now u rnd qr ev. new_target cr keys now u rnd qr = Inr (s, ev))"

inductive advance ::
  "crypto \<Rightarrow> PairingSession \<times> call list \<Rightarrow> PairingSession \<times> call list \<Rightarrow> bool" for cr where
  success: "perform cr c s = (t, True) \<Longrightarrow> advance cr (s, log) (t, log @ [c])"
| failure: "perform cr c s = (t, False) \<Longrightarrow> advance cr (s, log) (t, log)"

text \<open>
  The target has verified the transcript: a successful \<open>handle_sas_confirm\<close> on a verified event
  of the peer whose message carries the hash both sides compute. The target's user has
  confirmed: \<open>confirm_target_sas\<close> succeeded after that.
\<close>

definition transcript_of :: "crypto \<Rightarrow> PairingSession \<Rightarrow> pubkey \<Rightarrow> bytes32 \<Rightarrow> bytes32" where
  "transcript_of cr s source sas =
     derive_transcript_hash cr (ps_session_id s) (pk_to_bytes cr source)
       (pk_to_bytes cr (public_key cr (ps_keys s))) sas (ps_session_secret s)"

definition transcript_verified :: "crypto \<Rightarrow> PairingSession \<Rightarrow> call \<Rightarrow> bool" where
  "transcript_verified cr s c \<longleftrightarrow>
     (\<exists>t ev h sas. c = SasConfirmIn t ev \<and> event_verify cr ev \<and> ps_peer_pubkey s = Some (ev_pubkey ev) \<and>
        ps_sas_input s = Some sas \<and> decrypt_message cr ev s = Inr (SasConfirm h) \<and>
        decode32 cr h = Some (transcript_of cr s (ev_pubkey ev) sas))"

definition sas_confirmed :: "crypto \<Rightarrow> PairingSession \<Rightarrow> call list \<Rightarrow> bool" where
  "sas_confirmed cr s log \<longleftrightarrow>
     (\<exists>before c between t after. log = before @ c # between @ ConfirmTarget t # after \<and>
        transcript_verified cr s c)"

definition history_inv :: "crypto \<Rightarrow> PairingSession \<Rightarrow> call list \<Rightarrow> bool" where
  "history_inv cr s log \<longleftrightarrow>
     distinct (accepted_ids log) \<and>
     (ps_sas_input s \<noteq> None \<longrightarrow> ps_sas_code s \<noteq> None) \<and>
     length log \<le> rank (ps_state s) \<and>
     (ps_state s = Waiting \<or> ps_state s = Aborted \<or> ps_peer_pubkey s \<noteq> None) \<and>
     (\<forall>c \<in> set log. \<forall>ev. call_event c = Some ev \<longrightarrow>
        event_verify cr ev \<and> ev_id ev \<in> ps_processed_ids s \<and> ps_peer_pubkey s = Some (ev_pubkey ev))"

definition target_inv :: "crypto \<Rightarrow> PairingSession \<Rightarrow> call list \<Rightarrow> bool" where
  "target_inv cr s log \<longleftrightarrow>
     (ps_state s = AwaitingConfirmation \<longrightarrow> (\<exists>c \<in> set log. transcript_verified cr s c)) \<and>
     (ps_state s \<in> {Transferring, PayloadExchanged, Completed} \<longrightarrow> sas_confirmed cr s log) \<and>
     (rank (ps_state s) \<le> 3 \<longrightarrow> (\<forall>t ev. PayloadIn t ev \<notin> set log))"

definition session_inv :: "crypto \<Rightarrow> PairingSession \<Rightarrow> PairingSession \<times> call list \<Rightarrow> bool" where
  "session_inv cr s0 x \<longleftrightarrow>
     (case x of (s, log) \<Rightarrow>
        kept s0 s \<and> history_inv cr s log \<and> (ps_role s = Target \<longrightarrow> target_inv cr s log))"

lemma new_target_Inr:
  assumes "new_target cr keys now u rnd qr = Inr (s, ev)"
  obtains ecdh where "generate_shared_key cr keys (qr_source_pubkey qr) = Some ecdh"
    and "s = \<lparr>ps_role = Target, ps_state = Confirming, ps_keys = keys,
                ps_session_secret = qr_session_secret qr, ps_relay_urls = qr_relays qr,
                ps_peer_pubkey = Some (qr_source_pubkey qr),
                ps_session_id = derive_session_id cr (qr_session_secret qr),
                ps_sas_code = Some (fst (derive_sas cr ecdh (qr_session_secret qr))),
                ps_sas_input = Some (snd (derive_sas cr ecdh (qr_session_secret qr))), ps_processed_ids = {},
                ps_created_at = now, ps_timeout = DEFAULT_TIMEOUT\<rparr>"
  using assms by (auto simp: new_target_def Let_def split: perform_splits)

lemma session_inv_start: "started cr s \<Longrightarrow> session_inv cr s (s, [])"
  by (auto simp: started_def session_inv_def history_inv_def target_inv_def new_source_def Let_def elim!: new_target_Inr)


lemma decrypt_kept: "kept s t \<Longrightarrow> decrypt_message cr ev t = decrypt_message cr ev s"
  by (simp add: kept_def decrypt_message_def Let_def)

lemma transcript_verified_kept:
  "kept s t \<Longrightarrow> ps_role s = Target \<Longrightarrow> transcript_verified cr t c = transcript_verified cr s c"
  using decrypt_kept [of s t cr]
  by (simp add: kept_def transcript_verified_def transcript_of_def)

lemma sas_confirmed_kept:
  "kept s t \<Longrightarrow> ps_role s = Target \<Longrightarrow> sas_confirmed cr t log = sas_confirmed cr s log"
  by (simp add: sas_confirmed_def transcript_verified_kept)

lemma sas_confirmed_append: "sas_confirmed cr s log \<Longrightarrow> sas_confirmed cr s (log @ more_calls)"
  unfolding sas_confirmed_def by (metis append.assoc append_Cons)

lemma sas_confirmed_snoc:
  "c \<in> set log \<Longrightarrow> transcript_verified cr s c \<Longrightarrow> sas_confirmed cr s (log @ [ConfirmTarget t])"
  unfolding sas_confirmed_def by (metis append.assoc append_Cons split_list)

lemma target_step:
  assumes "perform cr c s = (t, True)" and "ps_role s = Target"
  shows "ps_state t = AwaitingConfirmation \<Longrightarrow> transcript_verified cr s c"
    and "ps_state t = Transferring \<Longrightarrow> ps_state s = AwaitingConfirmation \<and> (\<exists>now. c = ConfirmTarget now)"
    and "ps_state t \<in> {PayloadExchanged, Completed} \<Longrightarrow> ps_state s \<in> {Transferring, PayloadExchanged}"
    and "c = PayloadIn now ev \<Longrightarrow> ps_state t = PayloadExchanged"
  using assms
  by (cases c; simp add: session_defs first_error_cases terminal_cases record_event_def Let_def
        transcript_verified_def transcript_of_def ct_eq_def
        split: perform_splits; auto dest: validate_None)+


lemma history_failure:
  assumes "perform cr c s = (t, False)" and "history_inv cr s log"
  shows "history_inv cr t log"
proof -
  have "ps_sas_input s \<noteq> None \<longrightarrow> ps_sas_code s \<noteq> None"
    using assms(2) by (simp add: history_inv_def)
  note step = processed_perform [OF assms(1)] failed_rank [OF assms(1)]
    failed_outcome [OF assms(1) this] sas_perform [OF assms(1) this]
  have "length log \<le> rank (ps_state t)"
    using assms(2) step(2) by (simp add: history_inv_def)
  moreover have "ps_state t = Waiting \<or> ps_state t = Aborted \<or> ps_peer_pubkey t \<noteq> None"
    using assms(2) step(3) by (auto simp: history_inv_def)
  moreover have "\<forall>c \<in> set log. \<forall>ev. call_event c = Some ev \<longrightarrow>
      event_verify cr ev \<and> ev_id ev \<in> ps_processed_ids t \<and> ps_peer_pubkey t = Some (ev_pubkey ev)"
    using assms(2) step(1,3) by (cases "ps_state s = Waiting") (auto simp: history_inv_def)
  ultimately show ?thesis
    using step(4) assms(2) by (simp add: history_inv_def)
qed

lemma history_success:
  assumes "perform cr c s = (t, True)" and "history_inv cr s log"
  shows "history_inv cr t (log @ [c])"
proof -
  have sas: "ps_sas_input s \<noteq> None \<longrightarrow> ps_sas_code s \<noteq> None"
    using assms(2) by (simp add: history_inv_def)
  note step = processed_perform [OF assms(1)] rank_perform [OF assms(1)] successful_peer [OF assms(1)]
  have peer: "ps_state s = Waiting \<or> ps_peer_pubkey s \<noteq> None"
    using assms(2) step(5) by (auto simp: history_inv_def)
  note ev = successful_event [OF assms(1) _ peer]
  have "length (log @ [c]) \<le> rank (ps_state t)"
    using assms(2) step(2) by (simp add: history_inv_def)
  moreover have "ps_state t = Waiting \<or> ps_state t = Aborted \<or> ps_peer_pubkey t \<noteq> None"
    using peer step(3,4) by (cases "ps_state s = Waiting") auto
  moreover have "\<forall>c \<in> set log. \<forall>ev. call_event c = Some ev \<longrightarrow>
      event_verify cr ev \<and> ev_id ev \<in> ps_processed_ids t \<and> ps_peer_pubkey t = Some (ev_pubkey ev)"
    using assms(2) step(1,3) by (cases "ps_state s = Waiting") (auto simp: history_inv_def)
  moreover have "distinct (accepted_ids (log @ [c]))"
    using assms(2) ev(2) by (fastforce simp: history_inv_def accepted_ids_mem split: option.split)
  ultimately show ?thesis
    using sas_perform [OF assms(1) sas] ev by (simp add: history_inv_def)
qed

lemma target_failure:
  assumes "perform cr c s = (t, False)" and "history_inv cr s log" and "target_inv cr s log"
    and "ps_role s = Target"
  shows "target_inv cr t log"
proof -
  have "ps_sas_input s \<noteq> None \<longrightarrow> ps_sas_code s \<noteq> None"
    using assms(2) by (simp add: history_inv_def)
  then have "ps_state t = ps_state s \<or> ps_state t = Aborted"
    using failed_outcome [OF assms(1)] by blast
  then show ?thesis
    using assms(3) transcript_verified_kept [OF kept_perform [OF assms(1)] assms(4)]
      sas_confirmed_kept [OF kept_perform [OF assms(1)] assms(4)]
    by (auto simp: target_inv_def)
qed

lemma target_success:
  assumes "perform cr c s = (t, True)" and "target_inv cr s log" and "ps_role s = Target"
  shows "target_inv cr t (log @ [c])"
proof -
  note step = target_step [OF assms(1,3)] and lt = rank_perform [OF assms(1)]
  have "ps_state t \<in> {PayloadExchanged, Completed} \<Longrightarrow> sas_confirmed cr s (log @ [c])"
    using step(3) assms(2) sas_confirmed_append [of cr s log "[c]"] by (auto simp: target_inv_def)
  moreover have "ps_state t = Transferring \<Longrightarrow> sas_confirmed cr s (log @ [c])"
    using step(2) assms(2) by (auto simp: target_inv_def intro: sas_confirmed_snoc)
  moreover have "rank (ps_state t) \<le> 3 \<Longrightarrow> PayloadIn now ev \<notin> set (log @ [c])" for now ev
    using step(4) [of now ev] assms(2) lt by (auto simp: target_inv_def)
  ultimately show ?thesis
    using step(1) transcript_verified_kept [OF kept_perform [OF assms(1)] assms(3)]
      sas_confirmed_kept [OF kept_perform [OF assms(1)] assms(3)]
    by (auto simp: target_inv_def)
qed

interpretation pairing: invariant_system "\<lambda>x. x = (s0, []) \<and> started cr s0" "advance cr" "session_inv cr s0"
  for cr s0
proof
  show "session_inv cr s0 x" if "x = (s0, []) \<and> started cr s0" for x
    using that session_inv_start by simp
  show "session_inv cr s0 y" if "advance cr x y" and "session_inv cr s0 x" for x y
    using that
  proof (induction rule: advance.induct)
    case (success c s t log)
    then show ?case
      using kept_perform [OF success(1)] kept_trans [of s0 s t] history_success target_success
      by (auto simp: session_inv_def kept_def)
  next
    case (failure c s t log)
    then show ?case
      using kept_perform [OF failure(1)] kept_trans [of s0 s t] history_failure target_failure
      by (auto simp: session_inv_def kept_def)
  qed
qed


section \<open>What a session guarantees\<close>

lemma handle_payload_Inr:
  assumes "handle_payload cr now ev s = (s', Inr (pt, p))"
  shows "ps_state s = Transferring" and "ps_role s = Target"
    and "decrypt_message cr ev s = Inr (Payload pt p)"
    and "validate_event_from_peer cr ev s = None"
  using assms
  by (auto simp: handle_payload_def take_payload_def first_error_cases split: perform_splits)

lemma on_time:
  "perform cr c s = (t, True) \<Longrightarrow> call_time c = Some now \<Longrightarrow> \<not> is_expired now s"
  by (cases c) (auto simp: session_defs first_error_cases split: perform_splits)

lemma started_timeout: "started cr s \<Longrightarrow> ps_timeout s = DEFAULT_TIMEOUT"
  by (auto simp: started_def new_source_def elim!: new_target_Inr)

lemma terminal_advance:
  "(advance cr)\<^sup>*\<^sup>* x y \<Longrightarrow> ps_state (fst x) \<in> {Completed, Aborted} \<Longrightarrow> y = x"
proof (induction rule: rtranclp_induct)
  case (step y z)
  then show ?case
    using terminal_perform [of "fst x" cr] by (auto elim!: advance.cases)
qed simp

end
