(* ===== verification/Pairing_Exchange.thy ===== *)
theory Pairing_Exchange
  imports Pairing_Props
begin

text \<open>
  Two devices pairing. The laws of the third-party cryptography that the protocol relies on are
  the predicate \<open>crypto_laws\<close>; under them an undisturbed exchange between a source and a target
  completes. The safety of a session holds for any cryptography and any calls. The last part
  gives a concrete, insecure instance of \<open>crypto\<close> for which the laws hold.
\<close>

section \<open>The laws of the cryptography\<close>

definition message_fits :: "crypto \<Rightarrow> PairingMessage \<Rightarrow> bool" where
  "message_fits cr m \<longleftrightarrow>
     (case to_json cr m of
        None \<Rightarrow> False
      | Some j \<Rightarrow> 1 \<le> length j \<and> length j \<le> 65535 \<and> from_json cr j = Some m)"

definition signs :: "crypto \<Rightarrow> secret_key \<Rightarrow> kind \<Rightarrow> string \<Rightarrow> pubkey \<Rightarrow> event \<Rightarrow> bool" where
  "signs cr k kd content peer ev \<longleftrightarrow>
     event_verify cr ev \<and> ev_pubkey ev = public_key cr k \<and> ev_kind ev = kd \<and> ev_content ev = content \<and>
     list_ex (\<lambda>t. tag_slice t = [''p'', peer]) (ev_tags ev)"

text \<open>
  For the secret keys \<open>a\<close> and \<open>b\<close> of two devices: ECDH is defined and symmetric; NIP-44 encryption
  of 1 to 65535 bytes is undone by the other side and yields 132 to 87472 characters; hex
  encoding is injective and two characters a byte; HKDF fills its 32 bytes; the fixed-size
  messages survive JSON; signing yields a verifiable event with the given contents; and two
  verifiable events with one id have one content.
\<close>

definition crypto_laws :: "crypto \<Rightarrow> secret_key \<Rightarrow> secret_key \<Rightarrow> bool" where
  "crypto_laws cr a b \<longleftrightarrow>
     (\<exists>sh. generate_shared_key cr a (public_key cr b) = Some sh \<and>
        generate_shared_key cr b (public_key cr a) = Some sh) \<and>
     (\<forall>x \<in> {a, b}. \<forall>y \<in> {a, b}. \<forall>j. 1 \<le> length j \<and> length j \<le> 65535 \<longrightarrow>
        (\<exists>ct. nip44_encrypt cr x (public_key cr y) j = Some ct \<and> 132 \<le> length ct \<and> length ct \<le> 87472 \<and>
           nip44_decrypt cr y (public_key cr x) ct = Some j)) \<and>
     (\<forall>bs. hex_decode cr (hex_encode cr bs) = Some bs \<and> length (hex_encode cr bs) = 2 * length bs) \<and>
     (\<forall>salt ikm info. length (hkdf32 cr salt ikm info) = 32) \<and>
     (\<forall>h. length h = 64 \<longrightarrow> message_fits cr (Offer h 1) \<and> message_fits cr (SasConfirm h)) \<and>
     message_fits cr (Complete True) \<and>
     (\<forall>x kd content peer ts. \<exists>ev. sign_with_keys cr x kd content peer ts = Some ev \<and>
        signs cr x kd content peer ev) \<and>
     (\<forall>e e'. event_verify cr e \<and> event_verify cr e' \<and> ev_id e = ev_id e' \<longrightarrow> ev_content e = ev_content e')"

section \<open>One message\<close>

definition delivers :: "crypto \<Rightarrow> event \<Rightarrow> secret_key \<Rightarrow> secret_key \<Rightarrow> PairingMessage \<Rightarrow> bool" where
  "delivers cr ev x y m \<longleftrightarrow>
     event_verify cr ev \<and> ev_pubkey ev = public_key cr x \<and> ev_kind ev = PAIRING_KIND \<and>
     list_ex (\<lambda>t. tag_slice t = [''p'', public_key cr y]) (ev_tags ev) \<and>
     (\<forall>s. ps_keys s = y \<longrightarrow> decrypt_message cr ev s = Inr m)"

lemma build_event_delivers:
  assumes "crypto_laws cr a b" and "x \<in> {a, b}" and "y \<in> {a, b}" and "message_fits cr m"
    and "ps_keys s = x" and "ps_peer_pubkey s = Some (public_key cr y)"
  shows "\<exists>ev. build_event cr u rnd m s = Inr ev \<and> delivers cr ev x y m"
proof -
  obtain j where j: "to_json cr m = Some j" "1 \<le> length j" "length j \<le> 65535" "from_json cr j = Some m"
    using assms(4) by (auto simp: message_fits_def split: option.splits)
  then obtain ct where ct: "nip44_encrypt cr x (public_key cr y) j = Some ct" "132 \<le> length ct"
    "length ct \<le> 87472" "nip44_decrypt cr y (public_key cr x) ct = Some j"
    using assms(1-3) unfolding crypto_laws_def by blast
  obtain ev where "sign_with_keys cr x PAIRING_KIND ct (public_key cr y) (u - rnd mod 31) = Some ev"
    and "signs cr x PAIRING_KIND ct (public_key cr y) ev"
    using assms(1) unfolding crypto_laws_def by blast
  then show ?thesis
    using j ct assms(5,6) by (auto simp: build_event_def signs_def delivers_def decrypt_message_def)
qed

lemma delivered_valid:
  assumes "delivers cr ev x y m" and "ps_keys s = y" and "ev_id ev \<notin> ps_processed_ids s"
  shows "validate_event_basics cr ev s = None"
    and "ps_peer_pubkey s = Some (public_key cr x) \<Longrightarrow> validate_event_from_peer cr ev s = None"
    and "decrypt_message cr ev s = Inr m"
proof -
  obtain t where "t \<in> set (ev_tags ev)" and "tag_slice t = [''p'', public_key cr (ps_keys s)]"
    using assms(1,2) by (auto simp: delivers_def list_ex_iff)
  then have "list_ex (\<lambda>t. case tag_slice t of
      c # d # _ \<Rightarrow> c = ''p'' \<and> d = public_key cr (ps_keys s) | _ \<Rightarrow> False) (ev_tags ev)"
    unfolding list_ex_iff by (intro bexI [of _ t]) simp_all
  then show basics: "validate_event_basics cr ev s = None"
    using assms by (simp add: delivers_def validate_event_basics_def)
  show "ps_peer_pubkey s = Some (public_key cr x) \<Longrightarrow> validate_event_from_peer cr ev s = None"
    using basics assms(1) by (simp add: validate_event_from_peer_def delivers_def)
  show "decrypt_message cr ev s = Inr m"
    using assms by (simp add: delivers_def)
qed

lemma delivered_ids_differ:
  assumes "crypto_laws cr a b" and "delivers cr e x y m" and "delivers cr e' x y m'" and "m \<noteq> m'"
  shows "ev_id e \<noteq> ev_id e'"
proof
  assume "ev_id e = ev_id e'"
  then have "ev_content e = ev_content e'"
    using assms(1-3) unfolding crypto_laws_def delivers_def by blast
  moreover obtain s :: PairingSession where "ps_keys s = y"
    by (rule that [of "fst (new_source cr y [] [] 0)"]) (simp add: new_source_def)
  moreover have "ev_pubkey e = ev_pubkey e'"
    using assms(2,3) by (simp add: delivers_def)
  ultimately have "decrypt_message cr e s = decrypt_message cr e' s"
    by (simp only: decrypt_message_def)
  then show False
    using assms(2-4) \<open>ps_keys s = y\<close> by (simp add: delivers_def)
qed


section \<open>The exchange, step by step\<close>

lemma handle_offer_ok:
  assumes "\<not> is_expired now s" and "ps_state s = Waiting" and "ps_role s = Source"
    and "validate_event_basics cr ev s = None" and "decrypt_message cr ev s = Inr (Offer h 1)"
    and "decode32 cr h = Some (ps_session_id s)" and "generate_shared_key cr (ps_keys s) (ev_pubkey ev) = Some sh"
  shows "handle_offer cr now ev s =
    (record_event ev (s\<lparr>ps_peer_pubkey := Some (ev_pubkey ev), ps_sas_code := Some (fst (derive_sas cr sh (ps_session_secret s))),
       ps_sas_input := Some (snd (derive_sas cr sh (ps_session_secret s))), ps_state := Confirming\<rparr>),
     Inr (format_sas (fst (derive_sas cr sh (ps_session_secret s)))))"
  using assms by (simp add: handle_offer_def first_error_cases ct_eq_def case_prod_beta)

lemma confirm_sas_ok:
  assumes "\<not> is_expired now s" and "ps_state s = Confirming" and "ps_role s = Source"
    and "ps_sas_input s = Some sas" and "ps_peer_pubkey s = Some peer"
    and "build_event cr u rnd (SasConfirm (hex_encode cr (derive_transcript_hash cr (ps_session_id s)
           (pk_to_bytes cr (public_key cr (ps_keys s))) (pk_to_bytes cr peer) sas (ps_session_secret s)))) s = Inr ev"
  shows "confirm_sas cr now u rnd s = (s\<lparr>ps_state := Transferring\<rparr>, Inr ev)"
  using assms by (simp add: confirm_sas_def first_error_cases)

lemma handle_sas_confirm_ok:
  assumes "\<not> is_expired now s" and "ps_state s = Confirming" and "ps_role s = Target"
    and "validate_event_from_peer cr ev s = None" and "decrypt_message cr ev s = Inr (SasConfirm h)"
    and "ps_sas_input s = Some sas" and "ps_peer_pubkey s = Some peer" and "ps_sas_code s = Some code"
    and "decode32 cr h = Some (transcript_of cr s peer sas)"
  shows "handle_sas_confirm cr now ev s =
    (record_event ev (s\<lparr>ps_state := AwaitingConfirmation\<rparr>), Inr (format_sas code))"
  using assms
  by (simp add: handle_sas_confirm_def first_error_cases ct_eq_def transcript_of_def record_event_def)

lemma take_payload_ok:
  assumes "\<not> is_expired now s" and "ps_state s = Transferring" and "ps_role s = role"
    and "validate_event_from_peer cr ev s = None" and "decrypt_message cr ev s = Inr (Payload pt p)"
  shows "take_payload cr role now ev s =
    (record_event ev (s\<lparr>ps_state := PayloadExchanged\<rparr>), Inr (pt, p))"
  using assms by (simp add: take_payload_def first_error_cases)

lemma decode_encode: "crypto_laws cr a b \<Longrightarrow> length bs = 32 \<Longrightarrow> decode32 cr (hex_encode cr bs) = Some bs"
  by (simp add: crypto_laws_def decode32_def)

lemma format_sas_length: "length (format_sas (fst (derive_sas cr sh secret))) = 6"
proof -
  let ?code = "fst (derive_sas cr sh secret)"
  have "?code < 1000000"
    by (simp add: derive_sas_def Let_def word_mod_less_divisor)
  then have "unat ?code < 10 ^ 6"
    by (simp add: word_less_nat_alt)
  then show ?thesis
    using decimal_length [of "unat ?code" 6] by (simp add: format_sas_def Let_def)
qed


text \<open>
  \<open>confirmed cr ks kt ts tt e e' src tgt\<close>: the two sessions after the target has checked the
  transcript; \<open>ts\<close> and \<open>tt\<close> are the times they started, \<open>e\<close> and \<open>e'\<close> the events they consumed.
\<close>

definition confirmed ::
  "crypto \<Rightarrow> secret_key \<Rightarrow> secret_key \<Rightarrow> nat \<Rightarrow> nat \<Rightarrow> event \<Rightarrow> event \<Rightarrow> PairingSession \<Rightarrow> PairingSession \<Rightarrow> bool" where
  "confirmed cr ks kt ts tt e e' src tgt \<longleftrightarrow>
     ps_role src = Source \<and> ps_state src = Transferring \<and> ps_keys src = ks \<and>
     ps_peer_pubkey src = Some (public_key cr kt) \<and> ps_processed_ids src = {ev_id e} \<and>
     ps_created_at src = ts \<and> ps_timeout src = DEFAULT_TIMEOUT \<and>
     ps_role tgt = Target \<and> ps_state tgt = AwaitingConfirmation \<and> ps_keys tgt = kt \<and>
     ps_peer_pubkey tgt = Some (public_key cr ks) \<and> ps_processed_ids tgt = {ev_id e'} \<and>
     ps_created_at tgt = tt \<and> ps_timeout tgt = DEFAULT_TIMEOUT \<and>
     ps_sas_code src = ps_sas_code tgt"

lemma new_target_ok:
  assumes laws: "crypto_laws cr ks kt" and qr: "qr = snd (new_source cr ks secret url ts)"
    and ecdh: "generate_shared_key cr kt (public_key cr ks) = Some sh"
  shows "\<exists>tgt0 offer. new_target cr kt tt u rnd qr = Inr (tgt0, offer) \<and>
    delivers cr offer kt ks (Offer (hex_encode cr (derive_session_id cr secret)) 1)"
proof -
  let ?id = "derive_session_id cr secret"
  have "length (hex_encode cr ?id) = 64"
    using laws by (simp add: crypto_laws_def derive_session_id_def)
  then have fits: "message_fits cr (Offer (hex_encode cr ?id) 1)"
    using laws unfolding crypto_laws_def by blast
  define s where "s = \<lparr>ps_role = Target, ps_state = Waiting, ps_keys = kt, ps_session_secret = secret,
    ps_relay_urls = [url], ps_peer_pubkey = Some (public_key cr ks), ps_session_id = ?id,
    ps_sas_code = Some (fst (derive_sas cr sh secret)), ps_sas_input = Some (snd (derive_sas cr sh secret)),
    ps_processed_ids = {}, ps_created_at = tt, ps_timeout = DEFAULT_TIMEOUT\<rparr>"
  obtain offer where "build_event cr u rnd (Offer (hex_encode cr ?id) 1) s = Inr offer"
    and "delivers cr offer kt ks (Offer (hex_encode cr ?id) 1)"
    using build_event_delivers [OF laws _ _ fits, of kt ks s u rnd] by (auto simp: s_def)
  then show ?thesis
    using ecdh qr unfolding s_def by (auto simp: new_target_def new_source_def Let_def case_prod_beta)
qed

lemma offer_accepted:
  assumes laws: "crypto_laws cr ks kt" and src0: "(src0, qr) = new_source cr ks secret url ts"
    and sh: "generate_shared_key cr ks (public_key cr kt) = Some sh"
    and offer: "delivers cr offer kt ks (Offer (hex_encode cr (derive_session_id cr secret)) 1)"
    and "now \<le> ts + DEFAULT_TIMEOUT"
  shows "handle_offer cr now offer src0 =
    (record_event offer (src0\<lparr>ps_peer_pubkey := Some (public_key cr kt),
       ps_sas_code := Some (fst (derive_sas cr sh secret)), ps_sas_input := Some (snd (derive_sas cr sh secret)),
       ps_state := Confirming\<rparr>), Inr (format_sas (fst (derive_sas cr sh secret))))"
proof -
  have keys: "ev_pubkey offer = public_key cr kt" "ps_session_secret src0 = secret" "ps_keys src0 = ks"
    using offer src0 by (auto simp: delivers_def new_source_def)
  have valid: "validate_event_basics cr offer src0 = None"
    "decrypt_message cr offer src0 = Inr (Offer (hex_encode cr (derive_session_id cr secret)) 1)"
    using delivered_valid [OF offer keys(3)] src0 by (auto simp: new_source_def)
  have "decode32 cr (hex_encode cr (derive_session_id cr secret)) = Some (ps_session_id src0)"
    using src0 decode_encode [OF laws, of "derive_session_id cr secret"] laws
    by (simp add: new_source_def derive_session_id_def crypto_laws_def)
  then show ?thesis
    using handle_offer_ok [OF _ _ _ valid] src0 sh keys assms(5)
    by (simp add: new_source_def is_expired_def)
qed

lemma exchange_sas:
  assumes laws: "crypto_laws cr ks kt" and src0: "(src0, qr) = new_source cr ks secret url ts"
    and time: "t2 \<le> ts + DEFAULT_TIMEOUT" "t3 \<le> ts + DEFAULT_TIMEOUT" "t4 \<le> tt + DEFAULT_TIMEOUT"
  shows "\<exists>tgt0 offer src1 sas src2 conf tgt1 h h'.
    new_target cr kt tt u1 r1 qr = Inr (tgt0, offer) \<and>
    handle_offer cr t2 offer src0 = (src1, Inr sas) \<and> length sas = 6 \<and>
    confirm_sas cr t3 u3 r3 src1 = (src2, Inr conf) \<and>
    handle_sas_confirm cr t4 conf tgt0 = (tgt1, Inr sas) \<and>
    delivers cr offer kt ks (Offer h 1) \<and> delivers cr conf ks kt (SasConfirm h') \<and>
    confirmed cr ks kt ts tt offer conf src2 tgt1"
proof -
  let ?id = "derive_session_id cr secret"
  obtain sh where sh: "generate_shared_key cr ks (public_key cr kt) = Some sh"
    "generate_shared_key cr kt (public_key cr ks) = Some sh"
    using laws unfolding crypto_laws_def by blast
  obtain tgt0 offer where tgt0: "new_target cr kt tt u1 r1 qr = Inr (tgt0, offer)"
    and offer: "delivers cr offer kt ks (Offer (hex_encode cr ?id) 1)"
    using new_target_ok [OF laws _ sh(2), of qr secret url ts tt u1 r1] src0 by (metis snd_conv)
  let ?sas = "derive_sas cr sh secret"
  define src1 where "src1 = record_event offer (src0\<lparr>ps_peer_pubkey := Some (public_key cr kt),
    ps_sas_code := Some (fst ?sas), ps_sas_input := Some (snd ?sas), ps_state := Confirming\<rparr>)"
  have src1: "handle_offer cr t2 offer src0 = (src1, Inr (format_sas (fst ?sas)))"
    using offer_accepted [OF laws src0 sh(1) offer time(1)] by (simp add: src1_def)
  define hash where "hash = derive_transcript_hash cr ?id (pk_to_bytes cr (public_key cr ks))
    (pk_to_bytes cr (public_key cr kt)) (snd ?sas) secret"
  have "length hash = 32"
    using laws by (simp add: hash_def derive_transcript_hash_def crypto_laws_def Let_def)
  then have dec: "decode32 cr (hex_encode cr hash) = Some hash" and "length (hex_encode cr hash) = 64"
    using decode_encode [OF laws] laws by (auto simp: crypto_laws_def)
  then have "message_fits cr (SasConfirm (hex_encode cr hash))"
    using laws unfolding crypto_laws_def by blast
  moreover have "ps_keys src1 = ks" "ps_peer_pubkey src1 = Some (public_key cr kt)"
    using src0 by (auto simp: src1_def record_event_def new_source_def)
  ultimately obtain conf where "build_event cr u3 r3 (SasConfirm (hex_encode cr hash)) src1 = Inr conf"
    and conf: "delivers cr conf ks kt (SasConfirm (hex_encode cr hash))"
    using build_event_delivers [OF laws, of ks kt "SasConfirm (hex_encode cr hash)" src1 u3 r3] by blast
  then have src2: "confirm_sas cr t3 u3 r3 src1 = (src1\<lparr>ps_state := Transferring\<rparr>, Inr conf)"
    using src0 time(2) by (intro confirm_sas_ok [of _ _ "snd ?sas" "public_key cr kt"])
      (auto simp: src1_def record_event_def new_source_def is_expired_def hash_def)
  have "transcript_of cr tgt0 (public_key cr ks) (snd ?sas) = hash" and
    t0: "ps_keys tgt0 = kt" "ps_processed_ids tgt0 = {}" "ps_peer_pubkey tgt0 = Some (public_key cr ks)"
      "ps_sas_input tgt0 = Some (snd ?sas)" "ps_sas_code tgt0 = Some (fst ?sas)" "ps_state tgt0 = Confirming"
      "ps_role tgt0 = Target" "ps_created_at tgt0 = tt" "ps_timeout tgt0 = DEFAULT_TIMEOUT"
    using tgt0 src0 sh(2) by (auto simp: new_source_def transcript_of_def hash_def elim!: new_target_Inr)
  then have "handle_sas_confirm cr t4 conf tgt0 =
      (record_event conf (tgt0\<lparr>ps_state := AwaitingConfirmation\<rparr>), Inr (format_sas (fst ?sas)))"
    using delivered_valid [OF conf t0(1)] dec time(3) by (intro handle_sas_confirm_ok) (auto simp: is_expired_def)
  moreover have "confirmed cr ks kt ts tt offer conf (src1\<lparr>ps_state := Transferring\<rparr>)
      (record_event conf (tgt0\<lparr>ps_state := AwaitingConfirmation\<rparr>))"
    using t0 src0 by (auto simp: confirmed_def src1_def record_event_def new_source_def)
  ultimately show ?thesis
    using tgt0 src1 src2 offer conf format_sas_length by metis
qed


lemma exchange_payload:
  assumes laws: "crypto_laws cr ks kt" and fits: "message_fits cr (Payload pt p)"
    and conf: "confirmed cr ks kt ts tt e e' src2 tgt1" and e': "delivers cr e' ks kt (SasConfirm h')"
    and time: "t5 \<le> tt + DEFAULT_TIMEOUT" "t6 \<le> ts + DEFAULT_TIMEOUT" "t7 \<le> tt + DEFAULT_TIMEOUT"
  shows "\<exists>tgt2 src3 pay tgt3.
    confirm_target_sas t5 tgt1 = (tgt2, Inr ()) \<and>
    send_payload cr t6 u6 r6 pt p src2 = (src3, Inr pay) \<and>
    handle_payload cr t7 pay tgt2 = (tgt3, Inr (pt, p)) \<and>
    src3 = src2\<lparr>ps_state := PayloadExchanged\<rparr> \<and>
    tgt3 = record_event pay (tgt1\<lparr>ps_state := PayloadExchanged\<rparr>)"
proof -
  have src: "ps_keys src2 = ks" "ps_peer_pubkey src2 = Some (public_key cr kt)"
    using conf by (auto simp: confirmed_def)
  obtain pay where built: "build_event cr u6 r6 (Payload pt p) src2 = Inr pay"
    and pay: "delivers cr pay ks kt (Payload pt p)"
    using build_event_delivers [OF laws _ _ fits src(1,2)] by blast
  have "ev_id pay \<noteq> ev_id e'"
    using delivered_ids_differ [OF laws pay e'] by simp
  then have "ev_id pay \<notin> ps_processed_ids (tgt1\<lparr>ps_state := Transferring\<rparr>)" and
    "ps_keys (tgt1\<lparr>ps_state := Transferring\<rparr>) = kt"
    using conf by (auto simp: confirmed_def)
  note valid = delivered_valid [OF pay this(2,1)]
  have "confirm_target_sas t5 tgt1 = (tgt1\<lparr>ps_state := Transferring\<rparr>, Inr ())"
    using conf time(1) by (simp add: confirm_target_sas_def first_error_cases confirmed_def is_expired_def)
  moreover have "send_payload cr t6 u6 r6 pt p src2 = (src2\<lparr>ps_state := PayloadExchanged\<rparr>, Inr pay)"
    using conf time(2) built
    by (simp add: send_payload_def first_error_cases confirmed_def is_expired_def)
  moreover have "handle_payload cr t7 pay (tgt1\<lparr>ps_state := Transferring\<rparr>) =
      (record_event pay (tgt1\<lparr>ps_state := PayloadExchanged\<rparr>), Inr (pt, p))"
    using conf time(3) valid by (simp add: handle_payload_def take_payload_ok confirmed_def is_expired_def)
  ultimately show ?thesis
    by blast
qed

lemma exchange_complete:
  assumes laws: "crypto_laws cr ks kt" and conf: "confirmed cr ks kt ts tt e e' src2 tgt1"
    and e: "delivers cr e kt ks (Offer h 1)"
    and src3: "src3 = src2\<lparr>ps_state := PayloadExchanged\<rparr>"
    and tgt3: "tgt3 = record_event pay (tgt1\<lparr>ps_state := PayloadExchanged\<rparr>)"
    and time: "t8 \<le> tt + DEFAULT_TIMEOUT" "t9 \<le> ts + DEFAULT_TIMEOUT"
  shows "\<exists>tgt4 fin src4.
    send_complete cr t8 u8 r8 tgt3 = (tgt4, Inr fin) \<and> handle_complete cr t9 fin src3 = (src4, Inr ()) \<and>
    ps_state src4 = Completed \<and> ps_state tgt4 = Completed \<and>
    session_sas_code src4 = session_sas_code tgt4"
proof -
  have tgt: "ps_keys tgt3 = kt" "ps_peer_pubkey tgt3 = Some (public_key cr ks)"
    using conf tgt3 by (auto simp: confirmed_def record_event_def)
  have "message_fits cr (Complete True)"
    using laws by (simp add: crypto_laws_def)
  then obtain fin where built: "build_event cr u8 r8 (Complete True) tgt3 = Inr fin"
    and fin: "delivers cr fin kt ks (Complete True)"
    using build_event_delivers [OF laws _ _ _ tgt] by blast
  have "ev_id fin \<noteq> ev_id e"
    using delivered_ids_differ [OF laws fin e] by simp
  then have "ev_id fin \<notin> ps_processed_ids src3" and "ps_keys src3 = ks"
    using conf src3 by (auto simp: confirmed_def)
  note valid = delivered_valid [OF fin this(2,1)]
  have "send_complete cr t8 u8 r8 tgt3 = (tgt3\<lparr>ps_state := Completed\<rparr>, Inr fin)"
    using conf tgt3 time(1) built
    by (simp add: send_complete_def first_error_cases confirmed_def is_expired_def record_event_def)
  moreover have "handle_complete cr t9 fin src3 = (record_event fin (src3\<lparr>ps_state := Completed\<rparr>), Inr ())"
    using conf src3 time(2) valid
    by (simp add: handle_complete_def first_error_cases confirmed_def is_expired_def)
  ultimately show ?thesis
    using conf by (simp add: src3 tgt3 record_event_def session_sas_code_def confirmed_def)
qed

section \<open>A concrete instance\<close>

text \<open>
  An instance without any secrecy: a public key is the secret key, encryption prepends padding,
  an event's id is its content. It satisfies the laws and makes every hypothesis below concrete.
\<close>

fun plain_json :: "PairingMessage \<Rightarrow> string" where
  "plain_json (Offer h _) = CHR ''O'' # h"
| "plain_json (SasConfirm h) = CHR ''S'' # h"
| "plain_json (Payload _ p) = CHR ''P'' # p"
| "plain_json (Complete b) = (if b then ''C'' else ''F'')"
| "plain_json (Abort _) = ''A''"

fun plain_parse :: "string \<Rightarrow> PairingMessage option" where
  "plain_parse [] = None"
| "plain_parse (c # h) =
     (if c = CHR ''O'' then Some (Offer h 1) else if c = CHR ''S'' then Some (SasConfirm h)
      else if c = CHR ''P'' then Some (Payload Nsec h) else if c = CHR ''C'' then Some (Complete True)
      else if c = CHR ''F'' then Some (Complete False) else if c = CHR ''A'' then Some (Abort Unknown) else None)"

fun plain_hex :: "bytes \<Rightarrow> string" where
  "plain_hex [] = []"
| "plain_hex (b # bs) = char_of (unat b) # CHR ''0'' # plain_hex bs"

fun plain_unhex :: "string \<Rightarrow> bytes option" where
  "plain_unhex [] = Some []"
| "plain_unhex [_] = None"
| "plain_unhex (c # _ # cs) = map_option (\<lambda>bs. word_of_nat (of_char c) # bs) (plain_unhex cs)"

definition plain_crypto :: crypto where
  "plain_crypto =
     \<lparr>hkdf32 = (\<lambda>_ _ _. replicate 32 7),
      public_key = map (\<lambda>b. char_of (unat b)),
      pk_to_bytes = map (\<lambda>c. word_of_nat (of_char c)),
      generate_shared_key = (\<lambda>_ _. Some (replicate 32 5)),
      hex_encode = plain_hex, hex_decode = plain_unhex,
      to_json = (\<lambda>m. Some (plain_json m)), from_json = plain_parse,
      nip44_encrypt = (\<lambda>_ _ j. Some (replicate 132 CHR ''0'' @ j)),
      nip44_decrypt = (\<lambda>_ _ ct. Some (drop 132 ct)),
      sign_with_keys = (\<lambda>k kd content peer ts. Some
        \<lparr>ev_id = content, ev_pubkey = map (\<lambda>b. char_of (unat b)) k, ev_created_at = ts, ev_kind = kd,
         ev_tags = [plain_tag [''p'', peer]], ev_content = content\<rparr>),
      event_verify = (\<lambda>ev. ev_id ev = ev_content ev)\<rparr>"

lemma plain_unhex_hex: "plain_unhex (plain_hex bs) = Some bs"
proof (induction bs)
  case (Cons b bs)
  have "unat b < 2 ^ LENGTH(8)"
    by (rule unsigned_less)
  then have "unat b < 256"
    by simp
  then show ?case
    using Cons by simp
qed simp

lemma plain_hex_length: "length (plain_hex bs) = 2 * length bs"
  by (induction bs) auto

lemma plain_fits:
  "length h \<le> 65534 \<Longrightarrow> message_fits plain_crypto (Offer h 1)"
  "length h \<le> 65534 \<Longrightarrow> message_fits plain_crypto (SasConfirm h)"
  "length h \<le> 65534 \<Longrightarrow> message_fits plain_crypto (Payload Nsec h)"
  "message_fits plain_crypto (Complete True)"
  by (simp_all add: message_fits_def plain_crypto_def)

lemma plain_crypto_laws: "crypto_laws plain_crypto a b"
  unfolding crypto_laws_def
proof (intro conjI)
  show "\<exists>sh. generate_shared_key plain_crypto a (public_key plain_crypto b) = Some sh \<and>
      generate_shared_key plain_crypto b (public_key plain_crypto a) = Some sh"
    by (simp add: plain_crypto_def)
  show "\<forall>h. length h = 64 \<longrightarrow> message_fits plain_crypto (Offer h 1) \<and> message_fits plain_crypto (SasConfirm h)"
    by (simp add: plain_fits)
  show "message_fits plain_crypto (Complete True)"
    by (rule plain_fits)
  show "\<forall>e e'. event_verify plain_crypto e \<and> event_verify plain_crypto e' \<and> ev_id e = ev_id e' \<longrightarrow>
      ev_content e = ev_content e'"
    by (auto simp: plain_crypto_def)
qed (simp_all add: plain_crypto_def plain_unhex_hex plain_hex_length signs_def plain_tag_def)

text \<open>A target session of this instance, up to the payload.\<close>

lemma plain_target_run:
  "\<exists>tgt0 offer conf pay tgt2 tgt3.
     new_target plain_crypto [2] 0 0 0 (snd (new_source plain_crypto [1] [9] ''wss://relay'' 0)) = Inr (tgt0, offer) \<and>
     (advance plain_crypto)\<^sup>*\<^sup>* (tgt0, []) (tgt2, [SasConfirmIn 3 conf, ConfirmTarget 4]) \<and>
     handle_payload plain_crypto 6 pay tgt2 = (tgt3, Inr (Nsec, ''nsec1''))"
proof -
  let ?new = "new_source plain_crypto [1] [9] ''wss://relay'' 0"
  obtain tgt0 offer sas src2 conf tgt1 h' where sas: "new_target plain_crypto [2] 0 0 0 (snd ?new) = Inr (tgt0, offer)"
    "handle_sas_confirm plain_crypto 3 conf tgt0 = (tgt1, Inr sas)"
    and d: "delivers plain_crypto conf [1] [2] (SasConfirm h')"
    and c: "confirmed plain_crypto [1] [2] 0 0 offer conf src2 tgt1"
    using exchange_sas [of plain_crypto "[1]" "[2]" "fst ?new" "snd ?new" "[9]" "''wss://relay''" 0 1 2 3 0 0 0 0 0]
    by (simp add: DEFAULT_TIMEOUT_def plain_crypto_laws) blast
  have "message_fits plain_crypto (Payload Nsec ''nsec1'')"
    by (rule plain_fits) simp
  then obtain tgt2 pay tgt3 where pay: "confirm_target_sas 4 tgt1 = (tgt2, Inr ())"
    "handle_payload plain_crypto 6 pay tgt2 = (tgt3, Inr (Nsec, ''nsec1''))"
    using exchange_payload [OF plain_crypto_laws _ c d, of Nsec "''nsec1''" 4 5 6 0 0]
    by (auto simp: DEFAULT_TIMEOUT_def)
  have "perform plain_crypto (SasConfirmIn 3 conf) tgt0 = (tgt1, True)"
    and "perform plain_crypto (ConfirmTarget 4) tgt1 = (tgt2, True)"
    using sas pay by simp_all
  then have "advance plain_crypto (tgt0, []) (tgt1, [SasConfirmIn 3 conf])"
    and "advance plain_crypto (tgt1, [SasConfirmIn 3 conf]) (tgt2, [SasConfirmIn 3 conf, ConfirmTarget 4])"
    using advance.success [of plain_crypto _ tgt0 tgt1 "[]"]
      advance.success [of plain_crypto _ tgt1 tgt2 "[SasConfirmIn 3 conf]"] by auto
  then have "(advance plain_crypto)\<^sup>*\<^sup>* (tgt0, []) (tgt2, [SasConfirmIn 3 conf, ConfirmTarget 4])"
    by (meson converse_rtranclp_into_rtranclp r_into_rtranclp)
  then show ?thesis
    using sas(1) pay(2) by blast
qed

section \<open>What a session guarantees\<close>

text \<open>
  C1. A target hands out a secret only after both confirmations. Take any target session, made by
  \<open>new_target\<close> from a scanned QR code, and any sequence of calls on it, with any events. If
  \<open>handle_payload\<close> then returns a payload, the event carrying it verifies and comes from the
  source key in the QR code; among the calls that succeeded there is a \<open>handle_sas_confirm\<close> on a
  verified event of that same key whose hash decodes to the transcript hash over the session id,
  both public keys, the SAS input and the session secret, and after it a \<open>confirm_target_sas\<close>;
  and no payload was accepted before.
\<close>

theorem payload_needs_confirmation:
  assumes "new_target cr keys t0 u0 rnd qr = Inr (s0, offer)"
    and "(advance cr)\<^sup>*\<^sup>* (s0, []) (s, log)"
    and "handle_payload cr now ev s = (s', Inr (pt, p))"
  shows "ev_pubkey ev = qr_source_pubkey qr \<and> event_verify cr ev \<and>
    decrypt_message cr ev s0 = Inr (Payload pt p) \<and>
    (\<exists>before t cev h between t' after ecdh.
      log = before @ SasConfirmIn t cev # between @ ConfirmTarget t' # after \<and>
      ev_pubkey cev = qr_source_pubkey qr \<and> event_verify cr cev \<and>
      decrypt_message cr cev s0 = Inr (SasConfirm h) \<and>
      generate_shared_key cr keys (qr_source_pubkey qr) = Some ecdh \<and>
      decode32 cr h =
        Some (derive_transcript_hash cr (derive_session_id cr (qr_session_secret qr))
          (pk_to_bytes cr (qr_source_pubkey qr)) (pk_to_bytes cr (public_key cr keys))
          (snd (derive_sas cr ecdh (qr_session_secret qr))) (qr_session_secret qr))) \<and>
    (\<forall>t'' ev''. PayloadIn t'' ev'' \<notin> set log)"
proof (intro conjI)
  have "started cr s0"
    using assms(1) by (auto simp: started_def)
  then have inv: "session_inv cr s0 (s, log)"
    using pairing.steps_inv [OF assms(2)] session_inv_start by blast
  note ok = handle_payload_Inr [OF assms(3)]
  obtain ecdh where ecdh: "generate_shared_key cr keys (qr_source_pubkey qr) = Some ecdh"
    and s0: "ps_role s0 = Target" "ps_keys s0 = keys" "ps_session_secret s0 = qr_session_secret qr"
      "ps_peer_pubkey s0 = Some (qr_source_pubkey qr)"
      "ps_session_id s0 = derive_session_id cr (qr_session_secret qr)"
      "ps_sas_input s0 = Some (snd (derive_sas cr ecdh (qr_session_secret qr)))"
    using assms(1) by (auto elim!: new_target_Inr)
  have kept: "kept s0 s" and tinv: "target_inv cr s log"
    using inv ok(2) by (auto simp: session_inv_def)
  then have peer: "ps_peer_pubkey s = Some (qr_source_pubkey qr)"
    using s0 by (simp add: kept_def)
  show "ev_pubkey ev = qr_source_pubkey qr" and "event_verify cr ev"
    using validate_None(2) [OF ok(4)] peer by auto
  show "decrypt_message cr ev s0 = Inr (Payload pt p)"
    using ok(3) decrypt_kept [OF kept] by simp
  show "\<forall>t'' ev''. PayloadIn t'' ev'' \<notin> set log"
    using tinv ok(1) by (simp add: target_inv_def)
  have "sas_confirmed cr s0 log"
    using tinv ok(1) sas_confirmed_kept [OF kept s0(1)] by (simp add: target_inv_def)
  then show "\<exists>before t cev h between t' after ecdh.
      log = before @ SasConfirmIn t cev # between @ ConfirmTarget t' # after \<and>
      ev_pubkey cev = qr_source_pubkey qr \<and> event_verify cr cev \<and>
      decrypt_message cr cev s0 = Inr (SasConfirm h) \<and>
      generate_shared_key cr keys (qr_source_pubkey qr) = Some ecdh \<and>
      decode32 cr h =
        Some (derive_transcript_hash cr (derive_session_id cr (qr_session_secret qr))
          (pk_to_bytes cr (qr_source_pubkey qr)) (pk_to_bytes cr (public_key cr keys))
          (snd (derive_sas cr ecdh (qr_session_secret qr))) (qr_session_secret qr))"
    using ecdh s0 unfolding sas_confirmed_def transcript_verified_def transcript_of_def by fastforce
qed

theorem payload_needs_confirmation_witness:
  "\<exists>tgt0 offer log pay tgt2 tgt3.
     new_target plain_crypto [2] 0 0 0 (snd (new_source plain_crypto [1] [9] ''wss://relay'' 0)) = Inr (tgt0, offer) \<and>
     (advance plain_crypto)\<^sup>*\<^sup>* (tgt0, []) (tgt2, log) \<and>
     handle_payload plain_crypto 6 pay tgt2 = (tgt3, Inr (Nsec, ''nsec1'')) \<and>
     ev_pubkey pay = public_key plain_crypto [1] \<and> decrypt_message plain_crypto pay tgt0 = Inr (Payload Nsec ''nsec1'') \<and>
     length log = 2"
proof -
  obtain tgt0 offer conf pay tgt2 tgt3 where run:
    "new_target plain_crypto [2] 0 0 0 (snd (new_source plain_crypto [1] [9] ''wss://relay'' 0)) = Inr (tgt0, offer)"
    "(advance plain_crypto)\<^sup>*\<^sup>* (tgt0, []) (tgt2, [SasConfirmIn 3 conf, ConfirmTarget 4])"
    "handle_payload plain_crypto 6 pay tgt2 = (tgt3, Inr (Nsec, ''nsec1''))"
    using plain_target_run by blast
  note c37 = payload_needs_confirmation [OF run]
  have "ev_pubkey pay = public_key plain_crypto [1]"
    using conjunct1 [OF c37] by (simp add: new_source_def)
  moreover have "decrypt_message plain_crypto pay tgt0 = Inr (Payload Nsec ''nsec1'')"
    using c37 by (elim conjE)
  moreover have "length [SasConfirmIn 3 conf, ConfirmTarget 4] = 2"
    by simp
  ultimately show ?thesis
    using run by blast
qed

text \<open>
  C21. Pairing completes. Let the cryptography obey its laws for the keys of the two devices, the
  payload fit one message, and every call come within the two minutes of its session. Then each
  call of the protocol succeeds in turn: the target makes its offer from the QR code, the source
  accepts it and shows a SAS of six digits, the source confirms, the target checks the transcript
  and shows the same SAS, the target's user confirms, the source sends the payload, the target
  receives exactly that payload, and the completion message takes both sessions to \<open>Completed\<close>.
\<close>

theorem pairing_completes:
  assumes "crypto_laws cr ks kt" and "message_fits cr (Payload pt p)"
    and "(src0, qr) = new_source cr ks secret url ts"
    and "\<forall>t \<in> {t2, t3, t6, t9}. t \<le> ts + DEFAULT_TIMEOUT" and "\<forall>t \<in> {t4, t5, t7, t8}. t \<le> tt + DEFAULT_TIMEOUT"
  shows "\<exists>tgt0 offer src1 sas src2 conf tgt1 tgt2 src3 pay tgt3 tgt4 fin src4.
    new_target cr kt tt u1 r1 qr = Inr (tgt0, offer) \<and>
    handle_offer cr t2 offer src0 = (src1, Inr sas) \<and> length sas = 6 \<and>
    confirm_sas cr t3 u3 r3 src1 = (src2, Inr conf) \<and>
    handle_sas_confirm cr t4 conf tgt0 = (tgt1, Inr sas) \<and>
    confirm_target_sas t5 tgt1 = (tgt2, Inr ()) \<and>
    send_payload cr t6 u6 r6 pt p src2 = (src3, Inr pay) \<and>
    handle_payload cr t7 pay tgt2 = (tgt3, Inr (pt, p)) \<and>
    send_complete cr t8 u8 r8 tgt3 = (tgt4, Inr fin) \<and>
    handle_complete cr t9 fin src3 = (src4, Inr ()) \<and>
    ps_state src4 = Completed \<and> ps_state tgt4 = Completed \<and>
    session_sas_code src4 = session_sas_code tgt4"
proof -
  obtain tgt0 offer src1 sas src2 conf tgt1 h h' where sas:
    "new_target cr kt tt u1 r1 qr = Inr (tgt0, offer)"
    "handle_offer cr t2 offer src0 = (src1, Inr sas)" "length sas = 6"
    "confirm_sas cr t3 u3 r3 src1 = (src2, Inr conf)"
    "handle_sas_confirm cr t4 conf tgt0 = (tgt1, Inr sas)"
    and d: "delivers cr offer kt ks (Offer h 1)" "delivers cr conf ks kt (SasConfirm h')"
    and c: "confirmed cr ks kt ts tt offer conf src2 tgt1"
    using exchange_sas [OF assms(1,3), of t2 t3 t4 tt u1 r1 u3 r3] assms(4,5) by auto
  obtain tgt2 src3 pay tgt3 where pay: "confirm_target_sas t5 tgt1 = (tgt2, Inr ())"
    "send_payload cr t6 u6 r6 pt p src2 = (src3, Inr pay)" "handle_payload cr t7 pay tgt2 = (tgt3, Inr (pt, p))"
    and s3: "src3 = src2\<lparr>ps_state := PayloadExchanged\<rparr>" "tgt3 = record_event pay (tgt1\<lparr>ps_state := PayloadExchanged\<rparr>)"
    using exchange_payload [OF assms(1,2) c d(2), of t5 t6 t7 u6 r6] assms(4,5) by auto
  show ?thesis
    using exchange_complete [OF assms(1) c d(1) s3, of t8 t9 u8 r8] assms(4,5) sas pay by fastforce
qed

theorem pairing_completes_witness:
  "\<exists>qr tgt0 offer src1 sas src2 conf tgt1 tgt2 src3 pay tgt3.
    qr = snd (new_source plain_crypto [1] [9] ''wss://relay'' 0) \<and>
    new_target plain_crypto [2] 0 0 0 qr = Inr (tgt0, offer) \<and>
    handle_offer plain_crypto 1 offer (fst (new_source plain_crypto [1] [9] ''wss://relay'' 0)) = (src1, Inr sas) \<and>
    confirm_sas plain_crypto 2 0 0 src1 = (src2, Inr conf) \<and>
    handle_sas_confirm plain_crypto 3 conf tgt0 = (tgt1, Inr sas) \<and>
    confirm_target_sas 4 tgt1 = (tgt2, Inr ()) \<and>
    send_payload plain_crypto 5 0 0 Nsec ''nsec1'' src2 = (src3, Inr pay) \<and>
    handle_payload plain_crypto 6 pay tgt2 = (tgt3, Inr (Nsec, ''nsec1''))"
  using pairing_completes [OF plain_crypto_laws plain_fits(3), of "''nsec1''" "fst (new_source plain_crypto [1] [9] ''wss://relay'' 0)"
      "snd (new_source plain_crypto [1] [9] ''wss://relay'' 0)" "[1]" "[9]" "''wss://relay''" 0 1 2 5 8 3 4 6 7 0 "[2]" 0 0 0 0 0 0 0 0]
  by (simp add: DEFAULT_TIMEOUT_def) blast

text \<open>
  C30. An event is accepted at most once, and only from the peer. After any calls on a session
  made by either constructor, every event a successful call consumed verifies and was authored
  by the session's peer; any further call with an event of the same id is refused and leaves the
  session as it is; and the log never holds two calls with the same event id.
\<close>

theorem event_accepted_once:
  assumes "started cr s0" and "(advance cr)\<^sup>*\<^sup>* (s0, []) (s, log)"
    and "c \<in> set log" and "call_event c = Some ev"
  shows "event_verify cr ev \<and> ps_peer_pubkey s = Some (ev_pubkey ev) \<and>
    (\<forall>c' ev'. call_event c' = Some ev' \<and> ev_id ev' = ev_id ev \<longrightarrow> perform cr c' s = (s, False)) \<and>
    distinct (accepted_ids log)"
proof -
  have inv: "history_inv cr s log"
    using pairing.steps_inv [OF assms(2) session_inv_start [OF assms(1)]] by (simp add: session_inv_def)
  then have ev: "event_verify cr ev" "ev_id ev \<in> ps_processed_ids s" "ps_peer_pubkey s = Some (ev_pubkey ev)"
    and "distinct (accepted_ids log)"
    using assms(3,4) by (auto simp: history_inv_def)
  moreover have "perform cr c' s = (s, False)" if "call_event c' = Some ev'" and "ev_id ev' = ev_id ev" for c' ev'
    using ev(2) that by (intro replay_perform [of ev']) auto
  ultimately show ?thesis
    by blast
qed

theorem event_accepted_once_witness:
  "\<exists>tgt0 conf tgt2 log. started plain_crypto tgt0 \<and> (advance plain_crypto)\<^sup>*\<^sup>* (tgt0, []) (tgt2, log) \<and>
     SasConfirmIn 3 conf \<in> set log \<and> ps_peer_pubkey tgt2 = Some (ev_pubkey conf) \<and>
     perform plain_crypto (PayloadIn 9 conf) tgt2 = (tgt2, False)"
proof -
  obtain tgt0 offer conf tgt2 where run:
    "new_target plain_crypto [2] 0 0 0 (snd (new_source plain_crypto [1] [9] ''wss://relay'' 0)) = Inr (tgt0, offer)"
    "(advance plain_crypto)\<^sup>*\<^sup>* (tgt0, []) (tgt2, [SasConfirmIn 3 conf, ConfirmTarget 4])"
    using plain_target_run by blast
  then have st: "started plain_crypto tgt0"
    by (auto simp: started_def)
  have c: "SasConfirmIn 3 conf \<in> set [SasConfirmIn 3 conf, ConfirmTarget 4]"
    and ev: "call_event (SasConfirmIn 3 conf) = Some conf" "call_event (PayloadIn 9 conf) = Some conf"
    by simp_all
  note once = event_accepted_once [OF st run(2) c ev(1)]
  have "perform plain_crypto (PayloadIn 9 conf) tgt2 = (tgt2, False)"
    using once ev(2) by blast
  then show ?thesis
    using st run(2) c once by blast
qed

text \<open>
  Every session ends. Each successful call moves the session to a later phase, so at most five
  calls succeed on it, whatever is sent to it; a session that is \<open>Completed\<close> or \<open>Aborted\<close> refuses
  every call and stays as it is; and once the time limit is over only the two abort calls can
  still succeed.
\<close>

theorem session_is_bounded:
  assumes "started cr s0" and "(advance cr)\<^sup>*\<^sup>* (s0, []) (s, log)"
  shows "length log \<le> rank (ps_state s) \<and> rank (ps_state s) \<le> 5 \<and>
    (ps_state s \<in> {Completed, Aborted} \<longrightarrow>
       (\<forall>c. perform cr c s = (s, False)) \<and>
       (\<forall>s' log'. (advance cr)\<^sup>*\<^sup>* (s, log) (s', log') \<longrightarrow> s' = s \<and> log' = log)) \<and>
    (\<forall>c t now. perform cr c s = (t, True) \<and> call_time c = Some now \<longrightarrow>
       now \<le> ps_created_at s0 + DEFAULT_TIMEOUT)"
proof -
  have inv: "session_inv cr s0 (s, log)"
    using pairing.steps_inv [OF assms(2) session_inv_start [OF assms(1)]] .
  then have "length log \<le> rank (ps_state s)"
    by (simp add: session_inv_def history_inv_def)
  moreover have "rank (ps_state s) \<le> 5"
    by (cases "ps_state s") auto
  moreover have "perform cr c s = (s, False)" if "ps_state s \<in> {Completed, Aborted}" for c
    using that by (intro terminal_perform) auto
  moreover have "s' = s \<and> log' = log"
    if "ps_state s \<in> {Completed, Aborted}" and "(advance cr)\<^sup>*\<^sup>* (s, log) (s', log')" for s' log'
    using terminal_advance [OF that(2)] that(1) by simp
  moreover have "now \<le> ps_created_at s0 + DEFAULT_TIMEOUT"
    if "perform cr c s = (t, True)" and "call_time c = Some now" for c t now
    using on_time [OF that] inv started_timeout [OF assms(1)]
    by (auto simp: is_expired_def session_inv_def kept_def)
  ultimately show ?thesis
    by blast
qed

theorem session_is_bounded_witness:
  "\<exists>tgt0 tgt2 log. started plain_crypto tgt0 \<and> (advance plain_crypto)\<^sup>*\<^sup>* (tgt0, []) (tgt2, log) \<and>
     length log = 2 \<and> length log \<le> rank (ps_state tgt2)"
proof -
  obtain tgt0 offer conf tgt2 where run:
    "new_target plain_crypto [2] 0 0 0 (snd (new_source plain_crypto [1] [9] ''wss://relay'' 0)) = Inr (tgt0, offer)"
    "(advance plain_crypto)\<^sup>*\<^sup>* (tgt0, []) (tgt2, [SasConfirmIn 3 conf, ConfirmTarget 4])"
    using plain_target_run by blast
  then have "started plain_crypto tgt0"
    by (auto simp: started_def)
  then show ?thesis
    using run(2) conjunct1 [OF session_is_bounded [OF _ run(2)]] by fastforce
qed

end
