(* ===== verification/Session_Directory.thy ===== *)
theory Session_Directory
  imports Mesh_Wire Decimal
begin

text \<open>
  The fenced session directory of the relay mesh, \<^verbatim>\<open>crates/buzz-relay/src/tunnel/directory.rs\<close>:
  ownership leases in Redis, their Lua scripts, the parsers of what the scripts return, and the
  check of a frame's fence.
  \<^item> \<open>redis\<close> is the part of the key space the scripts touch: lease keys with a text value and an
    expiry time, and the generation counters, which never expire. Only the scripts write these
    keys. \<open>GET\<close>, \<open>SET PX\<close>, \<open>INCR\<close> (an error past the largest \<open>i64\<close>), \<open>PEXPIRE\<close> and \<open>DEL\<close> have their
    documented meaning; a script runs atomically.
  \<^item> Lua numbers are doubles: \<open>tostring\<close> writes an integer below \<open>10\<^sup>1\<^sup>4\<close> in full and a larger
    one in scientific notation, which is the parameter \<open>lua_big\<close>.
  \<^item> The text forms of uuids and runtime ids are third-party and fields of \<open>dir_env\<close>.
  \<^item> \<open>fault\<close> says how one call meets its environment: the serving-write guard, the connection pool,
    and a script whose reply is lost after it did or did not run.
\<close>

section \<open>Data\<close>

record dir_env =
  uuid_text :: "uuid \<Rightarrow> string"
  runtime_hex :: "RuntimeId \<Rightarrow> string"
  runtime_unhex :: "string \<Rightarrow> RuntimeId option"
  lua_big :: "nat \<Rightarrow> string"

record redis =
  rd_leases :: "(string, string \<times> nat) hmap"
  rd_counters :: "(string, nat) hmap"

record SessionLease =
  sl_community_id :: uuid
  sl_session_id :: uuid
  sl_owner_runtime_id :: RuntimeId
  sl_generation :: u64
  sl_profile :: Profile

datatype AcquireResult = Acquired SessionLease | Exists SessionLease

datatype RenewResult = Renewed SessionLease | RenewLost "SessionLease option" "u64 option"

datatype ReleaseResult = Released SessionLease | ReleaseNotOwner "SessionLease option" "u64 option"

text \<open>\<open>DirExpectPanic\<close> stands for the panic of an \<open>expect\<close> that finds nothing.\<close>

datatype DirectoryError =
  DirPool
| DirRedis
| MalformedLease uuid uuid string
| MalformedGeneration uuid uuid string
| UnexpectedScriptStatus string
| InvalidLeaseTtl
| CommunityWriteFenced string
| DirExpectPanic

datatype fault =
  NoFault
| GuardDenied string
| PoolFault
| ScriptFault bool
| ProtectFault string bool
| FinishFault string

section \<open>Keys and values\<close>

definition DEFAULT_LEASE_TTL :: nat where "DEFAULT_LEASE_TTL = 30 * 1000"

definition session_base :: "dir_env \<Rightarrow> uuid \<Rightarrow> uuid \<Rightarrow> string" where
  "session_base env c s = ''buzz:'' @ uuid_text env c @ '':tunnel:'' @ uuid_text env s"

definition lease_key :: "dir_env \<Rightarrow> uuid \<Rightarrow> uuid \<Rightarrow> string" where
  "lease_key env c s = session_base env c s @ '':lease''"

definition generation_key :: "dir_env \<Rightarrow> uuid \<Rightarrow> uuid \<Rightarrow> string" where
  "generation_key env c s = session_base env c s @ '':generation''"

fun as_wire_str :: "Profile \<Rightarrow> string" where
  "as_wire_str ReliableStream = ''reliable-stream''"
| "as_wire_str RealtimeMedia = ''realtime-media''"
| "as_wire_str HuddleControl = ''huddle-control''"

definition profile_from_wire :: "string \<Rightarrow> Profile option" where
  "profile_from_wire v =
     (if v = ''reliable-stream'' then Some ReliableStream
      else if v = ''realtime-media'' then Some RealtimeMedia
      else if v = ''huddle-control'' then Some HuddleControl else None)"

definition parse_lease :: "dir_env \<Rightarrow> uuid \<Rightarrow> uuid \<Rightarrow> string \<Rightarrow> DirectoryError + SessionLease" where
  "parse_lease env c s v =
     (case split_on (CHR ''|'') v of
        [owner_hex, g, p] \<Rightarrow>
          (case (parse_u64 g, profile_from_wire p, runtime_unhex env owner_hex) of
             (Some n, Some profile, Some owner) \<Rightarrow>
               if n = 0 then Inl (MalformedLease c s v)
               else Inr \<lparr>sl_community_id = c, sl_session_id = s, sl_owner_runtime_id = owner,
                        sl_generation = word_of_nat n, sl_profile = profile\<rparr>
           | _ \<Rightarrow> Inl (MalformedLease c s v))
      | _ \<Rightarrow> Inl (MalformedLease c s v))"

definition parse_optional_lease ::
  "dir_env \<Rightarrow> uuid \<Rightarrow> uuid \<Rightarrow> string \<Rightarrow> DirectoryError + SessionLease option" where
  "parse_optional_lease env c s v =
     (if v = [] then Inr None else map_sum id Some (parse_lease env c s v))"

definition parse_optional_generation :: "uuid \<Rightarrow> uuid \<Rightarrow> string \<Rightarrow> DirectoryError + u64 option" where
  "parse_optional_generation c s v =
     (if v = [] then Inr None
      else (case parse_u64 v of
              None \<Rightarrow> Inl (MalformedGeneration c s v)
            | Some n \<Rightarrow> if n = 0 then Inl (MalformedGeneration c s v) else Inr (Some (word_of_nat n))))"

definition ttl_ms :: "nat \<Rightarrow> DirectoryError + nat" where
  "ttl_ms ttl = (if 0 < ttl \<and> ttl < 2 ^ 63 then Inr ttl else Inl InvalidLeaseTtl)"

definition fenced_header :: "SessionLease \<Rightarrow> FencedHeader" where
  "fenced_header l =
     \<lparr>fenced_session_id = sl_session_id l, fenced_generation = sl_generation l,
      fenced_owner = sl_owner_runtime_id l\<rparr>"

section \<open>The Lua scripts\<close>

definition redis_get :: "nat \<Rightarrow> string \<Rightarrow> redis \<Rightarrow> string option" where
  "redis_get now k rd =
     (case hm_get (rd_leases rd) k of
        None \<Rightarrow> None
      | Some (v, expiry) \<Rightarrow> if now \<le> expiry then Some v else None)"

definition counter_text :: "string \<Rightarrow> redis \<Rightarrow> string option" where
  "counter_text k rd = map_option decimal (hm_get (rd_counters rd) k)"

definition lua_tostring :: "dir_env \<Rightarrow> nat \<Rightarrow> string" where
  "lua_tostring env n = (if n < 10 ^ 14 then decimal n else lua_big env n)"

text \<open>\<open>string.match(current, '^([^|]+)|([^|]+)|([^|]+)$')\<close>.\<close>

definition lua_match :: "string \<Rightarrow> (string \<times> string \<times> string) option" where
  "lua_match v =
     (case split_on (CHR ''|'') v of
        [a, b, c] \<Rightarrow> if a \<noteq> [] \<and> b \<noteq> [] \<and> c \<noteq> [] then Some (a, b, c) else None
      | _ \<Rightarrow> None)"

definition acquire_script ::
  "dir_env \<Rightarrow> nat \<Rightarrow> string \<Rightarrow> string \<Rightarrow> string \<Rightarrow> string \<Rightarrow> nat \<Rightarrow> redis \<Rightarrow>
     (redis \<times> string \<times> string \<times> string) option" where
  "acquire_script env now lk gk owner profile ttl rd =
     (case redis_get now lk rd of
        Some current \<Rightarrow>
          Some (rd, ''exists'', current, (case counter_text gk rd of None \<Rightarrow> [] | Some g \<Rightarrow> g))
      | None \<Rightarrow>
          (let n = hm_get_or 0 (rd_counters rd) gk in
           if n \<ge> 2 ^ 63 - 1 then None
           else
             (let g = n + 1;
                  v = owner @ ''|'' @ lua_tostring env g @ ''|'' @ profile
              in Some (rd\<lparr>rd_counters := hm_insert gk g (rd_counters rd),
                          rd_leases := hm_insert lk (v, now + ttl) (rd_leases rd)\<rparr>,
                       ''acquired'', v, lua_tostring env g))))"

definition held_by :: "string \<Rightarrow> string \<Rightarrow> string \<Rightarrow> bool" where
  "held_by current owner generation \<longleftrightarrow>
     (case lua_match current of
        Some (o', g', _) \<Rightarrow> o' = owner \<and> g' = generation | None \<Rightarrow> False)"

definition counter_or_current :: "string \<Rightarrow> string \<Rightarrow> redis \<Rightarrow> string" where
  "counter_or_current gk current rd =
     (case counter_text gk rd of
        Some g \<Rightarrow> g
      | None \<Rightarrow> (case lua_match current of Some (_, g, _) \<Rightarrow> g | None \<Rightarrow> []))"

definition renew_script ::
  "nat \<Rightarrow> string \<Rightarrow> string \<Rightarrow> string \<Rightarrow> string \<Rightarrow> nat \<Rightarrow> redis \<Rightarrow> redis \<times> string \<times> string \<times> string" where
  "renew_script now lk gk owner generation ttl rd =
     (case redis_get now lk rd of
        None \<Rightarrow> (rd, ''missing'', [], (case counter_text gk rd of None \<Rightarrow> [] | Some g \<Rightarrow> g))
      | Some current \<Rightarrow>
          if held_by current owner generation
          then (rd\<lparr>rd_leases := hm_insert lk (current, now + ttl) (rd_leases rd)\<rparr>, ''renewed'', current,
                counter_or_current gk current rd)
          else (rd, ''lost'', current, counter_or_current gk current rd))"

definition release_script ::
  "nat \<Rightarrow> string \<Rightarrow> string \<Rightarrow> string \<Rightarrow> string \<Rightarrow> redis \<Rightarrow> redis \<times> string \<times> string \<times> string" where
  "release_script now lk gk owner generation rd =
     (case redis_get now lk rd of
        None \<Rightarrow> (rd, ''missing'', [], (case counter_text gk rd of None \<Rightarrow> [] | Some g \<Rightarrow> g))
      | Some current \<Rightarrow>
          if held_by current owner generation
          then (rd\<lparr>rd_leases := hm_remove lk (rd_leases rd)\<rparr>, ''released'', current,
                counter_or_current gk current rd)
          else (rd, ''lost'', current, counter_or_current gk current rd))"

definition validate_script :: "nat \<Rightarrow> string \<Rightarrow> string \<Rightarrow> redis \<Rightarrow> string \<times> string" where
  "validate_script now lk gk rd =
     ((case redis_get now lk rd of None \<Rightarrow> [] | Some v \<Rightarrow> v),
      (case counter_text gk rd of None \<Rightarrow> [] | Some g \<Rightarrow> g))"

section \<open>The operations\<close>

text \<open>
  How a reply reaches the caller: \<open>protect\<close> and the awaited script may fail with the script run or
  not; afterwards the value is parsed, the guard finished and the status read, in this order.
\<close>

definition settle ::
  "fault \<Rightarrow> redis \<Rightarrow> redis \<Rightarrow> (DirectoryError + 'l) \<Rightarrow> ('l \<Rightarrow> DirectoryError + 'r) \<Rightarrow>
     redis \<times> (DirectoryError + 'r)" where
  "settle f rd rd' parsed answer =
     (case f of
        ScriptFault applied \<Rightarrow> (if applied then rd' else rd, Inl DirRedis)
      | ProtectFault e applied \<Rightarrow> (if applied then rd' else rd, Inl (CommunityWriteFenced e))
      | _ \<Rightarrow>
          (case parsed of
             Inl e \<Rightarrow> (rd', Inl e)
           | Inr l \<Rightarrow>
               (case f of
                  FinishFault e \<Rightarrow> (rd', Inl (CommunityWriteFenced e))
                | _ \<Rightarrow> (rd', answer l))))"

definition acquire ::
  "dir_env \<Rightarrow> nat \<Rightarrow> fault \<Rightarrow> nat \<Rightarrow> uuid \<Rightarrow> uuid \<Rightarrow> RuntimeId \<Rightarrow> Profile \<Rightarrow> redis \<Rightarrow>
     redis \<times> (DirectoryError + AcquireResult)" where
  "acquire env ttl f now c s owner profile rd =
     (case f of
        GuardDenied e \<Rightarrow> (rd, Inl (CommunityWriteFenced e))
      | _ \<Rightarrow>
          (case ttl_ms ttl of
             Inl e \<Rightarrow> (rd, Inl e)
           | Inr ms \<Rightarrow>
               if f = PoolFault then (rd, Inl DirPool)
               else
                 (case acquire_script env now (lease_key env c s) (generation_key env c s)
                         (runtime_hex env owner) (as_wire_str profile) ms rd of
                    None \<Rightarrow> (rd, Inl DirRedis)
                  | Some (rd', status, v, _) \<Rightarrow>
                      settle f rd rd' (parse_lease env c s v)
                        (\<lambda>lease. if status = ''acquired'' then Inr (Acquired lease)
                                 else if status = ''exists'' then Inr (Exists lease)
                                 else Inl (UnexpectedScriptStatus status)))))"

definition takeover ::
  "dir_env \<Rightarrow> nat \<Rightarrow> fault \<Rightarrow> nat \<Rightarrow> uuid \<Rightarrow> uuid \<Rightarrow> RuntimeId \<Rightarrow> Profile \<Rightarrow> redis \<Rightarrow>
     redis \<times> (DirectoryError + AcquireResult)" where
  "takeover env ttl f now c s owner profile rd = acquire env ttl f now c s owner profile rd"

text \<open>The answers of \<open>renew\<close> and \<open>release\<close> differ in the constructors only.\<close>

definition owned_answer ::
  "uuid \<Rightarrow> uuid \<Rightarrow> string \<Rightarrow> (SessionLease \<Rightarrow> 'r) \<Rightarrow> (SessionLease option \<Rightarrow> u64 option \<Rightarrow> 'r) \<Rightarrow>
     string \<Rightarrow> string \<Rightarrow> SessionLease option \<Rightarrow> DirectoryError + 'r" where
  "owned_answer c s good yes no status known current =
     (if status = good then (case current of Some l \<Rightarrow> Inr (yes l) | None \<Rightarrow> Inl DirExpectPanic)
      else if status = ''missing'' \<or> status = ''lost''
      then map_sum id (no current) (parse_optional_generation c s known)
      else Inl (UnexpectedScriptStatus status))"

definition renew ::
  "dir_env \<Rightarrow> nat \<Rightarrow> fault \<Rightarrow> nat \<Rightarrow> SessionLease \<Rightarrow> redis \<Rightarrow> redis \<times> (DirectoryError + RenewResult)" where
  "renew env ttl f now l rd =
     (let c = sl_community_id l; s = sl_session_id l in
      case f of
        GuardDenied e \<Rightarrow> (rd, Inl (CommunityWriteFenced e))
      | _ \<Rightarrow>
          (case ttl_ms ttl of
             Inl e \<Rightarrow> (rd, Inl e)
           | Inr ms \<Rightarrow>
               if f = PoolFault then (rd, Inl DirPool)
               else
                 (case renew_script now (lease_key env c s) (generation_key env c s)
                         (runtime_hex env (sl_owner_runtime_id l)) (decimal (unat (sl_generation l))) ms rd of
                    (rd', status, v, known) \<Rightarrow>
                      settle f rd rd' (parse_optional_lease env c s v)
                        (owned_answer c s ''renewed'' Renewed RenewLost status known))))"

definition release ::
  "dir_env \<Rightarrow> fault \<Rightarrow> nat \<Rightarrow> SessionLease \<Rightarrow> redis \<Rightarrow> redis \<times> (DirectoryError + ReleaseResult)" where
  "release env f now l rd =
     (let c = sl_community_id l; s = sl_session_id l in
      case f of
        GuardDenied e \<Rightarrow> (rd, Inl (CommunityWriteFenced e))
      | _ \<Rightarrow>
          if f = PoolFault then (rd, Inl DirPool)
          else
            (case release_script now (lease_key env c s) (generation_key env c s)
                    (runtime_hex env (sl_owner_runtime_id l)) (decimal (unat (sl_generation l))) rd of
               (rd', status, v, known) \<Rightarrow>
                 settle f rd rd' (parse_optional_lease env c s v)
                   (owned_answer c s ''released'' Released ReleaseNotOwner status known)))"

text \<open>The read-only operations meet the pool and the script only.\<close>

definition lookup ::
  "dir_env \<Rightarrow> fault \<Rightarrow> nat \<Rightarrow> uuid \<Rightarrow> uuid \<Rightarrow> redis \<Rightarrow> DirectoryError + SessionLease option" where
  "lookup env f now c s rd =
     (if f = PoolFault then Inl DirPool
      else if f \<noteq> NoFault then Inl DirRedis
      else (case redis_get now (lease_key env c s) rd of
              None \<Rightarrow> Inr None
            | Some v \<Rightarrow> map_sum id Some (parse_lease env c s v)))"

definition known_generation ::
  "dir_env \<Rightarrow> fault \<Rightarrow> uuid \<Rightarrow> uuid \<Rightarrow> redis \<Rightarrow> DirectoryError + u64 option" where
  "known_generation env f c s rd =
     (if f = PoolFault then Inl DirPool
      else if f \<noteq> NoFault then Inl DirRedis
      else (case counter_text (generation_key env c s) rd of
              None \<Rightarrow> Inr None
            | Some g \<Rightarrow> parse_optional_generation c s g))"

text \<open>The texts of the transport errors are not looked at by the code; they are fixed here.\<close>

definition validate_fenced_header ::
  "dir_env \<Rightarrow> fault \<Rightarrow> nat \<Rightarrow> uuid \<Rightarrow> FencedHeader \<Rightarrow> redis \<Rightarrow> MeshError + unit" where
  "validate_fenced_header env f now c fenced rd =
     (let s = fenced_session_id fenced; g = fenced_generation fenced in
      if f = PoolFault then Inl (Transport ''redis pool'')
      else if f \<noteq> NoFault then Inl Redis
      else
        (case validate_script now (lease_key env c s) (generation_key env c s) rd of
           (lease_value, known_text) \<Rightarrow>
             (case parse_optional_generation c s known_text of
                Inl e \<Rightarrow> Inl (Transport ''malformed session generation'')
              | Inr known_opt \<Rightarrow>
                  (let from_counter = (case known_opt of None \<Rightarrow> 0 | Some n \<Rightarrow> n) in
                   case parse_optional_lease env c s lease_value of
                     Inl e \<Rightarrow> Inl (Transport ''malformed session lease'')
                   | Inr current \<Rightarrow>
                       (let known = max (case current of Some l \<Rightarrow> sl_generation l | None \<Rightarrow> from_counter)
                              from_counter
                        in if known > 0 \<and> g < known then Inl (StaleGeneration s g known)
                           else
                             (case current of
                                None \<Rightarrow> Inl (NoActiveLease s g known (fenced_owner fenced))
                              | Some l \<Rightarrow>
                                  if g \<noteq> sl_generation l then Inl (FutureGeneration s g (sl_generation l))
                                  else if fenced_owner fenced \<noteq> sl_owner_runtime_id l
                                  then Inl (OwnerMismatch s g (fenced_owner fenced) (sl_owner_runtime_id l))
                                  else Inr ()))))))"

end
