(* ===== verification/Reliable_Stream.thy ===== *)
theory Reliable_Stream
  imports Session_Directory Audio_Wire
begin

text \<open>
  Reliable tunnel streams, \<^verbatim>\<open>crates/buzz-relay/src/tunnel/reliable.rs\<close>: joining a session through the
  directory, the acceptance of an inbound stream, the framing of bytes with the tenant in every
  frame, the check of every received frame against the fence, and the lease renewer.
  \<^item> A mesh stream is what was sent on it (\<open>rs_sent\<close>); what the transport answers to the \<open>n\<close>-th send
    and what it delivers are arguments.
  \<^item> The sixteen bytes of a uuid are third-party and the record \<open>uuid_codec\<close>.
\<close>

section \<open>Types\<close>

record uuid_codec =
  uuid_as_bytes :: "uuid \<Rightarrow> bytes"
  uuid_from_bytes :: "bytes \<Rightarrow> uuid"

datatype ReliableWireFrame =
  WireData uuid bytes
| WireGoodbye uuid GoodbyeReason

datatype ReliableFrame = ReliableData bytes | ReliableGoodbye GoodbyeReason

datatype ReliableStreamError =
  ErrDirectory DirectoryError
| ErrMesh MeshError
| ProfileMismatch uuid Profile Profile
| SenderMismatch RuntimeId RuntimeId
| UnexpectedStreamRole
| OwnerIsNotLocal uuid RuntimeId RuntimeId
| UnexpectedFrame string
| FrameFenceMismatch FencedHeader FencedHeader
| CommunityMismatch uuid uuid
| MalformedReliableFrame string

record ReliableMeshStream =
  rs_fenced :: FencedHeader
  rs_community_id :: "uuid option"
  rs_sent :: "MeshStreamFrame list"
  rs_finished :: bool

definition MAX_RELIABLE_PAYLOAD_BYTES :: nat where "MAX_RELIABLE_PAYLOAD_BYTES = 1024 * 1024"

section \<open>Frames on the wire\<close>

definition FRAME_VERSION :: u8 where "FRAME_VERSION = 1"
definition FRAME_DATA :: u8 where "FRAME_DATA = 1"
definition FRAME_GOODBYE :: u8 where "FRAME_GOODBYE = 2"

fun to_wire_byte :: "GoodbyeReason \<Rightarrow> u8" where
  "to_wire_byte GoodbyeSessionEnded = 1"
| "to_wire_byte GoodbyeDraining = 2"
| "to_wire_byte GoodbyeStaleGeneration = 3"

definition from_wire_byte :: "u8 \<Rightarrow> ReliableStreamError + GoodbyeReason" where
  "from_wire_byte b =
     (if b = 1 then Inr GoodbyeSessionEnded
      else if b = 2 then Inr GoodbyeDraining
      else if b = 3 then Inr GoodbyeStaleGeneration
      else Inl (MalformedReliableFrame ''unknown goodbye reason''))"

fun frame_community_id :: "ReliableWireFrame \<Rightarrow> uuid" where
  "frame_community_id (WireData c _) = c"
| "frame_community_id (WireGoodbye c _) = c"

fun frame_encode :: "uuid_codec \<Rightarrow> ReliableWireFrame \<Rightarrow> bytes" where
  "frame_encode uc (WireData c payload) = [FRAME_VERSION, FRAME_DATA] @ uuid_as_bytes uc c @ payload"
| "frame_encode uc (WireGoodbye c reason) =
     [FRAME_VERSION, FRAME_GOODBYE] @ uuid_as_bytes uc c @ [to_wire_byte reason]"

definition frame_decode :: "uuid_codec \<Rightarrow> bytes \<Rightarrow> ReliableStreamError + ReliableWireFrame" where
  "frame_decode uc bs =
     (if length bs < 18 then Inl (MalformedReliableFrame ''too short'')
      else if bs ! 0 \<noteq> FRAME_VERSION then Inl (MalformedReliableFrame ''unknown version'')
      else
        (let c = uuid_from_bytes uc (take 16 (drop 2 bs)) in
         if bs ! 1 = FRAME_DATA then Inr (WireData c (drop 18 bs))
         else if bs ! 1 = FRAME_GOODBYE then
           (if length bs \<noteq> 19 then Inl (MalformedReliableFrame ''bad goodbye length'')
            else map_sum id (WireGoodbye c) (from_wire_byte (bs ! 18)))
         else Inl (MalformedReliableFrame ''unknown kind'')))"

section \<open>Joining and accepting\<close>

definition stream_new :: "FencedHeader \<Rightarrow> MeshStreamFrame list \<Rightarrow> ReliableMeshStream" where
  "stream_new fenced sent =
     \<lparr>rs_fenced = fenced, rs_community_id = None, rs_sent = sent, rs_finished = False\<rparr>"

definition with_community :: "uuid \<Rightarrow> ReliableMeshStream \<Rightarrow> ReliableMeshStream" where
  "with_community c st = st\<lparr>rs_community_id := Some c\<rparr>"

datatype ReliableJoin = Owned SessionLease | Forwarded SessionLease ReliableMeshStream

text \<open>\<open>opened\<close> is the answer of \<open>open_session_stream\<close>, which sends the \<open>Hello\<close> itself.\<close>

definition join ::
  "dir_env \<Rightarrow> nat \<Rightarrow> fault \<Rightarrow> nat \<Rightarrow> RuntimeId \<Rightarrow> (RuntimeId \<Rightarrow> StreamHello \<Rightarrow> MeshError option) \<Rightarrow> uuid \<Rightarrow> uuid \<Rightarrow>
     redis \<Rightarrow> redis \<times> (ReliableStreamError + ReliableJoin)" where
  "join env ttl f now local_id opened c s rd =
     (case acquire env ttl f now c s local_id ReliableStream rd of
        (rd', Inl e) \<Rightarrow> (rd', Inl (ErrDirectory e))
      | (rd', Inr (Acquired lease)) \<Rightarrow> (rd', Inr (Owned lease))
      | (rd', Inr (Exists lease)) \<Rightarrow>
          (rd',
           if sl_profile lease \<noteq> ReliableStream
           then Inl (ProfileMismatch s ReliableStream (sl_profile lease))
           else if sl_owner_runtime_id lease = local_id then Inr (Owned lease)
           else
             (let fenced = fenced_header lease;
                  hello = \<lparr>hello_sender = local_id, hello_role = Session fenced ReliableStream\<rparr>
              in case opened (sl_owner_runtime_id lease) hello of
                   Some e \<Rightarrow> Inl (ErrMesh e)
                 | None \<Rightarrow> Inr (Forwarded lease (stream_new fenced [Hello hello])))))"

definition accept_reliable ::
  "RuntimeId \<Rightarrow> RuntimeId \<Rightarrow> StreamHello \<Rightarrow> ReliableStreamError + ReliableMeshStream" where
  "accept_reliable local_id from hello =
     (if hello_sender hello \<noteq> from then Inl (SenderMismatch from (hello_sender hello))
      else
        (case hello_role hello of
           Control \<Rightarrow> Inl UnexpectedStreamRole
         | Session fenced profile \<Rightarrow>
             if profile \<noteq> ReliableStream
             then Inl (ProfileMismatch (fenced_session_id fenced) ReliableStream profile)
             else if fenced_owner fenced \<noteq> local_id
             then Inl (OwnerIsNotLocal (fenced_session_id fenced) (fenced_owner fenced) local_id)
             else Inr (stream_new fenced [])))"

section \<open>Sending\<close>

definition ensure_outbound_community ::
  "uuid \<Rightarrow> ReliableMeshStream \<Rightarrow> ReliableMeshStream \<times> (ReliableStreamError + unit)" where
  "ensure_outbound_community c st =
     (case rs_community_id st of
        Some expected \<Rightarrow> (st, if expected \<noteq> c then Inl (CommunityMismatch expected c) else Inr ())
      | None \<Rightarrow> (st\<lparr>rs_community_id := Some c\<rparr>, Inr ()))"

text \<open>\<open>slice::chunks\<close> for a positive size.\<close>

fun chunks :: "nat \<Rightarrow> 'a list \<Rightarrow> 'a list list" where
  "chunks n xs = (if n = 0 \<or> xs = [] then [] else take n xs # chunks n (drop n xs))"

declare chunks.simps [simp del]

definition send_frame ::
  "(nat \<Rightarrow> MeshError option) \<Rightarrow> bytes \<Rightarrow> ReliableMeshStream \<Rightarrow> ReliableMeshStream \<times> (ReliableStreamError + unit)" where
  "send_frame answer payload st =
     (case answer (length (rs_sent st)) of
        Some e \<Rightarrow> (st, Inl (ErrMesh e))
      | None \<Rightarrow> (st\<lparr>rs_sent := rs_sent st @ [Data (rs_fenced st) payload]\<rparr>, Inr ()))"

fun send_chunks ::
  "uuid_codec \<Rightarrow> (nat \<Rightarrow> MeshError option) \<Rightarrow> uuid \<Rightarrow> bytes list \<Rightarrow> ReliableMeshStream \<Rightarrow>
     ReliableMeshStream \<times> (ReliableStreamError + unit)" where
  "send_chunks uc answer c [] st = (st, Inr ())"
| "send_chunks uc answer c (chunk # rest) st =
     (case send_frame answer (frame_encode uc (WireData c chunk)) st of
        (st', Inl e) \<Rightarrow> (st', Inl e)
      | (st', Inr _) \<Rightarrow> send_chunks uc answer c rest st')"

definition send_bytes ::
  "uuid_codec \<Rightarrow> (nat \<Rightarrow> MeshError option) \<Rightarrow> uuid \<Rightarrow> bytes \<Rightarrow> ReliableMeshStream \<Rightarrow>
     ReliableMeshStream \<times> (ReliableStreamError + unit)" where
  "send_bytes uc answer c bs st =
     (case ensure_outbound_community c st of
        (st', Inl e) \<Rightarrow> (st', Inl e)
      | (st', Inr _) \<Rightarrow> send_chunks uc answer c (chunks MAX_RELIABLE_PAYLOAD_BYTES bs) st')"

definition finish :: "MeshError option \<Rightarrow> ReliableMeshStream \<Rightarrow> ReliableMeshStream \<times> (ReliableStreamError + unit)" where
  "finish closed st =
     (case closed of Some e \<Rightarrow> (st, Inl (ErrMesh e)) | None \<Rightarrow> (st\<lparr>rs_finished := True\<rparr>, Inr ()))"

definition send_goodbye ::
  "uuid_codec \<Rightarrow> (nat \<Rightarrow> MeshError option) \<Rightarrow> MeshError option \<Rightarrow> uuid \<Rightarrow> GoodbyeReason \<Rightarrow> ReliableMeshStream \<Rightarrow>
     ReliableMeshStream \<times> (ReliableStreamError + unit)" where
  "send_goodbye uc answer closed c reason st =
     (case ensure_outbound_community c st of
        (st', Inl e) \<Rightarrow> (st', Inl e)
      | (st', Inr _) \<Rightarrow>
          (case send_frame answer (frame_encode uc (WireGoodbye c reason)) st' of
             (st'', Inl e) \<Rightarrow> (st'', Inl e)
           | (st'', Inr _) \<Rightarrow> finish closed st''))"

section \<open>Receiving\<close>

definition validate_frame_fence ::
  "dir_env \<Rightarrow> fault \<Rightarrow> nat \<Rightarrow> redis \<Rightarrow> uuid \<Rightarrow> FencedHeader \<Rightarrow> ReliableMeshStream \<Rightarrow>
     ReliableMeshStream \<times> (ReliableStreamError + unit)" where
  "validate_frame_fence env f now rd c fenced st =
     (if fenced \<noteq> rs_fenced st then (st, Inl (FrameFenceMismatch (rs_fenced st) fenced))
      else
        (case rs_community_id st of
           Some expected \<Rightarrow>
             if expected \<noteq> c then (st, Inl (CommunityMismatch expected c))
             else
               (case validate_fenced_header env f now c fenced rd of
                  Inl e \<Rightarrow> (st, Inl (ErrMesh e)) | Inr _ \<Rightarrow> (st, Inr ()))
         | None \<Rightarrow>
             (case validate_fenced_header env f now c fenced rd of
                Inl e \<Rightarrow> (st, Inl (ErrMesh e))
              | Inr _ \<Rightarrow> (st\<lparr>rs_community_id := Some c\<rparr>, Inr ()))))"

definition recv_validated ::
  "uuid_codec \<Rightarrow> dir_env \<Rightarrow> fault \<Rightarrow> nat \<Rightarrow> redis \<Rightarrow> MeshError + MeshStreamFrame option \<Rightarrow> ReliableMeshStream \<Rightarrow>
     ReliableMeshStream \<times> (ReliableStreamError + ReliableFrame option)" where
  "recv_validated uc env f now rd incoming st =
     (case incoming of
        Inl e \<Rightarrow> (st, Inl (ErrMesh e))
      | Inr None \<Rightarrow> (st, Inr None)
      | Inr (Some (Data fenced payload)) \<Rightarrow>
          (case frame_decode uc payload of
             Inl e \<Rightarrow> (st, Inl e)
           | Inr frame \<Rightarrow>
               (case validate_frame_fence env f now rd (frame_community_id frame) fenced st of
                  (st', Inl e) \<Rightarrow> (st', Inl e)
                | (st', Inr _) \<Rightarrow>
                    (st', Inr (Some (case frame of
                       WireData _ p \<Rightarrow> ReliableData p | WireGoodbye _ r \<Rightarrow> ReliableGoodbye r)))))
      | Inr (Some (Goodbye _ _)) \<Rightarrow> (st, Inl (UnexpectedFrame ''goodbye''))
      | Inr (Some (Hello _)) \<Rightarrow> (st, Inl (UnexpectedFrame ''hello''))
      | Inr (Some (Gossip _)) \<Rightarrow> (st, Inl (UnexpectedFrame ''gossip'')))"


text \<open>
  The reader of a session: one \<open>recv_validated\<close> after the other until the stream closes or a frame
  fails. An input is a frame with the moment, the fault and the store its check meets.
\<close>

type_synonym arrival = "fault \<times> nat \<times> redis \<times> (MeshError + MeshStreamFrame option)"

fun recv_all ::
  "uuid_codec \<Rightarrow> dir_env \<Rightarrow> arrival list \<Rightarrow> ReliableMeshStream \<Rightarrow>
     ReliableMeshStream \<times> ReliableFrame list \<times> ReliableStreamError option" where
  "recv_all uc env [] st = (st, [], None)"
| "recv_all uc env ((f, now, rd, incoming) # rest) st =
     (case recv_validated uc env f now rd incoming st of
        (st', Inl e) \<Rightarrow> (st', [], Some e)
      | (st', Inr None) \<Rightarrow> (st', [], None)
      | (st', Inr (Some fr)) \<Rightarrow>
          (case recv_all uc env rest st' of (st'', frs, e) \<Rightarrow> (st'', fr # frs, e)))"

section \<open>The lease renewer\<close>

text \<open>
  The renewer task, on the sequence of events its \<open>select!\<close> sees. The first loop ends with whether
  the caller cancelled and whether the \<open>lost\<close> signal was tripped; \<open>None\<close> says it is still running.
\<close>

datatype renewer_event = CallerCancel | RenewTick fault nat

fun renewer_loop ::
  "dir_env \<Rightarrow> nat \<Rightarrow> SessionLease \<Rightarrow> renewer_event list \<Rightarrow> redis \<Rightarrow> redis \<times> (bool \<times> bool) option" where
  "renewer_loop env ttl l [] rd = (rd, None)"
| "renewer_loop env ttl l (CallerCancel # _) rd = (rd, Some (True, False))"
| "renewer_loop env ttl l (RenewTick f now # evs) rd =
     (case renew env ttl f now l rd of
        (rd', Inr (Renewed _)) \<Rightarrow> renewer_loop env ttl l evs rd'
      | (rd', Inr (RenewLost _ _)) \<Rightarrow> (rd', Some (False, True))
      | (rd', Inl _) \<Rightarrow> (rd', Some (False, True)))"

definition lease_renewer ::
  "dir_env \<Rightarrow> nat \<Rightarrow> SessionLease \<Rightarrow> renewer_event list \<Rightarrow> fault \<Rightarrow> nat \<Rightarrow> redis \<Rightarrow> redis \<times> bool option" where
  "lease_renewer env ttl l evs f now rd =
     (case renewer_loop env ttl l evs rd of
        (rd', None) \<Rightarrow> (rd', None)
      | (rd', Some (caller_cancelled, lost)) \<Rightarrow>
          (case release env f now l rd' of
             (rd'', Inr (Released _)) \<Rightarrow> (rd'', Some lost)
           | (rd'', Inr (ReleaseNotOwner _ _)) \<Rightarrow> (rd'', Some True)
           | (rd'', Inl _) \<Rightarrow> (rd'', Some (lost \<or> \<not> caller_cancelled))))"

end
