(* ===== verification/Session_Directory_Props.thy ===== *)
theory Session_Directory_Props
  imports Session_Directory
begin

text \<open>
  Fencing. Every call of every runtime on the directory is a step of one state machine, with any
  clock advance, any interleaving and any fault. The invariant ties a stored lease to its counter;
  the properties say that generations never return, that a generation belongs to one owner for
  all time, and that a lease once granted is honoured until its time is over.
\<close>

section \<open>Laws of the third-party text forms\<close>

definition dir_laws :: "dir_env \<Rightarrow> bool" where
  "dir_laws env \<longleftrightarrow>
     inj (uuid_text env) \<and> (\<forall>u. CHR '':'' \<notin> set (uuid_text env u)) \<and>
     (\<forall>r. runtime_unhex env (runtime_hex env r) = Some r \<and> runtime_hex env r \<noteq> [] \<and>
        CHR ''|'' \<notin> set (runtime_hex env r)) \<and>
     (\<forall>n. 10 ^ 14 \<le> n \<longrightarrow> parse_u64 (lua_big env n) = None \<and> lua_big env n \<noteq> [] \<and>
        CHR ''|'' \<notin> set (lua_big env n))"

lemma session_base_parts:
  assumes "dir_laws env" and "CHR '':'' \<notin> set ending"
  shows "split_on (CHR '':'') (session_base env c s @ CHR '':'' # ending) =
    [''buzz'', uuid_text env c, ''tunnel'', uuid_text env s, ending]"
proof -
  have u: "CHR '':'' \<notin> set (uuid_text env v)" for v
    using assms(1) by (simp add: dir_laws_def)
  have "session_base env c s @ CHR '':'' # ending =
      ''buzz'' @ CHR '':'' # uuid_text env c @ CHR '':'' # ''tunnel'' @ CHR '':'' # uuid_text env s @ CHR '':'' # ending"
    by (simp add: session_base_def)
  then show ?thesis
    using u assms(2) by (simp add: split_on_append_sep split_on_no_sep)
qed

lemma keys_inj:
  assumes "dir_laws env"
  shows "lease_key env c s = lease_key env c' s' \<longleftrightarrow> c = c' \<and> s = s'"
    and "generation_key env c s = generation_key env c' s' \<longleftrightarrow> c = c' \<and> s = s'"
proof -
  have inj: "uuid_text env u = uuid_text env v \<longleftrightarrow> u = v" for u v
    using assms by (simp add: dir_laws_def inj_eq)
  have "session_base env c s @ CHR '':'' # ending = session_base env c' s' @ CHR '':'' # ending \<longleftrightarrow> c = c' \<and> s = s'"
    if "CHR '':'' \<notin> set ending" for ending
    using session_base_parts [OF assms that, of c s] session_base_parts [OF assms that, of c' s'] inj
    by (metis list.inject)
  from this [of "''lease''"] this [of "''generation''"]
  show "lease_key env c s = lease_key env c' s' \<longleftrightarrow> c = c' \<and> s = s'"
    and "generation_key env c s = generation_key env c' s' \<longleftrightarrow> c = c' \<and> s = s'"
    by (simp_all add: lease_key_def generation_key_def)
qed

section \<open>Lease values\<close>

definition lease_value :: "dir_env \<Rightarrow> RuntimeId \<Rightarrow> nat \<Rightarrow> Profile \<Rightarrow> string" where
  "lease_value env owner g profile =
     runtime_hex env owner @ ''|'' @ lua_tostring env g @ ''|'' @ as_wire_str profile"

definition lease_of :: "uuid \<Rightarrow> uuid \<Rightarrow> RuntimeId \<Rightarrow> nat \<Rightarrow> Profile \<Rightarrow> SessionLease" where
  "lease_of c s owner g profile =
     \<lparr>sl_community_id = c, sl_session_id = s, sl_owner_runtime_id = owner,
      sl_generation = word_of_nat g, sl_profile = profile\<rparr>"

lemma wire_profile [simp]:
  "profile_from_wire (as_wire_str p) = Some p" "CHR ''|'' \<notin> set (as_wire_str p)" "as_wire_str p \<noteq> []"
  by (cases p; simp add: profile_from_wire_def)+

lemma lua_tostring_text:
  assumes "dir_laws env"
  shows "CHR ''|'' \<notin> set (lua_tostring env g)" and "lua_tostring env g \<noteq> []"
    and "parse_u64 (lua_tostring env g) = (if g < 10 ^ 14 then Some g else None)"
proof -
  have "CHR ''|'' \<notin> set (decimal g)"
    by (rule decimal_not_mem) (simp add: is_digit_def byte_in_def)
  then show "CHR ''|'' \<notin> set (lua_tostring env g)" and "lua_tostring env g \<noteq> []"
    and "parse_u64 (lua_tostring env g) = (if g < 10 ^ 14 then Some g else None)"
    using assms by (auto simp: lua_tostring_def dir_laws_def)
qed

lemma split_lease_value:
  assumes "dir_laws env"
  shows "split_on (CHR ''|'') (lease_value env owner g p) = [runtime_hex env owner, lua_tostring env g, as_wire_str p]"
proof -
  have "lease_value env owner g p = runtime_hex env owner @ CHR ''|'' # lua_tostring env g @ CHR ''|'' # as_wire_str p"
    by (simp add: lease_value_def)
  then show ?thesis
    using assms lua_tostring_text [OF assms]
    by (simp only: split_on_append_sep split_on_no_sep dir_laws_def wire_profile simp_thms)
qed

lemma parse_lease_value:
  assumes "dir_laws env" and "0 < g"
  shows "parse_lease env c s (lease_value env owner g p) =
    (if g < 10 ^ 14 then Inr (lease_of c s owner g p) else Inl (MalformedLease c s (lease_value env owner g p)))"
proof -
  have "runtime_unhex env (runtime_hex env owner) = Some owner"
    using assms(1) by (simp add: dir_laws_def)
  then show ?thesis
    using assms(2) lua_tostring_text(3) [OF assms(1), of g]
    by (simp add: parse_lease_def split_lease_value [OF assms(1)] lease_of_def)
qed

lemma held_by_lease_value:
  assumes "dir_laws env"
  shows "held_by (lease_value env owner g p) owner' g' \<longleftrightarrow> runtime_hex env owner = owner' \<and> lua_tostring env g = g'"
  using assms lua_tostring_text(2) [OF assms, of g]
  by (auto simp: held_by_def lua_match_def split_lease_value [OF assms] dir_laws_def)

lemma lease_value_not_Nil [simp]: "lease_value env owner g p \<noteq> []"
  by (simp add: lease_value_def)

lemma unat_generation [simp]: "g < 10 ^ 14 \<Longrightarrow> unat (word_of_nat g :: u64) = g"
  by (simp add: unsigned_of_nat take_bit_nat_eq_self)


section \<open>What the calls do to the store\<close>

definition counter_of :: "dir_env \<Rightarrow> redis \<Rightarrow> uuid \<Rightarrow> uuid \<Rightarrow> nat" where
  "counter_of env rd c s = hm_get_or 0 (rd_counters rd) (generation_key env c s)"

definition stored :: "dir_env \<Rightarrow> redis \<Rightarrow> uuid \<Rightarrow> uuid \<Rightarrow> (string \<times> nat) option" where
  "stored env rd c s = hm_get (rd_leases rd) (lease_key env c s)"

definition grant ::
  "dir_env \<Rightarrow> nat \<Rightarrow> nat \<Rightarrow> uuid \<Rightarrow> uuid \<Rightarrow> RuntimeId \<Rightarrow> Profile \<Rightarrow> redis \<Rightarrow> redis" where
  "grant env ttl now c s owner p rd =
     (let g = counter_of env rd c s + 1 in
      rd\<lparr>rd_counters := hm_insert (generation_key env c s) g (rd_counters rd),
         rd_leases := hm_insert (lease_key env c s) (lease_value env owner g p, now + ttl) (rd_leases rd)\<rparr>)"

definition live :: "dir_env \<Rightarrow> nat \<Rightarrow> redis \<Rightarrow> uuid \<Rightarrow> uuid \<Rightarrow> string option" where
  "live env now rd c s = redis_get now (lease_key env c s) rd"

lemma live_stored:
  "live env now rd c s = (case stored env rd c s of None \<Rightarrow> None | Some (v, e) \<Rightarrow> if now \<le> e then Some v else None)"
  by (simp add: live_def stored_def redis_get_def)

lemma counter_grant:
  assumes "dir_laws env"
  shows "counter_of env (grant env ttl now c s owner p rd) c' s' =
    (if c' = c \<and> s' = s then counter_of env rd c s + 1 else counter_of env rd c' s')"
  using keys_inj(2) [OF assms, of c s c' s'] by (auto simp: counter_of_def grant_def Let_def hm_get_or_def)

lemma stored_grant:
  assumes "dir_laws env"
  shows "stored env (grant env ttl now c s owner p rd) c' s' =
    (if c' = c \<and> s' = s then Some (lease_value env owner (counter_of env rd c s + 1) p, now + ttl)
     else stored env rd c' s')"
  using keys_inj(1) [OF assms, of c s c' s'] by (auto simp: stored_def grant_def Let_def)

lemma acquire_script_cases:
  "acquire_script env now (lease_key env c s) (generation_key env c s) (runtime_hex env owner) (as_wire_str p) ttl rd =
     (case live env now rd c s of
        Some v \<Rightarrow> Some (rd, ''exists'', v, (case counter_text (generation_key env c s) rd of None \<Rightarrow> [] | Some g \<Rightarrow> g))
      | None \<Rightarrow>
          if counter_of env rd c s \<ge> 2 ^ 63 - 1 then None
          else Some (grant env ttl now c s owner p rd, ''acquired'',
                 lease_value env owner (counter_of env rd c s + 1) p, lua_tostring env (counter_of env rd c s + 1)))"
  by (simp add: acquire_script_def live_def counter_of_def grant_def lease_value_def Let_def split: option.split)

lemma acquire_outcome:
  assumes "acquire env ttl f now c s owner p rd = (rd', r)"
  shows "rd' = rd \<or>
    live env now rd c s = None \<and> 0 < ttl \<and> counter_of env rd c s < 2 ^ 63 - 1 \<and> rd' = grant env ttl now c s owner p rd"
  using assms
  by (auto simp: acquire_def acquire_script_cases ttl_ms_def settle_def split: fault.splits option.splits if_splits sum.splits)

lemma acquire_Acquired:
  assumes "acquire env ttl f now c s owner p rd = (rd', Inr (Acquired l))"
  shows "live env now rd c s = None" and "rd' = grant env ttl now c s owner p rd"
    and "parse_lease env c s (lease_value env owner (counter_of env rd c s + 1) p) = Inr l"
    and "counter_of env rd c s < 2 ^ 63 - 1"
  using assms
  by (auto simp: acquire_def acquire_script_cases ttl_ms_def settle_def split: fault.splits option.splits if_splits sum.splits)

lemma renew_outcome:
  assumes "renew env ttl f now l rd = (rd', r)"
  defines "c \<equiv> sl_community_id l" and "s \<equiv> sl_session_id l"
  shows "rd' = rd \<or>
    (\<exists>v. live env now rd c s = Some v \<and>
       held_by v (runtime_hex env (sl_owner_runtime_id l)) (decimal (unat (sl_generation l))) \<and>
       rd' = rd\<lparr>rd_leases := hm_insert (lease_key env c s) (v, now + ttl) (rd_leases rd)\<rparr>)"
  using assms
  by (auto simp: renew_def renew_script_def live_def ttl_ms_def settle_def Let_def
      split: fault.splits option.splits if_splits sum.splits)

lemma release_outcome:
  assumes "release env f now l rd = (rd', r)"
  defines "c \<equiv> sl_community_id l" and "s \<equiv> sl_session_id l"
  shows "rd' = rd \<or>
    (\<exists>v. live env now rd c s = Some v \<and>
       held_by v (runtime_hex env (sl_owner_runtime_id l)) (decimal (unat (sl_generation l))) \<and>
       rd' = rd\<lparr>rd_leases := hm_remove (lease_key env c s) (rd_leases rd)\<rparr>)"
  using assms
  by (auto simp: release_def release_script_def live_def settle_def Let_def
      split: fault.splits option.splits if_splits sum.splits)


section \<open>All runtimes on one directory\<close>

text \<open>
  \<open>ds_granted\<close> lists, in order, the leases that some \<open>acquire\<close> returned as \<open>Acquired\<close>. The clock is
  that of the Redis server and never goes back.
\<close>

record dir_state =
  ds_redis :: redis
  ds_now :: nat
  ds_granted :: "SessionLease list"

definition granted_by :: "(DirectoryError + AcquireResult) \<Rightarrow> SessionLease list" where
  "granted_by r = (case r of Inr (Acquired l) \<Rightarrow> [l] | _ \<Rightarrow> [])"

inductive dir_step :: "dir_env \<Rightarrow> nat \<Rightarrow> dir_state \<Rightarrow> dir_state \<Rightarrow> bool" for env ttl where
  tick: "ds_now x \<le> t \<Longrightarrow> dir_step env ttl x (x\<lparr>ds_now := t\<rparr>)"
| acquire: "acquire env ttl f (ds_now x) c s owner p (ds_redis x) = (rd, r) \<Longrightarrow>
    dir_step env ttl x (x\<lparr>ds_redis := rd, ds_granted := ds_granted x @ granted_by r\<rparr>)"
| renew: "renew env ttl f (ds_now x) l (ds_redis x) = (rd, r) \<Longrightarrow>
    dir_step env ttl x (x\<lparr>ds_redis := rd\<rparr>)"
| release: "release env f (ds_now x) l (ds_redis x) = (rd, r) \<Longrightarrow>
    dir_step env ttl x (x\<lparr>ds_redis := rd\<rparr>)"

definition dir_start :: "dir_state \<Rightarrow> bool" where
  "dir_start x \<longleftrightarrow> ds_redis x = \<lparr>rd_leases = [], rd_counters = []\<rparr> \<and> ds_granted x = []"

definition store_inv :: "dir_env \<Rightarrow> redis \<Rightarrow> bool" where
  "store_inv env rd \<longleftrightarrow>
     (\<forall>c s. counter_of env rd c s < 2 ^ 63 \<and>
        (hm_get (rd_counters rd) (generation_key env c s) \<noteq> Some 0) \<and>
        (\<forall>v e. stored env rd c s = Some (v, e) \<longrightarrow>
           0 < counter_of env rd c s \<and> (\<exists>owner p. v = lease_value env owner (counter_of env rd c s) p)))"

definition same_session :: "SessionLease \<Rightarrow> SessionLease \<Rightarrow> bool" where
  "same_session l l' \<longleftrightarrow> sl_community_id l = sl_community_id l' \<and> sl_session_id l = sl_session_id l'"

definition grants_inv :: "dir_env \<Rightarrow> redis \<Rightarrow> SessionLease list \<Rightarrow> bool" where
  "grants_inv env rd ls \<longleftrightarrow>
     (\<forall>l \<in> set ls. 0 < unat (sl_generation l) \<and>
        unat (sl_generation l) \<le> counter_of env rd (sl_community_id l) (sl_session_id l)) \<and>
     sorted_wrt (\<lambda>l l'. same_session l l' \<longrightarrow> sl_generation l < sl_generation l') ls"

definition dir_inv :: "dir_env \<Rightarrow> dir_state \<Rightarrow> bool" where
  "dir_inv env x \<longleftrightarrow> store_inv env (ds_redis x) \<and> grants_inv env (ds_redis x) (ds_granted x)"

text \<open>
  What a step may do to one session: its counter only grows, and while the counter stands still
  the lease value can only disappear.
\<close>

definition session_grows :: "dir_env \<Rightarrow> redis \<Rightarrow> redis \<Rightarrow> uuid \<Rightarrow> uuid \<Rightarrow> bool" where
  "session_grows env rd rd' c s \<longleftrightarrow>
     counter_of env rd c s \<le> counter_of env rd' c s \<and>
     (counter_of env rd c s = counter_of env rd' c s \<longrightarrow>
        stored env rd' c s = None \<or> map_option fst (stored env rd' c s) = map_option fst (stored env rd c s))"

lemma session_grows_refl [simp]: "session_grows env rd rd c s"
  by (simp add: session_grows_def)

lemma session_grows_trans:
  "session_grows env a b c s \<Longrightarrow> session_grows env b d c s \<Longrightarrow> session_grows env a d c s"
  by (auto simp: session_grows_def)

lemma grant_grows: "dir_laws env \<Longrightarrow> session_grows env rd (grant env ttl now c' s' owner p rd) c s"
  by (simp add: session_grows_def counter_grant stored_grant)

lemma relabel_grows:
  assumes "dir_laws env" and "live env now rd c' s' = Some v"
  shows "session_grows env rd (rd\<lparr>rd_leases := hm_insert (lease_key env c' s') (v, e) (rd_leases rd)\<rparr>) c s"
    and "session_grows env rd (rd\<lparr>rd_leases := hm_remove (lease_key env c' s') (rd_leases rd)\<rparr>) c s"
  using assms(2) keys_inj(1) [OF assms(1), of c' s' c s]
  by (auto simp: session_grows_def counter_of_def stored_def live_stored split: option.splits if_splits prod.splits)

lemma step_grows:
  "dir_step env ttl x y \<Longrightarrow> dir_laws env \<Longrightarrow> session_grows env (ds_redis x) (ds_redis y) c s"
proof (induction rule: dir_step.induct)
  case (acquire f x c' s' owner p rd r)
  then show ?case
    using acquire_outcome [OF acquire(1)] grant_grows by auto
next
  case (renew f x l rd r)
  then show ?case
    using renew_outcome [OF renew(1)] relabel_grows(1) by auto
next
  case (release f x l rd r)
  then show ?case
    using release_outcome [OF release(1)] relabel_grows(2) by auto
qed simp

lemma steps_grow:
  "(dir_step env ttl)\<^sup>*\<^sup>* x y \<Longrightarrow> dir_laws env \<Longrightarrow> session_grows env (ds_redis x) (ds_redis y) c s"
  by (induction rule: rtranclp_induct) (auto intro: step_grows session_grows_trans)


lemma store_inv_grant:
  assumes "dir_laws env" and "store_inv env rd" and "counter_of env rd c s < 2 ^ 63 - 1"
  shows "store_inv env (grant env ttl now c s owner p rd)"
proof -
  have "hm_get (rd_counters (grant env ttl now c s owner p rd)) (generation_key env c' s') \<noteq> Some 0" for c' s'
    using assms(2) by (auto simp: store_inv_def grant_def Let_def)
  then show ?thesis
    using assms(2,3) by (auto simp: store_inv_def counter_grant [OF assms(1)] stored_grant [OF assms(1)] split: if_splits)
qed

lemma store_inv_relabel:
  assumes "dir_laws env" and "store_inv env rd" and "live env now rd c s = Some v"
  shows "store_inv env (rd\<lparr>rd_leases := hm_insert (lease_key env c s) (v, e) (rd_leases rd)\<rparr>)"
    and "store_inv env (rd\<lparr>rd_leases := hm_remove (lease_key env c s) (rd_leases rd)\<rparr>)"
proof -
  obtain e' where "stored env rd c s = Some (v, e')"
    using assms(3) by (auto simp: live_stored split: option.splits if_splits)
  then show "store_inv env (rd\<lparr>rd_leases := hm_insert (lease_key env c s) (v, e) (rd_leases rd)\<rparr>)"
    and "store_inv env (rd\<lparr>rd_leases := hm_remove (lease_key env c s) (rd_leases rd)\<rparr>)"
    using assms(2) by (auto simp: store_inv_def counter_of_def stored_def keys_inj [OF assms(1)] split: if_splits)
qed

lemma grants_inv_mono:
  "grants_inv env rd ls \<Longrightarrow> (\<And>c s. counter_of env rd c s \<le> counter_of env rd' c s) \<Longrightarrow> grants_inv env rd' ls"
  unfolding grants_inv_def by (meson order_trans)

lemma grants_inv_acquire:
  assumes "dir_laws env" and "grants_inv env rd ls"
    and "acquire env ttl f now c s owner p rd = (rd', Inr (Acquired l))"
  shows "grants_inv env rd' (ls @ [l])"
proof -
  let ?g = "counter_of env rd c s + 1"
  note acq = acquire_Acquired [OF assms(3)]
  have g: "?g < 10 ^ 14" and l: "l = lease_of c s owner ?g p"
    using acq(3) parse_lease_value [OF assms(1), of ?g c s owner p] by (auto split: if_splits)
  have gen: "unat (sl_generation l) = ?g"
    using g unat_generation [of ?g] by (simp add: l lease_of_def del: of_nat_Suc of_nat_add)
  have cnt: "counter_of env rd' c' s' = (if c' = c \<and> s' = s then ?g else counter_of env rd c' s')" for c' s'
    by (simp add: acq(2) counter_grant [OF assms(1)])
  have "sl_generation l' < sl_generation l" if "l' \<in> set ls" and "same_session l' l" for l'
    using assms(2) that gen by (auto simp: grants_inv_def same_session_def word_less_nat_alt l lease_of_def)
  moreover have "0 < unat (sl_generation l') \<and>
      unat (sl_generation l') \<le> counter_of env rd' (sl_community_id l') (sl_session_id l')"
    if "l' \<in> set ls" for l'
    using assms(2) that by (fastforce simp: grants_inv_def cnt)
  moreover have "unat (sl_generation l) \<le> counter_of env rd' (sl_community_id l) (sl_session_id l)"
    using gen by (simp add: cnt l lease_of_def)
  ultimately show ?thesis
    using assms(2) gen by (auto simp: grants_inv_def sorted_wrt_append)
qed

lemma step_store_inv:
  "dir_step env ttl x y \<Longrightarrow> dir_laws env \<Longrightarrow> store_inv env (ds_redis x) \<Longrightarrow> store_inv env (ds_redis y)"
proof (induction rule: dir_step.induct)
  case (acquire f x c s owner p rd r)
  then show ?case
    using acquire_outcome [OF acquire(1)] store_inv_grant by auto
next
  case (renew f x l rd r)
  then show ?case
    using renew_outcome [OF renew(1)] store_inv_relabel(1) by auto
next
  case (release f x l rd r)
  then show ?case
    using release_outcome [OF release(1)] store_inv_relabel(2) by auto
qed simp

lemma step_grants_inv:
  assumes "dir_step env ttl x y" and "dir_laws env" and "grants_inv env (ds_redis x) (ds_granted x)"
  shows "grants_inv env (ds_redis y) (ds_granted y)"
proof -
  have "counter_of env (ds_redis x) c s \<le> counter_of env (ds_redis y) c s" for c s
    using step_grows [OF assms(1,2)] by (simp add: session_grows_def)
  then have grown: "grants_inv env (ds_redis y) (ds_granted x)"
    using grants_inv_mono [OF assms(3)] by blast
  show ?thesis
    using assms(1)
  proof cases
    case (acquire f c s owner p rd r)
    then show ?thesis
      using grown grants_inv_acquire [OF assms(2,3)]
      by (cases "\<exists>l. r = Inr (Acquired l)") (auto simp: granted_by_def split: sum.splits AcquireResult.splits)
  qed (use grown in auto)
qed

interpretation directory: invariant_system dir_start "\<lambda>x y. dir_laws env \<and> dir_step env ttl x y" "dir_inv env"
  for env ttl
proof
  show "dir_inv env x" if "dir_start x" for x
    using that
    by (simp add: dir_start_def dir_inv_def store_inv_def grants_inv_def counter_of_def stored_def hm_get_or_def)
  show "dir_inv env y" if "dir_laws env \<and> dir_step env ttl x y" and "dir_inv env x" for x y
    using that step_store_inv step_grants_inv by (auto simp: dir_inv_def)
qed


lemma dir_reach_inv:
  assumes "dir_laws env" and "dir_start x0" and "(dir_step env ttl)\<^sup>*\<^sup>* x0 x"
  shows "dir_inv env x"
  using directory.steps_inv [of env ttl x0 x] directory.init_inv [OF assms(2)] assms(1,3) by simp

section \<open>The fence\<close>

lemma store_invD:
  assumes "store_inv env rd"
  shows "counter_of env rd c s < 2 ^ 63" and "hm_get (rd_counters rd) (generation_key env c s) \<noteq> Some 0"
    and "stored env rd c s = Some (v, e) \<Longrightarrow>
      0 < counter_of env rd c s \<and> (\<exists>owner p. v = lease_value env owner (counter_of env rd c s) p)"
  using assms by (auto simp: store_inv_def)

lemma stored_value:
  assumes "store_inv env rd" and "live env now rd c s = Some v"
  obtains owner p where "v = lease_value env owner (counter_of env rd c s) p" and "0 < counter_of env rd c s"
proof -
  obtain e where "stored env rd c s = Some (v, e)"
    using assms(2) by (auto simp: live_stored split: option.splits if_splits)
  then show ?thesis
    using store_invD(3) [OF assms(1)] that by blast
qed

lemma counter_parse:
  assumes "store_inv env rd"
  shows "parse_optional_generation c s (case counter_text (generation_key env c s) rd of None \<Rightarrow> [] | Some g \<Rightarrow> g) =
    Inr (if counter_of env rd c s = 0 then None else Some (word_of_nat (counter_of env rd c s)))"
proof (cases "hm_get (rd_counters rd) (generation_key env c s)")
  case None
  then show ?thesis
    by (simp add: counter_text_def counter_of_def hm_get_or_def parse_optional_generation_def)
next
  case (Some n)
  then have "n = counter_of env rd c s" and "0 < n" and "n < 2 ^ 63"
    using store_invD(1,2) [OF assms, of c s] by (auto simp: counter_of_def hm_get_or_def intro: ccontr)
  then show ?thesis
    using Some by (simp add: counter_text_def parse_optional_generation_def)
qed

lemma validate_ok:
  assumes "dir_laws env" and "store_inv env rd" and "validate_fenced_header env f now c h rd = Inr ()"
  defines "s \<equiv> fenced_session_id h"
  shows "\<exists>p. live env now rd c s = Some (lease_value env (fenced_owner h) (counter_of env rd c s) p)"
    and "unat (fenced_generation h) = counter_of env rd c s"
proof -
  let ?g = "counter_of env rd c s"
  obtain v where v: "live env now rd c s = Some v"
    using assms(3) by (auto simp: validate_fenced_header_def validate_script_def live_def s_def parse_optional_lease_def
        Let_def split: option.splits if_splits sum.splits)
  obtain owner p where val: "v = lease_value env owner ?g p" and pos: "0 < ?g"
    using stored_value [OF assms(2) v] by blast
  have parse: "parse_optional_lease env c s v = (if ?g < 10 ^ 14 then Inr (Some (lease_of c s owner ?g p)) else Inl (MalformedLease c s v))"
    using parse_lease_value [OF assms(1) pos] val by (simp add: parse_optional_lease_def)
  have script: "validate_script now (lease_key env c s) (generation_key env c s) rd =
      (v, (case counter_text (generation_key env c s) rd of None \<Rightarrow> [] | Some g \<Rightarrow> g))"
    using v by (simp add: validate_script_def live_def)
  have small: "?g < 10 ^ 14"
    using assms(3) script parse counter_parse [OF assms(2), of c s]
    by (auto simp: validate_fenced_header_def s_def Let_def split: if_splits)
  then have "fenced_generation h = word_of_nat ?g \<and> fenced_owner h = owner"
    using assms(3) script parse counter_parse [OF assms(2), of c s] pos
    by (auto simp: validate_fenced_header_def s_def Let_def lease_of_def split: if_splits)
  then show "\<exists>p. live env now rd c s = Some (lease_value env (fenced_owner h) ?g p)"
    and "unat (fenced_generation h) = ?g"
    using v val small by auto
qed

lemma validate_accepts:
  assumes "dir_laws env" and "store_inv env rd" and "0 < g" and "g < 10 ^ 14"
    and "counter_of env rd c s = g" and "live env now rd c s = Some (lease_value env owner g p)"
  shows "validate_fenced_header env NoFault now c (fenced_header (lease_of c s owner g p)) rd = Inr ()"
  using assms counter_parse [OF assms(2), of c s] parse_lease_value [OF assms(1,3), of c s owner p]
  by (simp add: validate_fenced_header_def validate_script_def live_def fenced_header_def lease_of_def
      parse_optional_lease_def Let_def)

lemma acquired_is_accepted:
  assumes "dir_laws env" and "store_inv env rd" and "acquire env ttl f now c s owner p rd = (rd', Inr (Acquired l))"
  shows "l = lease_of c s owner (counter_of env rd c s + 1) p"
    and "validate_fenced_header env NoFault now c (fenced_header l) rd' = Inr ()"
proof -
  let ?g = "counter_of env rd c s + 1"
  note acq = acquire_Acquired [OF assms(3)]
  have g: "?g < 10 ^ 14" and l: "l = lease_of c s owner ?g p"
    using acq(3) parse_lease_value [OF assms(1), of ?g c s owner p] by (auto split: if_splits)
  have "store_inv env rd'" and "counter_of env rd' c s = ?g" and "live env now rd' c s = Some (lease_value env owner ?g p)"
    using acq(2,4) store_inv_grant [OF assms(1,2)]
    by (simp_all add: counter_grant [OF assms(1)] stored_grant [OF assms(1)] live_stored)
  then show "l = lease_of c s owner ?g p" and "validate_fenced_header env NoFault now c (fenced_header l) rd' = Inr ()"
    using validate_accepts [OF assms(1) _ _ g] l by auto
qed

lemma accepted_is_newest:
  assumes "dir_laws env" and "dir_inv env x" and "validate_fenced_header env f (ds_now x) c h (ds_redis x) = Inr ()"
    and "l \<in> set (ds_granted x)" and "sl_community_id l = c" and "sl_session_id l = fenced_session_id h"
  shows "sl_generation l \<le> fenced_generation h"
proof -
  have "unat (fenced_generation h) = counter_of env (ds_redis x) c (fenced_session_id h)"
    using validate_ok(2) [OF assms(1) _ assms(3)] assms(2) by (simp add: dir_inv_def)
  then show ?thesis
    using assms(2,4-6) by (auto simp: dir_inv_def grants_inv_def word_le_nat_alt)
qed

section \<open>A concrete directory\<close>

definition plain_dir :: dir_env where
  "plain_dir =
     \<lparr>uuid_text = (\<lambda>u. decimal (unat u)), runtime_hex = (\<lambda>r. decimal (unat r)),
      runtime_unhex = (\<lambda>v. map_option word_of_nat (parse_digits v)), lua_big = (\<lambda>n. ''1e+14'')\<rparr>"

lemma plain_dir_laws: "dir_laws plain_dir"
proof -
  have "inj (\<lambda>u :: uuid. decimal (unat u))"
    by (rule injI) (auto simp: decimal_inj intro: unsigned_word_eqI)
  moreover have "CHR '':'' \<notin> set (decimal n)" and "CHR ''|'' \<notin> set (decimal n)" for n
    by (simp_all add: decimal_not_mem is_digit_def byte_in_def)
  moreover have "parse_u64 ''1e+14'' = None"
    by (simp add: parse_u64_def parse_digits_def is_digit_def byte_in_def)
  ultimately show ?thesis
    by (simp add: dir_laws_def plain_dir_def)
qed

definition empty_dir :: dir_state where
  "empty_dir = \<lparr>ds_redis = \<lparr>rd_leases = [], rd_counters = []\<rparr>, ds_now = 0, ds_granted = []\<rparr>"

lemma empty_dir_start: "dir_start empty_dir"
  by (simp add: dir_start_def empty_dir_def)

lemma plain_acquire:
  "acquire plain_dir 30000 NoFault 0 1 2 3 HuddleControl (ds_redis empty_dir) =
     (grant plain_dir 30000 0 1 2 3 HuddleControl (ds_redis empty_dir), Inr (Acquired (lease_of 1 2 3 1 HuddleControl)))"
proof -
  have "parse_lease plain_dir 1 2 (lease_value plain_dir 3 1 HuddleControl) = Inr (lease_of 1 2 3 1 HuddleControl)"
    using parse_lease_value [OF plain_dir_laws, of 1] by simp
  then show ?thesis
    by (simp add: acquire_def acquire_script_cases live_stored stored_def counter_of_def empty_dir_def ttl_ms_def settle_def
        del: as_wire_str.simps)
qed

text \<open>The first lease runs out and runtime 4 takes over.\<close>

definition plain_first :: dir_state where
  "plain_first = empty_dir\<lparr>ds_redis := grant plain_dir 30000 0 1 2 3 HuddleControl (ds_redis empty_dir),
     ds_granted := [lease_of 1 2 3 1 HuddleControl]\<rparr>"

definition plain_second :: dir_state where
  "plain_second = plain_first\<lparr>ds_now := 40000,
     ds_redis := grant plain_dir 30000 40000 1 2 4 HuddleControl (ds_redis plain_first),
     ds_granted := [lease_of 1 2 3 1 HuddleControl, lease_of 1 2 4 2 HuddleControl]\<rparr>"

lemma plain_store:
  "counter_of plain_dir (ds_redis empty_dir) 1 2 = 0"
  "counter_of plain_dir (ds_redis plain_first) 1 2 = 1"
  "counter_of plain_dir (ds_redis plain_second) 1 2 = 2"
  "live plain_dir 0 (ds_redis plain_first) 1 2 = Some (lease_value plain_dir 3 1 HuddleControl)"
  "live plain_dir 40000 (ds_redis plain_first) 1 2 = None"
  "live plain_dir 40000 (ds_redis plain_second) 1 2 = Some (lease_value plain_dir 4 2 HuddleControl)"
proof -
  show c0: "counter_of plain_dir (ds_redis empty_dir) 1 2 = 0"
    by (simp add: counter_of_def empty_dir_def)
  show c1: "counter_of plain_dir (ds_redis plain_first) 1 2 = 1"
    by (simp add: plain_first_def counter_grant [OF plain_dir_laws] c0)
  show "counter_of plain_dir (ds_redis plain_second) 1 2 = 2"
    by (simp add: plain_second_def counter_grant [OF plain_dir_laws] c1)
  show "live plain_dir 0 (ds_redis plain_first) 1 2 = Some (lease_value plain_dir 3 1 HuddleControl)"
    and "live plain_dir 40000 (ds_redis plain_first) 1 2 = None"
    by (simp_all add: live_stored plain_first_def stored_grant [OF plain_dir_laws] c0)
  show "live plain_dir 40000 (ds_redis plain_second) 1 2 = Some (lease_value plain_dir 4 2 HuddleControl)"
    using c1 by (simp add: live_stored plain_second_def stored_grant [OF plain_dir_laws] numeral_2_eq_2)
qed

lemma plain_steps: "dir_step plain_dir 30000 empty_dir plain_first" "(dir_step plain_dir 30000)\<^sup>*\<^sup>* plain_first plain_second"
proof -
  show "dir_step plain_dir 30000 empty_dir plain_first"
    using dir_step.acquire [of plain_dir 30000 NoFault empty_dir 1 2 3 HuddleControl] plain_acquire
    by (simp add: plain_first_def granted_by_def empty_dir_def)
  have "parse_lease plain_dir 1 2 (lease_value plain_dir 4 2 HuddleControl) = Inr (lease_of 1 2 4 2 HuddleControl)"
    using parse_lease_value [OF plain_dir_laws, of 2] by simp
  then have "acquire plain_dir 30000 NoFault 40000 1 2 4 HuddleControl (ds_redis plain_first) =
      (grant plain_dir 30000 40000 1 2 4 HuddleControl (ds_redis plain_first), Inr (Acquired (lease_of 1 2 4 2 HuddleControl)))"
    using plain_store(2,5)
    by (simp add: acquire_def acquire_script_cases ttl_ms_def settle_def numeral_2_eq_2 [symmetric]
        del: as_wire_str.simps)
  then have "dir_step plain_dir 30000 (plain_first\<lparr>ds_now := 40000\<rparr>) plain_second"
    using dir_step.acquire [of plain_dir 30000 NoFault "plain_first\<lparr>ds_now := 40000\<rparr>" 1 2 4 HuddleControl]
    by (simp add: plain_second_def granted_by_def plain_first_def)
  moreover have "dir_step plain_dir 30000 plain_first (plain_first\<lparr>ds_now := 40000\<rparr>)"
    by (rule dir_step.tick) (simp add: plain_first_def empty_dir_def)
  ultimately show "(dir_step plain_dir 30000)\<^sup>*\<^sup>* plain_first plain_second"
    by (meson converse_rtranclp_into_rtranclp r_into_rtranclp)
qed

lemma plain_accepts:
  "validate_fenced_header plain_dir NoFault 0 1 (fenced_header (lease_of 1 2 3 1 HuddleControl)) (ds_redis plain_first) = Inr ()"
  "validate_fenced_header plain_dir NoFault 40000 1 (fenced_header (lease_of 1 2 4 2 HuddleControl)) (ds_redis plain_second) = Inr ()"
proof -
  have "store_inv plain_dir (ds_redis plain_first)" and "store_inv plain_dir (ds_redis plain_second)"
    using dir_reach_inv [OF plain_dir_laws empty_dir_start] plain_steps
    by (meson dir_inv_def r_into_rtranclp converse_rtranclp_into_rtranclp)+
  then show "validate_fenced_header plain_dir NoFault 0 1 (fenced_header (lease_of 1 2 3 1 HuddleControl)) (ds_redis plain_first) = Inr ()"
    and "validate_fenced_header plain_dir NoFault 40000 1 (fenced_header (lease_of 1 2 4 2 HuddleControl)) (ds_redis plain_second) = Inr ()"
    using validate_accepts [OF plain_dir_laws] plain_store by simp_all
qed

text \<open>
  C3. Fencing tokens never return. Take any history of calls by any runtimes on the directory,
  with clock advances, expiries, releases, takeovers and faults. If a frame header passes the
  fence at one moment and another header of the same session passes it at a later one, the later
  one has no smaller generation, and if the generations are equal it names the same owner. A
  runtime whose generation was superseded, that is, one whose lease was followed by another grant
  for the session, never passes the fence again; no two grants of a session share a generation.
\<close>

theorem fencing_is_monotone:
  assumes "dir_laws env" and "dir_start x0" and "(dir_step env ttl)\<^sup>*\<^sup>* x0 x" and "(dir_step env ttl)\<^sup>*\<^sup>* x y"
    and "validate_fenced_header env f (ds_now x) c h (ds_redis x) = Inr ()"
    and "validate_fenced_header env f' (ds_now y) c h' (ds_redis y) = Inr ()"
    and "fenced_session_id h = fenced_session_id h'"
  shows "fenced_generation h \<le> fenced_generation h' \<and>
    (fenced_generation h = fenced_generation h' \<longrightarrow> fenced_owner h = fenced_owner h') \<and>
    (\<forall>l \<in> set (ds_granted y). sl_community_id l = c \<and> sl_session_id l = fenced_session_id h' \<longrightarrow>
       sl_generation l \<le> fenced_generation h') \<and>
    sorted_wrt (\<lambda>l l'. same_session l l' \<longrightarrow> sl_generation l < sl_generation l') (ds_granted y)"
proof -
  let ?s = "fenced_session_id h'"
  have inv: "dir_inv env x" "dir_inv env y"
    using dir_reach_inv [OF assms(1,2)] assms(3,4) by (meson rtranclp_trans)+
  note at_x = validate_ok [OF assms(1) _ assms(5)] and at_y = validate_ok [OF assms(1) _ assms(6)]
  have gens: "unat (fenced_generation h) = counter_of env (ds_redis x) c ?s"
    "unat (fenced_generation h') = counter_of env (ds_redis y) c ?s"
    using at_x(2) at_y(2) inv assms(7) by (auto simp: dir_inv_def)
  have grows: "session_grows env (ds_redis x) (ds_redis y) c ?s"
    using steps_grow [OF assms(4,1)] .
  then have "fenced_generation h \<le> fenced_generation h'"
    using gens by (simp add: session_grows_def word_le_nat_alt)
  moreover have "fenced_owner h = fenced_owner h'" if eq: "fenced_generation h = fenced_generation h'"
  proof -
    obtain p q where "live env (ds_now x) (ds_redis x) c ?s = Some (lease_value env (fenced_owner h) (unat (fenced_generation h)) p)"
      and "live env (ds_now y) (ds_redis y) c ?s = Some (lease_value env (fenced_owner h') (unat (fenced_generation h)) q)"
      using at_x(1) at_y(1) inv assms(7) gens eq by (auto simp: dir_inv_def)
    then have "lease_value env (fenced_owner h) (unat (fenced_generation h)) p =
        lease_value env (fenced_owner h') (unat (fenced_generation h)) q"
      using grows gens eq by (auto simp: session_grows_def live_stored split: option.splits if_splits)
    then have "runtime_hex env (fenced_owner h) = runtime_hex env (fenced_owner h')"
      using split_lease_value [OF assms(1)] by (metis list.inject)
    then show ?thesis
      using assms(1) unfolding dir_laws_def by (metis option.inject)
  qed
  moreover have "sl_generation l \<le> fenced_generation h'"
    if "l \<in> set (ds_granted y)" "sl_community_id l = c" "sl_session_id l = ?s" for l
    using accepted_is_newest [OF assms(1) inv(2) assms(6) that] .
  moreover have "sorted_wrt (\<lambda>l l'. same_session l l' \<longrightarrow> sl_generation l < sl_generation l') (ds_granted y)"
    using inv(2) by (simp add: dir_inv_def grants_inv_def)
  ultimately show ?thesis
    by blast
qed


theorem fencing_is_monotone_witness:
  "validate_fenced_header plain_dir NoFault 0 1 (fenced_header (lease_of 1 2 3 1 HuddleControl)) (ds_redis plain_first) = Inr () \<and>
   validate_fenced_header plain_dir NoFault 40000 1 (fenced_header (lease_of 1 2 4 2 HuddleControl)) (ds_redis plain_second) = Inr () \<and>
   fenced_generation (fenced_header (lease_of 1 2 3 1 HuddleControl)) \<le> fenced_generation (fenced_header (lease_of 1 2 4 2 HuddleControl))"
proof -
  have now: "ds_now plain_first = 0" "ds_now plain_second = 40000"
    by (simp_all add: plain_first_def plain_second_def empty_dir_def)
  have "fenced_session_id (fenced_header (lease_of 1 2 3 1 HuddleControl)) =
      fenced_session_id (fenced_header (lease_of 1 2 4 2 HuddleControl))"
    by (simp add: fenced_header_def lease_of_def)
  from fencing_is_monotone [OF plain_dir_laws empty_dir_start r_into_rtranclp, OF plain_steps, unfolded now,
      OF plain_accepts this]
  show ?thesis
    using plain_accepts by blast
qed

section \<open>Leases are honoured\<close>

datatype dir_call =
  Tick nat
| AcquireCall fault uuid uuid RuntimeId Profile
| RenewCall fault SessionLease
| ReleaseCall fault SessionLease

fun dir_do :: "dir_env \<Rightarrow> nat \<Rightarrow> dir_call \<Rightarrow> dir_state \<Rightarrow> dir_state" where
  "dir_do env ttl (Tick d) x = x\<lparr>ds_now := ds_now x + d\<rparr>"
| "dir_do env ttl (AcquireCall f c s owner p) x =
     (case acquire env ttl f (ds_now x) c s owner p (ds_redis x) of
        (rd, r) \<Rightarrow> x\<lparr>ds_redis := rd, ds_granted := ds_granted x @ granted_by r\<rparr>)"
| "dir_do env ttl (RenewCall f l) x = x\<lparr>ds_redis := fst (renew env ttl f (ds_now x) l (ds_redis x))\<rparr>"
| "dir_do env ttl (ReleaseCall f l) x = x\<lparr>ds_redis := fst (release env f (ds_now x) l (ds_redis x))\<rparr>"

lemma dir_do_step: "dir_step env ttl x (dir_do env ttl call x)"
  by (cases call) (auto intro: dir_step.intros surjective_pairing split: prod.split)

lemma dir_do_steps: "(dir_step env ttl)\<^sup>*\<^sup>* x (fold (dir_do env ttl) calls x)"
proof (induction calls arbitrary: x)
  case (Cons call calls)
  then show ?case
    by (auto intro: converse_rtranclp_into_rtranclp dir_do_step)
qed simp

lemma dir_do_now: "ds_now x \<le> ds_now (dir_do env ttl call x)"
  by (cases call) (auto split: prod.split)

lemma dir_dos_now: "ds_now x \<le> ds_now (fold (dir_do env ttl) calls x)"
proof (induction calls arbitrary: x)
  case (Cons call calls)
  then show ?case
    using order_trans [OF dir_do_now Cons] by simp
qed simp

text \<open>A call spares a lease unless it releases exactly this owner and generation.\<close>

fun spares :: "SessionLease \<Rightarrow> dir_call \<Rightarrow> bool" where
  "spares l (ReleaseCall _ l') \<longleftrightarrow> \<not> (same_session l l' \<and> fenced_header l = fenced_header l')"
| "spares l _ \<longleftrightarrow> True"

definition holds :: "dir_env \<Rightarrow> nat \<Rightarrow> uuid \<Rightarrow> uuid \<Rightarrow> RuntimeId \<Rightarrow> nat \<Rightarrow> Profile \<Rightarrow> redis \<Rightarrow> bool" where
  "holds env until c s owner g p rd \<longleftrightarrow>
     counter_of env rd c s = g \<and> (\<exists>e \<ge> until. stored env rd c s = Some (lease_value env owner g p, e))"

lemma holds_live: "holds env until c s owner g p rd \<Longrightarrow> now \<le> until \<Longrightarrow> live env now rd c s = Some (lease_value env owner g p)"
  by (auto simp: holds_def live_stored)

lemma holds_other:
  assumes "dir_laws env" and "holds env until c s owner g p rd"
    and "(c', s') \<noteq> (c, s)"
  shows "holds env until c s owner g p (grant env ttl now c' s' owner' p' rd)"
    and "holds env until c s owner g p (rd\<lparr>rd_leases := hm_insert (lease_key env c' s') w (rd_leases rd)\<rparr>)"
    and "holds env until c s owner g p (rd\<lparr>rd_leases := hm_remove (lease_key env c' s') (rd_leases rd)\<rparr>)"
proof -
  have ne: "lease_key env c' s' \<noteq> lease_key env c s"
    using assms(3) keys_inj(1) [OF assms(1)] by auto
  show "holds env until c s owner g p (grant env ttl now c' s' owner' p' rd)"
    using assms(2,3) by (auto simp: holds_def counter_grant [OF assms(1)] stored_grant [OF assms(1)])
  show "holds env until c s owner g p (rd\<lparr>rd_leases := hm_insert (lease_key env c' s') w (rd_leases rd)\<rparr>)"
    and "holds env until c s owner g p (rd\<lparr>rd_leases := hm_remove (lease_key env c' s') (rd_leases rd)\<rparr>)"
    using assms(2) ne by (auto simp: holds_def counter_of_def stored_def)
qed

lemma held_by_lease:
  assumes "dir_laws env" and "g < 10 ^ 14"
    and "held_by (lease_value env owner g p) (runtime_hex env (sl_owner_runtime_id l)) (decimal (unat (sl_generation l)))"
  shows "sl_owner_runtime_id l = owner" and "sl_generation l = word_of_nat g"
proof -
  have "runtime_hex env owner = runtime_hex env (sl_owner_runtime_id l)" and "unat (sl_generation l) = g"
    using assms by (auto simp: held_by_lease_value lua_tostring_def decimal_inj)
  then show "sl_owner_runtime_id l = owner" and "sl_generation l = word_of_nat g"
    using assms(1) unfolding dir_laws_def by (metis option.inject, auto)
qed

lemma holds_do:
  assumes "dir_laws env" and "g < 10 ^ 14" and "holds env until c s owner g p (ds_redis x)"
    and "ds_now x \<le> until" and "until \<le> ds_now x + ttl" and "spares (lease_of c s owner g p) call"
  shows "holds env until c s owner g p (ds_redis (dir_do env ttl call x))"
proof (cases call)
  case (AcquireCall f c' s' owner' p')
  obtain rd r where acq: "acquire env ttl f (ds_now x) c' s' owner' p' (ds_redis x) = (rd, r)"
    by (metis surj_pair)
  have "(c', s') \<noteq> (c, s)" if "live env (ds_now x) (ds_redis x) c' s' = None"
    using that holds_live [OF assms(3,4)] by auto
  then show ?thesis
    using acquire_outcome [OF acq] holds_other(1) [OF assms(1,3)] assms(3) acq AcquireCall by auto
next
  case (RenewCall f l)
  obtain rd r where ren: "renew env ttl f (ds_now x) l (ds_redis x) = (rd, r)"
    by (metis surj_pair)
  have "holds env until c s owner g p rd"
    using renew_outcome [OF ren] assms(3)
  proof (elim disjE exE conjE)
    fix v assume v: "live env (ds_now x) (ds_redis x) (sl_community_id l) (sl_session_id l) = Some v"
      and rd: "rd = ds_redis x\<lparr>rd_leases := hm_insert (lease_key env (sl_community_id l) (sl_session_id l)) (v, ds_now x + ttl) (rd_leases (ds_redis x))\<rparr>"
    show ?thesis
    proof (cases "(sl_community_id l, sl_session_id l) = (c, s)")
      case True
      then show ?thesis
        using v holds_live [OF assms(3,4)] assms(3,5) rd by (auto simp: holds_def counter_of_def stored_def)
    qed (use holds_other(2) [OF assms(1,3)] rd in auto)
  qed simp
  then show ?thesis
    using ren RenewCall by simp
next
  case (ReleaseCall f l)
  obtain rd r where rel: "release env f (ds_now x) l (ds_redis x) = (rd, r)"
    by (metis surj_pair)
  have "holds env until c s owner g p rd"
    using release_outcome [OF rel] assms(3)
  proof (elim disjE exE conjE)
    fix v assume v: "live env (ds_now x) (ds_redis x) (sl_community_id l) (sl_session_id l) = Some v"
      and held: "held_by v (runtime_hex env (sl_owner_runtime_id l)) (decimal (unat (sl_generation l)))"
      and rd: "rd = ds_redis x\<lparr>rd_leases := hm_remove (lease_key env (sl_community_id l) (sl_session_id l)) (rd_leases (ds_redis x))\<rparr>"
    have "(sl_community_id l, sl_session_id l) \<noteq> (c, s)"
    proof
      assume eq: "(sl_community_id l, sl_session_id l) = (c, s)"
      then have "v = lease_value env owner g p"
        using v holds_live [OF assms(3,4)] by simp
      then have "held_by (lease_value env owner g p) (runtime_hex env (sl_owner_runtime_id l))
          (decimal (unat (sl_generation l)))"
        using held by simp
      note owned = held_by_lease [OF assms(1,2) this]
      show False
        using owned assms(6) eq ReleaseCall by (simp add: same_session_def fenced_header_def lease_of_def)
    qed
    then show ?thesis
      using holds_other(3) [OF assms(1,3)] rd by auto
  qed simp
  then show ?thesis
    using rel ReleaseCall by simp
qed (use assms(3) in simp)


lemma holds_dos:
  assumes "dir_laws env" and "g < 10 ^ 14" and "holds env until c s owner g p (ds_redis x)"
    and "until \<le> ds_now x + ttl" and "\<forall>call \<in> set calls. spares (lease_of c s owner g p) call"
    and "ds_now (fold (dir_do env ttl) calls x) \<le> until"
  shows "holds env until c s owner g p (ds_redis (fold (dir_do env ttl) calls x))"
  using assms(3-6)
proof (induction calls arbitrary: x)
  case (Cons call calls)
  let ?y = "dir_do env ttl call x"
  have "ds_now x \<le> ds_now ?y" and "ds_now ?y \<le> until"
    using dir_do_now [of x env ttl call] dir_dos_now [of ?y env ttl calls] Cons.prems(4) by simp_all
  then show ?case
    using Cons.IH [of ?y] holds_do [OF assms(1,2) Cons.prems(1)] Cons.prems by simp
qed simp

lemma acquire_exists:
  assumes "dir_laws env" and "0 < ttl" and "ttl < 2 ^ 63" and "0 < g" and "g < 10 ^ 14"
    and "live env now rd c s = Some (lease_value env owner g p)"
  shows "acquire env ttl NoFault now c s owner' p' rd = (rd, Inr (Exists (lease_of c s owner g p)))"
  using assms(2-3,6) parse_lease_value [OF assms(1,4), of c s owner p] assms(5)
  by (simp add: acquire_def acquire_script_cases ttl_ms_def settle_def)

lemma acquire_ttl:
  "acquire env ttl f now c s owner p rd = (rd', Inr (Acquired l)) \<Longrightarrow> 0 < ttl \<and> ttl < 2 ^ 63"
  by (auto simp: acquire_def ttl_ms_def split: fault.splits if_splits)

text \<open>
  C19. A granted lease is honoured for its time. When an \<open>acquire\<close> is answered with \<open>Acquired\<close>, the
  lease names the caller, and for the lease time after it, whatever calls of whatever runtimes
  follow (acquisitions, renewals, releases of other leases, faults), as long as this lease itself
  is not released: its fence is accepted, a lookup returns it, and every other acquisition of the
  session is told of it and changes nothing.
\<close>

theorem lease_is_honoured:
  assumes "dir_laws env" and "dir_start x0" and "(dir_step env ttl)\<^sup>*\<^sup>* x0 x"
    and "acquire env ttl f (ds_now x) c s owner p (ds_redis x) = (rd, Inr (Acquired l))"
    and "z = fold (dir_do env ttl) calls (x\<lparr>ds_redis := rd, ds_granted := ds_granted x @ [l]\<rparr>)"
    and "\<forall>call \<in> set calls. spares l call" and "ds_now z \<le> ds_now x + ttl"
  shows "sl_owner_runtime_id l = owner \<and>
    validate_fenced_header env NoFault (ds_now z) c (fenced_header l) (ds_redis z) = Inr () \<and>
    lookup env NoFault (ds_now z) c s (ds_redis z) = Inr (Some l) \<and>
    acquire env ttl NoFault (ds_now z) c s owner' p' (ds_redis z) = (ds_redis z, Inr (Exists l))"
proof -
  define y where "y = x\<lparr>ds_redis := rd, ds_granted := ds_granted x @ [l]\<rparr>"
  let ?g = "counter_of env (ds_redis x) c s + 1"
  note acq = acquire_Acquired [OF assms(4)]
  have g: "?g < 10 ^ 14" and l: "l = lease_of c s owner ?g p"
    using acq(3) parse_lease_value [OF assms(1), of ?g c s owner p] by (auto split: if_splits)
  have step: "dir_step env ttl x y"
    using dir_step.acquire [OF assms(4)] by (simp add: y_def granted_by_def)
  have "dir_inv env z"
    using dir_reach_inv [OF assms(1,2), of ttl z] assms(3) step dir_do_steps [of env ttl y calls] assms(5)
    unfolding y_def by (meson rtranclp.rtrancl_into_rtrancl rtranclp_trans)
  then have store: "store_inv env (ds_redis z)"
    by (simp add: dir_inv_def)
  have "holds env (ds_now x + ttl) c s owner ?g p (ds_redis y)"
    by (simp add: y_def acq(2) holds_def counter_grant [OF assms(1)] stored_grant [OF assms(1)])
  then have "holds env (ds_now x + ttl) c s owner ?g p (ds_redis z)"
    using holds_dos [OF assms(1) g, of "ds_now x + ttl" c s owner p y ttl calls] assms(5-7) l
    by (simp add: y_def)
  then have live: "live env (ds_now z) (ds_redis z) c s = Some (lease_value env owner ?g p)"
    and cnt: "counter_of env (ds_redis z) c s = ?g"
    using holds_live assms(7) by (auto simp: holds_def)
  have "lookup env NoFault (ds_now z) c s (ds_redis z) = Inr (Some l)"
    using live g l parse_lease_value [OF assms(1), of ?g c s owner p] by (simp add: lookup_def live_def)
  then show ?thesis
    using validate_accepts [OF assms(1) store _ g cnt live] acquire_exists [OF assms(1) _ _ _ g live]
      acquire_ttl [OF assms(4)] by (simp add: l lease_of_def)
qed

text \<open>The store after this acquisition, 20 seconds and an attempt of runtime 4 to take over.\<close>

definition plain_calls :: "dir_call list" where
  "plain_calls = [Tick 20000, AcquireCall NoFault 1 2 4 HuddleControl, RenewCall (ScriptFault True) (lease_of 1 2 4 1 HuddleControl)]"

definition plain_held :: dir_state where
  "plain_held = fold (dir_do plain_dir 30000) plain_calls
     (empty_dir\<lparr>ds_redis := grant plain_dir 30000 0 1 2 3 HuddleControl (ds_redis empty_dir),
        ds_granted := [lease_of 1 2 3 1 HuddleControl]\<rparr>)"

lemma plain_held_now: "ds_now plain_held = 20000"
  by (simp add: plain_held_def plain_calls_def empty_dir_def split: prod.split)

theorem lease_is_honoured_witness:
  "dir_laws plain_dir \<and> dir_start empty_dir \<and>
   acquire plain_dir 30000 NoFault 0 1 2 3 HuddleControl (ds_redis empty_dir) =
     (grant plain_dir 30000 0 1 2 3 HuddleControl (ds_redis empty_dir), Inr (Acquired (lease_of 1 2 3 1 HuddleControl))) \<and>
   ds_now plain_held = 20000 \<and>
   validate_fenced_header plain_dir NoFault 20000 1 (fenced_header (lease_of 1 2 3 1 HuddleControl)) (ds_redis plain_held) = Inr () \<and>
   acquire plain_dir 30000 NoFault 20000 1 2 5 HuddleControl (ds_redis plain_held) =
     (ds_redis plain_held, Inr (Exists (lease_of 1 2 3 1 HuddleControl)))"
proof -
  have now: "ds_now empty_dir = 0" and none: "ds_granted empty_dir = []"
    by (simp_all add: empty_dir_def)
  have "\<forall>call \<in> set plain_calls. spares (lease_of 1 2 3 1 HuddleControl) call"
    by (simp add: plain_calls_def)
  then show ?thesis
    using lease_is_honoured [OF plain_dir_laws empty_dir_start rtranclp.rtrancl_refl, of 30000 NoFault 1 2 3 HuddleControl,
        unfolded now none, OF plain_acquire, of plain_held plain_calls 5 HuddleControl] plain_held_now
      plain_dir_laws empty_dir_start plain_acquire
    by (simp add: plain_held_def)
qed

end
