(* ===== verification/Reliable_Stream_Props.thy ===== *)
theory Reliable_Stream_Props
  imports Reliable_Stream Session_Directory_Props
begin

text \<open>
  Correctness of reliable tunnel streams: the frame codec, the delivery of bytes, and the fence on
  every delivered frame.
\<close>

section \<open>The codec\<close>

definition uuid_laws :: "uuid_codec \<Rightarrow> bool" where
  "uuid_laws uc \<longleftrightarrow>
     (\<forall>u. length (uuid_as_bytes uc u) = 16 \<and> uuid_from_bytes uc (uuid_as_bytes uc u) = u) \<and>
     (\<forall>bs. length bs = 16 \<longrightarrow> uuid_as_bytes uc (uuid_from_bytes uc bs) = bs)"

lemma wire_byte_round_trip:
  "from_wire_byte (to_wire_byte r) = Inr r" "from_wire_byte b = Inr r \<Longrightarrow> to_wire_byte r = b"
  by (cases r; simp add: from_wire_byte_def) (auto simp: from_wire_byte_def split: if_splits)

lemma decode_encode_frame:
  assumes "uuid_laws uc"
  shows "frame_decode uc (frame_encode uc fr) = Inr fr"
proof -
  have "length (uuid_as_bytes uc c) = 16" and "uuid_from_bytes uc (uuid_as_bytes uc c) = c" for c
    using assms by (auto simp: uuid_laws_def)
  then show ?thesis
    by (cases fr) (simp_all add: frame_decode_def FRAME_VERSION_def FRAME_DATA_def FRAME_GOODBYE_def
        wire_byte_round_trip nth_append numeral_eq_Suc)
qed

lemma frame_head:
  assumes "18 \<le> length bs"
  shows "bs = [bs ! 0, bs ! 1] @ take 16 (drop 2 bs) @ drop 18 bs"
proof -
  have "bs = take 2 bs @ take 16 (drop 2 bs) @ drop 16 (drop 2 bs)"
    by (metis append_take_drop_id)
  moreover have "take 2 bs = [bs ! 0, bs ! 1]"
    using assms by (cases bs; cases "tl bs") auto
  ultimately show ?thesis
    by simp
qed

lemma encode_decode_frame:
  assumes "uuid_laws uc" and "frame_decode uc bs = Inr fr"
  shows "frame_encode uc fr = bs"
proof -
  let ?u = "take 16 (drop 2 bs)"
  have len: "18 \<le> length bs" and v: "bs ! 0 = FRAME_VERSION"
    using assms(2) by (auto simp: frame_decode_def split: if_splits)
  have u: "uuid_as_bytes uc (uuid_from_bytes uc ?u) = ?u"
    using assms(1) len by (simp add: uuid_laws_def)
  consider (data) "bs ! 1 = FRAME_DATA" "fr = WireData (uuid_from_bytes uc ?u) (drop 18 bs)"
    | (bye) r where "bs ! 1 = FRAME_GOODBYE" "length bs = 19" "from_wire_byte (bs ! 18) = Inr r"
      "fr = WireGoodbye (uuid_from_bytes uc ?u) r"
    using assms(2) len v by (cases "from_wire_byte (bs ! 18)") (auto simp: frame_decode_def Let_def split: if_splits)
  then show ?thesis
  proof cases
    case data
    then show ?thesis
      using frame_head [OF len] u v by simp
  next
    case (bye r)
    then have "drop 18 bs = [bs ! 18]"
      by (simp add: Cons_nth_drop_Suc [of 18 bs, symmetric])
    then show ?thesis
      using frame_head [OF len] u v bye wire_byte_round_trip(2) by simp
  qed
qed

text \<open>A concrete uuid codec: sixteen base-256 digits, least significant first.\<close>

fun base256 :: "nat \<Rightarrow> nat \<Rightarrow> bytes" where
  "base256 0 n = []"
| "base256 (Suc k) n = word_of_nat (n mod 256) # base256 k (n div 256)"

fun value256 :: "bytes \<Rightarrow> nat" where
  "value256 [] = 0"
| "value256 (b # bs) = unat b + 256 * value256 bs"

definition plain_uuid :: uuid_codec where
  "plain_uuid = \<lparr>uuid_as_bytes = (\<lambda>u. base256 16 (unat u)), uuid_from_bytes = (\<lambda>bs. word_of_nat (value256 bs))\<rparr>"

lemma byte_bound: "unat (b :: u8) < 256"
proof -
  have "unat b < 2 ^ LENGTH(8)"
    by (rule unsigned_less)
  then show ?thesis
    by simp
qed

lemma base256_length [simp]: "length (base256 k n) = k"
  by (induction k arbitrary: n) auto

lemma base256_value: "value256 (base256 k n) = n mod 256 ^ k"
proof (induction k arbitrary: n)
  case (Suc k)
  have "unat (word_of_nat (n mod 256) :: u8) = n mod 256"
    by (simp add: unsigned_of_nat take_bit_nat_eq_self)
  then show ?case
    using Suc by (simp add: mod_mult2_eq)
qed simp

lemma value256_base: "base256 (length bs) (value256 bs) = bs"
  by (induction bs) (use byte_bound in auto)

lemma value256_bound: "value256 bs < 256 ^ length bs"
proof (induction bs)
  case (Cons b bs)
  then show ?case
    using byte_bound [of b] by simp
qed simp

lemma plain_uuid_laws: "uuid_laws plain_uuid"
proof -
  have "unat u mod 256 ^ 16 = unat u" for u :: uuid
  proof -
    have "unat u < 2 ^ LENGTH(128)"
      by (rule unsigned_less)
    then show ?thesis
      by simp
  qed
  moreover have "unat (word_of_nat (value256 bs) :: uuid) = value256 bs" if "length bs = 16" for bs
    using value256_bound [of bs] that by (simp add: unsigned_of_nat take_bit_nat_eq_self)
  ultimately show ?thesis
    using value256_base by (auto simp: uuid_laws_def plain_uuid_def base256_value) (metis)
qed


text \<open>
  C35. The frame codec of reliable streams is a bijection onto what it accepts: every frame decodes
  from its encoding, and every byte string that decodes is the encoding of the frame it decodes
  to, so a frame has one form on the wire. Here the uuid codec keeps sixteen bytes both ways.
\<close>

theorem frame_codec:
  assumes "uuid_laws uc"
  shows "frame_decode uc (frame_encode uc fr) = Inr fr \<and>
    (frame_decode uc bs = Inr fr' \<longrightarrow> frame_encode uc fr' = bs)"
  using decode_encode_frame [OF assms] encode_decode_frame [OF assms] by blast

theorem frame_codec_witness:
  "uuid_laws plain_uuid \<and>
   frame_decode plain_uuid (frame_encode plain_uuid (WireGoodbye 7 GoodbyeDraining)) = Inr (WireGoodbye 7 GoodbyeDraining)"
  using frame_codec [OF plain_uuid_laws] plain_uuid_laws by blast

section \<open>Sending\<close>

lemma concat_chunks: "0 < n \<Longrightarrow> concat (chunks n xs) = xs"
proof (induction n xs rule: chunks.induct)
  case (1 n xs)
  then show ?case
    by (cases "xs = []"; subst chunks.simps) auto
qed

lemma chunks_bounds: "ch \<in> set (chunks n xs) \<Longrightarrow> ch \<noteq> [] \<and> length ch \<le> n"
proof (induction n xs rule: chunks.induct)
  case (1 n xs)
  then show ?case
    by (subst (asm) (2) chunks.simps) (auto split: if_splits)
qed

definition data_frames :: "uuid_codec \<Rightarrow> FencedHeader \<Rightarrow> uuid \<Rightarrow> bytes list \<Rightarrow> MeshStreamFrame list" where
  "data_frames uc fenced c cs = map (\<lambda>ch. Data fenced (frame_encode uc (WireData c ch))) cs"

lemma send_chunks_ok:
  "send_chunks uc (\<lambda>_. None) c cs st =
     (st\<lparr>rs_sent := rs_sent st @ data_frames uc (rs_fenced st) c cs\<rparr>, Inr ())"
  by (induction cs arbitrary: st) (simp_all add: send_frame_def data_frames_def)

lemma send_bytes_ok:
  assumes "pred_option ((=) c) (rs_community_id st)"
  shows "send_bytes uc (\<lambda>_. None) c bs st =
    (st\<lparr>rs_community_id := Some c,
       rs_sent := rs_sent st @ data_frames uc (rs_fenced st) c (chunks MAX_RELIABLE_PAYLOAD_BYTES bs)\<rparr>, Inr ())"
  using assms by (cases "rs_community_id st") (auto simp: send_bytes_def ensure_outbound_community_def send_chunks_ok)

section \<open>Receiving\<close>

text \<open>\<open>admitted\<close>: a frame that passed, with its community, the fence and the check it met.\<close>

definition admitted ::
  "uuid_codec \<Rightarrow> dir_env \<Rightarrow> FencedHeader \<Rightarrow> uuid \<Rightarrow> arrival \<Rightarrow> ReliableFrame \<Rightarrow> bool" where
  "admitted uc env fenced c a fr \<longleftrightarrow>
     (case a of (f, now, rd, incoming) \<Rightarrow>
        validate_fenced_header env f now c fenced rd = Inr () \<and>
        (case fr of
           ReliableData p \<Rightarrow> incoming = Inr (Some (Data fenced (frame_encode uc (WireData c p))))
         | ReliableGoodbye r \<Rightarrow> incoming = Inr (Some (Data fenced (frame_encode uc (WireGoodbye c r))))))"

lemma recv_validated_Some:
  assumes "uuid_laws uc" and "recv_validated uc env f now rd incoming st = (st', Inr (Some fr))"
  obtains c where "st' = st\<lparr>rs_community_id := Some c\<rparr>" and "pred_option ((=) c) (rs_community_id st)"
    and "admitted uc env (rs_fenced st) c (f, now, rd, incoming) fr"
proof -
  obtain payload frame where inc: "incoming = Inr (Some (Data (rs_fenced st) payload))"
    and dec: "frame_decode uc payload = Inr frame"
    and fence: "validate_frame_fence env f now rd (frame_community_id frame) (rs_fenced st) st = (st', Inr ())"
    and fr: "fr = (case frame of WireData _ p \<Rightarrow> ReliableData p | WireGoodbye _ r \<Rightarrow> ReliableGoodbye r)"
    using assms(2) by (auto simp: recv_validated_def validate_frame_fence_def
        split: sum.splits option.splits MeshStreamFrame.splits prod.splits if_splits)
  have "validate_fenced_header env f now (frame_community_id frame) (rs_fenced st) rd = Inr ()"
    and "st' = st\<lparr>rs_community_id := Some (frame_community_id frame)\<rparr>"
    and "pred_option ((=) (frame_community_id frame)) (rs_community_id st)"
    using fence by (auto simp: validate_frame_fence_def split: option.splits if_splits sum.splits)
  then show ?thesis
    using that [of "frame_community_id frame"] inc fr encode_decode_frame [OF assms(1) dec]
    by (cases frame) (auto simp: admitted_def)
qed

lemma some_agrees: "\<exists>c. pred_option ((=) c) x"
  by (cases x) auto

lemma recv_all_admitted:
  assumes "uuid_laws uc" and "recv_all uc env as st = (st', frs, e)"
  shows "\<exists>c. pred_option ((=) c) (rs_community_id st) \<and>
    list_all2 (admitted uc env (rs_fenced st) c) (take (length frs) as) frs"
  using assms(2)
proof (induction as arbitrary: st frs)
  case (Cons a as)
  obtain f now rd incoming where a: "a = (f, now, rd, incoming)"
    by (metis prod_cases4)
  show ?case
  proof (cases frs)
    case Nil
    then show ?thesis
      using some_agrees by simp
  next
    case (Cons fr rest)
    obtain s1 where step: "recv_validated uc env f now rd incoming st = (s1, Inr (Some fr))"
      and rest: "recv_all uc env as s1 = (st', rest, e)"
      using Cons.prems Cons a by (auto split: prod.splits sum.splits option.splits)
    obtain c where c: "s1 = st\<lparr>rs_community_id := Some c\<rparr>" "pred_option ((=) c) (rs_community_id st)"
      "admitted uc env (rs_fenced st) c a fr"
      using recv_validated_Some [OF assms(1) step] a by metis
    then show ?thesis
      using Cons.IH [OF rest] Cons by auto
  qed
qed (use some_agrees in simp)


lemma recv_validated_data:
  assumes "uuid_laws uc" and "pred_option ((=) c) (rs_community_id st)"
    and "validate_fenced_header env f now c (rs_fenced st) rd = Inr ()"
  shows "recv_validated uc env f now rd (Inr (Some (Data (rs_fenced st) (frame_encode uc (WireData c p))))) st =
    (st\<lparr>rs_community_id := Some c\<rparr>, Inr (Some (ReliableData p)))"
  using assms(2,3) decode_encode_frame [OF assms(1), of "WireData c p"]
  by (cases "rs_community_id st") (auto simp: recv_validated_def validate_frame_fence_def)

lemma recv_all_data:
  assumes "uuid_laws uc" and "pred_option ((=) c) (rs_community_id st)"
    and "list_all2 (\<lambda>(f, now, rd, incoming) ch. incoming = Inr (Some (Data (rs_fenced st) (frame_encode uc (WireData c ch)))) \<and>
      validate_fenced_header env f now c (rs_fenced st) rd = Inr ()) as cs"
  shows "snd (recv_all uc env as st) = (map ReliableData cs, None)"
  using assms(2,3)
proof (induction as arbitrary: st cs)
  case (Cons a as)
  obtain f now rd incoming where a: "a = (f, now, rd, incoming)"
    by (metis prod_cases4)
  obtain ch cs' where cs: "cs = ch # cs'"
    using Cons.prems by (auto simp: list_all2_Cons1)
  have "recv_validated uc env f now rd incoming st = (st\<lparr>rs_community_id := Some c\<rparr>, Inr (Some (ReliableData ch)))"
    using Cons.prems recv_validated_data [OF assms(1) Cons.prems(1)] by (auto simp: a cs)
  then show ?case
    using Cons.IH [of "st\<lparr>rs_community_id := Some c\<rparr>" cs'] Cons.prems
    by (cases "recv_all uc env as (st\<lparr>rs_community_id := Some c\<rparr>)") (auto simp: a cs)
qed simp

section \<open>Properties of a tunnel\<close>

text \<open>
  Nothing unfenced is delivered. Whatever frames arrive on a stream and whenever they are
  checked, there is one community such that every delivered frame carried exactly the fence the
  stream is pinned to and this community, and passed the directory's check at that moment; and
  if the check met a store of the directory's history, no newer generation of the session had
  been granted by then: frames of a superseded owner are not delivered.
\<close>

theorem delivered_frames_are_fenced:
  assumes "uuid_laws uc" and "dir_laws env" and "recv_all uc env as st = (st', frs, e)"
  shows "\<exists>c. pred_option ((=) c) (rs_community_id st) \<and>
    list_all2 (admitted uc env (rs_fenced st) c) (take (length frs) as) frs \<and>
    (\<forall>i ttl x0 x f incoming l. i < length frs \<and> dir_start x0 \<and> (dir_step env ttl)\<^sup>*\<^sup>* x0 x \<and>
       as ! i = (f, ds_now x, ds_redis x, incoming) \<and> l \<in> set (ds_granted x) \<and>
       sl_community_id l = c \<and> sl_session_id l = fenced_session_id (rs_fenced st) \<longrightarrow>
       sl_generation l \<le> fenced_generation (rs_fenced st))"
proof -
  obtain c where c: "pred_option ((=) c) (rs_community_id st)"
    and adm: "list_all2 (admitted uc env (rs_fenced st) c) (take (length frs) as) frs"
    using recv_all_admitted [OF assms(1,3)] by blast
  have "sl_generation l \<le> fenced_generation (rs_fenced st)"
    if "i < length frs" and "dir_start x0" and "(dir_step env ttl)\<^sup>*\<^sup>* x0 x" and "as ! i = (f, ds_now x, ds_redis x, incoming)"
      and "l \<in> set (ds_granted x)" and "sl_community_id l = c" and "sl_session_id l = fenced_session_id (rs_fenced st)"
    for i ttl x0 x f incoming l
  proof -
    have "admitted uc env (rs_fenced st) c (as ! i) (frs ! i)"
      using adm that(1) by (metis list_all2_conv_all_nth nth_take)
    then have "validate_fenced_header env f (ds_now x) c (rs_fenced st) (ds_redis x) = Inr ()"
      using that(4) by (simp add: admitted_def)
    then show ?thesis
      using accepted_is_newest [OF assms(2) dir_reach_inv [OF assms(2) that(2,3)] _ that(5-7)] by simp
  qed
  then show ?thesis
    using c adm by blast
qed

text \<open>One frame of three bytes, checked while the lease of its sender is live.\<close>

definition plain_stream :: ReliableMeshStream where
  "plain_stream = stream_new (fenced_header (lease_of 1 2 3 1 HuddleControl)) []"

definition plain_arrivals :: "arrival list" where
  "plain_arrivals =
     [(NoFault, 0, ds_redis plain_first,
       Inr (Some (Data (rs_fenced plain_stream) (frame_encode plain_uuid (WireData 1 [1, 2, 3])))))]"

lemma plain_stream_facts:
  "rs_fenced plain_stream = fenced_header (lease_of 1 2 3 1 HuddleControl)" "rs_sent plain_stream = []"
  "rs_community_id plain_stream = None"
  by (simp_all add: plain_stream_def stream_new_def)

lemma plain_received: "snd (recv_all plain_uuid plain_dir plain_arrivals plain_stream) = ([ReliableData [1, 2, 3]], None)"
  using recv_all_data [OF plain_uuid_laws, of 1 plain_stream plain_dir plain_arrivals "[[1, 2, 3]]"] plain_accepts(1)
  by (simp add: plain_arrivals_def plain_stream_facts)

theorem delivered_frames_are_fenced_witness:
  "uuid_laws plain_uuid \<and> dir_laws plain_dir \<and>
   snd (recv_all plain_uuid plain_dir plain_arrivals plain_stream) = ([ReliableData [1, 2, 3]], None) \<and>
   (\<exists>c. list_all2 (admitted plain_uuid plain_dir (rs_fenced plain_stream) c) plain_arrivals [ReliableData [1, 2, 3]])"
proof -
  have "recv_all plain_uuid plain_dir plain_arrivals plain_stream =
      (fst (recv_all plain_uuid plain_dir plain_arrivals plain_stream), [ReliableData [1, 2, 3]], None)"
    using plain_received by (metis prod.collapse)
  from delivered_frames_are_fenced [OF plain_uuid_laws plain_dir_laws this]
  have "\<exists>c. list_all2 (admitted plain_uuid plain_dir (rs_fenced plain_stream) c)
      (take (length [ReliableData [1, 2, 3]]) plain_arrivals) [ReliableData [1, 2, 3]]"
    by blast
  then show ?thesis
    using plain_received plain_uuid_laws plain_dir_laws by (simp add: plain_arrivals_def)
qed

text \<open>
  C33. A tunnel delivers its bytes. What \<open>send_bytes\<close> puts on a stream of one community, on a
  transport that accepts every frame, is a sequence of data frames of at most 1 MiB each; if they
  arrive in order and the fence holds at every check, the receiver delivers payloads that
  concatenate to exactly the bytes sent, without error, and no frame is sent for no bytes.
\<close>

theorem tunnel_delivers:
  assumes "uuid_laws uc" and "pred_option ((=) c) (rs_community_id out)" and "pred_option ((=) c) (rs_community_id inn)"
    and "rs_fenced inn = rs_fenced out" and "send_bytes uc (\<lambda>_. None) c bs out = (out', r)"
    and "map (\<lambda>(f, now, rd, incoming). incoming) as = map (\<lambda>fr. Inr (Some fr)) (drop (length (rs_sent out)) (rs_sent out'))"
    and "\<forall>(f, now, rd, incoming) \<in> set as. validate_fenced_header env f now c (rs_fenced inn) rd = Inr ()"
  shows "r = Inr () \<and>
    (\<exists>cs. snd (recv_all uc env as inn) = (map ReliableData cs, None) \<and> concat cs = bs \<and>
       (\<forall>ch \<in> set cs. ch \<noteq> [] \<and> length ch \<le> MAX_RELIABLE_PAYLOAD_BYTES))"
proof -
  let ?cs = "chunks MAX_RELIABLE_PAYLOAD_BYTES bs"
  have out': "rs_sent out' = rs_sent out @ data_frames uc (rs_fenced out) c ?cs" and r: "r = Inr ()"
    using assms(5) send_bytes_ok [OF assms(2), of uc bs] by auto
  have inc: "map (\<lambda>(f, now, rd, incoming). incoming) as =
      map (\<lambda>ch. Inr (Some (Data (rs_fenced inn) (frame_encode uc (WireData c ch))))) ?cs"
    using assms(4,6) out' by (simp add: data_frames_def comp_def)
  then have len: "length as = length ?cs"
    by (metis length_map)
  have "list_all2 (\<lambda>(f, now, rd, incoming) ch. incoming = Inr (Some (Data (rs_fenced inn) (frame_encode uc (WireData c ch)))) \<and>
      validate_fenced_header env f now c (rs_fenced inn) rd = Inr ()) as ?cs"
  proof (rule list_all2_all_nthI [OF len])
    fix i assume i: "i < length as"
    obtain f now rd incoming where a: "as ! i = (f, now, rd, incoming)"
      by (metis prod_cases4)
    have "incoming = Inr (Some (Data (rs_fenced inn) (frame_encode uc (WireData c (?cs ! i)))))"
      using arg_cong [OF inc, of "\<lambda>xs. xs ! i"] i len a by simp
    then show "(\<lambda>(f, now, rd, incoming) ch. incoming = Inr (Some (Data (rs_fenced inn) (frame_encode uc (WireData c ch)))) \<and>
        validate_fenced_header env f now c (rs_fenced inn) rd = Inr ()) (as ! i) (?cs ! i)"
      using assms(7) nth_mem [OF i] a by auto
  qed
  then have "snd (recv_all uc env as inn) = (map ReliableData ?cs, None)"
    by (rule recv_all_data [OF assms(1,3)])
  moreover have "concat ?cs = bs"
    by (rule concat_chunks) (simp add: MAX_RELIABLE_PAYLOAD_BYTES_def)
  ultimately show ?thesis
    using r chunks_bounds by blast
qed

lemma chunks_short: "bs \<noteq> [] \<Longrightarrow> length bs \<le> n \<Longrightarrow> chunks n bs = [bs]"
  by (cases bs; subst chunks.simps, subst chunks.simps) auto

lemma plain_sent:
  "send_bytes plain_uuid (\<lambda>_. None) 1 [1, 2, 3] plain_stream =
     (plain_stream\<lparr>rs_community_id := Some 1,
        rs_sent := [Data (rs_fenced plain_stream) (frame_encode plain_uuid (WireData 1 [1, 2, 3]))]\<rparr>, Inr ())"
  by (subst send_bytes_ok)
    (simp_all add: plain_stream_facts data_frames_def chunks_short MAX_RELIABLE_PAYLOAD_BYTES_def)

theorem tunnel_delivers_witness:
  "snd (send_bytes plain_uuid (\<lambda>_. None) 1 [1, 2, 3] plain_stream) = Inr () \<and>
   (\<exists>cs. snd (recv_all plain_uuid plain_dir plain_arrivals plain_stream) = (map ReliableData cs, None) \<and> concat cs = [1, 2, 3])"
proof -
  have "\<forall>(f, now, rd, incoming) \<in> set plain_arrivals.
      validate_fenced_header plain_dir f now 1 (rs_fenced plain_stream) rd = Inr ()"
    using plain_accepts(1) by (simp add: plain_arrivals_def plain_stream_facts)
  from tunnel_delivers [OF plain_uuid_laws _ _ _ plain_sent _ this]
  show ?thesis
    by (force simp: plain_stream_facts plain_arrivals_def plain_sent)
qed

end
