(* ===== verification/Huddle_Lease.thy ===== *)
theory Huddle_Lease
  imports Reliable_Stream
begin

text \<open>
  Who owns a huddle, \<^verbatim>\<open>crates/buzz-relay/src/audio/join.rs\<close>: the bridge from the session directory to
  the huddle join path, the decision of a join, the lease renewer of an owner, and the registry
  that keeps one renewer per room.
  \<^item> A call on the directory meets it at a moment: a fault, the server's clock and the store. The
    calls of one join meet it at different moments, between which others may act.
  \<^item> \<open>show_err\<close> is the text of a directory error.
  \<^item> A cancellation token is a number; \<open>or_cancelled\<close> is the set of the cancelled ones and
    \<open>or_renewers\<close> the renewer tasks that were started, with their cancel and lost tokens.
  \<^item> \<open>attach_signals\<close> is not atomic, so it is a program of four atomic parts (\<open>attach_step\<close>). So is
    \<open>drain_all\<close>: the iteration over a \<open>DashMap\<close> visits a key that was there from start to end, and
    may or may not visit others.
\<close>

section \<open>The bridge\<close>

type_synonym moment = "fault \<times> nat \<times> redis"

record Ownership =
  own_owner_runtime_id :: RuntimeId
  own_generation :: u64

datatype HuddleRenewOutcome = HuddleRenewed SessionLease | HuddleLost

datatype HuddleReleaseOutcome = HuddleReleased | HuddleNotOwner

datatype AcquireOutcome = HuddleAcquired SessionLease | HuddleHeld Ownership

definition HUDDLE_CONTROL_PROFILE :: Profile where "HUDDLE_CONTROL_PROFILE = HuddleControl"

definition ownership_of :: "SessionLease \<Rightarrow> Ownership" where
  "ownership_of l = \<lparr>own_owner_runtime_id = sl_owner_runtime_id l, own_generation = sl_generation l\<rparr>"

definition huddle_owner_of ::
  "dir_env \<Rightarrow> (DirectoryError \<Rightarrow> string) \<Rightarrow> moment \<Rightarrow> uuid \<Rightarrow> uuid \<Rightarrow> MeshError + Ownership option" where
  "huddle_owner_of env show_err m c s =
     (case m of (f, now, rd) \<Rightarrow>
        map_sum (\<lambda>e. Transport (show_err e)) (map_option ownership_of) (lookup env f now c s rd))"

definition huddle_acquire ::
  "dir_env \<Rightarrow> (DirectoryError \<Rightarrow> string) \<Rightarrow> nat \<Rightarrow> moment \<Rightarrow> uuid \<Rightarrow> uuid \<Rightarrow> RuntimeId \<Rightarrow>
     redis \<times> (MeshError + AcquireOutcome)" where
  "huddle_acquire env show_err ttl m c s owner =
     (case m of (f, now, rd) \<Rightarrow>
        map_prod id
          (map_sum (\<lambda>e. Transport (show_err e))
             (\<lambda>r. case r of Acquired l \<Rightarrow> HuddleAcquired l | Exists l \<Rightarrow> HuddleHeld (ownership_of l)))
          (acquire env ttl f now c s owner HUDDLE_CONTROL_PROFILE rd))"

definition huddle_renew ::
  "dir_env \<Rightarrow> (DirectoryError \<Rightarrow> string) \<Rightarrow> nat \<Rightarrow> moment \<Rightarrow> SessionLease \<Rightarrow> redis \<times> (MeshError + HuddleRenewOutcome)" where
  "huddle_renew env show_err ttl m l =
     (case m of (f, now, rd) \<Rightarrow>
        map_prod id
          (map_sum (\<lambda>e. Transport (show_err e))
             (\<lambda>r. case r of Renewed l' \<Rightarrow> HuddleRenewed l' | RenewLost _ _ \<Rightarrow> HuddleLost))
          (renew env ttl f now l rd))"

definition huddle_release ::
  "dir_env \<Rightarrow> (DirectoryError \<Rightarrow> string) \<Rightarrow> moment \<Rightarrow> SessionLease \<Rightarrow> redis \<times> (MeshError + HuddleReleaseOutcome)" where
  "huddle_release env show_err m l =
     (case m of (f, now, rd) \<Rightarrow>
        map_prod id
          (map_sum (\<lambda>e. Transport (show_err e))
             (\<lambda>r. case r of Released _ \<Rightarrow> HuddleReleased | ReleaseNotOwner _ _ \<Rightarrow> HuddleNotOwner))
          (release env f now l rd))"

definition huddle_validate :: "dir_env \<Rightarrow> moment \<Rightarrow> uuid \<Rightarrow> FencedHeader \<Rightarrow> MeshError + unit" where
  "huddle_validate env m c fenced = (case m of (f, now, rd) \<Rightarrow> validate_fenced_header env f now c fenced rd)"

section \<open>The decision of a join\<close>

datatype JoinOutcome = LocalOwner u64 | RemoteOwner RuntimeId u64

fun join_fenced_header :: "JoinOutcome \<Rightarrow> uuid \<Rightarrow> RuntimeId \<Rightarrow> FencedHeader" where
  "join_fenced_header (LocalOwner g) s local_id =
     \<lparr>fenced_session_id = s, fenced_generation = g, fenced_owner = local_id\<rparr>"
| "join_fenced_header (RemoteOwner owner g) s local_id =
     \<lparr>fenced_session_id = s, fenced_generation = g, fenced_owner = owner\<rparr>"

record ResolvedJoin =
  rj_outcome :: JoinOutcome
  rj_acquired :: "SessionLease option"

text \<open>The moments at which the calls of one \<open>resolve_join\<close> meet the directory.\<close>

record join_moments =
  jm_lookup :: moment
  jm_acquire :: moment
  jm_validate :: moment

definition route_to_owner ::
  "dir_env \<Rightarrow> join_moments \<Rightarrow> uuid \<Rightarrow> uuid \<Rightarrow> RuntimeId \<Rightarrow> Ownership \<Rightarrow> MeshError + ResolvedJoin" where
  "route_to_owner env jm c s local_id o' =
     (if own_owner_runtime_id o' = local_id
      then Inr \<lparr>rj_outcome = LocalOwner (own_generation o'), rj_acquired = None\<rparr>
      else
        (case huddle_validate env (jm_validate jm) c
                \<lparr>fenced_session_id = s, fenced_generation = own_generation o',
                 fenced_owner = own_owner_runtime_id o'\<rparr> of
           Inl e \<Rightarrow> Inl e
         | Inr _ \<Rightarrow>
             Inr \<lparr>rj_outcome = RemoteOwner (own_owner_runtime_id o') (own_generation o'), rj_acquired = None\<rparr>))"

text \<open>The store is the one after the acquisition, where one is attempted.\<close>

definition resolve_join ::
  "dir_env \<Rightarrow> (DirectoryError \<Rightarrow> string) \<Rightarrow> nat \<Rightarrow> join_moments \<Rightarrow> uuid \<Rightarrow> uuid \<Rightarrow> RuntimeId \<Rightarrow>
     redis option \<times> (MeshError + ResolvedJoin)" where
  "resolve_join env show_err ttl jm c s local_id =
     (case huddle_owner_of env show_err (jm_lookup jm) c s of
        Inl e \<Rightarrow> (None, Inl e)
      | Inr (Some o') \<Rightarrow> (None, route_to_owner env jm c s local_id o')
      | Inr None \<Rightarrow>
          (case huddle_acquire env show_err ttl (jm_acquire jm) c s local_id of
             (rd, Inl e) \<Rightarrow> (Some rd, Inl e)
           | (rd, Inr (HuddleAcquired l)) \<Rightarrow>
               (Some rd, Inr \<lparr>rj_outcome = LocalOwner (sl_generation l), rj_acquired = Some l\<rparr>)
           | (rd, Inr (HuddleHeld o')) \<Rightarrow> (Some rd, route_to_owner env jm c s local_id o')))"

definition OWNER_READY_MAX_ATTEMPTS :: nat where "OWNER_READY_MAX_ATTEMPTS = 25"

text \<open>
  Attempt \<open>i\<close> meets the directory at the moments \<open>jms i\<close>, and the registry has a live entry for the
  session at its check exactly if \<open>entry i\<close>.
\<close>

fun owner_ready_loop ::
  "dir_env \<Rightarrow> (DirectoryError \<Rightarrow> string) \<Rightarrow> nat \<Rightarrow> (nat \<Rightarrow> join_moments) \<Rightarrow> (nat \<Rightarrow> bool) \<Rightarrow> uuid \<Rightarrow> uuid \<Rightarrow> RuntimeId \<Rightarrow>
     nat \<Rightarrow> nat \<Rightarrow> MeshError + ResolvedJoin" where
  "owner_ready_loop env show_err ttl jms entry c s local_id i 0 =
     Inl (Transport ''huddle owner not ready'')"
| "owner_ready_loop env show_err ttl jms entry c s local_id i (Suc n) =
     (case snd (resolve_join env show_err ttl (jms i) c s local_id) of
        Inl e \<Rightarrow> Inl e
      | Inr r \<Rightarrow>
          (case (rj_outcome r, rj_acquired r) of
             (LocalOwner _, None) \<Rightarrow>
               if entry i then Inr r
               else owner_ready_loop env show_err ttl jms entry c s local_id (Suc i) n
           | _ \<Rightarrow> Inr r))"

definition resolve_join_owner_ready ::
  "dir_env \<Rightarrow> (DirectoryError \<Rightarrow> string) \<Rightarrow> nat \<Rightarrow> (nat \<Rightarrow> join_moments) \<Rightarrow> (nat \<Rightarrow> bool) \<Rightarrow> uuid \<Rightarrow> uuid \<Rightarrow> RuntimeId \<Rightarrow>
     MeshError + ResolvedJoin" where
  "resolve_join_owner_ready env show_err ttl jms entry c s local_id =
     owner_ready_loop env show_err ttl jms entry c s local_id 0 OWNER_READY_MAX_ATTEMPTS"

section \<open>The renewer of a huddle lease\<close>

fun huddle_renewer_loop ::
  "dir_env \<Rightarrow> (DirectoryError \<Rightarrow> string) \<Rightarrow> nat \<Rightarrow> SessionLease \<Rightarrow> renewer_event list \<Rightarrow> redis \<Rightarrow>
     redis \<times> (bool \<times> bool) option" where
  "huddle_renewer_loop env show_err ttl l [] rd = (rd, None)"
| "huddle_renewer_loop env show_err ttl l (CallerCancel # _) rd = (rd, Some (True, False))"
| "huddle_renewer_loop env show_err ttl l (RenewTick f now # evs) rd =
     (case huddle_renew env show_err ttl (f, now, rd) l of
        (rd', Inr (HuddleRenewed _)) \<Rightarrow> huddle_renewer_loop env show_err ttl l evs rd'
      | (rd', Inr HuddleLost) \<Rightarrow> (rd', Some (False, True))
      | (rd', Inl _) \<Rightarrow> (rd', Some (False, True)))"

definition huddle_renewer ::
  "dir_env \<Rightarrow> (DirectoryError \<Rightarrow> string) \<Rightarrow> nat \<Rightarrow> SessionLease \<Rightarrow> renewer_event list \<Rightarrow> fault \<Rightarrow> nat \<Rightarrow> redis \<Rightarrow>
     redis \<times> bool option" where
  "huddle_renewer env show_err ttl l evs f now rd =
     (case huddle_renewer_loop env show_err ttl l evs rd of
        (rd', None) \<Rightarrow> (rd', None)
      | (rd', Some (caller_cancelled, lost)) \<Rightarrow>
          (case huddle_release env show_err (f, now, rd') l of
             (rd'', Inr HuddleReleased) \<Rightarrow> (rd'', Some lost)
           | (rd'', Inr HuddleNotOwner) \<Rightarrow> (rd'', Some True)
           | (rd'', Inl _) \<Rightarrow> (rd'', Some (lost \<or> \<not> caller_cancelled))))"

section \<open>The owner registry\<close>

type_synonym token = nat

record HuddleOwnerEntry =
  oe_lost :: token
  oe_draining :: token
  oe_cancel :: token
  oe_generation :: u64

record renewer_task =
  rt_lease :: SessionLease
  rt_cancel :: token
  rt_lost :: token

record HuddleOwnerRegistry =
  or_entries :: "(uuid, HuddleOwnerEntry) hmap"
  or_draining :: bool
  or_cancelled :: "token set"
  or_fresh :: token
  or_renewers :: "renewer_task list"

record HuddleOwnerSignals =
  sig_lost :: token
  sig_draining :: token

definition new_registry :: HuddleOwnerRegistry where
  "new_registry = \<lparr>or_entries = [], or_draining = False, or_cancelled = {}, or_fresh = 0, or_renewers = []\<rparr>"

definition lost_for :: "uuid \<Rightarrow> HuddleOwnerRegistry \<Rightarrow> token option" where
  "lost_for s r = map_option oe_lost (hm_get (or_entries r) s)"

definition drain_for :: "uuid \<Rightarrow> HuddleOwnerRegistry \<Rightarrow> token option" where
  "drain_for s r = map_option oe_draining (hm_get (or_entries r) s)"

definition new_token :: "HuddleOwnerRegistry \<Rightarrow> token \<times> HuddleOwnerRegistry" where
  "new_token r = (or_fresh r, r\<lparr>or_fresh := Suc (or_fresh r)\<rparr>)"

definition cancel_token :: "token \<Rightarrow> HuddleOwnerRegistry \<Rightarrow> HuddleOwnerRegistry" where
  "cancel_token k r = r\<lparr>or_cancelled := insert k (or_cancelled r)\<rparr>"

definition spawn_renewer :: "SessionLease \<Rightarrow> token \<Rightarrow> HuddleOwnerRegistry \<Rightarrow> token \<times> HuddleOwnerRegistry" where
  "spawn_renewer l cancel r =
     (case new_token r of
        (lost, r') \<Rightarrow>
          (lost, r'\<lparr>or_renewers := or_renewers r' @ [\<lparr>rt_lease = l, rt_cancel = cancel, rt_lost = lost\<rparr>]\<rparr>))"

text \<open>A renewer whose caller has cancelled from the start: it only releases the lease.\<close>

definition spawn_throwaway :: "SessionLease \<Rightarrow> HuddleOwnerRegistry \<Rightarrow> HuddleOwnerRegistry" where
  "spawn_throwaway l r = (case new_token r of (cancel, r') \<Rightarrow> snd (spawn_renewer l cancel (cancel_token cancel r')))"

text \<open>Where an \<open>attach_signals\<close> is: before its four atomic parts, or done with its signals.\<close>

datatype attach_at =
  AtCheck
| AtLookup
| AtPublish
| AtRecheck token token token
| AtDone HuddleOwnerSignals

definition remove_epoch :: "uuid \<Rightarrow> u64 \<Rightarrow> bool \<Rightarrow> HuddleOwnerRegistry \<Rightarrow> HuddleOwnerRegistry \<times> bool" where
  "remove_epoch s g with_drain r =
     (case hm_get (or_entries r) s of
        Some e \<Rightarrow>
          if oe_generation e = g
          then ((cancel_token (oe_cancel e) (if with_drain then cancel_token (oe_draining e) r else r))
                  \<lparr>or_entries := hm_remove s (or_entries r)\<rparr>, True)
          else (r, False)
      | None \<Rightarrow> (r, False))"

fun attach_step ::
  "uuid \<Rightarrow> SessionLease \<Rightarrow> attach_at \<Rightarrow> HuddleOwnerRegistry \<Rightarrow> attach_at \<times> HuddleOwnerRegistry" where
  "attach_step s l AtCheck r =
     (if or_draining r
      then
        (case new_token (spawn_throwaway l r) of
           (draining, r1) \<Rightarrow>
             (case new_token (cancel_token draining r1) of
                (lost, r2) \<Rightarrow> (AtDone \<lparr>sig_lost = lost, sig_draining = draining\<rparr>, r2)))
      else (AtLookup, r))"
| "attach_step s l AtLookup r =
     (case hm_get (or_entries r) s of
        Some e \<Rightarrow>
          (AtDone \<lparr>sig_lost = oe_lost e, sig_draining = oe_draining e\<rparr>, spawn_throwaway l r)
      | None \<Rightarrow> (AtPublish, r))"
| "attach_step s l AtPublish r =
     (case new_token r of
        (cancel, r1) \<Rightarrow>
          (case spawn_renewer l cancel r1 of
             (lost, r2) \<Rightarrow>
               (case new_token r2 of
                  (draining, r3) \<Rightarrow>
                    (AtRecheck lost draining cancel,
                     r3\<lparr>or_entries :=
                         hm_insert s
                           \<lparr>oe_lost = lost, oe_draining = draining, oe_cancel = cancel,
                            oe_generation = sl_generation l\<rparr>
                           (or_entries r3)\<rparr>))))"
| "attach_step s l (AtRecheck lost draining cancel) r =
     (AtDone \<lparr>sig_lost = lost, sig_draining = draining\<rparr>,
      if or_draining r
      then cancel_token cancel (cancel_token draining (fst (remove_epoch s (sl_generation l) True r)))
      else r)"
| "attach_step s l (AtDone sig) r = (AtDone sig, r)"

definition attach_signals :: "uuid \<Rightarrow> SessionLease \<Rightarrow> HuddleOwnerRegistry \<Rightarrow> attach_at \<times> HuddleOwnerRegistry" where
  "attach_signals s l r =
     (let go = (\<lambda>(at, r). attach_step s l at r) in go (go (go (go (AtCheck, r)))))"

definition release_owner :: "uuid \<Rightarrow> u64 \<Rightarrow> HuddleOwnerRegistry \<Rightarrow> HuddleOwnerRegistry" where
  "release_owner s g r = fst (remove_epoch s g False r)"

definition drain_owner :: "uuid \<Rightarrow> u64 \<Rightarrow> HuddleOwnerRegistry \<Rightarrow> HuddleOwnerRegistry \<times> bool" where
  "drain_owner s g r = remove_epoch s g True r"

text \<open>
  Where \<open>drain_all\<close> is: collecting (the keys it still has to visit, the rooms collected so far),
  draining the collected rooms, or done with the number of drained rooms.
\<close>

datatype drain_at =
  Collecting "uuid list" "(uuid \<times> u64) list"
| DrainingRooms "(uuid \<times> u64) list" nat
| Drained nat

definition drain_begin :: "HuddleOwnerRegistry \<Rightarrow> drain_at \<times> HuddleOwnerRegistry" where
  "drain_begin r = (Collecting (hm_keys (or_entries r)) [], r\<lparr>or_draining := True\<rparr>)"

definition drain_visit :: "uuid \<Rightarrow> uuid list \<Rightarrow> (uuid \<times> u64) list \<Rightarrow> HuddleOwnerRegistry \<Rightarrow> drain_at" where
  "drain_visit s todo rooms r =
     Collecting (removeAll s todo)
       (case hm_get (or_entries r) s of Some e \<Rightarrow> rooms @ [(s, oe_generation e)] | None \<Rightarrow> rooms)"

fun drain_step :: "drain_at \<Rightarrow> HuddleOwnerRegistry \<Rightarrow> drain_at \<times> HuddleOwnerRegistry" where
  "drain_step (Collecting [] rooms) r = (DrainingRooms rooms 0, r)"
| "drain_step (Collecting (s # todo) rooms) r = (drain_visit s (s # todo) rooms r, r)"
| "drain_step (DrainingRooms [] n) r = (Drained n, r)"
| "drain_step (DrainingRooms ((s, g) # rooms) n) r =
     (case drain_owner s g r of (r', ok) \<Rightarrow> (DrainingRooms rooms (if ok then Suc n else n), r'))"
| "drain_step (Drained n) r = (Drained n, r)"

end
