(* ===== verification/Huddle_Lease_Props.thy ===== *)
theory Huddle_Lease_Props
  imports Huddle_Lease Session_Directory_Props
begin

text \<open>
  Ownership of huddles. The renewer of a huddle lease is the one of the tunnel; a join is told
  the truth about the owner at a moment of its own; and over every interleaving of attachments,
  releases and a shutdown, a renewer runs for a room only while the registry has its entry, and
  a shutdown leaves none running.
\<close>

section \<open>Renewers\<close>

lemma renewer_loops_agree:
  "huddle_renewer_loop env show_err ttl l evs rd = renewer_loop env ttl l evs rd"
  by (induction env ttl l evs rd rule: renewer_loop.induct)
    (auto simp: huddle_renew_def split: sum.splits prod.splits RenewResult.splits)

lemma renewers_agree:
  "huddle_renewer env show_err ttl l evs f now rd = lease_renewer env ttl l evs f now rd"
  by (auto simp: huddle_renewer_def lease_renewer_def renewer_loops_agree huddle_release_def
      split: sum.splits prod.splits option.splits ReleaseResult.splits)

section \<open>The registry under interleaving\<close>

fun is_done :: "attach_at \<Rightarrow> bool" where
  "is_done (AtDone _) = True"
| "is_done _ = False"

text \<open>A call of \<open>attach_signals\<close> under way: its session, its lease and where it is.\<close>

type_synonym attaching = "uuid \<times> SessionLease \<times> attach_at"

record owner_system =
  os_registry :: HuddleOwnerRegistry
  os_attaching :: "attaching list"
  os_drain :: "drain_at option"

inductive owner_step :: "owner_system \<Rightarrow> owner_system \<Rightarrow> bool" where
  begin_attach: "\<forall>(s', l', at) \<in> set (os_attaching x). s' = s \<longrightarrow> is_done at \<Longrightarrow>
    owner_step x (x\<lparr>os_attaching := os_attaching x @ [(s, l, AtCheck)]\<rparr>)"
| attach: "i < length (os_attaching x) \<Longrightarrow> os_attaching x ! i = (s, l, at) \<Longrightarrow>
    attach_step s l at (os_registry x) = (at', r) \<Longrightarrow>
    owner_step x (x\<lparr>os_registry := r, os_attaching := (os_attaching x)[i := (s, l, at')]\<rparr>)"
| remove: "remove_epoch s g d (os_registry x) = (r, ok) \<Longrightarrow> owner_step x (x\<lparr>os_registry := r\<rparr>)"
| lose: "owner_step x (x\<lparr>os_registry := cancel_token k (os_registry x)\<rparr>)"
| drain_begins: "os_drain x = None \<Longrightarrow> drain_begin (os_registry x) = (d, r) \<Longrightarrow>
    owner_step x (x\<lparr>os_registry := r, os_drain := Some d\<rparr>)"
| drain_extra: "os_drain x = Some (Collecting todo rooms) \<Longrightarrow>
    owner_step x (x\<lparr>os_drain := Some (drain_visit s todo rooms (os_registry x))\<rparr>)"
| drain_goes: "os_drain x = Some d \<Longrightarrow> drain_step d (os_registry x) = (d', r) \<Longrightarrow>
    owner_step x (x\<lparr>os_registry := r, os_drain := Some d'\<rparr>)"

definition owner_start :: "owner_system \<Rightarrow> bool" where
  "owner_start x \<longleftrightarrow> x = \<lparr>os_registry = new_registry, os_attaching = [], os_drain = None\<rparr>"

subsection \<open>The invariant\<close>

definition entry_at :: "HuddleOwnerRegistry \<Rightarrow> uuid \<Rightarrow> HuddleOwnerEntry option" where
  "entry_at r s = hm_get (or_entries r) s"

text \<open>Every started renewer is cancelled or the one of a live entry; cancel tokens are unique.\<close>

definition renewers_inv :: "HuddleOwnerRegistry \<Rightarrow> bool" where
  "renewers_inv r \<longleftrightarrow>
     (\<forall>t \<in> set (or_renewers r). rt_cancel t \<in> or_cancelled r \<or> (\<exists>s e. entry_at r s = Some e \<and> oe_cancel e = rt_cancel t)) \<and>
     distinct (map rt_cancel (or_renewers r)) \<and> (\<forall>t \<in> set (or_renewers r). rt_cancel t < or_fresh r)"

text \<open>What a call under way knows of the entry of its session.\<close>

fun attach_knows :: "HuddleOwnerRegistry \<Rightarrow> uuid \<Rightarrow> SessionLease \<Rightarrow> attach_at \<Rightarrow> bool" where
  "attach_knows r s l AtPublish \<longleftrightarrow> entry_at r s = None"
| "attach_knows r s l (AtRecheck lost draining cancel) \<longleftrightarrow>
     pred_option ((=) \<lparr>oe_lost = lost, oe_draining = draining, oe_cancel = cancel, oe_generation = sl_generation l\<rparr>)
       (entry_at r s)"
| "attach_knows r s l _ \<longleftrightarrow> True"

definition attaching_inv :: "HuddleOwnerRegistry \<Rightarrow> attaching list \<Rightarrow> bool" where
  "attaching_inv r as \<longleftrightarrow>
     (\<forall>i < length as. case as ! i of (s, l, at) \<Rightarrow> attach_knows r s l at) \<and>
     (\<forall>i < length as. \<forall>j < length as. i \<noteq> j \<and> \<not> is_done (snd (snd (as ! i))) \<and> \<not> is_done (snd (snd (as ! j))) \<longrightarrow>
        fst (as ! i) \<noteq> fst (as ! j))"

text \<open>The entries a shutdown will still remove.\<close>

fun covered :: "drain_at \<Rightarrow> uuid \<Rightarrow> u64 \<Rightarrow> bool" where
  "covered (Collecting todo rooms) s g \<longleftrightarrow> s \<in> set todo \<or> (s, g) \<in> set rooms"
| "covered (DrainingRooms rooms n) s g \<longleftrightarrow> (s, g) \<in> set rooms"
| "covered (Drained n) s g \<longleftrightarrow> False"

definition rechecks :: "attaching list \<Rightarrow> uuid \<Rightarrow> bool" where
  "rechecks as s \<longleftrightarrow> (\<exists>l lost draining cancel. (s, l, AtRecheck lost draining cancel) \<in> set as)"

definition drain_inv :: "owner_system \<Rightarrow> bool" where
  "drain_inv x \<longleftrightarrow>
     (or_draining (os_registry x) \<longleftrightarrow> os_drain x \<noteq> None) \<and>
     (\<forall>d s e. os_drain x = Some d \<and> entry_at (os_registry x) s = Some e \<longrightarrow>
        rechecks (os_attaching x) s \<or> covered d s (oe_generation e))"

definition owner_inv :: "owner_system \<Rightarrow> bool" where
  "owner_inv x \<longleftrightarrow> renewers_inv (os_registry x) \<and> attaching_inv (os_registry x) (os_attaching x) \<and> drain_inv x"

subsection \<open>Registry operations\<close>

lemma token_simps [simp]:
  "entry_at (cancel_token k r) = entry_at r" "or_draining (cancel_token k r) = or_draining r"
  "or_renewers (cancel_token k r) = or_renewers r" "or_fresh (cancel_token k r) = or_fresh r"
  "or_cancelled (cancel_token k r) = insert k (or_cancelled r)" "or_entries (cancel_token k r) = or_entries r"
  "new_token r = (or_fresh r, r\<lparr>or_fresh := Suc (or_fresh r)\<rparr>)"
  by (simp_all add: cancel_token_def new_token_def entry_at_def fun_eq_iff)

lemma remove_epoch_entry:
  assumes "remove_epoch s g d r = (r', ok)"
  shows "or_draining r' = or_draining r" and "or_renewers r' = or_renewers r" and "or_fresh r' = or_fresh r"
    and "entry_at r' s' = (if s' = s \<and> map_option oe_generation (entry_at r s) = Some g then None else entry_at r s')"
    and "or_cancelled r \<subseteq> or_cancelled r'"
    and "entry_at r s = Some e \<Longrightarrow> oe_generation e = g \<Longrightarrow> oe_cancel e \<in> or_cancelled r'"
  using assms by (auto simp: remove_epoch_def entry_at_def split: option.splits if_splits)

lemma renewers_remove:
  assumes "renewers_inv r" and "remove_epoch s g d r = (r', ok)"
  shows "renewers_inv r'"
proof -
  note rm = remove_epoch_entry [OF assms(2)]
  have "rt_cancel t \<in> or_cancelled r' \<or> (\<exists>s e. entry_at r' s = Some e \<and> oe_cancel e = rt_cancel t)"
    if mem: "t \<in> set (or_renewers r)" for t
  proof -
    consider "rt_cancel t \<in> or_cancelled r" | s' e where "entry_at r s' = Some e" "oe_cancel e = rt_cancel t"
      using assms(1) mem by (auto simp: renewers_inv_def)
    then show ?thesis
    proof cases
      case 1
      then show ?thesis
        using rm(5) by blast
    next
      case 2
      show ?thesis
      proof (cases "s' = s \<and> oe_generation e = g")
        case True
        then show ?thesis
          using 2 rm(6) [of e] by auto
      next
        case False
        then have "entry_at r' s' = Some e"
          using 2 rm(4) [of s'] by auto
        then show ?thesis
          using 2 by blast
      qed
    qed
  qed
  then show ?thesis
    using assms(1) rm(2,3) by (simp add: renewers_inv_def)
qed

lemma spawn_throwaway_simps [simp]:
  "entry_at (r\<lparr>or_fresh := n\<rparr>) = entry_at r" "entry_at (spawn_throwaway l r) = entry_at r" "or_draining (spawn_throwaway l r) = or_draining r"
  by (simp_all add: spawn_throwaway_def spawn_renewer_def entry_at_def fun_eq_iff)

lemma renewers_throwaway: "renewers_inv r \<Longrightarrow> renewers_inv (spawn_throwaway l r)"
  by (fastforce simp: renewers_inv_def spawn_throwaway_def spawn_renewer_def entry_at_def)

lemma renewers_cancel: "renewers_inv r \<Longrightarrow> renewers_inv (cancel_token k r)"
  by (auto simp: renewers_inv_def)

lemma renewers_more_fresh:
  "renewers_inv r \<Longrightarrow> or_fresh r \<le> n \<Longrightarrow> renewers_inv ((cancel_token k (r\<lparr>or_fresh := m\<rparr>))\<lparr>or_fresh := n\<rparr>)"
  by (fastforce simp: renewers_inv_def entry_at_def cancel_token_def)

lemma renewers_attach:
  assumes "renewers_inv r" and "attach_knows r s l at" and "attach_step s l at r = (at', r')"
  shows "renewers_inv r'"
proof (cases at)
  case AtCheck
  then show ?thesis
    using assms(1,3) by (auto intro!: renewers_throwaway renewers_more_fresh split: if_splits)
next
  case AtLookup
  then show ?thesis
    using assms(1,3) by (auto intro: renewers_throwaway split: option.splits)
next
  case AtPublish
  then have r': "or_renewers r' = or_renewers r @ [\<lparr>rt_lease = l, rt_cancel = or_fresh r, rt_lost = Suc (or_fresh r)\<rparr>]"
    "or_cancelled r' = or_cancelled r" "or_fresh r' = Suc (Suc (Suc (or_fresh r)))"
    "\<exists>e. entry_at r' s = Some e \<and> oe_cancel e = or_fresh r" "\<forall>s'. s' \<noteq> s \<longrightarrow> entry_at r' s' = entry_at r s'"
    using assms(3) by (auto simp: spawn_renewer_def entry_at_def)
  have "entry_at r s = None"
    using assms(2) AtPublish by simp
  then have "\<exists>s' e. entry_at r' s' = Some e \<and> oe_cancel e = k" if "\<exists>s' e. entry_at r s' = Some e \<and> oe_cancel e = k" for k
    using that r'(5) by (metis option.distinct(1))
  then show ?thesis
    using assms(1) r'(1-4) by (fastforce simp: renewers_inv_def)
next
  case (AtRecheck lost draining cancel)
  then show ?thesis
    using assms(1,3) renewers_remove [OF assms(1)] by (auto intro!: renewers_cancel split: if_splits) (metis prod.collapse)
qed (use assms in auto)

subsection \<open>Preservation\<close>

lemma knows_shrink:
  assumes "attach_knows r s l at" and "entry_at r' s = entry_at r s \<or> entry_at r' s = None"
  shows "attach_knows r' s l at"
  using assms by (cases at) auto

lemma attaching_shrink:
  assumes "attaching_inv r as" and "\<And>s. entry_at r' s = entry_at r s \<or> entry_at r' s = None"
  shows "attaching_inv r' as"
proof -
  have "attach_knows r' s l at" if "attach_knows r s l at" for s l at
    using that assms(2) by (rule knows_shrink)
  then show ?thesis
    using assms(1) unfolding attaching_inv_def by (metis (mono_tags, lifting) case_prod_beta)
qed

lemma attach_step_effect:
  assumes "attach_knows r s l at" and "attach_step s l at r = (at', r')"
  shows "or_draining r' = or_draining r \<and> (\<forall>s'. s' \<noteq> s \<longrightarrow> entry_at r' s' = entry_at r s') \<and> attach_knows r' s l at' \<and>
    (is_done at \<longrightarrow> is_done at') \<and>
    (at = AtPublish \<and> (\<exists>lost draining cancel. at' = AtRecheck lost draining cancel) \<or>
     (\<exists>lost draining cancel. at = AtRecheck lost draining cancel) \<and> (or_draining r \<longrightarrow> entry_at r' s = None) \<or>
     (\<forall>lost draining cancel. at \<noteq> AtRecheck lost draining cancel) \<and> entry_at r' s = entry_at r s)"
proof (cases at)
  case AtCheck
  then show ?thesis
    using assms(2) by (auto split: if_splits)
next
  case AtLookup
  then show ?thesis
    using assms(2) by (auto simp: entry_at_def [symmetric] split: option.splits)
next
  case AtPublish
  then show ?thesis
    using assms(2) by (auto simp: spawn_renewer_def entry_at_def)
next
  case (AtRecheck lost draining cancel)
  obtain r1 ok where rm: "remove_epoch s (sl_generation l) True r = (r1, ok)"
    by (metis surj_pair)
  have "entry_at r1 s = None"
    using assms(1) remove_epoch_entry(4) [OF rm, of s] by (cases "entry_at r s") (auto simp: AtRecheck)
  then show ?thesis
    using assms(2) AtRecheck rm remove_epoch_entry(1,4) [OF rm] by auto
next
  case (AtDone sig)
  then have "at' = AtDone sig" and "r' = r"
    using assms(2) by simp_all
  then show ?thesis
    using AtDone by simp
qed

lemma attaching_step:
  assumes "attaching_inv r as" and "i < length as" and "as ! i = (s, l, at)" and "attach_step s l at r = (at', r')"
  shows "attaching_inv r' (as[i := (s, l, at')])"
proof -
  have knows: "attach_knows r s l at"
    using assms(1-3) by (force simp: attaching_inv_def)
  have eff: "\<And>s'. s' \<noteq> s \<Longrightarrow> entry_at r' s' = entry_at r s'" "attach_knows r' s l at'" "is_done at \<Longrightarrow> is_done at'"
    using attach_step_effect [OF knows assms(4)] by simp_all
  have "case as[i := (s, l, at')] ! j of (s', l', at'') \<Rightarrow> attach_knows r' s' l' at''" if "j < length as" for j
  proof (cases "j = i")
    case True
    then show ?thesis
      using that eff(2) by simp
  next
    case False
    obtain s' l' at'' where j: "as ! j = (s', l', at'')"
      by (metis prod_cases3)
    have other: "attach_knows r s' l' at''"
      using assms(1) that j by (force simp: attaching_inv_def)
    have "attach_knows r' s' l' at''"
    proof (cases "s' = s \<and> \<not> is_done at''")
      case True
      then have "is_done at"
        using assms(1-3) that j False by (force simp: attaching_inv_def)
      then have "r' = r"
        using assms(4) by (cases at) auto
      then show ?thesis
        using other by simp
    next
      case False
      then show ?thesis
        using other eff(1) [of s'] knows_shrink [OF other, of r'] by (cases at'') auto
    qed
    then show ?thesis
      using that j False by simp
  qed
  moreover have "fst (as[i := (s, l, at')] ! j) = fst (as ! j)" if "j < length as" for j
    using that assms(2,3) by (auto simp: nth_list_update)
  moreover have "is_done (snd (snd (as ! j))) \<Longrightarrow> is_done (snd (snd (as[i := (s, l, at')] ! j)))" if "j < length as" for j
    using that assms(2,3) eff(3) by (auto simp: nth_list_update)
  ultimately show ?thesis
    using assms(1) unfolding attaching_inv_def by (metis length_list_update)
qed

lemma rechecks_update:
  assumes "rechecks as s'" and "as ! i = (s, l, at)"
    and "s' \<noteq> s \<or> (\<forall>lost draining cancel. at \<noteq> AtRecheck lost draining cancel)"
  shows "rechecks (as[i := (s, l, at')]) s'"
proof -
  obtain l' lost draining cancel j where j: "j < length as" "as ! j = (s', l', AtRecheck lost draining cancel)"
    using assms(1) by (auto simp: rechecks_def in_set_conv_nth)
  then have "j \<noteq> i"
    using assms(2,3) by auto
  then have "as[i := (s, l, at')] ! j = (s', l', AtRecheck lost draining cancel)"
    using j by simp
  then show ?thesis
    using j(1) unfolding rechecks_def by (metis length_list_update nth_mem)
qed

lemma drain_inv_attach:
  assumes "owner_inv x" and "i < length (os_attaching x)" and "os_attaching x ! i = (s, l, at)"
    and "attach_step s l at (os_registry x) = (at', r)"
  shows "drain_inv (x\<lparr>os_registry := r, os_attaching := (os_attaching x)[i := (s, l, at')]\<rparr>)"
proof -
  let ?as = "(os_attaching x)[i := (s, l, at')]"
  have "attach_knows (os_registry x) s l at"
    using assms(1-3) by (force simp: owner_inv_def attaching_inv_def)
  note facts = attach_step_effect [OF this assms(4)]
  have inv: "or_draining (os_registry x) \<longleftrightarrow> os_drain x \<noteq> None"
    "\<And>d s e. os_drain x = Some d \<Longrightarrow> entry_at (os_registry x) s = Some e \<Longrightarrow>
      rechecks (os_attaching x) s \<or> covered d s (oe_generation e)"
    using assms(1) by (auto simp: owner_inv_def drain_inv_def)
  have "rechecks ?as s' \<or> covered d s' (oe_generation e)" if d: "os_drain x = Some d" and e: "entry_at r s' = Some e" for d s' e
  proof (cases "s' = s")
    case False
    then show ?thesis
      using e facts inv(2) [OF d, of s' e] rechecks_update [OF _ assms(3)] by auto
  next
    case True
    have "at = AtPublish \<and> (\<exists>lost draining cancel. at' = AtRecheck lost draining cancel) \<or>
        (\<forall>lost draining cancel. at \<noteq> AtRecheck lost draining cancel) \<and> entry_at (os_registry x) s = Some e"
      using facts d e True inv(1) by auto
    then show ?thesis
    proof (elim disjE conjE exE)
      fix lost draining cancel assume "at' = AtRecheck lost draining cancel"
      then have "rechecks ?as s"
        using set_update_memI [OF assms(2), of "(s, l, at')"] by (auto simp: rechecks_def)
      then show ?thesis
        using True by simp
    next
      assume "\<forall>lost draining cancel. at \<noteq> AtRecheck lost draining cancel" and "entry_at (os_registry x) s = Some e"
      then show ?thesis
        using inv(2) [OF d, of s e] rechecks_update [OF _ assms(3)] True by auto
    qed
  qed
  then show ?thesis
    using inv(1) facts by (simp add: drain_inv_def)
qed

lemma owner_invD:
  assumes "owner_inv x"
  shows "renewers_inv (os_registry x)" and "attaching_inv (os_registry x) (os_attaching x)" and "drain_inv x"
  using assms by (simp_all add: owner_inv_def)

lemma owner_inv_attach:
  assumes "owner_inv x" and "i < length (os_attaching x)" and "os_attaching x ! i = (s, l, at)"
    and "attach_step s l at (os_registry x) = (at', r)"
  shows "owner_inv (x\<lparr>os_registry := r, os_attaching := (os_attaching x)[i := (s, l, at')]\<rparr>)"
proof -
  note inv = owner_invD [OF assms(1)]
  have "attach_knows (os_registry x) s l at"
    using inv(2) assms(2,3) by (force simp: attaching_inv_def)
  then show ?thesis
    using renewers_attach [OF inv(1) _ assms(4)] attaching_step [OF inv(2) assms(2-4)] drain_inv_attach [OF assms]
    by (simp add: owner_inv_def)
qed

lemma owner_inv_begin:
  assumes "owner_inv x" and "\<forall>(s', l', at) \<in> set (os_attaching x). s' = s \<longrightarrow> is_done at"
  shows "owner_inv (x\<lparr>os_attaching := os_attaching x @ [(s, l, AtCheck)]\<rparr>)"
proof -
  have "is_done (snd (snd (os_attaching x ! j)))" if "j < length (os_attaching x)" "fst (os_attaching x ! j) = s" for j
    using assms(2) that nth_mem by fastforce
  then have "attaching_inv (os_registry x) (os_attaching x @ [(s, l, AtCheck)])"
    using assms(1) by (auto simp: owner_inv_def attaching_inv_def nth_append less_Suc_eq)
  moreover have "rechecks (os_attaching x) s' \<Longrightarrow> rechecks (os_attaching x @ [(s, l, AtCheck)]) s'" for s'
    by (auto simp: rechecks_def)
  ultimately show ?thesis
    using assms(1) by (auto simp: owner_inv_def drain_inv_def)
qed

lemma owner_inv_remove:
  assumes "owner_inv x" and "remove_epoch s g d (os_registry x) = (r, ok)"
  shows "owner_inv (x\<lparr>os_registry := r\<rparr>)"
proof -
  note rm = remove_epoch_entry [OF assms(2)]
  have "attaching_inv r (os_attaching x)"
    by (rule attaching_shrink [OF owner_invD(2) [OF assms(1)]]) (simp add: rm(4))
  moreover have "drain_inv (x\<lparr>os_registry := r\<rparr>)"
    using assms(1) rm(1,4) by (auto simp: owner_inv_def drain_inv_def split: if_splits)
  ultimately show ?thesis
    using assms renewers_remove by (auto simp: owner_inv_def)
qed

lemma owner_inv_cancel:
  assumes "owner_inv x"
  shows "owner_inv (x\<lparr>os_registry := cancel_token k (os_registry x)\<rparr>)"
proof -
  have "attaching_inv (cancel_token k (os_registry x)) (os_attaching x)"
    by (rule attaching_shrink [OF owner_invD(2) [OF assms]]) simp
  then show ?thesis
    using assms renewers_cancel by (auto simp: owner_inv_def drain_inv_def)
qed

lemma owner_inv_drain_begin:
  assumes "owner_inv x" and "drain_begin (os_registry x) = (d, r)"
  shows "owner_inv (x\<lparr>os_registry := r, os_drain := Some d\<rparr>)"
proof -
  have r: "r = os_registry x\<lparr>or_draining := True\<rparr>" and d: "d = Collecting (hm_keys (or_entries (os_registry x))) []"
    using assms(2) by (simp_all add: drain_begin_def)
  have same: "entry_at r = entry_at (os_registry x)"
    by (simp add: r entry_at_def fun_eq_iff)
  have "attaching_inv r (os_attaching x)"
    by (rule attaching_shrink [OF owner_invD(2) [OF assms(1)]]) (simp add: same)
  moreover have "renewers_inv r"
    using assms(1) same by (auto simp: owner_inv_def renewers_inv_def r)
  moreover have "covered d s (oe_generation e)" if "entry_at r s = Some e" for s e
    using that same by (simp add: d hm_has_keys hm_has_def entry_at_def)
  ultimately show ?thesis
    by (auto simp: owner_inv_def drain_inv_def r)
qed

lemma owner_inv_covered:
  assumes "owner_inv x" and "os_drain x = Some d"
    and "\<And>s e. entry_at (os_registry x) s = Some e \<Longrightarrow> covered d s (oe_generation e) \<Longrightarrow> covered d' s (oe_generation e)"
  shows "owner_inv (x\<lparr>os_drain := Some d'\<rparr>)"
  using assms by (fastforce simp: owner_inv_def drain_inv_def)

lemma owner_inv_visit:
  assumes "owner_inv x" and "os_drain x = Some (Collecting todo rooms)"
  shows "owner_inv (x\<lparr>os_drain := Some (drain_visit s todo rooms (os_registry x))\<rparr>)"
  by (rule owner_inv_covered [OF assms]) (auto simp: drain_visit_def entry_at_def split: option.splits)

lemma owner_inv_drain_step:
  assumes "owner_inv x" and "os_drain x = Some d" and "drain_step d (os_registry x) = (d', r)"
  shows "owner_inv (x\<lparr>os_registry := r, os_drain := Some d'\<rparr>)"
proof (cases d)
  case (Collecting todo rooms)
  have "r = os_registry x"
    using assms(3) Collecting by (cases todo) auto
  moreover have "owner_inv (x\<lparr>os_drain := Some d'\<rparr>)"
  proof (cases todo)
    case Nil
    then show ?thesis
      using assms(3) Collecting by (intro owner_inv_covered [OF assms(1,2)]) auto
  next
    case (Cons s todo')
    then show ?thesis
      using assms Collecting owner_inv_visit [OF assms(1), of todo rooms s] by auto
  qed
  ultimately show ?thesis
    by simp
next
  case (DrainingRooms rooms n)
  show ?thesis
  proof (cases rooms)
    case Nil
    then show ?thesis
      using assms(1,3) DrainingRooms owner_inv_covered [OF assms(1,2), of d'] by auto
  next
    case (Cons room rooms')
    obtain s g where room: "room = (s, g)"
      by (cases room)
    obtain ok where rm: "remove_epoch s g True (os_registry x) = (r, ok)" and d': "\<exists>n'. d' = DrainingRooms rooms' n'"
      using assms(3) DrainingRooms Cons room by (auto simp: drain_owner_def split: prod.splits)
    let ?y = "x\<lparr>os_registry := r\<rparr>"
    have "owner_inv (?y\<lparr>os_drain := Some d'\<rparr>)"
    proof (rule owner_inv_covered [OF owner_inv_remove [OF assms(1) rm]])
      show "os_drain ?y = Some d"
        using assms(2) by simp
      show "entry_at (os_registry ?y) s' = Some e \<Longrightarrow> covered d s' (oe_generation e) \<Longrightarrow> covered d' s' (oe_generation e)" for s' e
        using d' DrainingRooms Cons room remove_epoch_entry(4) [OF rm, of s'] by (auto split: if_splits)
    qed
    then show ?thesis
      by simp
  qed
next
  case (Drained n)
  then show ?thesis
    using assms(3) owner_inv_covered [OF assms(1,2), of d'] by auto
qed

interpretation owners: invariant_system owner_start owner_step owner_inv
proof unfold_locales
  show "owner_inv x" if "owner_start x" for x
    using that by (simp add: owner_start_def owner_inv_def renewers_inv_def attaching_inv_def drain_inv_def
        new_registry_def entry_at_def)
  show "owner_inv y" if "owner_step x y" and "owner_inv x" for x y
    using that
    by (induction rule: owner_step.induct)
      (auto intro: owner_inv_begin owner_inv_attach owner_inv_remove owner_inv_cancel owner_inv_drain_begin
        owner_inv_visit owner_inv_drain_step)
qed

text \<open>
  C20. One renewer per room, and none after a shutdown. In every state reached by any interleaving of
  attachments (at most one under way per session), room-empty releases, drains, lost leases and a
  shutdown, every renewer that was started either has been told to stop or is the one of a live
  registry entry, and no two share a cancel token. Once \<open>drain_all\<close> has returned and the
  attachments that raced it are done, the registry is empty and every renewer has been told to
  stop, so every lease of this runtime is on its way to release.
\<close>

theorem drain_stops_every_renewer:
  assumes "reach owner_start owner_step x"
  shows "(\<forall>t \<in> set (or_renewers (os_registry x)). rt_cancel t \<in> or_cancelled (os_registry x) \<or>
      (\<exists>s e. hm_get (or_entries (os_registry x)) s = Some e \<and> oe_cancel e = rt_cancel t)) \<and>
    distinct (map rt_cancel (or_renewers (os_registry x))) \<and>
    ((\<exists>n. os_drain x = Some (Drained n)) \<and> (\<forall>(s, l, at) \<in> set (os_attaching x). is_done at) \<longrightarrow>
       (\<forall>s. lost_for s (os_registry x) = None) \<and>
       (\<forall>t \<in> set (or_renewers (os_registry x)). rt_cancel t \<in> or_cancelled (os_registry x)))"
proof -
  have inv: "owner_inv x"
    using owners.reach_inv [OF assms] .
  note ren = owner_invD(1) [OF inv, unfolded renewers_inv_def entry_at_def]
  have "entry_at (os_registry x) s = None"
    if "os_drain x = Some (Drained n)" and fin: "\<forall>(s, l, at) \<in> set (os_attaching x). is_done at" for n s
  proof -
    have "\<not> rechecks (os_attaching x) s"
      using fin by (auto simp: rechecks_def)
    then show ?thesis
      using owner_invD(3) [OF inv] that(1) by (cases "entry_at (os_registry x) s") (auto simp: drain_inv_def)
  qed
  then show ?thesis
    using ren by (fastforce simp: lost_for_def entry_at_def)
qed

text \<open>A scripted run of the system, for concrete histories.\<close>

datatype owner_call = NewAttach uuid SessionLease | StepAttach nat | StartDrain | StepDrain

fun owner_do :: "owner_call \<Rightarrow> owner_system \<Rightarrow> owner_system" where
  "owner_do (NewAttach s l) x =
     (if list_all (\<lambda>(s', l', at). s' = s \<longrightarrow> is_done at) (os_attaching x)
      then x\<lparr>os_attaching := os_attaching x @ [(s, l, AtCheck)]\<rparr> else x)"
| "owner_do (StepAttach i) x =
     (if i < length (os_attaching x) then
        (case os_attaching x ! i of (s, l, at) \<Rightarrow>
           (case attach_step s l at (os_registry x) of (at', r) \<Rightarrow>
              x\<lparr>os_registry := r, os_attaching := (os_attaching x)[i := (s, l, at')]\<rparr>))
      else x)"
| "owner_do StartDrain x =
     (if os_drain x = None
      then (case drain_begin (os_registry x) of (d, r) \<Rightarrow> x\<lparr>os_registry := r, os_drain := Some d\<rparr>) else x)"
| "owner_do StepDrain x =
     (case os_drain x of
        Some d \<Rightarrow> (case drain_step d (os_registry x) of (d', r) \<Rightarrow> x\<lparr>os_registry := r, os_drain := Some d'\<rparr>)
      | None \<Rightarrow> x)"

lemma owner_do_step: "owner_do call x = x \<or> owner_step x (owner_do call x)"
proof (cases call)
  case (NewAttach s l)
  then show ?thesis
    using owner_step.begin_attach [of x s l] by (simp add: list_all_iff)
next
  case (StepAttach i)
  obtain s l at where at: "os_attaching x ! i = (s, l, at)"
    by (metis prod_cases3)
  obtain at' r where "attach_step s l at (os_registry x) = (at', r)"
    by (metis surj_pair)
  then show ?thesis
    using owner_step.attach [OF _ at] at StepAttach by simp
next
  case StartDrain
  obtain d r where "drain_begin (os_registry x) = (d, r)"
    by (metis surj_pair)
  then show ?thesis
    using owner_step.drain_begins StartDrain by simp
next
  case StepDrain
  show ?thesis
  proof (cases "os_drain x")
    case (Some d)
    obtain d' r where "drain_step d (os_registry x) = (d', r)"
      by (metis surj_pair)
    then show ?thesis
      using owner_step.drain_goes [OF Some] Some StepDrain by simp
  qed (use StepDrain in simp)
qed

lemma owner_do_reach: "reach owner_start owner_step x \<Longrightarrow> reach owner_start owner_step (owner_do call x)"
  using owner_do_step [of call x] reach.next_state by metis

lemma owner_dos_reach: "reach owner_start owner_step x \<Longrightarrow> reach owner_start owner_step (fold owner_do calls x)"
  by (induction calls arbitrary: x) (auto intro: owner_do_reach)

definition plain_owners :: owner_system where
  "plain_owners = \<lparr>os_registry = new_registry, os_attaching = [], os_drain = None\<rparr>"

text \<open>A shutdown begins between the publication of an entry and the second look at the flag.\<close>

definition plain_shutdown :: "owner_call list" where
  "plain_shutdown =
     [NewAttach 2 (lease_of 1 2 3 1 HuddleControl), StepAttach 0, StepAttach 0, StepAttach 0,
      StartDrain, StepAttach 0, StepDrain, StepDrain, StepDrain]"

theorem drain_stops_every_renewer_witness:
  "let x = fold owner_do plain_shutdown plain_owners in
     reach owner_start owner_step x \<and> os_drain x = Some (Drained 0) \<and> length (or_renewers (os_registry x)) = 1 \<and>
     (\<forall>t \<in> set (or_renewers (os_registry x)). rt_cancel t \<in> or_cancelled (os_registry x))"
proof -
  let ?x = "fold owner_do plain_shutdown plain_owners"
  have r: "reach owner_start owner_step ?x"
    by (intro owner_dos_reach reach.start) (simp add: owner_start_def plain_owners_def)
  have x: "os_drain ?x = Some (Drained 0)" "length (or_renewers (os_registry ?x)) = 1"
    "\<forall>(s, l, at) \<in> set (os_attaching ?x). is_done at"
    by code_simp+
  show ?thesis
    using drain_stops_every_renewer [OF r] x r by (simp only: Let_def) blast
qed

text \<open>
  The lookup and the insertion of \<open>attach_signals\<close> are two steps. Two calls for one session that
  overlap there both install a renewer: the entry of the first is overwritten, and its renewer is
  neither stopped nor reachable through the registry.
\<close>

lemma overlapping_attach_leaks:
  defines "l \<equiv> lease_of 1 2 3 1 HuddleControl" and "l' \<equiv> lease_of 4 2 3 1 HuddleControl"
  defines "a \<equiv> attach_step 2 l AtLookup new_registry"
  defines "b \<equiv> attach_step 2 l' AtLookup (snd a)"
  defines "a' \<equiv> attach_step 2 l (fst a) (snd b)"
  defines "b' \<equiv> attach_step 2 l' (fst b) (snd a')"
  shows "map rt_cancel (or_renewers (snd b')) = [0, 3] \<and> or_cancelled (snd b') = {} \<and>
    map_option oe_cancel (hm_get (or_entries (snd b')) 2) = Some 3"
  unfolding assms by (simp add: new_registry_def spawn_renewer_def hm_get_Cons numeral_3_eq_3)

section \<open>Joins\<close>

text \<open>The moment is one of some history of calls on the directory.\<close>

definition of_history :: "dir_env \<Rightarrow> nat \<Rightarrow> moment \<Rightarrow> bool" where
  "of_history env ttl m \<longleftrightarrow>
     (\<exists>x0 x. dir_start x0 \<and> (dir_step env ttl)\<^sup>*\<^sup>* x0 x \<and> snd m = (ds_now x, ds_redis x))"

text \<open>What a resolved join rests on, at the moments of one attempt.\<close>

definition join_rests_on ::
  "dir_env \<Rightarrow> nat \<Rightarrow> join_moments \<Rightarrow> bool \<Rightarrow> uuid \<Rightarrow> uuid \<Rightarrow> RuntimeId \<Rightarrow> ResolvedJoin \<Rightarrow> bool" where
  "join_rests_on env ttl jm live_entry c s local_id r \<longleftrightarrow>
     (case (rj_outcome r, rj_acquired r) of
        (LocalOwner g, Some l) \<Rightarrow>
          (case jm_acquire jm of (f, now, rd) \<Rightarrow>
             \<exists>rd'. acquire env ttl f now c s local_id HUDDLE_CONTROL_PROFILE rd = (rd', Inr (Acquired l)) \<and>
               sl_owner_runtime_id l = local_id \<and> sl_generation l = g \<and>
               validate_fenced_header env NoFault now c (join_fenced_header (rj_outcome r) s local_id) rd' = Inr ())
      | (LocalOwner g, None) \<Rightarrow>
          live_entry \<and>
          (\<exists>l. sl_owner_runtime_id l = local_id \<and> sl_generation l = g \<and>
             ((case jm_lookup jm of (f, now, rd) \<Rightarrow> lookup env f now c s rd = Inr (Some l)) \<or>
              (case jm_acquire jm of (f, now, rd) \<Rightarrow>
                 snd (acquire env ttl f now c s local_id HUDDLE_CONTROL_PROFILE rd) = Inr (Exists l))))
      | (RemoteOwner owner g, acq) \<Rightarrow>
          owner \<noteq> local_id \<and> acq = None \<and>
          huddle_validate env (jm_validate jm) c (join_fenced_header (rj_outcome r) s local_id) = Inr ())"

lemma route_rests_on:
  assumes "route_to_owner env jm c s local_id (ownership_of l) = Inr r"
    and "(case jm_lookup jm of (f, now, rd) \<Rightarrow> lookup env f now c s rd = Inr (Some l)) \<or>
      (case jm_acquire jm of (f, now, rd) \<Rightarrow>
         snd (acquire env ttl f now c s local_id HUDDLE_CONTROL_PROFILE rd) = Inr (Exists l))"
  shows "rj_acquired r = None \<and>
    ((\<exists>g. rj_outcome r = LocalOwner g) \<longrightarrow> live_entry \<longrightarrow> join_rests_on env ttl jm live_entry c s local_id r) \<and>
    ((\<nexists>g. rj_outcome r = LocalOwner g) \<longrightarrow> join_rests_on env ttl jm live_entry c s local_id r)"
  using assms by (auto simp: route_to_owner_def ownership_of_def join_rests_on_def split: if_splits sum.splits)

lemma resolve_rests_on:
  assumes "dir_laws env" and "of_history env ttl (jm_acquire jm)"
    and "snd (resolve_join env show_err ttl jm c s local_id) = Inr r"
    and "rj_acquired r = None \<and> (\<exists>g. rj_outcome r = LocalOwner g) \<longrightarrow> live_entry"
  shows "join_rests_on env ttl jm live_entry c s local_id r"
proof -
  obtain f now rd f' now' rd' where m: "jm_lookup jm = (f, now, rd)" "jm_acquire jm = (f', now', rd')"
    by (metis prod_cases3)
  consider (found) l where "lookup env f now c s rd = Inr (Some l)" "route_to_owner env jm c s local_id (ownership_of l) = Inr r"
    | (won) rd'' l where "acquire env ttl f' now' c s local_id HUDDLE_CONTROL_PROFILE rd' = (rd'', Inr (Acquired l))"
        "r = \<lparr>rj_outcome = LocalOwner (sl_generation l), rj_acquired = Some l\<rparr>"
    | (held) l where "snd (acquire env ttl f' now' c s local_id HUDDLE_CONTROL_PROFILE rd') = Inr (Exists l)"
        "route_to_owner env jm c s local_id (ownership_of l) = Inr r"
  proof (cases "lookup env f now c s rd")
    case (Inr found_lease)
    obtain rd'' res where acq: "acquire env ttl f' now' c s local_id HUDDLE_CONTROL_PROFILE rd' = (rd'', res)"
      by (metis surj_pair)
    show ?thesis
    proof (cases found_lease)
      case (Some l)
      then show ?thesis
        using found [of l] assms(3) m Inr by (simp add: resolve_join_def huddle_owner_of_def)
    next
      case None
      then show ?thesis
        using won held assms(3) m Inr acq
        by (cases res) (auto simp: resolve_join_def huddle_owner_of_def huddle_acquire_def split: AcquireResult.splits)
    qed
  qed (use assms(3) m in \<open>simp add: resolve_join_def huddle_owner_of_def\<close>)
  then show ?thesis
  proof cases
    case found
    then show ?thesis
      using route_rests_on [of env jm c s local_id l r ttl live_entry] m assms(4) by auto
  next
    case won
    have "store_inv env rd'"
      using assms(2) dir_reach_inv [OF assms(1)] m by (auto simp: of_history_def dir_inv_def)
    note acq = acquired_is_accepted [OF assms(1) this won(1)]
    then have "join_fenced_header (LocalOwner (sl_generation l)) s local_id = fenced_header l"
      and "sl_owner_runtime_id l = local_id"
      by (simp_all add: fenced_header_def lease_of_def)
    then show ?thesis
      using won acq(2) m by (simp add: join_rests_on_def del: join_fenced_header.simps)
  next
    case held
    then show ?thesis
      using route_rests_on [of env jm c s local_id l r ttl live_entry] m assms(4) by auto
  qed
qed

text \<open>An attempt that leaves the join undecided: the pod owns the huddle but has no entry yet.\<close>

definition undecided ::
  "dir_env \<Rightarrow> (DirectoryError \<Rightarrow> string) \<Rightarrow> nat \<Rightarrow> join_moments \<Rightarrow> bool \<Rightarrow> uuid \<Rightarrow> uuid \<Rightarrow> RuntimeId \<Rightarrow> bool" where
  "undecided env show_err ttl jm live_entry c s local_id \<longleftrightarrow>
     \<not> live_entry \<and> (\<exists>g. snd (resolve_join env show_err ttl jm c s local_id) =
        Inr \<lparr>rj_outcome = LocalOwner g, rj_acquired = None\<rparr>)"

lemma owner_ready_loop_outcome:
  "(\<exists>k < n. (\<forall>j < k. undecided env show_err ttl (jms (i + j)) (entry (i + j)) c s local_id) \<and>
      owner_ready_loop env show_err ttl jms entry c s local_id i n = snd (resolve_join env show_err ttl (jms (i + k)) c s local_id) \<and>
      \<not> undecided env show_err ttl (jms (i + k)) (entry (i + k)) c s local_id) \<or>
   (\<forall>j < n. undecided env show_err ttl (jms (i + j)) (entry (i + j)) c s local_id) \<and>
   owner_ready_loop env show_err ttl jms entry c s local_id i n = Inl (Transport ''huddle owner not ready'')"
  (is "?P i n")
proof (induction n arbitrary: i)
  case (Suc n)
  show ?case
  proof (cases "undecided env show_err ttl (jms i) (entry i) c s local_id")
    case True
    then have step: "owner_ready_loop env show_err ttl jms entry c s local_id i (Suc n) =
        owner_ready_loop env show_err ttl jms entry c s local_id (Suc i) n"
      by (auto simp: undecided_def)
    show ?thesis
      using Suc [of "Suc i"]
    proof (elim disjE exE conjE)
      fix k assume "k < n" and before: "\<forall>j < k. undecided env show_err ttl (jms (Suc i + j)) (entry (Suc i + j)) c s local_id"
        and "owner_ready_loop env show_err ttl jms entry c s local_id (Suc i) n =
          snd (resolve_join env show_err ttl (jms (Suc i + k)) c s local_id)"
        and "\<not> undecided env show_err ttl (jms (Suc i + k)) (entry (Suc i + k)) c s local_id"
      moreover have "\<forall>j < Suc k. undecided env show_err ttl (jms (i + j)) (entry (i + j)) c s local_id"
        using before True by (auto simp: less_Suc_eq_0_disj)
      ultimately show ?thesis
        by (intro disjI1 exI [of _ "Suc k"]) (auto simp: step simp del: owner_ready_loop.simps)
    next
      assume "\<forall>j < n. undecided env show_err ttl (jms (Suc i + j)) (entry (Suc i + j)) c s local_id"
        and "owner_ready_loop env show_err ttl jms entry c s local_id (Suc i) n = Inl (Transport ''huddle owner not ready'')"
      then show ?thesis
        using True by (intro disjI2) (auto simp: step less_Suc_eq_0_disj simp del: owner_ready_loop.simps)
    qed
  next
    case False
    then have "owner_ready_loop env show_err ttl jms entry c s local_id i (Suc n) =
        snd (resolve_join env show_err ttl (jms i) c s local_id)"
      by (auto simp: undecided_def split: sum.splits JoinOutcome.splits option.splits) (metis ResolvedJoin.surjective unit.exhaust)
    then show ?thesis
      using False by (intro disjI1 exI [of _ 0]) auto
  qed
qed simp

text \<open>
  C27. A join is told the truth about the owner, or refused. \<open>resolve_join_owner_ready\<close> makes at most 25
  attempts, each on the directory as it is at moments of its own. If it succeeds, it does so at
  the first attempt that is not undecided, and: an acquired lease was granted to this pod at that
  attempt and its fence is accepted by the store it left; ownership without acquiring rests on a
  lease that names this pod and on a live registry entry, whose loss signal the peer will watch,
  so no owner peer is admitted without one; a remote owner is another pod, and its fence passed
  the directory. Every other end is an error: of the directory at the first decided attempt, or
  after 25 undecided ones.
\<close>

theorem join_is_told_the_truth:
  assumes "dir_laws env" and "\<And>i. of_history env ttl (jm_acquire (jms i))"
  shows "case resolve_join_owner_ready env show_err ttl jms entry c s local_id of
      Inr r \<Rightarrow> \<exists>i < 25. (\<forall>j < i. undecided env show_err ttl (jms j) (entry j) c s local_id) \<and>
        join_rests_on env ttl (jms i) (entry i) c s local_id r
    | Inl e \<Rightarrow>
        (\<exists>i < 25. (\<forall>j < i. undecided env show_err ttl (jms j) (entry j) c s local_id) \<and>
           snd (resolve_join env show_err ttl (jms i) c s local_id) = Inl e) \<or>
        (\<forall>j < 25. undecided env show_err ttl (jms j) (entry j) c s local_id)"
proof -
  have step: "join_rests_on env ttl (jms i) (entry i) c s local_id r"
    if "snd (resolve_join env show_err ttl (jms i) c s local_id) = Inr r"
      and "\<not> undecided env show_err ttl (jms i) (entry i) c s local_id" for i r
  proof (rule resolve_rests_on [OF assms that(1)])
    show "rj_acquired r = None \<and> (\<exists>g. rj_outcome r = LocalOwner g) \<longrightarrow> entry i"
      using that by (cases r) (auto simp: undecided_def)
  qed
  show ?thesis
    using owner_ready_loop_outcome [of 25 env show_err ttl jms 0 entry c s local_id] step
    by (auto simp: resolve_join_owner_ready_def OWNER_READY_MAX_ATTEMPTS_def split: sum.split
        simp del: owner_ready_loop.simps)
qed

text \<open>The directory is empty, so the first attempt acquires.\<close>

definition plain_moments :: join_moments where
  "plain_moments =
     \<lparr>jm_lookup = (NoFault, 0, ds_redis empty_dir), jm_acquire = (NoFault, 0, ds_redis empty_dir),
      jm_validate = (NoFault, 0, ds_redis empty_dir)\<rparr>"

theorem join_is_told_the_truth_witness:
  "resolve_join_owner_ready plain_dir (\<lambda>_. []) 30000 (\<lambda>_. plain_moments) (\<lambda>_. False) 1 2 3 =
     Inr \<lparr>rj_outcome = LocalOwner 1, rj_acquired = Some (lease_of 1 2 3 1 HuddleControl)\<rparr> \<and>
   join_rests_on plain_dir 30000 plain_moments False 1 2 3
     \<lparr>rj_outcome = LocalOwner 1, rj_acquired = Some (lease_of 1 2 3 1 HuddleControl)\<rparr>"
proof -
  let ?r = "\<lparr>rj_outcome = LocalOwner 1, rj_acquired = Some (lease_of 1 2 3 1 HuddleControl)\<rparr>"
  have "lookup plain_dir NoFault 0 1 2 (ds_redis empty_dir) = Inr None"
    by (simp add: lookup_def redis_get_def empty_dir_def)
  then have "snd (resolve_join plain_dir (\<lambda>_. []) 30000 plain_moments 1 2 3) = Inr ?r"
    using plain_acquire
    by (simp add: resolve_join_def plain_moments_def huddle_owner_of_def huddle_acquire_def HUDDLE_CONTROL_PROFILE_def
        lease_of_def)
  then have res: "resolve_join_owner_ready plain_dir (\<lambda>_. []) 30000 (\<lambda>_. plain_moments) (\<lambda>_. False) 1 2 3 = Inr ?r"
    by (simp add: resolve_join_owner_ready_def OWNER_READY_MAX_ATTEMPTS_def numeral_eq_Suc)
  have "of_history plain_dir 30000 (jm_acquire plain_moments)"
    using empty_dir_start by (fastforce simp: of_history_def plain_moments_def empty_dir_def)
  from join_is_told_the_truth [OF plain_dir_laws this, of "\<lambda>_. []" "\<lambda>_. False" 1 2 3]
  show ?thesis
    using res by auto
qed

section \<open>Renewal\<close>

lemma renewer_loop_quiet:
  "renewer_loop env ttl l evs rd = (rd', Some (cancelled, lost)) \<Longrightarrow>
    (cancelled \<longleftrightarrow> \<not> lost) \<and> (cancelled \<longrightarrow> CallerCancel \<in> set evs)"
  by (induction env ttl l evs rd arbitrary: rd' rule: renewer_loop.induct)
    (auto split: prod.splits sum.splits RenewResult.splits)

text \<open>
  A pod learns that it lost a huddle. The renewer of a huddle lease behaves exactly as the one of a
  reliable tunnel. It ends in silence only after its caller cancelled it; whenever it ends by
  itself, because a renewal was refused or failed, or finds at its release that the lease is no
  longer its own, the loss signal is tripped.
\<close>

theorem renewer_reports_loss:
  "huddle_renewer env show_err ttl l evs f now rd = lease_renewer env ttl l evs f now rd \<and>
   (snd (huddle_renewer env show_err ttl l evs f now rd) = Some False \<longrightarrow>
      CallerCancel \<in> set evs \<and>
      (\<exists>rd'. renewer_loop env ttl l evs rd = (rd', Some (True, False)) \<and>
         (\<forall>current known. snd (release env f now l rd') \<noteq> Inr (ReleaseNotOwner current known))))"
proof -
  have "CallerCancel \<in> set evs \<and> (\<exists>rd'. renewer_loop env ttl l evs rd = (rd', Some (True, False)) \<and>
      (\<forall>current known. snd (release env f now l rd') \<noteq> Inr (ReleaseNotOwner current known)))"
    if quiet: "snd (lease_renewer env ttl l evs f now rd) = Some False"
  proof -
    obtain rd' cancelled lost where loop: "renewer_loop env ttl l evs rd = (rd', Some (cancelled, lost))"
      using quiet by (auto simp: lease_renewer_def split: prod.splits option.splits)
    have "\<not> lost" and "\<forall>current known. snd (release env f now l rd') \<noteq> Inr (ReleaseNotOwner current known)"
      using quiet loop
      by (auto simp: lease_renewer_def split: prod.splits sum.splits ReleaseResult.splits)
    then show ?thesis
      using renewer_loop_quiet [OF loop] loop by auto
  qed
  then show ?thesis
    by (simp add: renewers_agree)
qed

text \<open>The caller cancels at once and the release is denied by the write fence: not a loss.\<close>

theorem renewer_reports_loss_witness:
  "snd (huddle_renewer plain_dir (\<lambda>_. []) 30000 (lease_of 1 2 3 1 HuddleControl) [CallerCancel] (GuardDenied []) 0
     (ds_redis plain_first)) = Some False \<and>
   CallerCancel \<in> set [CallerCancel]"
proof -
  let ?run = "huddle_renewer plain_dir (\<lambda>_. []) 30000 (lease_of 1 2 3 1 HuddleControl) [CallerCancel] (GuardDenied []) 0
     (ds_redis plain_first)"
  have "snd ?run = Some False"
    by (simp add: huddle_renewer_def huddle_release_def release_def Let_def)
  then show ?thesis
    using renewer_reports_loss [of plain_dir "\<lambda>_. []" 30000 "lease_of 1 2 3 1 HuddleControl" "[CallerCancel]" "GuardDenied []" 0
        "ds_redis plain_first"] by blast
qed

end
