(* ===== verification/Usage.thy ===== *)
theory Usage
  imports Prelude "HOL-Library.Word"
begin

text \<open>
  Token accounting of agent turns: \<^verbatim>\<open>crates/buzz-acp/src/usage.rs\<close> (the tracker of session-cumulative
  counters and the tracker of per-prompt counters), how the ACP client drives both
  (\<^verbatim>\<open>crates/buzz-acp/src/acp.rs\<close>), and the published metric (\<^verbatim>\<open>crates/buzz-acp/src/pool.rs\<close>,
  \<^verbatim>\<open>crates/buzz-core/src/agent_turn_metric.rs\<close>).
  \<^item> Token counters and sequence numbers are \<open>u64\<close> words.
  \<^item> Costs are \<open>f64\<close> in the code. Here they have any type, with the operations the code uses as the
    record \<open>cost_ops\<close>; comparisons are separate fields because of \<open>NaN\<close>.
  \<^item> \<open>record\<close> and \<open>take\<close> are \<open>record_usage\<close>, \<open>take_usage\<close> and \<open>standard_take\<close>.
\<close>

type_synonym token_count = "64 word"
type_synonym session_name = string

section \<open>Types\<close>

record 'f cost_ops =
  cost_ge :: "'f \<Rightarrow> 'f \<Rightarrow> bool"
  cost_lt :: "'f \<Rightarrow> 'f \<Rightarrow> bool"
  cost_sub :: "'f \<Rightarrow> 'f \<Rightarrow> 'f"
  cost_zero :: 'f
  cost_finite :: "'f \<Rightarrow> bool"

record PricingIdentity =
  pi_authority :: string
  pi_model :: string
  pi_cache_class :: "string option"

record 'f UsageUpdatePayload =
  up_used :: token_count
  up_context_limit :: token_count
  up_input :: "token_count option"
  up_output :: "token_count option"
  up_cached_input :: "token_count option"
  up_cache_write :: "token_count option"
  up_cost :: "'f option"
  up_total :: "token_count option"
  up_model :: "string option"
  up_pricing_identity :: "PricingIdentity option"

record 'f SessionState =
  published_seq :: token_count
  last_input :: "token_count option"
  last_output :: "token_count option"
  last_cost :: "'f option"
  last_total :: "token_count option"
  last_cached_input :: "token_count option"
  last_cache_write :: "token_count option"
  input_ever_poisoned :: bool
  output_ever_poisoned :: bool

record 'f TurnUsage =
  tu_session_id :: session_name
  tu_turn_seq :: token_count
  tu_delta_reliable :: bool
  tu_turn_input :: "token_count option"
  tu_turn_output :: "token_count option"
  tu_turn_total :: "token_count option"
  tu_turn_cost :: "'f option"
  tu_turn_cache_read :: "token_count option"
  tu_turn_cache_write :: "token_count option"
  tu_cumulative_input :: "token_count option"
  tu_cumulative_output :: "token_count option"
  tu_cumulative_total :: "token_count option"
  tu_cumulative_cost :: "'f option"
  tu_cumulative_cache_read :: "token_count option"
  tu_cumulative_cache_write :: "token_count option"
  tu_model :: "string option"
  tu_pricing_identity :: "PricingIdentity option"

record 'f UsageTracker =
  ut_sessions :: "(session_name, 'f SessionState) hmap"
  ut_in_flight :: "session_name option"
  ut_pending :: "'f TurnUsage option"
  ut_pending_identity :: "PricingIdentity option option"
  ut_input_absence :: bool
  ut_output_absence :: bool

definition new_tracker :: "'f UsageTracker" where
  "new_tracker =
     \<lparr>ut_sessions = [], ut_in_flight = None, ut_pending = None, ut_pending_identity = None,
      ut_input_absence = False, ut_output_absence = False\<rparr>"

section \<open>The tracker of cumulative counters\<close>

definition blank_session :: "'f SessionState" where
  "blank_session =
     \<lparr>published_seq = 0, last_input = None, last_output = None, last_cost = None, last_total = None,
      last_cached_input = None, last_cache_write = None,
      input_ever_poisoned = False, output_ever_poisoned = False\<rparr>"

definition poisoned_input :: "'f UsageTracker \<Rightarrow> session_name \<Rightarrow> bool" where
  "poisoned_input t s \<longleftrightarrow> (case hm_get (ut_sessions t) s of Some st \<Rightarrow> input_ever_poisoned st | None \<Rightarrow> False)"

definition poisoned_output :: "'f UsageTracker \<Rightarrow> session_name \<Rightarrow> bool" where
  "poisoned_output t s \<longleftrightarrow> (case hm_get (ut_sessions t) s of Some st \<Rightarrow> output_ever_poisoned st | None \<Rightarrow> False)"

text \<open>Absences are latched into an entry whose counters stay as they are, created if need be.\<close>

definition latch_absence :: "session_name \<Rightarrow> bool \<Rightarrow> bool \<Rightarrow> 'f UsageTracker \<Rightarrow> 'f UsageTracker" where
  "latch_absence s input_absent output_absent t =
     t\<lparr>ut_sessions :=
        hm_insert s
          ((case hm_get (ut_sessions t) s of Some st \<Rightarrow> st | None \<Rightarrow> blank_session)
             \<lparr>input_ever_poisoned := poisoned_input t s \<or> input_absent,
              output_ever_poisoned := poisoned_output t s \<or> output_absent\<rparr>)
          (ut_sessions t)\<rparr>"

definition begin_turn :: "session_name \<Rightarrow> 'f UsageTracker \<Rightarrow> 'f UsageTracker" where
  "begin_turn s t =
     (let t' =
        (if ut_input_absence t \<or> ut_output_absence t
         then (case ut_in_flight t of
                 Some prev \<Rightarrow> latch_absence prev (ut_input_absence t) (ut_output_absence t) t
               | None \<Rightarrow> t)
         else t)
      in t'\<lparr>ut_in_flight := Some s, ut_pending := None, ut_pending_identity := None,
            ut_input_absence := False, ut_output_absence := False\<rparr>)"

text \<open>The first match of \<open>record\<close>: reliability, input, output and cost of the turn, sequence number.\<close>

definition turn_delta ::
  "'f cost_ops \<Rightarrow> 'f UsageTracker \<Rightarrow> session_name \<Rightarrow> 'f UsageUpdatePayload \<Rightarrow>
     bool \<times> token_count option \<times> token_count option \<times> 'f option \<times> token_count" where
  "turn_delta ops t s payload =
     (case hm_get (ut_sessions t) s of
        None \<Rightarrow> (False, None, None, None, 1)
      | Some prev \<Rightarrow>
          (let seq = published_seq prev + 1;
               input_poisoned = input_ever_poisoned prev \<or> ut_input_absence t \<or> up_input payload = None;
               output_poisoned = output_ever_poisoned prev \<or> ut_output_absence t \<or> up_output payload = None
           in if input_poisoned \<or> output_poisoned then (False, None, None, None, seq)
              else
                (case (up_input payload, up_output payload, last_input prev, last_output prev) of
                   (Some ci, Some co, Some pi, Some po) \<Rightarrow>
                     if ci < pi \<or> co < po then (False, None, None, None, seq)
                     else
                       (case (up_cost payload, last_cost prev) of
                          (Some c, Some p) \<Rightarrow>
                            if cost_ge ops c p
                            then (True, Some (ci - pi), Some (co - po), Some (cost_sub ops c p), seq)
                            else (False, None, None, None, seq)
                        | _ \<Rightarrow> (True, Some (ci - pi), Some (co - po), None, seq))
                 | _ \<Rightarrow> (False, None, None, None, seq))))"

text \<open>The deltas that do not touch the reliability of the record: total, cache read, cache write.\<close>

definition field_delta ::
  "'f UsageTracker \<Rightarrow> session_name \<Rightarrow> token_count option \<Rightarrow> ('f SessionState \<Rightarrow> token_count option) \<Rightarrow>
     token_count option" where
  "field_delta t s current last_value =
     (case hm_get (ut_sessions t) s of
        Some prev \<Rightarrow>
          (case (current, last_value prev) of
             (Some cur, Some p) \<Rightarrow> if cur \<ge> p then Some (cur - p) else None
           | _ \<Rightarrow> None)
      | None \<Rightarrow> None)"

definition fold_identity ::
  "PricingIdentity option \<Rightarrow> PricingIdentity option option \<Rightarrow> PricingIdentity option option" where
  "fold_identity incoming acc =
     (case acc of
        None \<Rightarrow> Some incoming
      | Some (Some existing) \<Rightarrow> if incoming = Some existing then Some incoming else Some None
      | Some None \<Rightarrow> Some None)"

definition usage_of ::
  "'f cost_ops \<Rightarrow> 'f UsageTracker \<Rightarrow> session_name \<Rightarrow> 'f UsageUpdatePayload \<Rightarrow> 'f TurnUsage" where
  "usage_of ops t s payload =
     (case turn_delta ops t s payload of
        (reliable, turn_input, turn_output, turn_cost, seq) \<Rightarrow>
          \<lparr>tu_session_id = s, tu_turn_seq = seq, tu_delta_reliable = reliable,
           tu_turn_input = turn_input, tu_turn_output = turn_output,
           tu_turn_total = field_delta t s (up_total payload) last_total,
           tu_turn_cost = turn_cost,
           tu_turn_cache_read = field_delta t s (up_cached_input payload) last_cached_input,
           tu_turn_cache_write = field_delta t s (up_cache_write payload) last_cache_write,
           tu_cumulative_input = up_input payload, tu_cumulative_output = up_output payload,
           tu_cumulative_total = up_total payload, tu_cumulative_cost = up_cost payload,
           tu_cumulative_cache_read = up_cached_input payload,
           tu_cumulative_cache_write = up_cache_write payload,
           tu_model = up_model payload, tu_pricing_identity = None\<rparr>)"

definition record_usage ::
  "'f cost_ops \<Rightarrow> session_name \<Rightarrow> 'f UsageUpdatePayload \<Rightarrow> 'f UsageTracker \<Rightarrow> 'f UsageTracker" where
  "record_usage ops s payload t =
     (let is_in_flight = (ut_in_flight t = Some s);
          input_absent = (up_input payload = None);
          output_absent = (up_output payload = None);
          t1 = (if is_in_flight
                then t\<lparr>ut_input_absence := ut_input_absence t \<or> input_absent,
                       ut_output_absence := ut_output_absence t \<or> output_absent\<rparr>
                else t)
      in if is_in_flight then
           t1\<lparr>ut_pending_identity := fold_identity (up_pricing_identity payload) (ut_pending_identity t1),
              ut_pending := Some (usage_of ops t1 s payload)\<rparr>
         else if ut_in_flight t = None then
           t1\<lparr>ut_sessions :=
               hm_insert s
                 \<lparr>published_seq = (case hm_get (ut_sessions t1) s of Some st \<Rightarrow> published_seq st | None \<Rightarrow> 0),
                  last_input = up_input payload, last_output = up_output payload,
                  last_cost = up_cost payload, last_total = up_total payload,
                  last_cached_input = up_cached_input payload, last_cache_write = up_cache_write payload,
                  input_ever_poisoned = (poisoned_input t1 s \<or> input_absent),
                  output_ever_poisoned = (poisoned_output t1 s \<or> output_absent)\<rparr>
                 (ut_sessions t1)\<rparr>
         else if input_absent \<or> output_absent then latch_absence s input_absent output_absent t1
         else t1)"

definition seed_zero_baseline :: "'f cost_ops \<Rightarrow> session_name \<Rightarrow> 'f UsageTracker \<Rightarrow> 'f UsageTracker" where
  "seed_zero_baseline ops s t =
     (case hm_get (ut_sessions t) s of
        Some _ \<Rightarrow> t
      | None \<Rightarrow>
          t\<lparr>ut_sessions :=
              hm_insert s
                \<lparr>published_seq = 0, last_input = Some 0, last_output = Some 0,
                 last_cost = Some (cost_zero ops), last_total = Some 0, last_cached_input = Some 0,
                 last_cache_write = Some 0, input_ever_poisoned = False, output_ever_poisoned = False\<rparr>
                (ut_sessions t)\<rparr>)"

definition take_usage :: "'f UsageTracker \<Rightarrow> 'f UsageTracker \<times> 'f TurnUsage option" where
  "take_usage t =
     (let folded = (case ut_pending_identity t of Some inner \<Rightarrow> inner | None \<Rightarrow> None);
          input_absent = ut_input_absence t;
          output_absent = ut_output_absence t;
          t1 = t\<lparr>ut_in_flight := None, ut_pending := None, ut_pending_identity := None,
                 ut_input_absence := False, ut_output_absence := False\<rparr>
      in case ut_pending t of
           None \<Rightarrow> (t1, None)
         | Some pending \<Rightarrow>
             (let r = pending\<lparr>tu_pricing_identity := folded\<rparr>; s = tu_session_id r
              in (t1\<lparr>ut_sessions :=
                      hm_insert s
                        \<lparr>published_seq = tu_turn_seq r,
                         last_input = tu_cumulative_input r, last_output = tu_cumulative_output r,
                         last_cost = tu_cumulative_cost r, last_total = tu_cumulative_total r,
                         last_cached_input = tu_cumulative_cache_read r,
                         last_cache_write = tu_cumulative_cache_write r,
                         input_ever_poisoned =
                           (poisoned_input t1 s \<or> input_absent \<or> tu_cumulative_input r = None),
                         output_ever_poisoned =
                           (poisoned_output t1 s \<or> output_absent \<or> tu_cumulative_output r = None)\<rparr>
                        (ut_sessions t1)\<rparr>,
                  Some r)))"

section \<open>The tracker of per-prompt counters\<close>

record PromptResponseUsage =
  pr_input_tokens :: token_count
  pr_output_tokens :: token_count
  pr_total_tokens :: token_count
  pr_cached_read_tokens :: "token_count option"
  pr_cached_write_tokens :: "token_count option"

datatype StandardAdapterKind = Claude | Codex

record 'f StandardSessionState =
  ss_published_seq :: token_count
  ss_last_cost :: "'f option"
  ss_cost_poisoned :: bool

record 'f StandardUsageTracker =
  st_sessions :: "(session_name, 'f StandardSessionState) hmap"
  st_in_flight :: "session_name option"
  st_pending_cost :: "(session_name \<times> 'f) option"
  st_pending_prompt :: "(session_name \<times> PromptResponseUsage \<times> StandardAdapterKind) option"

definition new_standard_tracker :: "'f StandardUsageTracker" where
  "new_standard_tracker =
     \<lparr>st_sessions = [], st_in_flight = None, st_pending_cost = None, st_pending_prompt = None\<rparr>"

definition standard_seed_zero_baseline ::
  "'f cost_ops \<Rightarrow> session_name \<Rightarrow> 'f StandardUsageTracker \<Rightarrow> 'f StandardUsageTracker" where
  "standard_seed_zero_baseline ops s t =
     (case hm_get (st_sessions t) s of
        Some _ \<Rightarrow> t
      | None \<Rightarrow>
          t\<lparr>st_sessions :=
              hm_insert s \<lparr>ss_published_seq = 0, ss_last_cost = Some (cost_zero ops), ss_cost_poisoned = False\<rparr>
                (st_sessions t)\<rparr>)"

definition standard_begin_turn :: "session_name \<Rightarrow> 'f StandardUsageTracker \<Rightarrow> 'f StandardUsageTracker" where
  "standard_begin_turn s t = t\<lparr>st_in_flight := Some s, st_pending_cost := None, st_pending_prompt := None\<rparr>"

definition record_cost ::
  "'f cost_ops \<Rightarrow> session_name \<Rightarrow> 'f \<Rightarrow> 'f StandardUsageTracker \<Rightarrow> 'f StandardUsageTracker" where
  "record_cost ops s cost t =
     (if cost_finite ops cost \<and> cost_ge ops cost (cost_zero ops) \<and> st_in_flight t = Some s
      then t\<lparr>st_pending_cost := Some (s, cost)\<rparr> else t)"

definition record_prompt_usage ::
  "session_name \<Rightarrow> PromptResponseUsage \<Rightarrow> StandardAdapterKind \<Rightarrow> 'f StandardUsageTracker \<Rightarrow>
     'f StandardUsageTracker" where
  "record_prompt_usage s usage adapter t =
     (if st_in_flight t = Some s then t\<lparr>st_pending_prompt := Some (s, usage, adapter)\<rparr> else t)"

definition checked_add :: "token_count \<Rightarrow> token_count \<Rightarrow> token_count option" where
  "checked_add a b = (if unat a + unat b < 2 ^ 64 then Some (a + b) else None)"

definition inclusive_input :: "PromptResponseUsage \<Rightarrow> token_count option" where
  "inclusive_input usage =
     (case checked_add (pr_input_tokens usage) (case pr_cached_read_tokens usage of Some n \<Rightarrow> n | None \<Rightarrow> 0) of
        None \<Rightarrow> None
      | Some n \<Rightarrow> checked_add n (case pr_cached_write_tokens usage of Some m \<Rightarrow> m | None \<Rightarrow> 0))"

text \<open>The counters of a prompt: inclusive input, output, total, cache read, cache write.\<close>

definition prompt_counts ::
  "PromptResponseUsage \<Rightarrow> StandardAdapterKind \<Rightarrow>
     token_count option \<times> token_count option \<times> token_count option \<times> token_count option \<times> token_count option" where
  "prompt_counts usage adapter =
     (case inclusive_input usage of
        None \<Rightarrow> (None, None, None, None, None)
      | Some n \<Rightarrow>
          (Some n, Some (pr_output_tokens usage),
           if adapter = Codex then Some (pr_total_tokens usage) else None,
           pr_cached_read_tokens usage, pr_cached_write_tokens usage))"

definition standard_turn_cost :: "'f cost_ops \<Rightarrow> 'f StandardSessionState \<Rightarrow> 'f option \<Rightarrow> 'f option" where
  "standard_turn_cost ops st cumulative =
     (case (ss_cost_poisoned st, ss_last_cost st, cumulative) of
        (False, Some previous, Some current) \<Rightarrow>
          if cost_ge ops current previous
          then (let delta = cost_sub ops current previous in if cost_finite ops delta then Some delta else None)
          else None
      | _ \<Rightarrow> None)"

definition advance_cost ::
  "'f cost_ops \<Rightarrow> 'f option \<Rightarrow> 'f StandardSessionState \<Rightarrow> 'f StandardSessionState" where
  "advance_cost ops cumulative st =
     (case cumulative of
        None \<Rightarrow> st
      | Some current \<Rightarrow>
          if (case ss_last_cost st of Some previous \<Rightarrow> cost_lt ops current previous | None \<Rightarrow> False)
          then st\<lparr>ss_cost_poisoned := True, ss_last_cost := None\<rparr>
          else if \<not> ss_cost_poisoned st then st\<lparr>ss_last_cost := Some current\<rparr>
          else st)"

definition standard_take ::
  "'f cost_ops \<Rightarrow> 'f StandardUsageTracker \<Rightarrow> 'f StandardUsageTracker \<times> 'f TurnUsage option" where
  "standard_take ops t =
     (let prompt = st_pending_prompt t;
          cost = st_pending_cost t;
          t1 = t\<lparr>st_in_flight := None, st_pending_prompt := None, st_pending_cost := None\<rparr>
      in case (case prompt of Some (s, _) \<Rightarrow> Some s | None \<Rightarrow> map_option fst cost) of
           None \<Rightarrow> (t1, None)
         | Some s \<Rightarrow>
             (case (case prompt of Some (_, usage, adapter) \<Rightarrow> prompt_counts usage adapter
                                 | None \<Rightarrow> (None, None, None, None, None)) of
                (input, output, whole, cache_read, cache_write) \<Rightarrow>
                  (let st = (case hm_get (st_sessions t1) s of
                               Some st \<Rightarrow> st
                             | None \<Rightarrow> \<lparr>ss_published_seq = 0, ss_last_cost = None, ss_cost_poisoned = False\<rparr>);
                       cumulative = map_option snd cost;
                       turn_cost = standard_turn_cost ops st cumulative;
                       st' = advance_cost ops cumulative st
                   in if input = None \<and> cumulative = None
                      then (t1\<lparr>st_sessions := hm_insert s st' (st_sessions t1)\<rparr>, None)
                      else
                        (let st'' = st'\<lparr>ss_published_seq := ss_published_seq st' + 1\<rparr>
                         in (t1\<lparr>st_sessions := hm_insert s st'' (st_sessions t1)\<rparr>,
                             Some \<lparr>tu_session_id = s, tu_turn_seq = ss_published_seq st'',
                               tu_delta_reliable = (input \<noteq> None \<or> turn_cost \<noteq> None),
                               tu_turn_input = input, tu_turn_output = output, tu_turn_total = whole,
                               tu_turn_cost = turn_cost, tu_turn_cache_read = cache_read,
                               tu_turn_cache_write = cache_write,
                               tu_cumulative_input = None, tu_cumulative_output = None,
                               tu_cumulative_total = None, tu_cumulative_cost = cumulative,
                               tu_cumulative_cache_read = None, tu_cumulative_cache_write = None,
                               tu_model = None, tu_pricing_identity = None\<rparr>)))))"

section \<open>Both trackers in the ACP client\<close>

record 'f usage_client =
  goose_usage :: "'f UsageTracker"
  standard_usage :: "'f StandardUsageTracker"

definition client_begin_turn :: "session_name \<Rightarrow> 'f usage_client \<Rightarrow> 'f usage_client" where
  "client_begin_turn s c =
     c\<lparr>goose_usage := begin_turn s (goose_usage c), standard_usage := standard_begin_turn s (standard_usage c)\<rparr>"

definition take_turn_usage :: "'f cost_ops \<Rightarrow> 'f usage_client \<Rightarrow> 'f usage_client \<times> 'f TurnUsage option" where
  "take_turn_usage ops c =
     (case take_usage (goose_usage c) of
        (g, from_goose) \<Rightarrow>
          (case standard_take ops (standard_usage c) of
             (st, from_standard) \<Rightarrow>
               (c\<lparr>goose_usage := g, standard_usage := st\<rparr>,
                case from_goose of Some r \<Rightarrow> Some r | None \<Rightarrow> from_standard)))"

definition notify_session_spawned :: "'f cost_ops \<Rightarrow> session_name \<Rightarrow> 'f usage_client \<Rightarrow> 'f usage_client" where
  "notify_session_spawned ops s c =
     c\<lparr>goose_usage := seed_zero_baseline ops s (goose_usage c),
       standard_usage := standard_seed_zero_baseline ops s (standard_usage c)\<rparr>"

section \<open>The published metric\<close>

record 'f TokenCounts =
  tc_input_tokens :: "token_count option"
  tc_output_tokens :: "token_count option"
  tc_total_tokens :: "token_count option"
  tc_cost_usd :: "'f option"
  tc_cache_read_tokens :: "token_count option"
  tc_cache_write_tokens :: "token_count option"

definition build_turn_metric_counts :: "'f TurnUsage \<Rightarrow> 'f TokenCounts option \<times> 'f TokenCounts option" where
  "build_turn_metric_counts u =
     (if tu_delta_reliable u
      then Some \<lparr>tc_input_tokens = tu_turn_input u, tc_output_tokens = tu_turn_output u,
                 tc_total_tokens = tu_turn_total u, tc_cost_usd = tu_turn_cost u,
                 tc_cache_read_tokens = tu_turn_cache_read u, tc_cache_write_tokens = tu_turn_cache_write u\<rparr>
      else None,
      Some \<lparr>tc_input_tokens = tu_cumulative_input u, tc_output_tokens = tu_cumulative_output u,
            tc_total_tokens = tu_cumulative_total u, tc_cost_usd = tu_cumulative_cost u,
            tc_cache_read_tokens = tu_cumulative_cache_read u,
            tc_cache_write_tokens = tu_cumulative_cache_write u\<rparr>)"

datatype MetricStopReason = MetricEndTurn | MetricMaxTokens | MetricCancelled | MetricError | MetricUnknown

definition stop_reason_deserialize :: "string \<Rightarrow> MetricStopReason" where
  "stop_reason_deserialize s =
     (if s = ''end_turn'' then MetricEndTurn
      else if s = ''max_tokens'' then MetricMaxTokens
      else if s = ''cancelled'' then MetricCancelled
      else if s = ''error'' then MetricError
      else MetricUnknown)"

definition check_cost :: "'f cost_ops \<Rightarrow> 'f option \<Rightarrow> string \<Rightarrow> string + unit" where
  "check_cost ops cost field =
     (case cost of
        Some c \<Rightarrow> if \<not> cost_finite ops c \<or> cost_lt ops c (cost_zero ops) then Inl field else Inr ()
      | None \<Rightarrow> Inr ())"

definition metric_validate ::
  "'f cost_ops \<Rightarrow> 'f TokenCounts option \<Rightarrow> 'f TokenCounts option \<Rightarrow> string + unit" where
  "metric_validate ops turn cumulative =
     (case (case turn of Some t \<Rightarrow> check_cost ops (tc_cost_usd t) ''turn.costUsd'' | None \<Rightarrow> Inr ()) of
        Inl e \<Rightarrow> Inl e
      | Inr _ \<Rightarrow>
          (case cumulative of Some c \<Rightarrow> check_cost ops (tc_cost_usd c) ''cumulative.costUsd'' | None \<Rightarrow> Inr ()))"

end
