(* ===== verification/Usage_Props.thy ===== *)
theory Usage_Props
  imports Usage
begin

text \<open>
  Correctness of token accounting, over any sequence of the calls the client makes on the tracker:
  the invariant that ties the pending record to the committed baseline, and from it the two
  promises of the module: per-turn counts add up to the session's counters, and a missing
  counter makes every later record of its session unreliable.
\<close>

section \<open>Sequences of calls\<close>

datatype 'f usage_call =
  Seed session_name
| Begin session_name
| Notify session_name "'f UsageUpdatePayload"
| Take

fun usage_do :: "'f cost_ops \<Rightarrow> 'f usage_call \<Rightarrow> 'f UsageTracker \<Rightarrow> 'f UsageTracker \<times> 'f TurnUsage list" where
  "usage_do ops (Seed s) t = (seed_zero_baseline ops s t, [])"
| "usage_do ops (Begin s) t = (begin_turn s t, [])"
| "usage_do ops (Notify s p) t = (record_usage ops s p t, [])"
| "usage_do ops Take t = (case take_usage t of (t', r) \<Rightarrow> (t', case r of Some u \<Rightarrow> [u] | None \<Rightarrow> []))"

fun usage_run :: "'f cost_ops \<Rightarrow> 'f usage_call list \<Rightarrow> 'f UsageTracker \<Rightarrow> 'f UsageTracker \<times> 'f TurnUsage list" where
  "usage_run ops [] t = (t, [])"
| "usage_run ops (c # cs) t =
     (case usage_do ops c t of
        (t1, us) \<Rightarrow> (case usage_run ops cs t1 of (t2, us') \<Rightarrow> (t2, us @ us')))"

lemma usage_run_Cons:
  "fst (usage_run ops (c # cs) t) = fst (usage_run ops cs (fst (usage_do ops c t)))"
  "snd (usage_run ops (c # cs) t) = snd (usage_do ops c t) @ snd (usage_run ops cs (fst (usage_do ops c t)))"
  by (simp_all add: split_beta)

lemma usage_do_Take: "fst (usage_do ops Take t) = fst (take_usage t)"
  by (simp add: split_beta)

declare usage_run.simps(2) [simp del] usage_do.simps(4) [simp del]

definition of_session :: "session_name \<Rightarrow> 'f TurnUsage list \<Rightarrow> 'f TurnUsage list" where
  "of_session s us = filter (\<lambda>u. tu_session_id u = s) us"

lemma of_session_simps [simp]:
  "of_session s [] = []" "of_session s (us @ us') = of_session s us @ of_session s us'"
  "of_session s (u # us) = (if tu_session_id u = s then u # of_session s us else of_session s us)"
  by (simp_all add: of_session_def)

lemma usage_run_append:
  "fst (usage_run ops (cs @ cs') t) = fst (usage_run ops cs' (fst (usage_run ops cs t)))"
  "snd (usage_run ops (cs @ cs') t) = snd (usage_run ops cs t) @ snd (usage_run ops cs' (fst (usage_run ops cs t)))"
  by (induction cs arbitrary: t) (simp_all add: usage_run_Cons)

section \<open>The invariant\<close>

text \<open>A record measured from the baseline \<open>st\<close>.\<close>

definition measured :: "'f SessionState \<Rightarrow> 'f TurnUsage \<Rightarrow> bool" where
  "measured st u \<longleftrightarrow>
     (\<exists>ci co pi po. last_input st = Some pi \<and> last_output st = Some po \<and>
        tu_cumulative_input u = Some ci \<and> tu_cumulative_output u = Some co \<and> pi \<le> ci \<and> po \<le> co \<and>
        tu_turn_input u = Some (ci - pi) \<and> tu_turn_output u = Some (co - po)) \<and>
     \<not> input_ever_poisoned st \<and> \<not> output_ever_poisoned st"

definition withheld :: "'f TurnUsage \<Rightarrow> bool" where
  "withheld u \<longleftrightarrow> tu_turn_input u = None \<and> tu_turn_output u = None \<and> tu_turn_cost u = None"

definition committed_seq :: "'f UsageTracker \<Rightarrow> session_name \<Rightarrow> token_count" where
  "committed_seq t s = (case hm_get (ut_sessions t) s of Some st \<Rightarrow> published_seq st | None \<Rightarrow> 0)"

definition pending_ok :: "'f UsageTracker \<Rightarrow> 'f TurnUsage \<Rightarrow> bool" where
  "pending_ok t u \<longleftrightarrow>
     ut_in_flight t = Some (tu_session_id u) \<and> tu_turn_seq u = committed_seq t (tu_session_id u) + 1 \<and>
     (if tu_delta_reliable u
      then \<not> ut_input_absence t \<and> \<not> ut_output_absence t \<and>
           (\<exists>st. hm_get (ut_sessions t) (tu_session_id u) = Some st \<and> measured st u)
      else withheld u)"

definition tracker_inv :: "'f UsageTracker \<Rightarrow> bool" where
  "tracker_inv t \<longleftrightarrow>
     (\<forall>u. ut_pending t = Some u \<longrightarrow> pending_ok t u) \<and>
     (ut_input_absence t \<or> ut_output_absence t \<longrightarrow> ut_pending t \<noteq> None)"

lemma usage_of_ok:
  "let u = usage_of ops t s p in
     tu_session_id u = s \<and> tu_turn_seq u = committed_seq t s + 1 \<and>
     tu_cumulative_input u = up_input p \<and> tu_cumulative_output u = up_output p \<and>
     (if tu_delta_reliable u
      then \<not> ut_input_absence t \<and> \<not> ut_output_absence t \<and> (\<exists>st. hm_get (ut_sessions t) s = Some st \<and> measured st u)
      else withheld u)"
  by (auto simp: usage_of_def turn_delta_def committed_seq_def measured_def withheld_def Let_def not_less
      split: option.split)

text \<open>The three cases of a notification.\<close>

definition fold_absence :: "'f UsageUpdatePayload \<Rightarrow> 'f UsageTracker \<Rightarrow> 'f UsageTracker" where
  "fold_absence p t =
     t\<lparr>ut_input_absence := ut_input_absence t \<or> up_input p = None,
       ut_output_absence := ut_output_absence t \<or> up_output p = None\<rparr>"

lemma fold_absence_fields [simp]:
  "ut_sessions (fold_absence p t) = ut_sessions t" "ut_in_flight (fold_absence p t) = ut_in_flight t"
  "ut_input_absence (fold_absence p t) \<longleftrightarrow> ut_input_absence t \<or> up_input p = None"
  "ut_output_absence (fold_absence p t) \<longleftrightarrow> ut_output_absence t \<or> up_output p = None"
  by (simp_all add: fold_absence_def)

lemma record_in_flight:
  assumes "ut_in_flight t = Some s"
  shows "ut_sessions (record_usage ops s p t) = ut_sessions t"
    and "ut_in_flight (record_usage ops s p t) = Some s"
    and "ut_pending (record_usage ops s p t) = Some (usage_of ops (fold_absence p t) s p)"
    and "ut_input_absence (record_usage ops s p t) \<longleftrightarrow> ut_input_absence t \<or> up_input p = None"
    and "ut_output_absence (record_usage ops s p t) \<longleftrightarrow> ut_output_absence t \<or> up_output p = None"
  using assms by (simp_all add: record_usage_def fold_absence_def Let_def)

lemma record_elsewhere:
  assumes "ut_in_flight t \<noteq> Some s"
  shows "ut_in_flight (record_usage ops s p t) = ut_in_flight t"
    and "ut_pending (record_usage ops s p t) = ut_pending t"
    and "ut_input_absence (record_usage ops s p t) = ut_input_absence t"
    and "ut_output_absence (record_usage ops s p t) = ut_output_absence t"
    and "\<forall>s'. s' \<noteq> s \<longrightarrow> hm_get (ut_sessions (record_usage ops s p t)) s' = hm_get (ut_sessions t) s'"
    and "poisoned_input (record_usage ops s p t) s \<longleftrightarrow> poisoned_input t s \<or> up_input p = None"
    and "poisoned_output (record_usage ops s p t) s \<longleftrightarrow> poisoned_output t s \<or> up_output p = None"
  using assms
  by (auto simp: record_usage_def latch_absence_def poisoned_input_def poisoned_output_def Let_def split: option.splits)

lemma tracker_inv_record:
  assumes "tracker_inv t"
  shows "tracker_inv (record_usage ops s p t)"
proof (cases "ut_in_flight t = Some s")
  case True
  define u where "u = usage_of ops (fold_absence p t) s p"
  have "pending_ok (record_usage ops s p t) u"
    using usage_of_ok [of ops "fold_absence p t" s p, folded u_def] record_in_flight [OF True, of ops p]
    by (auto simp: pending_ok_def committed_seq_def Let_def split: if_splits)
  then show ?thesis
    using record_in_flight [OF True, of ops p, folded u_def] by (simp add: tracker_inv_def)
next
  case False
  note at = record_elsewhere [OF False, of ops p]
  have "pending_ok (record_usage ops s p t) u" if "pending_ok t u" for u
  proof -
    have "tu_session_id u \<noteq> s"
      using that False by (auto simp: pending_ok_def)
    then show ?thesis
      using that at by (simp add: pending_ok_def committed_seq_def)
  qed
  then show ?thesis
    using assms at by (simp add: tracker_inv_def)
qed

lemma tracker_inv_seed:
  assumes "tracker_inv t"
  shows "tracker_inv (seed_zero_baseline ops s t)"
  using assms
  by (auto simp: tracker_inv_def seed_zero_baseline_def pending_ok_def committed_seq_def split: option.split)

lemma tracker_inv_do:
  assumes "tracker_inv t"
  shows "tracker_inv (fst (usage_do ops c t))"
proof (cases c)
  case (Begin s)
  then show ?thesis
    by (simp add: tracker_inv_def begin_turn_def Let_def)
next
  case Take
  then show ?thesis
    by (simp add: usage_do_Take tracker_inv_def take_usage_def Let_def split: option.split)
qed (use tracker_inv_record [OF assms] tracker_inv_seed [OF assms] in simp_all)

interpretation usage: invariant_system "\<lambda>t. t = new_tracker" "\<lambda>t t'. \<exists>c. t' = fst (usage_do ops c t)" tracker_inv
proof unfold_locales
  show "t = new_tracker \<Longrightarrow> tracker_inv t" for t :: "'a UsageTracker"
    by (simp add: tracker_inv_def new_tracker_def)
qed (auto intro: tracker_inv_do)

lemma tracker_inv_run: "tracker_inv t \<Longrightarrow> tracker_inv (fst (usage_run ops cs t))"
  by (induction cs arbitrary: t) (simp_all add: usage_run_Cons tracker_inv_do)

lemma take_usage_Some:
  assumes "tracker_inv t" and "take_usage t = (t', Some u)"
  obtains v where "ut_pending t = Some v" and "pending_ok t v" and "tu_session_id u = tu_session_id v"
    and "u = v\<lparr>tu_pricing_identity := tu_pricing_identity u\<rparr>"
  using assms by (auto simp: take_usage_def tracker_inv_def Let_def split: option.splits)

section \<open>Missing counters\<close>

definition poisoned :: "'f UsageTracker \<Rightarrow> session_name \<Rightarrow> bool" where
  "poisoned t s \<longleftrightarrow> poisoned_input t s \<or> poisoned_output t s \<or>
     ut_in_flight t = Some s \<and> (ut_input_absence t \<or> ut_output_absence t)"

lemmas poisoned_defs = poisoned_def poisoned_input_def poisoned_output_def

lemma poisoned_latch:
  "poisoned_input (latch_absence s i j t) s' \<longleftrightarrow> poisoned_input t s' \<or> s' = s \<and> i"
  "poisoned_output (latch_absence s i j t) s' \<longleftrightarrow> poisoned_output t s' \<or> s' = s \<and> j"
  by (auto simp: latch_absence_def poisoned_input_def poisoned_output_def)

lemma poisoned_record:
  assumes "poisoned t s \<or> s = s' \<and> (up_input p = None \<or> up_output p = None)"
  shows "poisoned (record_usage ops s' p t) s"
proof (cases "ut_in_flight t = Some s'")
  case True
  then show ?thesis
    using assms record_in_flight [OF True, of ops p] by (auto simp: poisoned_defs)
next
  case False
  then show ?thesis
    using assms record_elsewhere [OF False, of ops p]
    by (cases "s = s'") (auto simp: poisoned_def poisoned_input_def poisoned_output_def)
qed

lemma poisoned_begin:
  assumes "poisoned t s"
  shows "poisoned (begin_turn s' t) s"
proof -
  define t' where "t' = (if ut_input_absence t \<or> ut_output_absence t
    then (case ut_in_flight t of Some prev \<Rightarrow> latch_absence prev (ut_input_absence t) (ut_output_absence t) t | None \<Rightarrow> t)
    else t)"
  have "poisoned_input t' s \<or> poisoned_output t' s"
    using assms poisoned_latch [where i = "ut_input_absence t" and j = "ut_output_absence t" and t = t]
    by (cases "ut_in_flight t") (auto simp: t'_def poisoned_def)
  then show ?thesis
    by (simp add: begin_turn_def t'_def [symmetric] poisoned_defs)
qed

lemma poisoned_take: "tracker_inv t \<Longrightarrow> poisoned t s \<Longrightarrow> poisoned (fst (take_usage t)) s"
  by (auto simp: take_usage_def tracker_inv_def pending_ok_def poisoned_defs Let_def split: option.splits)

lemma poisoned_do:
  assumes "tracker_inv t" and "poisoned t s"
  shows "poisoned (fst (usage_do ops c t)) s"
proof (cases c)
  case (Seed s')
  then show ?thesis
    using assms(2) by (auto simp: seed_zero_baseline_def poisoned_defs split: option.splits)
next
  case Take
  then show ?thesis
    using poisoned_take [OF assms] by (simp add: usage_do_Take)
qed (use assms(2) in \<open>auto intro: poisoned_record poisoned_begin\<close>)

lemma poisoned_publishes_nothing:
  assumes "tracker_inv t" and "poisoned t s" and "u \<in> set (snd (usage_do ops c t))" and "tu_session_id u = s"
  shows "\<not> tu_delta_reliable u \<and> withheld u"
proof (cases c)
  case Take
  then obtain t' where "take_usage t = (t', Some u)"
    using assms(3) by (auto simp: usage_do.simps split: prod.splits option.splits)
  then obtain v where v: "pending_ok t v" "tu_session_id u = tu_session_id v" "u = v\<lparr>tu_pricing_identity := tu_pricing_identity u\<rparr>"
    by (rule take_usage_Some [OF assms(1)])
  have "\<not> tu_delta_reliable v"
    using v(1,2) assms(2,4) by (auto simp: pending_ok_def poisoned_defs measured_def)
  moreover from this have "withheld v"
    using v(1) by (simp add: pending_ok_def)
  ultimately show ?thesis
    by (subst v(3), subst (2) v(3)) (simp add: withheld_def)
qed (use assms(3) in auto)

lemma poisoned_run:
  assumes "tracker_inv t" and "poisoned t s" and "u \<in> set (snd (usage_run ops cs t))" and "tu_session_id u = s"
  shows "\<not> tu_delta_reliable u \<and> withheld u"
  using assms
proof (induction cs arbitrary: t)
  case (Cons c cs)
  note next_state = tracker_inv_do [OF Cons.prems(1), of ops c] poisoned_do [OF Cons.prems(1,2), of ops c]
  show ?case
    using Cons.prems(3) Cons.IH [OF next_state _ Cons.prems(4)]
      poisoned_publishes_nothing [OF Cons.prems(1,2) _ Cons.prems(4), of ops c]
    by (auto simp: usage_run_Cons)
qed simp

section \<open>Counting\<close>

definition base :: "'f UsageTracker \<Rightarrow> session_name \<Rightarrow> (token_count \<times> token_count option \<times> token_count option) option" where
  "base t s = map_option (\<lambda>st. (published_seq st, last_input st, last_output st)) (hm_get (ut_sessions t) s)"

text \<open>The call does not move the baseline of \<open>s\<close> outside a turn.\<close>

definition quiet_call :: "session_name \<Rightarrow> 'f UsageTracker \<Rightarrow> 'f usage_call \<Rightarrow> bool" where
  "quiet_call s t c \<longleftrightarrow> (case c of Notify s' _ \<Rightarrow> s' = s \<longrightarrow> ut_in_flight t \<noteq> None | _ \<Rightarrow> True)"

fun quiet :: "'f cost_ops \<Rightarrow> session_name \<Rightarrow> 'f usage_call list \<Rightarrow> 'f UsageTracker \<Rightarrow> bool" where
  "quiet ops s [] t \<longleftrightarrow> True"
| "quiet ops s (c # cs) t \<longleftrightarrow> quiet_call s t c \<and> quiet ops s cs (fst (usage_do ops c t))"

lemma base_latch: "base t s = Some b \<Longrightarrow> base (latch_absence s' i j t) s = Some b"
  by (auto simp: base_def latch_absence_def)

lemma base_record:
  assumes "base t s = Some b" and "quiet_call s t (Notify s' p)"
  shows "base (record_usage ops s' p t) s = Some b"
proof -
  consider "ut_in_flight t = Some s'" | "ut_in_flight t \<noteq> Some s'" "s \<noteq> s'" | "ut_in_flight t \<noteq> Some s'" "s = s'"
    by blast
  then show ?thesis
  proof cases
    case 1
    then show ?thesis
      using assms(1) record_in_flight(1) [OF 1, of ops p] by (simp add: base_def)
  next
    case 2
    then show ?thesis
      using assms(1) record_elsewhere(5) [OF 2(1), of ops p] by (simp add: base_def)
  next
    case 3
    then have "record_usage ops s' p t = t \<or>
        record_usage ops s' p t = latch_absence s' (up_input p = None) (up_output p = None) t"
      using assms(2) by (auto simp: record_usage_def quiet_call_def Let_def)
    then show ?thesis
      using assms(1) base_latch by metis
  qed
qed

lemma base_do:
  assumes "base t s = Some b" and "quiet_call s t c" and "of_session s (snd (usage_do ops c t)) = []"
  shows "base (fst (usage_do ops c t)) s = Some b"
proof (cases c)
  case (Seed s')
  then show ?thesis
    using assms(1) by (auto simp: base_def seed_zero_baseline_def split: option.splits)
next
  case (Begin s')
  then show ?thesis
    using assms(1) by (auto simp: begin_turn_def base_def latch_absence_def Let_def split: option.splits)
next
  case Take
  then show ?thesis
    using assms(1,3) by (auto simp: usage_do.simps take_usage_def base_def Let_def split: option.splits)
qed (use assms in \<open>auto intro: base_record\<close>)

lemma base_publish:
  assumes "tracker_inv t" and "base t s = Some (n, Some bi, Some bo)"
    and "u \<in> set (of_session s (snd (usage_do ops c t)))" and "tu_delta_reliable u"
  obtains ci co where "of_session s (snd (usage_do ops c t)) = [u]"
    and "tu_turn_seq u = n + 1" and "tu_cumulative_input u = Some ci" and "tu_cumulative_output u = Some co"
    and "tu_turn_input u = Some (ci - bi)" and "tu_turn_output u = Some (co - bo)" and "bi \<le> ci" and "bo \<le> co"
    and "base (fst (usage_do ops c t)) s = Some (n + 1, Some ci, Some co)"
proof -
  obtain t' where c: "c = Take" and take: "take_usage t = (t', Some u)" and s: "tu_session_id u = s"
    using assms(3) by (cases c) (auto simp: usage_do.simps of_session_def split: prod.splits option.splits if_splits)
  obtain v where v: "ut_pending t = Some v" "pending_ok t v" "tu_session_id u = tu_session_id v"
    "u = v\<lparr>tu_pricing_identity := tu_pricing_identity u\<rparr>"
    using take by (rule take_usage_Some [OF assms(1)])
  have same: "tu_delta_reliable v = tu_delta_reliable u" "tu_turn_seq v = tu_turn_seq u"
    "tu_cumulative_input v = tu_cumulative_input u" "tu_cumulative_output v = tu_cumulative_output u"
    "tu_turn_input v = tu_turn_input u" "tu_turn_output v = tu_turn_output u"
    by (subst v(4), simp)+
  obtain ci co where m: "tu_cumulative_input u = Some ci" "tu_cumulative_output u = Some co"
    "tu_turn_input u = Some (ci - bi)" "tu_turn_output u = Some (co - bo)" "bi \<le> ci" "bo \<le> co" "tu_turn_seq u = n + 1"
    using v(2,3) assms(2,4) s same by (auto simp: pending_ok_def measured_def base_def committed_seq_def)
  have "base t' s = Some (n + 1, Some ci, Some co)"
    using take v(1,3) m s same by (auto simp: take_usage_def base_def Let_def)
  then show ?thesis
    using that m c take s by (simp add: usage_do.simps)
qed

text \<open>What a list of records counts, and where its counters end.\<close>

definition counted :: "('f TurnUsage \<Rightarrow> token_count option) \<Rightarrow> 'f TurnUsage list \<Rightarrow> nat" where
  "counted field us = (\<Sum>u \<leftarrow> us. case field u of Some n \<Rightarrow> unat n | None \<Rightarrow> 0)"

definition ends_at :: "('f TurnUsage \<Rightarrow> token_count option) \<Rightarrow> token_count \<Rightarrow> 'f TurnUsage list \<Rightarrow> nat" where
  "ends_at field start us = (if us = [] then unat start else case field (last us) of Some n \<Rightarrow> unat n | None \<Rightarrow> 0)"

lemma counted_simps [simp]:
  "counted field [] = 0" "counted field (u # us) = (case field u of Some n \<Rightarrow> unat n | None \<Rightarrow> 0) + counted field us"
  by (simp_all add: counted_def)

lemma ends_at_Cons: "field u = Some n \<Longrightarrow> ends_at field start (u # us) = ends_at field n us"
  by (simp add: ends_at_def)

lemma counts_from_base:
  assumes "tracker_inv t" and "base t s = Some (n, Some bi, Some bo)" and "quiet ops s cs t"
    and "us = of_session s (snd (usage_run ops cs t))" and "\<forall>u \<in> set us. tu_delta_reliable u"
  shows "map tu_turn_seq us = map (\<lambda>i. n + of_nat i + 1) [0..<length us] \<and>
    unat bi + counted tu_turn_input us = ends_at tu_cumulative_input bi us \<and>
    unat bo + counted tu_turn_output us = ends_at tu_cumulative_output bo us"
  using assms
proof (induction cs arbitrary: t n bi bo us)
  case (Cons c cs)
  let ?t = "fst (usage_do ops c t)" and ?now = "of_session s (snd (usage_do ops c t))"
  define rest where "rest = of_session s (snd (usage_run ops cs ?t))"
  have us: "us = ?now @ rest"
    using Cons.prems(4) by (simp add: usage_run_Cons rest_def)
  have inv: "tracker_inv ?t" and quiet: "quiet_call s t c" "quiet ops s cs ?t"
    using tracker_inv_do [OF Cons.prems(1)] Cons.prems(3) by simp_all
  have rel: "\<forall>u \<in> set rest. tu_delta_reliable u"
    using Cons.prems(5) us by simp
  show ?case
  proof (cases ?now)
    case Nil
    then show ?thesis
      using Cons.IH [OF inv base_do [OF Cons.prems(2) quiet(1) Nil] quiet(2) rest_def rel] us by simp
  next
    case (Cons u us')
    then have "u \<in> set ?now" and "tu_delta_reliable u"
      using Cons.prems(5) us by auto
    then obtain ci co where u: "?now = [u]" "tu_turn_seq u = n + 1" "tu_cumulative_input u = Some ci"
      "tu_cumulative_output u = Some co" "tu_turn_input u = Some (ci - bi)" "tu_turn_output u = Some (co - bo)"
      "bi \<le> ci" "bo \<le> co" and step: "base ?t s = Some (n + 1, Some ci, Some co)"
      by (rule base_publish [OF Cons.prems(1,2)])
    have IH: "map tu_turn_seq rest = map (\<lambda>i. n + 1 + of_nat i + 1) [0..<length rest]"
      "unat ci + counted tu_turn_input rest = ends_at tu_cumulative_input ci rest"
      "unat co + counted tu_turn_output rest = ends_at tu_cumulative_output co rest"
      using Cons.IH [OF inv step quiet(2) rest_def rel] by simp_all
    have "map (\<lambda>i. n + of_nat i + 1) [0..<length us] = (n + 1) # map (\<lambda>i. n + 1 + of_nat i + 1) [0..<length rest]"
      by (simp add: us u(1) upt_conv_Cons map_Suc_upt [symmetric] comp_def algebra_simps del: upt_Suc)
    moreover have "unat bi + unat (ci - bi) = unat ci" and "unat bo + unat (co - bo) = unat co"
      using u(7,8) by (simp_all add: unat_sub word_le_nat_alt)
    ultimately show ?thesis
      using IH u us by (simp add: ends_at_Cons)
  qed
qed (simp add: ends_at_def)

section \<open>Properties\<close>

text \<open>
  C32. Token counts add up. Take any use of the tracker, a session it does not know yet, and seed it
  when the client spawns it. Whatever calls follow, for this and other sessions, with any number
  of notifications per turn, turns that publish nothing and turns begun twice: if every record
  published for the session is marked reliable, their input and output counts add up to exactly
  the cumulative counters of the last of them, so no token is lost or counted twice, and their
  sequence numbers are 1, 2, 3 and so on. The session's counters must not be reported outside a
  turn, which would move the baseline.
\<close>

theorem turn_counts_add_up:
  assumes "t = fst (usage_run ops before new_tracker)" and "hm_get (ut_sessions t) s = None"
    and "quiet ops s cs (seed_zero_baseline ops s t)"
    and "us = of_session s (snd (usage_run ops (Seed s # cs) t))" and "\<forall>u \<in> set us. tu_delta_reliable u"
  shows "map tu_turn_seq us = map (\<lambda>i. of_nat i + 1) [0..<length us] \<and>
    counted tu_turn_input us = ends_at tu_cumulative_input 0 us \<and>
    counted tu_turn_output us = ends_at tu_cumulative_output 0 us"
proof -
  have "tracker_inv t"
    unfolding assms(1) by (rule tracker_inv_run) (simp add: tracker_inv_def new_tracker_def)
  then have "tracker_inv (seed_zero_baseline ops s t)"
    by (rule tracker_inv_seed)
  moreover have "base (seed_zero_baseline ops s t) s = Some (0, Some 0, Some 0)"
    using assms(2) by (simp add: base_def seed_zero_baseline_def)
  moreover have "us = of_session s (snd (usage_run ops cs (seed_zero_baseline ops s t)))"
    using assms(4) by (simp add: usage_run_Cons)
  ultimately show ?thesis
    using counts_from_base [OF _ _ assms(3) _ assms(5)] by fastforce
qed

text \<open>Two turns of a session, the first with two notifications; costs are integers.\<close>

definition int_cost :: "int cost_ops" where
  "int_cost = \<lparr>cost_ge = (\<ge>), cost_lt = (<), cost_sub = (-), cost_zero = 0, cost_finite = (\<lambda>_. True)\<rparr>"

definition plain_report :: "token_count option \<Rightarrow> token_count option \<Rightarrow> int \<Rightarrow> int UsageUpdatePayload" where
  "plain_report i j cost =
     \<lparr>up_used = 0, up_context_limit = 0, up_input = i, up_output = j, up_cached_input = None,
      up_cache_write = None, up_cost = Some cost, up_total = None, up_model = None, up_pricing_identity = None\<rparr>"

definition plain_turns :: "int usage_call list" where
  "plain_turns =
     [Begin ''a'', Notify ''a'' (plain_report (Some 5) (Some 2) 1), Notify ''a'' (plain_report (Some 10) (Some 4) 2), Take,
      Begin ''b'', Notify ''a'' (plain_report (Some 12) (Some 4) 2), Take,
      Begin ''a'', Notify ''a'' (plain_report (Some 17) (Some 9) 3), Take]"

theorem turn_counts_add_up_witness:
  "let us = of_session ''a'' (snd (usage_run int_cost (Seed ''a'' # plain_turns) new_tracker)) in
     length us = 2 \<and> counted tu_turn_input us = ends_at tu_cumulative_input 0 us \<and>
     ends_at tu_cumulative_input 0 us = 17"
proof -
  let ?us = "of_session ''a'' (snd (usage_run int_cost (Seed ''a'' # plain_turns) new_tracker))"
  have "quiet int_cost ''a'' plain_turns (seed_zero_baseline int_cost ''a'' new_tracker)"
    by code_simp
  moreover have "\<forall>u \<in> set ?us. tu_delta_reliable u" and "length ?us = 2" and "ends_at tu_cumulative_input 0 ?us = 17"
    by code_simp+
  moreover have "(new_tracker :: int UsageTracker) = fst (usage_run int_cost [] new_tracker)"
    and "hm_get (ut_sessions (new_tracker :: int UsageTracker)) ''a'' = None"
    by (simp_all add: new_tracker_def)
  ultimately show ?thesis
    using turn_counts_add_up [of new_tracker int_cost "[]" "''a''" plain_turns ?us] by (simp only: Let_def simp_thms)
qed

text \<open>
  A missing counter is never forgotten. Once a notification for a session has come without its
  input or output counter, in a turn of the session, in a turn of another one or outside any
  turn, every record published for the session afterwards is marked unreliable, carries no
  input, output or cost of the turn, and the metric built from it has no per-turn counts,
  whatever is reported later and whether or not turns were completed in between.
\<close>

theorem absence_is_sticky:
  assumes "up_input p = None \<or> up_output p = None"
    and "us = snd (usage_run ops later (fst (usage_run ops (before @ [Notify s p]) new_tracker)))"
    and "u \<in> set us" and "tu_session_id u = s"
  shows "\<not> tu_delta_reliable u \<and> tu_turn_input u = None \<and> tu_turn_output u = None \<and> tu_turn_cost u = None \<and>
    fst (build_turn_metric_counts u) = None"
proof -
  let ?t = "fst (usage_run ops before new_tracker)" and ?t' = "fst (usage_run ops (before @ [Notify s p]) new_tracker)"
  have t': "?t' = record_usage ops s p ?t"
    by (simp add: usage_run_append usage_run_Cons)
  have "tracker_inv ?t'"
    by (rule tracker_inv_run) (simp add: tracker_inv_def new_tracker_def)
  moreover have "poisoned ?t' s"
    unfolding t' using assms(1) by (intro poisoned_record) simp
  ultimately show ?thesis
    using poisoned_run [OF _ _ _ assms(4)] assms(2,3) by (force simp: withheld_def build_turn_metric_counts_def)
qed

text \<open>The input counter is missing while another session has the turn, and comes back later.\<close>

definition plain_later :: "int usage_call list" where
  "plain_later = [Take, Begin ''a'', Notify ''a'' (plain_report (Some 9) (Some 9) 9), Take]"

theorem absence_is_sticky_witness:
  "let us = snd (usage_run int_cost plain_later (fst (usage_run int_cost ([Seed ''a'', Begin ''b''] @
       [Notify ''a'' (plain_report None (Some 1) 1)]) new_tracker))) in
     length us = 1 \<and> tu_session_id (hd us) = ''a'' \<and> tu_cumulative_input (hd us) = Some 9 \<and> \<not> tu_delta_reliable (hd us)"
proof -
  let ?us = "snd (usage_run int_cost plain_later (fst (usage_run int_cost ([Seed ''a'', Begin ''b''] @
       [Notify ''a'' (plain_report None (Some 1) 1)]) new_tracker)))"
  have us: "length ?us = 1" "tu_session_id (hd ?us) = ''a''" "tu_cumulative_input (hd ?us) = Some 9"
    by code_simp+
  then have "hd ?us \<in> set ?us"
    by (intro hd_in_set) auto
  from absence_is_sticky [OF _ refl this us(2)]
  have "\<not> tu_delta_reliable (hd ?us)"
    by (simp add: plain_report_def)
  then show ?thesis
    using us by (simp only: Let_def simp_thms)
qed

end
