(* ===== verification/Json.thy ===== *)
theory Json
  imports Prelude
begin

text \<open>
  The JSON values of \<^verbatim>\<open>serde_json\<close>, over a type of numbers. An object is the list of its members in
  the order in which the code would iterate over them.
\<close>

datatype 'n json_scalar = JNull | JBool bool | JNumber 'n | JString string

datatype 'n json = JScalar "'n json_scalar" | JArray "'n json list" | JObject "(string \<times> 'n json) list"

end
