(* ===== verification/Audit_Log.thy ===== *)
theory Audit_Log
  imports Channel Reliable_Stream Json "HOL-Library.Char_ord" "HOL-Library.List_Lexorder"
begin

text \<open>
  The audit log, \<^verbatim>\<open>crates/buzz-audit/src\<close>: actions, entries, the canonical form of their JSON detail,
  the hash of an entry, and the service that appends to and verifies the chain of a community.
  \<^item> \<open>audit_env\<close> holds what is third-party: SHA-256, the text of a timestamp and its reduction to
    microseconds (chrono), the JSON text of a scalar (serde), the bytes of a uuid, and what a JSON
    detail looks like after a round trip through the database.
  \<^item> The table is the list of its rows in the order of insertion. Appends of one community are
    serialised by an advisory lock, so an append is one step; communities interleave.
  \<^item> A string is the list of its bytes.
\<close>

section \<open>Actions\<close>

datatype AuditAction =
  EventCreated | EventDeleted | ChannelCreated | ChannelUpdated | ChannelDeleted
| MemberAdded | MemberRemoved | AuthSuccess | AuthFailure | RateLimitExceeded | MediaUploaded

fun action_as_str :: "AuditAction \<Rightarrow> string" where
  "action_as_str EventCreated = ''event_created''"
| "action_as_str EventDeleted = ''event_deleted''"
| "action_as_str ChannelCreated = ''channel_created''"
| "action_as_str ChannelUpdated = ''channel_updated''"
| "action_as_str ChannelDeleted = ''channel_deleted''"
| "action_as_str MemberAdded = ''member_added''"
| "action_as_str MemberRemoved = ''member_removed''"
| "action_as_str AuthSuccess = ''auth_success''"
| "action_as_str AuthFailure = ''auth_failure''"
| "action_as_str RateLimitExceeded = ''rate_limit_exceeded''"
| "action_as_str MediaUploaded = ''media_uploaded''"

definition ALL_ACTIONS :: "AuditAction list" where
  "ALL_ACTIONS =
     [EventCreated, EventDeleted, ChannelCreated, ChannelUpdated, ChannelDeleted, MemberAdded, MemberRemoved,
      AuthSuccess, AuthFailure, RateLimitExceeded, MediaUploaded]"

definition action_from_str :: "string \<Rightarrow> string + AuditAction" where
  "action_from_str s =
     (case find (\<lambda>a. action_as_str a = s) ALL_ACTIONS of Some a \<Rightarrow> Inr a | None \<Rightarrow> Inl s)"

section \<open>Canonical JSON\<close>

record ('t, 'n) audit_env =
  sha256 :: "bytes \<Rightarrow> bytes"
  rfc3339 :: "'t \<Rightarrow> string"
  trunc_micros :: "'t \<Rightarrow> 't"
  scalar_text :: "'n json_scalar \<Rightarrow> string option"
  entry_uuid :: uuid_codec
  db_detail :: "'n json \<Rightarrow> 'n json"

lemma size_member: "(k, v) \<in> set kvs \<Longrightarrow> size v \<le> size_list (size_prod (\<lambda>_. 0) size) kvs"
  by (induction kvs) auto

function canonical_json :: "('n json_scalar \<Rightarrow> string option) \<Rightarrow> 'n json \<Rightarrow> string option" where
  "canonical_json txt (JScalar v) = txt v"
| "canonical_json txt (JArray vs) =
     map_option (\<lambda>parts. ''['' @ join_with (CHR '','') parts @ '']'')
       (those (map (canonical_json txt) vs))"
| "canonical_json txt (JObject kvs) =
     map_option (\<lambda>parts. CHR 0x7B # join_with (CHR '','') parts @ [CHR 0x7D])
       (those (map (\<lambda>(k, v). case txt (JString k) of
                      None \<Rightarrow> None
                    | Some key \<Rightarrow> map_option (\<lambda>value. key @ CHR '':'' # value) (canonical_json txt v))
                (sort_key fst kvs)))"
  by pat_completeness auto
termination
  by (relation "measure (\<lambda>(txt, v). size v)") (auto simp: size_member less_Suc_eq_le intro: size_list_estimation')

section \<open>Entries and their hash\<close>

record ('t, 'n) AuditEntry =
  ae_community_id :: uuid
  ae_seq :: int
  ae_hash :: bytes
  ae_prev_hash :: "bytes option"
  ae_action :: AuditAction
  ae_actor_pubkey :: "bytes option"
  ae_object_id :: "string option"
  ae_detail :: "'n json"
  ae_created_at :: 't

record 'n NewAuditEntry =
  ne_community_id :: uuid
  ne_action :: AuditAction
  ne_actor_pubkey :: "bytes option"
  ne_object_id :: "string option"
  ne_detail :: "'n json"

definition GENESIS_HASH :: bytes where "GENESIS_HASH = replicate 32 0"

definition str_bytes :: "string \<Rightarrow> bytes" where
  "str_bytes s = map of_char s"

text \<open>\<open>i64::to_be_bytes\<close>.\<close>

definition to_be_bytes :: "int \<Rightarrow> bytes" where
  "to_be_bytes n = rev (map (\<lambda>i. word_of_int (n div 256 ^ i)) [0..<8])"

definition tagged :: "bytes option \<Rightarrow> bytes" where
  "tagged x = (case x of Some bs \<Rightarrow> 1 # bs | None \<Rightarrow> [0])"

definition preimage :: "('t, 'n) audit_env \<Rightarrow> ('t, 'n) AuditEntry \<Rightarrow> bytes option" where
  "preimage env e =
     map_option
       (\<lambda>detail.
          uuid_as_bytes (entry_uuid env) (ae_community_id e) @
          to_be_bytes (ae_seq e) @
          str_bytes (rfc3339 env (trunc_micros env (ae_created_at e))) @
          str_bytes (action_as_str (ae_action e)) @
          tagged (ae_actor_pubkey e) @
          tagged (map_option str_bytes (ae_object_id e)) @
          str_bytes detail @
          (case ae_prev_hash e of Some h \<Rightarrow> h | None \<Rightarrow> GENESIS_HASH))
       (canonical_json (scalar_text env) (ae_detail e))"

datatype AuditError =
  AuditDatabase
| ChainViolation int
| HashMismatch int
| UnknownAction
| AuditSerialization

definition compute_hash :: "('t, 'n) audit_env \<Rightarrow> ('t, 'n) AuditEntry \<Rightarrow> AuditError + bytes" where
  "compute_hash env e =
     (case preimage env e of None \<Rightarrow> Inl AuditSerialization | Some bs \<Rightarrow> Inr (sha256 env bs))"

section \<open>The service\<close>

text \<open>A row keeps the text of its action; its detail and its timestamp are read back from the database.\<close>

record ('t, 'n) audit_row =
  row_entry :: "('t, 'n) AuditEntry"
  row_action :: string

type_synonym ('t, 'n) audit_table = "('t, 'n) audit_row list"

definition row_to_audit_entry :: "('t, 'n) audit_env \<Rightarrow> ('t, 'n) audit_row \<Rightarrow> AuditError + ('t, 'n) AuditEntry" where
  "row_to_audit_entry env row =
     (case action_from_str (row_action row) of
        Inl _ \<Rightarrow> Inl UnknownAction
      | Inr a \<Rightarrow> Inr ((row_entry row)\<lparr>ae_action := a\<rparr>))"

definition store_row :: "('t, 'n) audit_env \<Rightarrow> ('t, 'n) AuditEntry \<Rightarrow> ('t, 'n) audit_row" where
  "store_row env e =
     \<lparr>row_entry = e\<lparr>ae_detail := db_detail env (ae_detail e), ae_created_at := trunc_micros env (ae_created_at e)\<rparr>,
      row_action = action_as_str (ae_action e)\<rparr>"

definition rows_of :: "uuid \<Rightarrow> ('t, 'n) audit_table \<Rightarrow> ('t, 'n) audit_row list" where
  "rows_of c table =
     sort_key (\<lambda>row. ae_seq (row_entry row)) (filter (\<lambda>row. ae_community_id (row_entry row) = c) table)"

text \<open>The head of a chain: \<open>ORDER BY seq DESC LIMIT 1\<close>.\<close>

definition chain_head :: "uuid \<Rightarrow> ('t, 'n) audit_table \<Rightarrow> int \<times> bytes option" where
  "chain_head c table =
     (case rows_of c table of
        [] \<Rightarrow> (0, None)
      | rows \<Rightarrow> (ae_seq (row_entry (last rows)), Some (ae_hash (row_entry (last rows)))))"

text \<open>How an append meets the database: it works, or fails before or after the commit took effect.\<close>

datatype audit_fault = NoAuditFault | AuditFault bool

definition log_entry ::
  "('t, 'n) audit_env \<Rightarrow> audit_fault \<Rightarrow> 't \<Rightarrow> 'n NewAuditEntry \<Rightarrow> ('t, 'n) audit_table \<Rightarrow>
     ('t, 'n) audit_table \<times> (AuditError + ('t, 'n) AuditEntry)" where
  "log_entry env f now new table =
     (case chain_head (ne_community_id new) table of
        (prev_seq, prev_hash) \<Rightarrow>
          (let e = \<lparr>ae_community_id = ne_community_id new, ae_seq = prev_seq + 1, ae_hash = [],
                    ae_prev_hash = prev_hash, ae_action = ne_action new,
                    ae_actor_pubkey = ne_actor_pubkey new, ae_object_id = ne_object_id new,
                    ae_detail = ne_detail new, ae_created_at = trunc_micros env now\<rparr>
           in case compute_hash env e of
                Inl err \<Rightarrow> (table, Inl err)
              | Inr h \<Rightarrow>
                  (let table' = table @ [store_row env (e\<lparr>ae_hash := h\<rparr>)]
                   in case f of
                        NoAuditFault \<Rightarrow> (table', Inr (e\<lparr>ae_hash := h\<rparr>))
                      | AuditFault applied \<Rightarrow> (if applied then table' else table, Inl AuditDatabase))))"

fun verify_rows ::
  "('t, 'n) audit_env \<Rightarrow> bytes option \<Rightarrow> ('t, 'n) audit_row list \<Rightarrow> AuditError + unit" where
  "verify_rows env expected_prev [] = Inr ()"
| "verify_rows env expected_prev (row # rows) =
     (case row_to_audit_entry env row of
        Inl err \<Rightarrow> Inl err
      | Inr e \<Rightarrow>
          if expected_prev \<noteq> None \<and> ae_prev_hash e \<noteq> expected_prev then Inl (ChainViolation (ae_seq e))
          else
            (case compute_hash env e of
               Inl err \<Rightarrow> Inl err
             | Inr computed \<Rightarrow>
                 if computed \<noteq> ae_hash e then Inl (HashMismatch (ae_seq e))
                 else verify_rows env (Some (ae_hash e)) rows))"

definition rows_between :: "uuid \<Rightarrow> int \<Rightarrow> int \<Rightarrow> ('t, 'n) audit_table \<Rightarrow> ('t, 'n) audit_row list" where
  "rows_between c from to table =
     filter (\<lambda>row. from \<le> ae_seq (row_entry row) \<and> ae_seq (row_entry row) \<le> to) (rows_of c table)"

definition verify_chain ::
  "('t, 'n) audit_env \<Rightarrow> uuid \<Rightarrow> int \<Rightarrow> int \<Rightarrow> ('t, 'n) audit_table \<Rightarrow> AuditError + bool" where
  "verify_chain env c from to table =
     (case rows_between c from to table of
        [] \<Rightarrow> Inr False
      | rows \<Rightarrow> map_sum id (\<lambda>_. True) (verify_rows env None rows))"

fun collect_entries ::
  "('t, 'n) audit_env \<Rightarrow> ('t, 'n) audit_row list \<Rightarrow> AuditError + ('t, 'n) AuditEntry list" where
  "collect_entries env [] = Inr []"
| "collect_entries env (row # rows) =
     (case row_to_audit_entry env row of
        Inl err \<Rightarrow> Inl err
      | Inr e \<Rightarrow> map_sum id (\<lambda>es. e # es) (collect_entries env rows))"

text \<open>A negative limit is an error of the database.\<close>

definition get_entries ::
  "('t, 'n) audit_env \<Rightarrow> uuid \<Rightarrow> int \<Rightarrow> int \<Rightarrow> ('t, 'n) audit_table \<Rightarrow> AuditError + ('t, 'n) AuditEntry list" where
  "get_entries env c from limit table =
     (if limit < 0 then Inl AuditDatabase
      else collect_entries env
             (take (nat limit) (filter (\<lambda>row. from \<le> ae_seq (row_entry row)) (rows_of c table))))"

end
