(* ===== verification/Audit_Log_Props.thy ===== *)
theory Audit_Log_Props
  imports Audit_Log Reliable_Stream_Props
begin

text \<open>
  Correctness of the audit log: the canonical form of a JSON value does not depend on the order of
  object keys; every chain the service writes verifies, over any range and any interleaving of
  communities; a verified chain pins the preimages of all its entries to its last hash; and the
  preimage of an entry does not pin its fields, because two of them are not delimited.
\<close>

interpretation audit_action: canonical_strings action_as_str action_from_str
proof unfold_locales
  show "action_from_str (action_as_str x) = Inr x" for x
    by (cases x) (simp_all add: action_from_str_def ALL_ACTIONS_def)
qed (auto simp: action_from_str_def find_Some_iff split: option.splits)

section \<open>Canonical JSON\<close>

text \<open>Equal up to the order of object keys, at any depth.\<close>

inductive same_json :: "'n json \<Rightarrow> 'n json \<Rightarrow> bool" where
  scalar: "same_json (JScalar v) (JScalar v)"
| array: "list_all2 same_json vs ws \<Longrightarrow> same_json (JArray vs) (JArray ws)"
| object: "distinct (map fst kvs) \<Longrightarrow> distinct (map fst kws) \<Longrightarrow> fst ` set kvs = fst ` set kws \<Longrightarrow>
    (\<forall>k v w. (k, v) \<in> set kvs \<and> (k, w) \<in> set kws \<longrightarrow> same_json v w) \<Longrightarrow>
    same_json (JObject kvs) (JObject kws)"

lemma sorted_keys: "distinct (map fst kvs) \<Longrightarrow> map fst (sort_key fst kvs) = sorted_list_of_set (fst ` set kvs)"
proof -
  assume d: "distinct (map fst kvs)"
  have "sorted (map fst (sort_key fst kvs))" and "distinct (map fst (sort_key fst kvs))"
    using d by (simp_all add: distinct_map)
  moreover have "set (map fst (sort_key fst kvs)) = fst ` set kvs"
    by simp
  ultimately show ?thesis
    by (metis sorted_list_of_set.idem_if_sorted_distinct)
qed

lemma canonical_json_order_free: "same_json v w \<Longrightarrow> canonical_json txt v = canonical_json txt w"
proof (induction rule: same_json.induct)
  case (array vs ws)
  then have "map (canonical_json txt) vs = map (canonical_json txt) ws"
    by (auto simp: list_all2_conv_all_nth intro: nth_equalityI)
  then show ?case
    by simp
next
  case (object kvs kws)
  let ?f = "\<lambda>(k, v). case txt (JString k) of None \<Rightarrow> None
    | Some key \<Rightarrow> map_option (\<lambda>value. key @ CHR '':'' # value) (canonical_json txt v)"
  let ?a = "sort_key fst kvs" and ?b = "sort_key fst kws"
  have keys: "map fst ?a = map fst ?b"
    using sorted_keys [OF object(1)] sorted_keys [OF object(2)] object(3) by simp
  then have len: "length ?a = length ?b"
    by (metis length_map)
  have "?f (?a ! i) = ?f (?b ! i)" if i: "i < length ?a" for i
  proof -
    obtain k v k' w where at: "?a ! i = (k, v)" "?b ! i = (k', w)"
      by (metis surj_pair)
    have "k = k'"
      using arg_cong [OF keys, of "\<lambda>xs. xs ! i"] i len at by simp
    moreover have "(k, v) \<in> set kvs" and "(k', w) \<in> set kws"
      using nth_mem [of i ?a] nth_mem [of i ?b] i len at by simp_all
    ultimately have "canonical_json txt v = canonical_json txt w"
      using object(4) by blast
    then show ?thesis
      using at \<open>k = k'\<close> by (simp split: option.split)
  qed
  then have "map ?f ?a = map ?f ?b"
    using len by (auto intro: nth_equalityI)
  then show ?case
    by simp
qed simp

section \<open>Chains\<close>

text \<open>The keys of a \<^verbatim>\<open>serde_json\<close> object are distinct.\<close>

function json_ok :: "'n json \<Rightarrow> bool" where
  "json_ok (JScalar v) \<longleftrightarrow> True"
| "json_ok (JArray vs) \<longleftrightarrow> list_all json_ok vs"
| "json_ok (JObject kvs) \<longleftrightarrow> distinct (map fst kvs) \<and> list_all (\<lambda>p. json_ok (snd p)) kvs"
  by pat_completeness auto
termination
  by (relation "measure size") (auto simp: size_member less_Suc_eq_le intro: size_list_estimation')

lemma same_json_refl: "json_ok v \<Longrightarrow> same_json v v"
proof (induction v rule: json_ok.induct)
  case (3 kvs)
  then have "same_json v w" if "(k, v) \<in> set kvs" "(k, w) \<in> set kvs" for k v w
    using that by (auto simp: list_all_iff dest: eq_key_imp_eq_value)
  then show ?case
    using 3(2) by (auto intro: same_json.object)
qed (auto simp: list_all_iff list.rel_refl_strong intro!: same_json.intros)

text \<open>What the code relies on of chrono and of the database.\<close>

definition audit_laws :: "('t, 'n) audit_env \<Rightarrow> bool" where
  "audit_laws env \<longleftrightarrow>
     (\<forall>t. trunc_micros env (trunc_micros env t) = trunc_micros env t) \<and> (\<forall>v. json_ok v \<longrightarrow> same_json (db_detail env v) v)"

text \<open>A chain that continues one that ended with \<open>n\<close> entries and the hash \<open>prev\<close>.\<close>

fun chain_from :: "('t, 'n) audit_env \<Rightarrow> bytes option \<Rightarrow> int \<Rightarrow> ('t, 'n) audit_row list \<Rightarrow> bool" where
  "chain_from env prev n [] \<longleftrightarrow> True"
| "chain_from env prev n (row # rows) \<longleftrightarrow>
     row_to_audit_entry env row = Inr (row_entry row) \<and> ae_seq (row_entry row) = n + 1 \<and>
     ae_prev_hash (row_entry row) = prev \<and> compute_hash env (row_entry row) = Inr (ae_hash (row_entry row)) \<and>
     chain_from env (Some (ae_hash (row_entry row))) (n + 1) rows"

lemma chain_from_append:
  "chain_from env prev n (xs @ ys) \<longleftrightarrow>
     chain_from env prev n xs \<and>
     chain_from env (if xs = [] then prev else Some (ae_hash (row_entry (last xs)))) (n + int (length xs)) ys"
  by (induction xs arbitrary: prev n) (auto simp: algebra_simps)

lemma chain_from_seqs: "chain_from env prev n rows \<Longrightarrow> map (\<lambda>row. ae_seq (row_entry row)) rows = map (\<lambda>i. n + 1 + int i) [0..<length rows]"
proof (induction rows arbitrary: prev n)
  case (Cons row rows)
  then have "map (\<lambda>row. ae_seq (row_entry row)) rows = map (\<lambda>i. n + 1 + int (Suc i)) [0..<length rows]"
    by (force simp: algebra_simps)
  then show ?case
    using Cons.prems by (simp add: upt_conv_Cons map_Suc_upt [symmetric] comp_def del: upt_Suc)
qed simp

definition own_rows :: "uuid \<Rightarrow> ('t, 'n) audit_table \<Rightarrow> ('t, 'n) audit_row list" where
  "own_rows c table = filter (\<lambda>row. ae_community_id (row_entry row) = c) table"

definition table_inv :: "('t, 'n) audit_env \<Rightarrow> ('t, 'n) audit_table \<Rightarrow> bool" where
  "table_inv env table \<longleftrightarrow> (\<forall>c. chain_from env None 0 (own_rows c table))"

lemma rows_of_own:
  assumes "table_inv env table"
  shows "rows_of c table = own_rows c table"
proof -
  have "map (\<lambda>row. ae_seq (row_entry row)) (own_rows c table) = map (\<lambda>i. 0 + 1 + int i) [0..<length (own_rows c table)]"
    using assms chain_from_seqs [of env None 0 "own_rows c table"] by (simp add: table_inv_def)
  then have "sorted (map (\<lambda>row. ae_seq (row_entry row)) (own_rows c table))"
    by (simp add: sorted_iff_nth_mono)
  then show ?thesis
    unfolding rows_of_def own_rows_def by (rule sort_key_id_if_sorted)
qed

lemma chain_head_own:
  assumes "table_inv env table"
  shows "chain_head c table = (int (length (own_rows c table)),
    if own_rows c table = [] then None else Some (ae_hash (row_entry (last (own_rows c table)))))"
proof (cases "own_rows c table" rule: rev_cases)
  case (snoc rows row)
  have "chain_from env None 0 (rows @ [row])"
    using assms snoc by (metis table_inv_def)
  then have "ae_seq (row_entry row) = int (length rows) + 1"
    by (simp add: chain_from_append)
  then show ?thesis
    using snoc by (cases rows) (simp_all add: chain_head_def rows_of_own [OF assms])
qed (simp add: chain_head_def rows_of_own [OF assms])

lemma store_row_chains:
  assumes "audit_laws env" and "json_ok (ae_detail e)" and "compute_hash env e = Inr h"
  shows "chain_from env (ae_prev_hash e) (ae_seq e - 1) [store_row env (e\<lparr>ae_hash := h\<rparr>)]"
proof -
  have "canonical_json (scalar_text env) (db_detail env (ae_detail e)) = canonical_json (scalar_text env) (ae_detail e)"
    by (rule canonical_json_order_free) (use assms(1,2) in \<open>simp add: audit_laws_def\<close>)
  then show ?thesis
    using assms by (simp add: store_row_def row_to_audit_entry_def audit_action.from_as compute_hash_def preimage_def audit_laws_def)
qed

lemma log_entry_inv:
  assumes "audit_laws env" and "table_inv env table" and "json_ok (ne_detail new)"
  shows "table_inv env (fst (log_entry env f now new table))"
proof -
  define c where "c = ne_community_id new"
  define e where "e = \<lparr>ae_community_id = c, ae_seq = int (length (own_rows c table)) + 1, ae_hash = [],
    ae_prev_hash = (if own_rows c table = [] then None else Some (ae_hash (row_entry (last (own_rows c table))))),
    ae_action = ne_action new, ae_actor_pubkey = ne_actor_pubkey new, ae_object_id = ne_object_id new,
    ae_detail = ne_detail new, ae_created_at = trunc_micros env now\<rparr>"
  have "table_inv env (table @ [store_row env (e\<lparr>ae_hash := h\<rparr>)])" if h: "compute_hash env e = Inr h" for h
  proof -
    have "chain_from env None 0 (own_rows c' table)" for c'
      using assms(2) by (simp add: table_inv_def)
    moreover have "chain_from env (ae_prev_hash e) (int (length (own_rows c table))) [store_row env (e\<lparr>ae_hash := h\<rparr>)]"
      using store_row_chains [OF assms(1) _ h] assms(3) by (simp add: e_def)
    moreover have "own_rows c' [store_row env (e\<lparr>ae_hash := h\<rparr>)] = (if c' = c then [store_row env (e\<lparr>ae_hash := h\<rparr>)] else [])" for c'
      by (simp add: own_rows_def store_row_def e_def)
    ultimately show ?thesis
      by (auto simp: table_inv_def own_rows_def chain_from_append e_def)
  qed
  moreover have "fst (log_entry env f now new table) = table \<or>
      (\<exists>h. compute_hash env e = Inr h \<and> fst (log_entry env f now new table) = table @ [store_row env (e\<lparr>ae_hash := h\<rparr>)])"
    by (auto simp: log_entry_def chain_head_own [OF assms(2)] Let_def c_def e_def split: sum.split audit_fault.split)
  ultimately show ?thesis
    using assms(2) by auto
qed

interpretation audit: invariant_system "\<lambda>t. t = []"
  "\<lambda>t t'. audit_laws env \<and> (\<exists>f now new. json_ok (ne_detail new) \<and> t' = fst (log_entry env f now new t))" "table_inv env"
proof unfold_locales
  show "t = [] \<Longrightarrow> table_inv env t" for t :: "('a, 'b) audit_table"
    by (simp add: table_inv_def own_rows_def)
qed (auto intro: log_entry_inv)

section \<open>Verification\<close>

abbreviation between :: "int \<Rightarrow> int \<Rightarrow> ('t, 'n) audit_row \<Rightarrow> bool" where
  "between from to row \<equiv> from \<le> ae_seq (row_entry row) \<and> ae_seq (row_entry row) \<le> to"

lemma chain_beyond: "chain_from env prev n rows \<Longrightarrow> to \<le> n \<Longrightarrow> filter (between from to) rows = []"
  by (induction rows arbitrary: prev n) force+

lemma verify_chain_segment:
  assumes "chain_from env prev n rows" and "expected = None \<or> expected = prev \<and> from \<le> n + 1"
  shows "verify_rows env expected (filter (between from to) rows) = Inr ()"
  using assms
proof (induction rows arbitrary: prev n expected)
  case (Cons row rows)
  let ?h = "Some (ae_hash (row_entry row))"
  have rest: "chain_from env ?h (n + 1) rows" and row: "row_to_audit_entry env row = Inr (row_entry row)"
    "ae_seq (row_entry row) = n + 1" "ae_prev_hash (row_entry row) = prev"
    "compute_hash env (row_entry row) = Inr (ae_hash (row_entry row))"
    using Cons.prems(1) by simp_all
  consider "n + 1 < from" | "to < n + 1" | "from \<le> n + 1" "n + 1 \<le> to"
    by linarith
  then show ?case
  proof cases
    case 1
    then show ?thesis
      using Cons.IH [OF rest, of None] Cons.prems(2) row(2) by simp
  next
    case 2
    then have "filter (between from to) (row # rows) = []"
      using chain_beyond [OF Cons.prems(1)] by simp
    then show ?thesis
      by simp
  next
    case 3
    then show ?thesis
      using Cons.IH [OF rest, of ?h] Cons.prems(2) row by auto
  qed
qed simp

lemma chain_between_empty:
  assumes "chain_from env prev 0 rows"
  shows "filter (between from to) rows = [] \<longleftrightarrow> \<not> max 1 from \<le> min to (int (length rows))"
proof -
  have seqs: "ae_seq (row_entry (rows ! i)) = 1 + int i" if "i < length rows" for i
    using arg_cong [OF chain_from_seqs [OF assms], of "\<lambda>xs. xs ! i"] that by simp
  have "filter (between from to) rows \<noteq> [] \<longleftrightarrow> (\<exists>i < length rows. from \<le> 1 + int i \<and> 1 + int i \<le> to)"
  proof -
    have "filter (between from to) rows \<noteq> [] \<longleftrightarrow> (\<exists>i < length rows. between from to (rows ! i))"
      by (metis (no_types, lifting) filter_empty_conv in_set_conv_nth)
    then show ?thesis
      using seqs by auto
  qed
  also have "\<dots> \<longleftrightarrow> max 1 from \<le> min to (int (length rows))"
  proof
    assume "max 1 from \<le> min to (int (length rows))"
    then have "nat (max 1 from - 1) < length rows" and "from \<le> 1 + int (nat (max 1 from - 1))" and "1 + int (nat (max 1 from - 1)) \<le> to"
      by auto
    then show "\<exists>i < length rows. from \<le> 1 + int i \<and> 1 + int i \<le> to"
      by blast
  qed auto
  finally show ?thesis
    by blast
qed


section \<open>Tampering\<close>

definition row_preimage :: "('t, 'n) audit_env \<Rightarrow> ('t, 'n) audit_row \<Rightarrow> bytes option" where
  "row_preimage env row =
     (case row_to_audit_entry env row of Inr e \<Rightarrow> preimage env e | Inl _ \<Rightarrow> None)"

definition row_hash :: "('t, 'n) audit_row \<Rightarrow> bytes" where
  "row_hash row = ae_hash (row_entry row)"

lemma row_to_audit_entry_fields:
  assumes "row_to_audit_entry env row = Inr e"
  shows "ae_hash e = row_hash row" and "ae_prev_hash e = ae_prev_hash (row_entry row)"
    and "ae_community_id e = ae_community_id (row_entry row)"
  using assms by (auto simp: row_to_audit_entry_def row_hash_def split: sum.splits)

lemma verify_rows_append:
  "verify_rows env expected (xs @ ys) =
     (case verify_rows env expected xs of
        Inl e \<Rightarrow> Inl e
      | Inr _ \<Rightarrow> verify_rows env (if xs = [] then expected else Some (row_hash (last xs))) ys)"
  by (induction xs arbitrary: expected) (auto simp: row_to_audit_entry_fields split: sum.split)

lemma verified_last:
  assumes "verify_rows env None (xs @ [row]) = Inr ()"
  obtains pre where "verify_rows env None xs = Inr ()" and "row_preimage env row = Some pre"
    and "row_hash row = sha256 env pre" and "xs \<noteq> [] \<Longrightarrow> \<exists>front. pre = front @ row_hash (last xs)"
proof -
  have xs: "verify_rows env None xs = Inr ()"
    and last: "verify_rows env (if xs = [] then None else Some (row_hash (last xs))) [row] = Inr ()"
    using assms by (cases "verify_rows env None xs"; simp add: verify_rows_append del: verify_rows.simps(2))+
  obtain e where e: "row_to_audit_entry env row = Inr e"
    using last by (cases "row_to_audit_entry env row") auto
  obtain pre where pre: "preimage env e = Some pre" "ae_hash e = sha256 env pre"
    using last e by (auto simp: compute_hash_def split: option.splits if_splits)
  have "\<exists>front. pre = front @ row_hash (last xs)" if "xs \<noteq> []"
  proof -
    have "ae_prev_hash e = Some (row_hash (last xs))"
      using last e that by (auto split: if_splits)
    then show ?thesis
      using pre(1) by (auto simp: preimage_def)
  qed
  then show ?thesis
    using that [OF xs] pre e row_to_audit_entry_fields(1) [OF e] by (auto simp: row_preimage_def)
qed

lemma verified_suffix:
  assumes "\<And>bs. length (sha256 env bs) = 32" and "verify_rows env None rows = Inr ()" and "verify_rows env None rows' = Inr ()"
    and "rows \<noteq> []" and "rows' \<noteq> []" and "row_hash (last rows) = row_hash (last rows')"
    and "inj_on (sha256 env) {bs. \<exists>row \<in> set rows \<union> set rows'. row_preimage env row = Some bs}"
  shows "suffix (map (row_preimage env) rows) (map (row_preimage env) rows') \<or>
    suffix (map (row_preimage env) rows') (map (row_preimage env) rows)"
  using assms(2-7)
proof (induction rows arbitrary: rows' rule: rev_induct)
  case (snoc row xs)
  obtain xs' row' where rows': "rows' = xs' @ [row']"
    using snoc.prems(4) by (metis rev_exhaust)
  obtain pre where pre: "verify_rows env None xs = Inr ()" "row_preimage env row = Some pre" "row_hash row = sha256 env pre"
    "xs \<noteq> [] \<Longrightarrow> \<exists>front. pre = front @ row_hash (last xs)"
    using verified_last [OF snoc.prems(1)] by metis
  obtain pre' where pre': "verify_rows env None xs' = Inr ()" "row_preimage env row' = Some pre'" "row_hash row' = sha256 env pre'"
    "xs' \<noteq> [] \<Longrightarrow> \<exists>front. pre' = front @ row_hash (last xs')"
    using verified_last [OF snoc.prems(2) [unfolded rows']] by metis
  have "sha256 env pre = sha256 env pre'"
    using snoc.prems(5) pre(3) pre'(3) rows' by simp
  then have eq: "pre = pre'"
    by (rule inj_onD [OF snoc.prems(6)]) (use pre(2) pre'(2) rows' in auto)
  show ?case
  proof (cases "xs = [] \<or> xs' = []")
    case True
    then show ?thesis
      using eq pre(2) pre'(2) rows' by auto
  next
    case False
    have hash: "length (row_hash (last ys)) = 32" if "ys \<noteq> []" "verify_rows env None ys = Inr ()" for ys
      using that assms(1) verified_last [of env "butlast ys" "last ys"] by (metis append_butlast_last_id)
    have "row_hash (last xs) = row_hash (last xs')"
      using pre(4) pre'(4) False eq hash [OF _ pre(1)] hash [OF _ pre'(1)] by auto
    moreover have "inj_on (sha256 env) {bs. \<exists>r \<in> set xs \<union> set xs'. row_preimage env r = Some bs}"
      by (rule inj_on_subset [OF snoc.prems(6)]) (auto simp: rows')
    ultimately have "suffix (map (row_preimage env) xs) (map (row_preimage env) xs') \<or>
        suffix (map (row_preimage env) xs') (map (row_preimage env) xs)"
      using snoc.IH [OF pre(1) pre'(1)] False by simp
    then show ?thesis
      using eq pre(2) pre'(2) rows' by (auto simp: suffix_def)
  qed
qed simp

lemma suffix_rev_nth: "suffix xs ys \<Longrightarrow> i < length xs \<Longrightarrow> rev xs ! i = rev ys ! i"
  by (auto simp: suffix_def nth_append)

lemma preimage_community:
  assumes "uuid_laws (entry_uuid env)" and "preimage env e = Some bs" and "preimage env e' = Some bs"
  shows "ae_community_id e = ae_community_id e'"
proof -
  let ?b = "uuid_as_bytes (entry_uuid env)"
  have "take 16 bs = ?b (ae_community_id e)" and "take 16 bs = ?b (ae_community_id e')"
    using assms by (auto simp: preimage_def uuid_laws_def)
  then show ?thesis
    using assms(1) unfolding uuid_laws_def by metis
qed


text \<open>
  The object id and the detail of an entry are not delimited in its preimage. Whenever the text of
  one scalar is a suffix of the text of another, moving the difference from the detail to the end
  of the object id gives a different entry with the same preimage, hence the same hash: an entry
  for object \<open>x\<close> with detail \<open>12\<close> verifies as one for object \<open>x1\<close> with detail \<open>2\<close>.
\<close>

theorem undelimited_fields_collide:
  assumes "scalar_text env a = Some (p @ q)" and "scalar_text env b = Some q"
  shows "compute_hash env (e\<lparr>ae_object_id := Some (x @ p), ae_detail := JScalar b\<rparr>) =
    compute_hash env (e\<lparr>ae_object_id := Some x, ae_detail := JScalar a\<rparr>)"
  using assms by (simp add: compute_hash_def preimage_def tagged_def str_bytes_def)

section \<open>An instance\<close>

fun sample_scalar_text :: "nat json_scalar \<Rightarrow> string option" where
  "sample_scalar_text (JNumber n) = Some (decimal n)"
| "sample_scalar_text (JString s) = Some (CHR 34 # s @ [CHR 34])"
| "sample_scalar_text v = Some ''null''"

definition sample_audit :: "(nat, nat) audit_env" where
  "sample_audit =
     \<lparr>sha256 = \<lambda>bs. replicate 31 0 @ [word_of_nat (length bs)], rfc3339 = \<lambda>_. ''t'', trunc_micros = id,
      scalar_text = sample_scalar_text, entry_uuid = plain_uuid, db_detail = id\<rparr>"

definition sample_new :: "string option \<Rightarrow> nat NewAuditEntry" where
  "sample_new x =
     \<lparr>ne_community_id = 7, ne_action = EventCreated, ne_actor_pubkey = None, ne_object_id = x,
      ne_detail = JScalar (JNumber 12)\<rparr>"

definition sample_table :: "(nat, nat) audit_table" where
  "sample_table =
     fst (log_entry sample_audit NoAuditFault 3 (sample_new (Some ''x''))
       (fst (log_entry sample_audit (AuditFault True) 2 (sample_new None) [])))"

lemma sample_laws: "audit_laws sample_audit"
  by (simp add: audit_laws_def sample_audit_def same_json_refl)

lemma sample_row_text: "sample_scalar_text (JNumber 12) = Some ''12''" "sample_scalar_text (JNumber 2) = Some ''2''"
  by code_simp+

lemma created_text: "action_from_str ''event_created'' = Inr EventCreated"
  using audit_action.from_as [of EventCreated] by simp

lemma length_to_be_bytes [simp]: "length (to_be_bytes n) = 8"
  by (simp add: to_be_bytes_def)

lemma length_plain_uuid: "length (uuid_as_bytes plain_uuid u) = 16"
  using plain_uuid_laws by (simp add: uuid_laws_def)

lemmas sample_simps = sample_audit_def sample_new_def log_entry_def chain_head_def rows_of_def compute_hash_def
  preimage_def sample_row_text length_plain_uuid tagged_def str_bytes_def GENESIS_HASH_def store_row_def Let_def
  row_to_audit_entry_def created_text

definition sample_row :: "int \<Rightarrow> bytes \<Rightarrow> bytes option \<Rightarrow> string option \<Rightarrow> nat \<Rightarrow> (nat, nat) audit_row" where
  "sample_row n h prev x t =
     \<lparr>row_entry =
        \<lparr>ae_community_id = 7, ae_seq = n, ae_hash = h, ae_prev_hash = prev, ae_action = EventCreated, ae_actor_pubkey = None,
         ae_object_id = x, ae_detail = JScalar (JNumber 12), ae_created_at = t\<rparr>,
      row_action = action_as_str EventCreated\<rparr>"

definition sample_hash :: "u8 \<Rightarrow> bytes" where
  "sample_hash n = replicate 31 0 @ [n]"

lemma sample_table_rows:
  "sample_table = [sample_row 1 (sample_hash 74) None None 2, sample_row 2 (sample_hash 75) (Some (sample_hash 74)) (Some ''x'') 3]"
  by (simp add: sample_table_def sample_simps sample_row_def sample_hash_def del: sample_scalar_text.simps)


lemma sample_preimages:
  "\<exists>a b. row_preimage sample_audit (sample_table ! 0) = Some a \<and> row_preimage sample_audit (sample_table ! 1) = Some b \<and>
     length a = 74 \<and> length b = 75"
  by (simp add: sample_table_rows sample_row_def row_preimage_def sample_simps sample_hash_def del: sample_scalar_text.simps)


theorem undelimited_fields_collide_witness:
  "scalar_text sample_audit (JNumber 12) = Some (''1'' @ ''2'') \<and>
   compute_hash sample_audit ((row_entry (hd sample_table))\<lparr>ae_object_id := Some (''x'' @ ''1''), ae_detail := JScalar (JNumber 2)\<rparr>) =
   compute_hash sample_audit ((row_entry (hd sample_table))\<lparr>ae_object_id := Some ''x'', ae_detail := JScalar (JNumber 12)\<rparr>)"
proof -
  have texts: "scalar_text sample_audit (JNumber 12) = Some (''1'' @ ''2'')" "scalar_text sample_audit (JNumber 2) = Some ''2''"
    by (simp_all add: sample_audit_def sample_row_text del: sample_scalar_text.simps)
  show ?thesis
    using texts(1) undelimited_fields_collide [OF texts, of "''x''"] by simp
qed

end
