(* ===== verification/Network.thy ===== *)
theory Network
  imports Prelude "HOL-Library.Word"
begin

text \<open>
  The network address guard, \<^verbatim>\<open>crates/buzz-core/src/network.rs\<close>: which addresses a webhook
  must not reach. An address is a word of 32 or 128 bits; octets and segments are its big-endian
  slices, and \<open>to_ipv4\<close> is the standard library's. The theorem compares the octet and
  segment tests of the code with closed intervals of addresses.
\<close>

unbundle bit_operations_syntax

section \<open>Addresses\<close>

datatype IpAddr = V4 "32 word" | V6 "128 word"

text \<open>The \<open>m\<close> lowest digits of a word in base \<open>2 ^ LENGTH('b)\<close>, the highest first.\<close>

definition be_slices :: "nat \<Rightarrow> 'a::len word \<Rightarrow> 'b::len word list" where
  "be_slices m a = map (\<lambda>i. ucast (drop_bit (LENGTH('b) * (m - 1 - i)) a)) [0..<m]"

definition v4_octets :: "32 word \<Rightarrow> 8 word list" where "v4_octets = be_slices 4"
definition v6_octets :: "128 word \<Rightarrow> 8 word list" where "v6_octets = be_slices 16"
definition v6_segments :: "128 word \<Rightarrow> 16 word list" where "v6_segments = be_slices 8"

definition Ipv4Addr_new :: "8 word \<Rightarrow> 8 word \<Rightarrow> 8 word \<Rightarrow> 8 word \<Rightarrow> 32 word" where
  "Ipv4Addr_new a b c d = push_bit 24 (ucast a) OR push_bit 16 (ucast b) OR push_bit 8 (ucast c) OR ucast d"

text \<open>\<open>Ipv6Addr::to_ipv4\<close>: compatible and mapped addresses.\<close>

definition to_ipv4 :: "128 word \<Rightarrow> 32 word option" where
  "to_ipv4 v6 =
     (let s = v6_segments v6
      in if take 5 s = replicate 5 0 \<and> (s ! 5 = 0 \<or> s ! 5 = 0xffff)
         then Some (Ipv4Addr_new (ucast (drop_bit 8 (s ! 6))) (ucast (s ! 6))
                      (ucast (drop_bit 8 (s ! 7))) (ucast (s ! 7)))
         else None)"

section \<open>The guard\<close>

definition NAT64_WELL_KNOWN_PREFIX :: "8 word list" where
  "NAT64_WELL_KNOWN_PREFIX = [0x00, 0x64, 0xff, 0x9b, 0, 0, 0, 0, 0, 0, 0, 0]"

definition IPV4_TRANSLATED_PREFIX :: "8 word list" where
  "IPV4_TRANSLATED_PREFIX = [0, 0, 0, 0, 0, 0, 0, 0, 0xff, 0xff, 0, 0]"

definition embedded_ipv4 :: "128 word \<Rightarrow> 8 word list \<Rightarrow> 32 word option" where
  "embedded_ipv4 v6 pfx =
     (let octets = v6_octets v6
      in if take (length pfx) octets = pfx
         then Some (Ipv4Addr_new (octets ! 12) (octets ! 13) (octets ! 14) (octets ! 15))
         else None)"

definition v4_is_loopback :: "32 word \<Rightarrow> bool" where
  "v4_is_loopback a \<longleftrightarrow> v4_octets a ! 0 = 127"

definition v4_is_private :: "32 word \<Rightarrow> bool" where
  "v4_is_private a \<longleftrightarrow>
     (let o4 = v4_octets a
      in o4 ! 0 = 10 \<or> o4 ! 0 = 172 \<and> 16 \<le> o4 ! 1 \<and> o4 ! 1 \<le> 31 \<or> o4 ! 0 = 192 \<and> o4 ! 1 = 168)"

definition v4_is_link_local :: "32 word \<Rightarrow> bool" where
  "v4_is_link_local a \<longleftrightarrow> v4_octets a ! 0 = 169 \<and> v4_octets a ! 1 = 254"

definition v4_is_broadcast :: "32 word \<Rightarrow> bool" where
  "v4_is_broadcast a \<longleftrightarrow> a = 0xffffffff"

definition is_private_v4 :: "32 word \<Rightarrow> bool" where
  "is_private_v4 v4 \<longleftrightarrow>
     (let octets = v4_octets v4
      in v4_is_loopback v4 \<or> v4_is_private v4 \<or> v4_is_link_local v4 \<or> octets ! 0 = 0 \<or> v4_is_broadcast v4 \<or>
         octets ! 0 = 100 \<and> octets ! 1 AND 0xC0 = 64 \<or>
         octets ! 0 = 198 \<and> octets ! 1 AND 0xFE = 18)"

definition is_private_ip :: "IpAddr \<Rightarrow> bool" where
  "is_private_ip ip =
     (case ip of
        V4 v4 \<Rightarrow> is_private_v4 v4
      | V6 v6 \<Rightarrow>
          (case to_ipv4 v6 of
             Some v4 \<Rightarrow> is_private_v4 v4
           | None \<Rightarrow>
               (case embedded_ipv4 v6 NAT64_WELL_KNOWN_PREFIX of
                  Some v4 \<Rightarrow> is_private_v4 v4
                | None \<Rightarrow>
                    (case embedded_ipv4 v6 IPV4_TRANSLATED_PREFIX of
                       Some v4 \<Rightarrow> is_private_v4 v4
                     | None \<Rightarrow>
                         (let segments = v6_segments v6
                          in v6 = 1 \<or> v6 = 0 \<or>
                             segments ! 0 AND 0xfe00 = 0xfc00 \<or>
                             segments ! 0 AND 0xffc0 = 0xfe80 \<or>
                             segments ! 0 AND 0xff00 = 0xff00 \<or>
                             segments ! 0 = 0x0064 \<and> segments ! 1 = 0xff9b \<and> segments ! 2 = 1 \<or>
                             segments ! 0 = 0x2001 \<and> segments ! 1 = 0 \<or>
                             segments ! 0 = 0x2002 \<or>
                             segments ! 0 = 0x2001 \<and> segments ! 1 = 0x0db8)))))"

section \<open>Blocks of addresses\<close>

lemma bit_be_slice:
  "i < m \<Longrightarrow> j < LENGTH('b::len) \<Longrightarrow> bit (be_slices m a ! i :: 'b word) j \<longleftrightarrow> bit a (LENGTH('b) * (m - 1 - i) + j)"
  by (simp add: be_slices_def bit_simps)

text \<open>The first \<open>j\<close> digits determine, and are determined by, the bits above the others.\<close>

lemma be_slices_prefix:
  assumes "LENGTH('a) = LENGTH('b) * m" and "j \<le> m"
  shows "take j (be_slices m a :: 'b::len word list) = take j (be_slices m b) \<longleftrightarrow>
    drop_bit (LENGTH('b) * (m - j)) (a :: 'a::len word) = drop_bit (LENGTH('b) * (m - j)) b"
proof
  let ?w = "LENGTH('b)"
  assume pre: "take j (be_slices m a :: 'b word list) = take j (be_slices m b)"
  show "drop_bit (?w * (m - j)) a = drop_bit (?w * (m - j)) b"
  proof (rule bit_word_eqI)
    fix n
    assume n: "n < LENGTH('a)"
    show "bit (drop_bit (?w * (m - j)) a) n = bit (drop_bit (?w * (m - j)) b) n"
    proof (cases "?w * (m - j) + n < LENGTH('a)")
      case True
      define k where "k = (?w * (m - j) + n) div ?w"
      have "k = (m - j) + n div ?w"
        by (simp add: k_def)
      moreover have "k < m"
        unfolding k_def using True assms(1) by (simp add: div_less_iff_less_mult mult.commute del: div_mult_self4 div_mult_self3 div_mult_self2 div_mult_self1)
      ultimately have i: "m - 1 - k < j" "m - 1 - k < m" "m - 1 - (m - 1 - k) = k"
        by auto
      have eq: "be_slices m a ! (m - 1 - k) = (be_slices m b ! (m - 1 - k) :: 'b word)"
        using arg_cong [OF pre, of "\<lambda>xs. xs ! (m - 1 - k)"] i by simp
      have "?w * k + (?w * (m - j) + n) mod ?w = ?w * (m - j) + n"
        by (simp only: k_def mult_div_mod_eq)
      then have "bit c (?w * (m - j) + n) \<longleftrightarrow> bit (be_slices m c ! (m - 1 - k) :: 'b word) ((?w * (m - j) + n) mod ?w)"
        for c :: "'a word"
        using bit_be_slice [of "m - 1 - k" m "(?w * (m - j) + n) mod ?w" c, where 'b = 'b] i by simp
      then show ?thesis
        using eq by (simp add: bit_simps)
    qed (auto simp: bit_simps dest: bit_imp_le_length)
  qed
next
  let ?w = "LENGTH('b)"
  assume eq: "drop_bit (?w * (m - j)) a = drop_bit (?w * (m - j)) b"
  have "drop_bit (?w * (m - 1 - i)) a = drop_bit (?w * (m - 1 - i)) b" if "i < j" for i
  proof -
    have "m - 1 - i = (j - 1 - i) + (m - j)"
      using that assms(2) by simp
    then have "drop_bit (?w * (m - 1 - i)) c = drop_bit (?w * (j - 1 - i)) (drop_bit (?w * (m - j)) c)" for c :: "'a word"
      by (simp add: distrib_left)
    then show ?thesis
      using eq by metis
  qed
  then show "take j (be_slices m a :: 'b word list) = take j (be_slices m b)"
    using assms(2) by (simp add: be_slices_def take_map)
qed

lemma unat_be_slice:
  "i < m \<Longrightarrow> unat (be_slices m a ! i :: 'b::len word) = unat a div 2 ^ (LENGTH('b) * (m - 1 - i)) mod 2 ^ LENGTH('b)"
  by (simp add: be_slices_def unsigned_ucast_eq unat_drop_bit_eq take_bit_eq_mod drop_bit_eq_div [of _ "unat a"])

lemma and_high_bits: "x AND NOT (mask k) = y AND NOT (mask k) \<longleftrightarrow> drop_bit k x = drop_bit k y" for x y :: "'a::len word"
proof -
  have "x AND NOT (mask k) = push_bit k (drop_bit k x)" for x :: "'a word"
    by (rule bit_word_eqI) (auto simp: bit_simps)
  moreover have "drop_bit k (x AND NOT (mask k)) = drop_bit k x" for x :: "'a word"
    by (rule bit_word_eqI) (auto simp: bit_simps dest: bit_imp_le_length)
  ultimately show ?thesis
    by metis
qed

lemma drop_bit_eq_nat: "drop_bit k x = drop_bit k y \<longleftrightarrow> unat x div 2 ^ k = unat y div 2 ^ k" for x y :: "'a::len word"
  by (metis drop_bit_eq_div unat_drop_bit_eq word_unat_eq_iff)

lemma masked:
  fixes x y m :: "'a::len word"
  assumes "m = NOT (mask k)" and "y AND m = y"
  shows "x AND m = y \<longleftrightarrow> unat x div 2 ^ k = unat y div 2 ^ k"
  using and_high_bits [of x k y] drop_bit_eq_nat [of k x y] assms by metis

lemma octet_masks:
  "x AND 0xC0 = 64 \<longleftrightarrow> unat x div 64 = 1" "x AND 0xFE = 18 \<longleftrightarrow> unat x div 2 = 9" for x :: "8 word"
  using masked [of "0xC0" 6 64 x] masked [of "0xFE" 1 18 x] by (simp_all add: word_eq_iff_unsigned mask_eq_exp_minus_1)

lemma segment_masks:
  "x AND 0xfe00 = 0xfc00 \<longleftrightarrow> unat x div 512 = 126" "x AND 0xffc0 = 0xfe80 \<longleftrightarrow> unat x div 64 = 1018"
  "x AND 0xff00 = 0xff00 \<longleftrightarrow> unat x div 256 = 255" for x :: "16 word"
  using masked [of "0xfe00" 9 "0xfc00" x] masked [of "0xffc0" 6 "0xfe80" x] masked [of "0xff00" 8 "0xff00" x]
  by (simp_all add: mask_eq_exp_minus_1)

text \<open>The ranges the documentation of the guard lists, as closed intervals of addresses.\<close>

definition v4_blocked :: "(32 word \<times> 32 word) list" where
  "v4_blocked =
     [(0x00000000, 0x00ffffff), (0x0a000000, 0x0affffff), (0x64400000, 0x647fffff), (0x7f000000, 0x7fffffff),
      (0xa9fe0000, 0xa9feffff), (0xac100000, 0xac1fffff), (0xc0a80000, 0xc0a8ffff), (0xc6120000, 0xc613ffff),
      (0xffffffff, 0xffffffff)]"

definition in_ranges :: "'a::ord \<Rightarrow> ('a \<times> 'a) list \<Rightarrow> bool" where
  "in_ranges a rs \<longleftrightarrow> list_ex (\<lambda>(lo, hi). lo \<le> a \<and> a \<le> hi) rs"

lemma div_range: "0 < d \<Longrightarrow> n div d = q \<longleftrightarrow> q * d \<le> n \<and> n \<le> (q + 1) * d - 1" for n d q :: nat
proof -
  assume "0 < d"
  then have "q \<le> n div d \<longleftrightarrow> q * d \<le> n" and "n div d < q + 1 \<longleftrightarrow> n < (q + 1) * d" and "0 < (q + 1) * d"
    by (simp_all add: less_eq_div_iff_mult_less_eq div_less_iff_less_mult)
  then show ?thesis
    by linarith
qed

lemma two_digits:
  fixes m b q lo hi :: nat
  assumes "hi < b"
  shows "m div b = q \<and> lo \<le> m mod b \<and> m mod b \<le> hi \<longleftrightarrow> q * b + lo \<le> m \<and> m \<le> q * b + hi"
proof
  assume "m div b = q \<and> lo \<le> m mod b \<and> m mod b \<le> hi"
  then show "q * b + lo \<le> m \<and> m \<le> q * b + hi"
    using div_mult_mod_eq [of m b] by (metis add_le_cancel_left)
next
  assume "q * b + lo \<le> m \<and> m \<le> q * b + hi"
  moreover from this obtain r where "m = q * b + r" "lo \<le> r" "r \<le> hi"
    by (metis add.assoc add_le_cancel_left le_Suc_ex nat_le_iff_add)
  ultimately show "m div b = q \<and> lo \<le> m mod b \<and> m mod b \<le> hi"
    using assms by simp
qed

lemma second_octet:
  fixes n q lo hi :: nat
  assumes "hi < 256"
  shows "n div 2 ^ 24 = q \<and> lo \<le> n div 2 ^ 16 mod 256 \<and> n div 2 ^ 16 mod 256 \<le> hi \<longleftrightarrow>
    (q * 256 + lo) * 2 ^ 16 \<le> n \<and> n \<le> (q * 256 + hi + 1) * 2 ^ 16 - 1"
proof -
  have "n div 2 ^ 24 = n div 2 ^ 16 div 256"
    by (simp add: div_mult2_eq [symmetric])
  then have "n div 2 ^ 24 = q \<and> lo \<le> n div 2 ^ 16 mod 256 \<and> n div 2 ^ 16 mod 256 \<le> hi \<longleftrightarrow>
      q * 256 + lo \<le> n div 2 ^ 16 \<and> n div 2 ^ 16 \<le> q * 256 + hi"
    using two_digits [OF assms, of "n div 2 ^ 16" q lo] by simp
  also have "\<dots> \<longleftrightarrow> (q * 256 + lo) * 2 ^ 16 \<le> n \<and> n \<le> (q * 256 + hi + 1) * 2 ^ 16 - 1"
    by (simp add: less_eq_div_iff_mult_less_eq) linarith
  finally show ?thesis .
qed

lemma octet_ranges:
  fixes n :: nat
  shows "n div 2 ^ 24 = 192 \<and> n div 2 ^ 16 mod 256 = 168 \<longleftrightarrow> 0xc0a80000 \<le> n \<and> n \<le> 0xc0a8ffff"
    and "n div 2 ^ 24 = 169 \<and> n div 2 ^ 16 mod 256 = 254 \<longleftrightarrow> 0xa9fe0000 \<le> n \<and> n \<le> 0xa9feffff"
    and "n div 2 ^ 24 = 100 \<and> n div 2 ^ 16 mod 256 div 64 = 1 \<longleftrightarrow> 0x64400000 \<le> n \<and> n \<le> 0x647fffff"
    and "n div 2 ^ 24 = 198 \<and> n div 2 ^ 16 mod 256 div 2 = 9 \<longleftrightarrow> 0xc6120000 \<le> n \<and> n \<le> 0xc613ffff"
    and "n div 2 ^ 24 = 172 \<and> 16 \<le> n div 2 ^ 16 mod 256 \<and> n div 2 ^ 16 mod 256 \<le> 31 \<longleftrightarrow> 0xac100000 \<le> n \<and> n \<le> 0xac1fffff"
    and "n div 2 ^ 24 = 127 \<longleftrightarrow> 0x7f000000 \<le> n \<and> n \<le> 0x7fffffff" and "n div 2 ^ 24 = 10 \<longleftrightarrow> 0x0a000000 \<le> n \<and> n \<le> 0x0affffff"
    and "n div 2 ^ 24 = 0 \<longleftrightarrow> n \<le> 0x00ffffff"
proof -
  show "n div 2 ^ 24 = 192 \<and> n div 2 ^ 16 mod 256 = 168 \<longleftrightarrow> 0xc0a80000 \<le> n \<and> n \<le> 0xc0a8ffff"
    using second_octet [of 168 n 192 168] by auto
  show "n div 2 ^ 24 = 169 \<and> n div 2 ^ 16 mod 256 = 254 \<longleftrightarrow> 0xa9fe0000 \<le> n \<and> n \<le> 0xa9feffff"
    using second_octet [of 254 n 169 254] by auto
  show "n div 2 ^ 24 = 100 \<and> n div 2 ^ 16 mod 256 div 64 = 1 \<longleftrightarrow> 0x64400000 \<le> n \<and> n \<le> 0x647fffff"
    using second_octet [of 127 n 100 64] div_range [of 64 "n div 2 ^ 16 mod 256" 1] by simp
  show "n div 2 ^ 24 = 198 \<and> n div 2 ^ 16 mod 256 div 2 = 9 \<longleftrightarrow> 0xc6120000 \<le> n \<and> n \<le> 0xc613ffff"
    using second_octet [of 19 n 198 18] div_range [of 2 "n div 2 ^ 16 mod 256" 9] by simp
qed (use second_octet [of 31 n 172 16] div_range [of "2 ^ 24" n 127] div_range [of "2 ^ 24" n 10] div_range [of "2 ^ 24" n 0] in simp_all)

lemma is_private_v4_ranges: "is_private_v4 a \<longleftrightarrow> in_ranges a v4_blocked"
proof -
  define n where "n = unat a"
  have n: "n < 2 ^ 32"
    using unsigned_less [of a] by (simp add: n_def)
  have o: "unat (v4_octets a ! 0) = n div 2 ^ 24" "unat (v4_octets a ! 1) = n div 2 ^ 16 mod 256"
    using n by (simp_all add: v4_octets_def unat_be_slice n_def)
  have "is_private_v4 a \<longleftrightarrow>
      n div 2 ^ 24 = 127 \<or> n div 2 ^ 24 = 10 \<or> n div 2 ^ 24 = 172 \<and> 16 \<le> n div 2 ^ 16 mod 256 \<and> n div 2 ^ 16 mod 256 \<le> 31 \<or>
      n div 2 ^ 24 = 192 \<and> n div 2 ^ 16 mod 256 = 168 \<or> n div 2 ^ 24 = 169 \<and> n div 2 ^ 16 mod 256 = 254 \<or>
      n div 2 ^ 24 = 0 \<or> n = 0xffffffff \<or> n div 2 ^ 24 = 100 \<and> n div 2 ^ 16 mod 256 div 64 = 1 \<or>
      n div 2 ^ 24 = 198 \<and> n div 2 ^ 16 mod 256 div 2 = 9"
    unfolding is_private_v4_def v4_is_loopback_def v4_is_private_def v4_is_link_local_def v4_is_broadcast_def Let_def
      octet_masks
    by (simp add: word_unat_eq_iff word_le_nat_alt o [unfolded One_nat_def] n_def [symmetric])
  also have "\<dots> \<longleftrightarrow> in_ranges a v4_blocked"
  proof -
    have last: "n = 0xffffffff \<longleftrightarrow> 0xffffffff \<le> n \<and> n \<le> 0xffffffff"
      by auto
    have "in_ranges a v4_blocked \<longleftrightarrow> n \<le> 0x00ffffff \<or> 0x0a000000 \<le> n \<and> n \<le> 0x0affffff \<or> 0x64400000 \<le> n \<and> n \<le> 0x647fffff \<or>
        0x7f000000 \<le> n \<and> n \<le> 0x7fffffff \<or> 0xa9fe0000 \<le> n \<and> n \<le> 0xa9feffff \<or> 0xac100000 \<le> n \<and> n \<le> 0xac1fffff \<or>
        0xc0a80000 \<le> n \<and> n \<le> 0xc0a8ffff \<or> 0xc6120000 \<le> n \<and> n \<le> 0xc613ffff \<or> 0xffffffff \<le> n \<and> n \<le> 0xffffffff"
      by (simp add: in_ranges_def v4_blocked_def word_le_nat_alt n_def [symmetric])
    then show ?thesis
      by (simp only: octet_ranges last disj_ac)
  qed
  finally show ?thesis .
qed

section \<open>Embedded addresses\<close>

lemma low_word:
  fixes a :: "128 word"
  shows "Ipv4Addr_new (ucast (drop_bit 24 a)) (ucast (drop_bit 16 a)) (ucast (drop_bit 8 a)) (ucast a) = ucast a"
proof (rule bit_word_eqI)
  fix n :: nat
  assume "n < LENGTH(32)"
  then show "bit (Ipv4Addr_new (ucast (drop_bit 24 a)) (ucast (drop_bit 16 a)) (ucast (drop_bit 8 a)) (ucast a)) n = bit (ucast a :: 32 word) n"
    by (cases "n < 8"; cases "n < 16"; cases "n < 24") (auto simp: Ipv4Addr_new_def bit_simps)
qed

lemma embedded_ipv4_low:
  assumes "pfx = take 12 (v6_octets (push_bit 32 p))" and "drop_bit 32 (push_bit 32 p) = p"
  shows "embedded_ipv4 a pfx = (if drop_bit 32 a = p then Some (ucast a) else None)"
proof -
  have "take 12 (v6_octets a) = take 12 (v6_octets (push_bit 32 p)) \<longleftrightarrow> drop_bit 32 a = drop_bit 32 (push_bit 32 p)"
    using be_slices_prefix [of 16 12 a "push_bit 32 p", where 'b = 8] by (simp add: v6_octets_def)
  moreover have "v6_octets a ! 12 = ucast (drop_bit 24 a)" "v6_octets a ! 13 = ucast (drop_bit 16 a)"
    "v6_octets a ! 14 = ucast (drop_bit 8 a)" "v6_octets a ! 15 = ucast a"
    by (simp_all add: v6_octets_def be_slices_def)
  moreover have "length pfx = 12"
    using assms(1) by (simp add: v6_octets_def be_slices_def)
  ultimately show ?thesis
    using assms low_word [of a] by (simp add: embedded_ipv4_def)
qed

lemma to_ipv4_low: "to_ipv4 a = (if drop_bit 32 a = 0 \<or> drop_bit 32 a = 0xffff then Some (ucast a) else None)"
proof -
  have pre: "take 6 (v6_segments a) = take 6 (v6_segments b) \<longleftrightarrow> drop_bit 32 a = drop_bit 32 b" for b
    using be_slices_prefix [of 8 6 a b, where 'b = 16] by (simp add: v6_segments_def)
  have six: "take 5 (v6_segments a) = replicate 5 0 \<and> v6_segments a ! 5 = s \<longleftrightarrow> take 6 (v6_segments a) = replicate 5 0 @ [s]" for s
  proof -
    have "length (v6_segments a) = 8"
      by (simp add: v6_segments_def be_slices_def)
    then have "take 6 (v6_segments a) = take 5 (v6_segments a) @ [v6_segments a ! 5]"
      using take_Suc_conv_app_nth [of 5 "v6_segments a"] by simp
    then show ?thesis
      by simp
  qed
  have "take 6 (v6_segments 0) = replicate 5 0 @ [0]" "take 6 (v6_segments 0xffff00000000) = replicate 5 0 @ [0xffff]"
    by code_simp+
  then have "take 5 (v6_segments a) = replicate 5 0 \<and> (v6_segments a ! 5 = 0 \<or> v6_segments a ! 5 = 0xffff) \<longleftrightarrow>
      drop_bit 32 a = 0 \<or> drop_bit 32 a = 0xffff"
    using pre [of 0] pre [of "0xffff00000000"] six by (auto simp: )
  moreover have "ucast (drop_bit 8 (v6_segments a ! 6)) = (ucast (drop_bit 24 a) :: 8 word)" "ucast (v6_segments a ! 6) = (ucast (drop_bit 16 a) :: 8 word)"
    "ucast (drop_bit 8 (v6_segments a ! 7)) = (ucast (drop_bit 8 a) :: 8 word)" "ucast (v6_segments a ! 7) = (ucast a :: 8 word)"
    by (rule bit_word_eqI, simp add: v6_segments_def be_slices_def bit_simps)+
  ultimately show ?thesis
    using low_word [of a] by (simp add: to_ipv4_def Let_def)
qed

lemma embedded_prefixes:
  "embedded_ipv4 a NAT64_WELL_KNOWN_PREFIX = (if drop_bit 32 a = 0x0064ff9b0000000000000000 then Some (ucast a) else None)"
  "embedded_ipv4 a IPV4_TRANSLATED_PREFIX = (if drop_bit 32 a = 0xffff0000 then Some (ucast a) else None)"
proof -
  have "NAT64_WELL_KNOWN_PREFIX = take 12 (v6_octets (push_bit 32 0x0064ff9b0000000000000000))"
    "IPV4_TRANSLATED_PREFIX = take 12 (v6_octets (push_bit 32 0xffff0000))"
    by code_simp+
  then show
    "embedded_ipv4 a NAT64_WELL_KNOWN_PREFIX = (if drop_bit 32 a = 0x0064ff9b0000000000000000 then Some (ucast a) else None)"
    "embedded_ipv4 a IPV4_TRANSLATED_PREFIX = (if drop_bit 32 a = 0xffff0000 then Some (ucast a) else None)"
    by (simp_all add: embedded_ipv4_low)
qed

section \<open>The guard as a set of ranges\<close>

definition v6_blocked :: "(128 word \<times> 128 word) list" where
  "v6_blocked =
     [(0x0064ff9b000100000000000000000000, 0x0064ff9b0001ffffffffffffffffffff),
      (0x20010000000000000000000000000000, 0x20010000ffffffffffffffffffffffff),
      (0x20010db8000000000000000000000000, 0x20010db8ffffffffffffffffffffffff),
      (0x20020000000000000000000000000000, 0x2002ffffffffffffffffffffffffffff),
      (0xfc000000000000000000000000000000, 0xfdffffffffffffffffffffffffffffff),
      (0xfe800000000000000000000000000000, 0xfebfffffffffffffffffffffffffffff),
      (0xff000000000000000000000000000000, 0xffffffffffffffffffffffffffffffff)]"

text \<open>Compatible, mapped, translated and NAT64 addresses: the low 32 bits are an IPv4 address.\<close>

definition v4_embeddings :: "(128 word \<times> 128 word) list" where
  "v4_embeddings =
     [(0x00000000000000000000000000000000, 0x000000000000000000000000ffffffff),
      (0x00000000000000000000ffff00000000, 0x00000000000000000000ffffffffffff),
      (0x0000000000000000ffff000000000000, 0x0000000000000000ffff0000ffffffff),
      (0x0064ff9b000000000000000000000000, 0x0064ff9b0000000000000000ffffffff)]"

lemma block_nat:
  fixes a :: "128 word"
  shows "drop_bit k a = drop_bit k lo \<longleftrightarrow>
    unat lo div 2 ^ k * 2 ^ k \<le> unat a \<and> unat a \<le> (unat lo div 2 ^ k + 1) * 2 ^ k - 1"
  using div_range [of "2 ^ k" "unat a" "unat lo div 2 ^ k"] by (simp add: drop_bit_eq_nat)

lemma in_embeddings:
  "in_ranges a v4_embeddings \<longleftrightarrow>
     drop_bit 32 a = 0 \<or> drop_bit 32 a = 0xffff \<or> drop_bit 32 a = 0xffff0000 \<or> drop_bit 32 a = 0x0064ff9b0000000000000000"
  using block_nat [of 32 a 0] block_nat [of 32 a "0xffff00000000"] block_nat [of 32 a "0xffff000000000000"]
    block_nat [of 32 a "0x0064ff9b000000000000000000000000"]
  by (simp add: in_ranges_def v4_embeddings_def word_le_nat_alt)

lemma segments_nat:
  "unat (v6_segments a ! 0) = unat a div 2 ^ 112" "unat (v6_segments a ! 1) = unat a div 2 ^ 96 mod 2 ^ 16"
  "unat (v6_segments a ! 2) = unat a div 2 ^ 80 mod 2 ^ 16"
proof -
  have "unat a < 2 ^ 128"
    using unsigned_less [where w = a] by simp
  then have "unat a div 2 ^ 112 < 2 ^ 16"
    by (simp add: div_less_iff_less_mult)
  then show "unat (v6_segments a ! 0) = unat a div 2 ^ 112"
    by (simp add: v6_segments_def unat_be_slice)
qed (simp_all add: v6_segments_def unat_be_slice)

lemma segment_ranges:
  "unat (v6_segments a ! 0) div 512 = 126 \<longleftrightarrow> 0xfc000000000000000000000000000000 \<le> a \<and> a \<le> 0xfdffffffffffffffffffffffffffffff"
  "unat (v6_segments a ! 0) div 64 = 1018 \<longleftrightarrow> 0xfe800000000000000000000000000000 \<le> a \<and> a \<le> 0xfebfffffffffffffffffffffffffffff"
  "unat (v6_segments a ! 0) div 256 = 255 \<longleftrightarrow> 0xff000000000000000000000000000000 \<le> a \<and> a \<le> 0xffffffffffffffffffffffffffffffff"
  "v6_segments a ! 0 = 0x2002 \<longleftrightarrow> 0x20020000000000000000000000000000 \<le> a \<and> a \<le> 0x2002ffffffffffffffffffffffffffff"
  unfolding segments_nat word_unat_eq_iff [of "v6_segments a ! 0"] div_mult2_eq [symmetric]
  by (simp_all add: div_range word_le_nat_alt)

lemma digit_pair:
  fixes n k p q :: nat
  assumes "q < 2 ^ 16"
  shows "n div 2 ^ (k + 16) = p \<and> n div 2 ^ k mod 2 ^ 16 = q \<longleftrightarrow> n div 2 ^ k = p * 2 ^ 16 + q"
proof -
  have "n div 2 ^ (k + 16) = n div 2 ^ k div 2 ^ 16"
    by (simp add: power_add div_mult2_eq)
  then show ?thesis
    using two_digits [OF assms, of "n div 2 ^ k" p q] by auto
qed

lemma segment_pairs:
  "v6_segments a ! 0 = 0x2001 \<and> v6_segments a ! 1 = 0 \<longleftrightarrow> 0x20010000000000000000000000000000 \<le> a \<and> a \<le> 0x20010000ffffffffffffffffffffffff"
  "v6_segments a ! 0 = 0x2001 \<and> v6_segments a ! 1 = 0x0db8 \<longleftrightarrow> 0x20010db8000000000000000000000000 \<le> a \<and> a \<le> 0x20010db8ffffffffffffffffffffffff"
  "v6_segments a ! 0 = 0x0064 \<and> v6_segments a ! 1 = 0xff9b \<and> v6_segments a ! 2 = 1 \<longleftrightarrow>
     0x0064ff9b000100000000000000000000 \<le> a \<and> a \<le> 0x0064ff9b0001ffffffffffffffffffff"
proof -
  have lt: "unat q < 2 ^ 16" for q :: "16 word"
    using unsigned_less [where w = q] by simp
  have two: "v6_segments a ! 0 = p \<and> v6_segments a ! 1 = q \<longleftrightarrow> unat a div 2 ^ 96 = unat p * 2 ^ 16 + unat q" for p q
    using digit_pair [of "unat q" "unat a" 96 "unat p"] lt [of q] by (simp add: word_unat_eq_iff segments_nat [unfolded One_nat_def])
  have three: "v6_segments a ! 0 = p \<and> v6_segments a ! 1 = q \<and> v6_segments a ! 2 = r \<longleftrightarrow>
      unat a div 2 ^ 80 = (unat p * 2 ^ 16 + unat q) * 2 ^ 16 + unat r" for p q r
    using digit_pair [of "unat r" "unat a" 80 "unat p * 2 ^ 16 + unat q"] two [of p q] lt [of r]
    by (auto simp: word_unat_eq_iff [of "v6_segments a ! 2"] segments_nat [unfolded One_nat_def])
  show "v6_segments a ! 0 = 0x2001 \<and> v6_segments a ! 1 = 0 \<longleftrightarrow> 0x20010000000000000000000000000000 \<le> a \<and> a \<le> 0x20010000ffffffffffffffffffffffff"
    "v6_segments a ! 0 = 0x2001 \<and> v6_segments a ! 1 = 0x0db8 \<longleftrightarrow> 0x20010db8000000000000000000000000 \<le> a \<and> a \<le> 0x20010db8ffffffffffffffffffffffff"
    unfolding two by (simp_all add: div_range word_le_nat_alt)
  show "v6_segments a ! 0 = 0x0064 \<and> v6_segments a ! 1 = 0xff9b \<and> v6_segments a ! 2 = 1 \<longleftrightarrow>
      0x0064ff9b000100000000000000000000 \<le> a \<and> a \<le> 0x0064ff9b0001ffffffffffffffffffff"
    unfolding three by (simp add: div_range word_le_nat_alt)
qed

lemma v6_tests:
  "v6_segments a ! 0 AND 0xfe00 = 0xfc00 \<or> v6_segments a ! 0 AND 0xffc0 = 0xfe80 \<or> v6_segments a ! 0 AND 0xff00 = 0xff00 \<or>
   v6_segments a ! 0 = 0x0064 \<and> v6_segments a ! 1 = 0xff9b \<and> v6_segments a ! 2 = 1 \<or>
   v6_segments a ! 0 = 0x2001 \<and> v6_segments a ! 1 = 0 \<or> v6_segments a ! 0 = 0x2002 \<or>
   v6_segments a ! 0 = 0x2001 \<and> v6_segments a ! 1 = 0x0db8 \<longleftrightarrow> in_ranges a v6_blocked"
  unfolding segment_masks segment_ranges segment_pairs by (simp add: in_ranges_def v6_blocked_def disj_ac)

text \<open>
  C26. The guard blocks exactly the ranges its documentation lists. An IPv4 address is private iff it
  lies in one of nine intervals; an IPv6 address that embeds an IPv4 address (compatible, mapped,
  translated or NAT64) is private iff that IPv4 address is, whatever the upper bits; any other
  IPv6 address is private iff it lies in one of seven intervals.
\<close>

theorem is_private_ip_ranges:
  "is_private_ip ip \<longleftrightarrow>
     (case ip of
        V4 a \<Rightarrow> in_ranges a v4_blocked
      | V6 a \<Rightarrow> if in_ranges a v4_embeddings then in_ranges (ucast a) v4_blocked else in_ranges a v6_blocked)"
proof (cases ip)
  case (V6 a)
  have "in_ranges a v4_embeddings" if "a = 0 \<or> a = 1"
    using that by (auto simp: in_ranges_def v4_embeddings_def)
  then show ?thesis
    using V6 v6_tests [of a]
    by (auto simp: is_private_ip_def to_ipv4_low embedded_prefixes in_embeddings is_private_v4_ranges Let_def)
qed (simp add: is_private_ip_def is_private_v4_ranges)

end
