(* ===== verification/Rust_Text.thy ===== *)
theory Rust_Text
  imports Prelude
begin

text \<open>
  The text operations of the standard library that the components share. A string is the list of its
  UTF-8 bytes: trimming knows the byte sequences of the Unicode white space, \<open>take_chars\<close> counts
  code points, and \<open>split_sub\<close> is the first occurrence of a substring.
\<close>

definition bytes :: "nat list \<Rightarrow> string" where
  "bytes ns = map char_of ns"

definition white_space :: "string list" where
  "white_space =
     map bytes
       ([[9], [10], [11], [12], [13], [32], [0xC2, 0x85], [0xC2, 0xA0], [0xE1, 0x9A, 0x80]] @
        map (\<lambda>b. [0xE2, 0x80, b]) [0x80, 0x81, 0x82, 0x83, 0x84, 0x85, 0x86, 0x87, 0x88, 0x89, 0x8A, 0xA8, 0xA9, 0xAF] @
        [[0xE2, 0x81, 0x9F], [0xE3, 0x80, 0x80]])"

text \<open>Removes leading members of a list of words.\<close>

function strip_words :: "string list \<Rightarrow> string \<Rightarrow> string" where
  "strip_words ws s =
     (case find (\<lambda>w. w \<noteq> [] \<and> prefix w s) ws of
        Some w \<Rightarrow> strip_words ws (drop (length w) s)
      | None \<Rightarrow> s)"
  by pat_completeness auto
termination
  by (relation "measure (\<lambda>(ws, s). length s)") (auto simp: find_Some_iff prefix_def)

declare strip_words.simps [simp del]

definition trim_start :: "string \<Rightarrow> string" where
  "trim_start s = strip_words white_space s"

definition trim_end :: "string \<Rightarrow> string" where
  "trim_end s = rev (strip_words (map rev white_space) (rev s))"

definition trim :: "string \<Rightarrow> string" where
  "trim s = trim_end (trim_start s)"

definition to_ascii_lowercase :: "string \<Rightarrow> string" where
  "to_ascii_lowercase s = map (\<lambda>c. if byte_in 65 90 c then char_of (of_char c + 32 :: nat) else c) s"

definition strip_suffix :: "string \<Rightarrow> string \<Rightarrow> string option" where
  "strip_suffix p s = map_option rev (strip_prefix (rev p) (rev s))"

lemma strip_suffix_Some: "strip_suffix p s = Some r \<longleftrightarrow> s = r @ p"
  by (auto simp: strip_suffix_def strip_prefix_Some) (metis rev_append rev_rev_ident)+

definition is_char_start :: "char \<Rightarrow> bool" where
  "is_char_start c \<longleftrightarrow> \<not> byte_in 128 191 c"

fun take_chars :: "nat \<Rightarrow> string \<Rightarrow> string" where
  "take_chars 0 s = []"
| "take_chars (Suc n) [] = []"
| "take_chars (Suc n) (c # s) =
     c # takeWhile (\<lambda>c. \<not> is_char_start c) s @ take_chars n (dropWhile (\<lambda>c. \<not> is_char_start c) s)"

text \<open>\<open>str::find\<close> of a substring, as the text before and after its first occurrence.\<close>

fun split_sub :: "'a list \<Rightarrow> 'a list \<Rightarrow> ('a list \<times> 'a list) option" where
  "split_sub p [] = (if p = [] then Some ([], []) else None)"
| "split_sub p (x # xs) =
     (if prefix p (x # xs) then Some ([], drop (length p) (x # xs))
      else map_option (map_prod (Cons x) id) (split_sub p xs))"

lemma split_sub_Some: "split_sub p s = Some (a, b) \<Longrightarrow> s = a @ p @ b"
proof (induction s arbitrary: a)
  case (Cons x xs)
  then show ?case
    by (auto simp: prefix_def split: if_splits)
qed (auto split: if_splits)

lemma split_sub_None: "split_sub p s = None \<longleftrightarrow> \<not> sublist p s"
proof (induction s)
  case (Cons x xs)
  then show ?case
    by (auto simp: sublist_Cons_right split: if_splits)
qed auto

text \<open>The occurrence is the first one.\<close>

lemma split_sub_first: "split_sub p s = Some (a, b) \<Longrightarrow> p \<noteq> [] \<Longrightarrow> \<not> sublist p (a @ butlast p)"
proof (induction s arbitrary: a)
  case (Cons x xs)
  show ?case
  proof (cases "prefix p (x # xs)")
    case True
    then have "a = []"
      using Cons.prems by simp
    moreover have "\<not> sublist p (butlast p)"
      using Cons.prems(2) by (metis length_butlast diff_less length_greater_0_conv less_numeral_extra(1) linorder_not_less sublist_length_le)
    ultimately show ?thesis
      by simp
  next
    case False
    then obtain a' where a': "a = x # a'" "split_sub p xs = Some (a', b)"
      using Cons.prems(1) by auto
    have "xs = a' @ p @ b"
      using split_sub_Some [OF a'(2)] .
    then have "prefix (x # a' @ butlast p) (x # xs)"
      by (metis append_butlast_last_id append_assoc append_Cons Cons.prems(2) prefixI)
    then have "\<not> prefix p (x # a' @ butlast p)"
      using False by (metis prefix_order.trans)
    then show ?thesis
      using Cons.IH [OF a'(2) Cons.prems(2)] a'(1) by (simp add: sublist_Cons_right)
  qed
qed (auto split: if_splits)

lemma split_sub_append:
  assumes "\<not> sublist p (a @ butlast p)" and "p \<noteq> []"
  shows "split_sub p (a @ p @ b) = Some (a, b)"
  using assms(1)
proof (induction a)
  case Nil
  then show ?case
    using assms(2) by (cases p) auto
next
  case (Cons x a)
  have "\<not> prefix p (x # a @ p @ b)"
  proof
    assume pre: "prefix p (x # a @ p @ b)"
    have "prefix (x # a @ butlast p) (x # a @ p @ b)"
      by (metis append_butlast_last_id append_assoc append_Cons assms(2) prefixI)
    then have "prefix p (x # a @ butlast p) \<or> prefix (x # a @ butlast p) p"
      using pre prefix_same_cases by blast
    moreover have "prefix p (x # a @ butlast p)" if short: "prefix (x # a @ butlast p) p"
    proof -
      obtain r where r: "p = (x # a @ butlast p) @ r"
        using short by (auto simp: prefix_def)
      have len: "length p = length ((x # a @ butlast p) @ r)" and pos: "0 < length p"
        using arg_cong [OF r, of length] assms(2) by blast+
      have "length r = 0"
        using len pos unfolding length_append length_Cons length_butlast by linarith
      then have "r = []"
        by simp
      then show ?thesis
        using r by (metis append_Nil2 prefix_order.refl)
    qed
    ultimately show False
      using Cons.prems by (metis append_Cons prefix_imp_sublist)
  qed
  then show ?case
    using Cons by (auto simp: sublist_Cons_right)
qed

text \<open>\<open>splitn(2, c)\<close>: the text before the first separator and, if there is one, the rest.\<close>

definition split_once :: "'a \<Rightarrow> 'a list \<Rightarrow> 'a list \<times> 'a list option" where
  "split_once c s =
     (takeWhile (\<lambda>x. x \<noteq> c) s,
      case dropWhile (\<lambda>x. x \<noteq> c) s of [] \<Rightarrow> None | _ # rest \<Rightarrow> Some rest)"

text \<open>\<open>split_whitespace().count()\<close>: the number of maximal runs without white space.\<close>

fun skip_word :: "string \<Rightarrow> string" where
  "skip_word [] = []"
| "skip_word (c # s) = (if list_ex (\<lambda>w. prefix w (c # s)) white_space then c # s else skip_word s)"

lemma length_skip_word: "length (skip_word s) \<le> length s"
  by (induction s) auto

lemma length_strip_words: "length (strip_words ws s) \<le> length s"
proof (induction ws s rule: strip_words.induct)
  case (1 ws s)
  then show ?case
    by (subst strip_words.simps) (fastforce split: option.split)
qed

function count_words :: "string \<Rightarrow> nat" where
  "count_words s = (case trim_start s of [] \<Rightarrow> 0 | c # r \<Rightarrow> Suc (count_words (skip_word r)))"
  by pat_completeness auto
termination
proof (relation "measure length")
  fix s c r
  assume "trim_start s = c # r"
  then show "(skip_word r, s) \<in> measure length"
    using length_skip_word [of r] length_strip_words [of white_space s] by (simp add: trim_start_def)
qed simp

declare count_words.simps [simp del]

end
