(* ===== verification/Auth.thy ===== *)
theory Auth
  imports Nostr_Event Decimal Kind Network Rust_Text "HOL-Library.Char_ord"
begin

text \<open>
  Tenants, authentication and admission.
  \<^item> \<^verbatim>\<open>crates/buzz-core/src/tenant.rs\<close> and \<^verbatim>\<open>crates/buzz-relay/src/tenant.rs\<close>: the community of a request.
  \<^item> \<^verbatim>\<open>crates/buzz-auth/src\<close>: scopes, channel access, NIP-42 and NIP-98 verification, keys of the shared store.
  \<^item> \<^verbatim>\<open>crates/buzz-pubsub/src\<close>: the replay guard and the fixed-window rate limiter on Redis.
  \<^item> \<^verbatim>\<open>crates/buzz-relay/src/admission.rs\<close>, the admission of \<^verbatim>\<open>connection.rs\<close> and the authentication of
    \<^verbatim>\<open>api/bridge.rs\<close>.

  \<open>auth_env\<close> holds what is third-party: signature checks, JSON, base64, SHA-256, the \<^verbatim>\<open>url\<close> crate and the
  text of uuids and addresses. The store maps keys to an integer and an expiry; times are
  milliseconds. A call of the store can fail before or after it took effect. The texts that
  carry an error to the client are constructors.
\<close>

section \<open>Tenants\<close>

record TenantContext =
  tc_community :: uuid
  tc_host :: string

definition normalize_host :: "string \<Rightarrow> string" where
  "normalize_host raw =
     (let host = to_ascii_lowercase (trim raw);
          host = (case strip_suffix '':443'' host of
                    Some h \<Rightarrow> h
                  | None \<Rightarrow> (case strip_suffix '':80'' host of Some h \<Rightarrow> h | None \<Rightarrow> host))
      in case strip_suffix ''.'' host of Some h \<Rightarrow> h | None \<Rightarrow> host)"

datatype 'e BindError = UnmappedHost | Lookup 'e

definition bind_community :: "(string \<Rightarrow> 'e + uuid option) \<Rightarrow> string \<Rightarrow> 'e BindError + TenantContext" where
  "bind_community resolve_host raw_host =
     (let host = normalize_host raw_host
      in if host = [] then Inl UnmappedHost
         else (case resolve_host host of
                 Inr (Some c) \<Rightarrow> Inr \<lparr>tc_community = c, tc_host = host\<rparr>
               | Inr None \<Rightarrow> Inl UnmappedHost
               | Inl e \<Rightarrow> Inl (Lookup e)))"

section \<open>Scopes\<close>

datatype Scope =
  MessagesRead | MessagesWrite | ChannelsRead | ChannelsWrite | AdminChannels | UsersRead | UsersWrite | AdminUsers
| JobsRead | JobsWrite | SubscriptionsRead | SubscriptionsWrite | FilesRead | FilesWrite | ReposRead | ReposWrite
| Unknown string

definition all_known :: "Scope list" where
  "all_known =
     [MessagesRead, MessagesWrite, ChannelsRead, ChannelsWrite, AdminChannels, UsersRead, UsersWrite, AdminUsers,
      JobsRead, JobsWrite, SubscriptionsRead, SubscriptionsWrite, FilesRead, FilesWrite, ReposRead, ReposWrite]"

definition all_non_admin :: "Scope list" where
  "all_non_admin =
     [MessagesRead, MessagesWrite, ChannelsRead, ChannelsWrite, UsersRead, UsersWrite,
      JobsRead, JobsWrite, SubscriptionsRead, SubscriptionsWrite, FilesRead, FilesWrite, ReposRead, ReposWrite]"

fun scope_as_str :: "Scope \<Rightarrow> string" where
  "scope_as_str MessagesRead = ''messages:read''"
| "scope_as_str MessagesWrite = ''messages:write''"
| "scope_as_str ChannelsRead = ''channels:read''"
| "scope_as_str ChannelsWrite = ''channels:write''"
| "scope_as_str AdminChannels = ''admin:channels''"
| "scope_as_str UsersRead = ''users:read''"
| "scope_as_str UsersWrite = ''users:write''"
| "scope_as_str AdminUsers = ''admin:users''"
| "scope_as_str JobsRead = ''jobs:read''"
| "scope_as_str JobsWrite = ''jobs:write''"
| "scope_as_str SubscriptionsRead = ''subscriptions:read''"
| "scope_as_str SubscriptionsWrite = ''subscriptions:write''"
| "scope_as_str FilesRead = ''files:read''"
| "scope_as_str FilesWrite = ''files:write''"
| "scope_as_str ReposRead = ''repos:read''"
| "scope_as_str ReposWrite = ''repos:write''"
| "scope_as_str (Unknown s) = s"

definition scope_from_str :: "string \<Rightarrow> Scope" where
  "scope_from_str s = (case find (\<lambda>x. scope_as_str x = s) all_known of Some x \<Rightarrow> x | None \<Rightarrow> Unknown s)"

definition parse_scopes :: "string list \<Rightarrow> Scope list" where
  "parse_scopes raw = map scope_from_str raw"

section \<open>Errors\<close>

datatype nip98_reason =
  EventJson | WrongKind kind | BadSignature | OutsideWindow nat | MissingU | UrlMismatch string string
| MissingMethod | MethodMismatch string string | PayloadMismatch

datatype AuthError =
  InvalidSignature | ChallengeMismatch | RelayUrlMismatch | EventExpired | Nip98Invalid nip98_reason | Nip98Replay
| PubkeyMismatch | InsufficientScope string "string list" | ChannelAccessDenied | AuthInternal

section \<open>Channel access\<close>

definition can_access ::
  "(TenantContext \<Rightarrow> pubkey \<Rightarrow> AuthError + uuid set) \<Rightarrow> TenantContext \<Rightarrow> pubkey \<Rightarrow> uuid \<Rightarrow> AuthError + bool" where
  "can_access accessible_channel_ids ctx pk channel_id =
     map_sum id (\<lambda>ids. channel_id \<in> ids) (accessible_channel_ids ctx pk)"

definition require_scope :: "Scope list \<Rightarrow> Scope \<Rightarrow> AuthError + unit" where
  "require_scope scopes required =
     (if required \<in> set scopes then Inr ()
      else Inl (InsufficientScope (scope_as_str required) (map scope_as_str scopes)))"

definition check_access ::
  "Scope \<Rightarrow> (TenantContext \<Rightarrow> pubkey \<Rightarrow> uuid \<Rightarrow> AuthError + bool) \<Rightarrow> TenantContext \<Rightarrow> pubkey \<Rightarrow> uuid \<Rightarrow> Scope list \<Rightarrow>
     AuthError + unit" where
  "check_access required access ctx pk channel_id scopes =
     (case require_scope scopes required of
        Inl e \<Rightarrow> Inl e
      | Inr _ \<Rightarrow>
          (case access ctx pk channel_id of
             Inl e \<Rightarrow> Inl e
           | Inr ok \<Rightarrow> if ok then Inr () else Inl ChannelAccessDenied))"

definition check_read_access where "check_read_access = check_access MessagesRead"
definition check_write_access where "check_write_access = check_access MessagesWrite"

section \<open>Verification of signed events\<close>

record 'u auth_env =
  ae_verify_id :: "event \<Rightarrow> bool"
  ae_verify_signature :: "event \<Rightarrow> bool"
  ae_parse_event :: "string \<Rightarrow> event option"
  ae_base64 :: "string \<Rightarrow> string option"
  ae_utf8 :: "string \<Rightarrow> string option"
  ae_sha256_hex :: "string \<Rightarrow> string"
  ae_url_parse :: "string \<Rightarrow> 'u option"
  ae_url_path :: "'u \<Rightarrow> string"
  ae_url_set_path :: "string \<Rightarrow> 'u \<Rightarrow> 'u"
  ae_url_host_str :: "'u \<Rightarrow> string option"
  ae_url_set_host :: "string \<Rightarrow> 'u \<Rightarrow> 'u"
  ae_url_string :: "'u \<Rightarrow> string"
  ae_lowercase :: "string \<Rightarrow> string"
  ae_pubkey_from_hex :: "string \<Rightarrow> pubkey option"
  ae_uuid_text :: "uuid \<Rightarrow> string"
  ae_ip_text :: "IpAddr \<Rightarrow> string"

definition verify_event :: "'u auth_env \<Rightarrow> event \<Rightarrow> bool" where
  "verify_event env ev \<longleftrightarrow> ae_verify_id env ev \<and> ae_verify_signature env ev"

definition TIMESTAMP_TOLERANCE_SECS :: nat where "TIMESTAMP_TOLERANCE_SECS = 60"

definition abs_diff :: "nat \<Rightarrow> nat \<Rightarrow> nat" where
  "abs_diff a b = (if a < b then b - a else a - b)"

text \<open>\<open>tags.find(kind).and_then(|t| t.content())\<close>: the content of the first tag of a kind.\<close>

definition find_content :: "string \<Rightarrow> event \<Rightarrow> string option" where
  "find_content k ev =
     (case find (\<lambda>t. tag_kind_str t = k) (ev_tags ev) of None \<Rightarrow> None | Some t \<Rightarrow> tag_content t)"

definition trim_end_slashes :: "string \<Rightarrow> string" where
  "trim_end_slashes s = rev (dropWhile (\<lambda>c. c = CHR ''/'') (rev s))"

definition normalize_relay_url :: "'u auth_env \<Rightarrow> string \<Rightarrow> string" where
  "normalize_relay_url env raw =
     (case ae_url_parse env raw of
        None \<Rightarrow> raw
      | Some u \<Rightarrow>
          (let u = (case ae_url_host_str env u of
                      Some h \<Rightarrow> if h = ''localhost'' \<or> h = ''::1'' then ae_url_set_host env ''127.0.0.1'' u else u
                    | None \<Rightarrow> u);
               u = ae_url_set_path env (trim_end_slashes (ae_url_path env u)) u
           in ae_url_string env u))"

definition verify_nip42_event :: "'u auth_env \<Rightarrow> nat \<Rightarrow> event \<Rightarrow> string \<Rightarrow> string \<Rightarrow> AuthError + unit" where
  "verify_nip42_event env now ev expected_challenge relay_url =
     (if unat (ev_kind ev) \<noteq> KIND_AUTH then Inl InvalidSignature
      else if \<not> verify_event env ev then Inl InvalidSignature
      else
        (case find_content ''challenge'' ev of
           None \<Rightarrow> Inl ChallengeMismatch
         | Some challenge \<Rightarrow>
             if challenge \<noteq> expected_challenge then Inl ChallengeMismatch
             else
               (case find_content ''relay'' ev of
                  None \<Rightarrow> Inl RelayUrlMismatch
                | Some relay \<Rightarrow>
                    if normalize_relay_url env relay \<noteq> normalize_relay_url env relay_url then Inl RelayUrlMismatch
                    else if TIMESTAMP_TOLERANCE_SECS < abs_diff now (ev_created_at ev) then Inl EventExpired
                    else Inr ())))"

datatype AuthMethod = Nip42 | Nip98

record AuthContext =
  ac_pubkey :: pubkey
  ac_scopes :: "Scope list"
  ac_channel_ids :: "uuid list option"
  ac_auth_method :: AuthMethod
  ac_agent_owner_pubkey :: "pubkey option"

definition has_scope :: "AuthContext \<Rightarrow> Scope \<Rightarrow> bool" where
  "has_scope ctx s \<longleftrightarrow> s \<in> set (ac_scopes ctx)"

text \<open>\<open>panicked\<close> is the outcome of the blocking task that verifies the signature.\<close>

definition verify_auth_event :: "'u auth_env \<Rightarrow> bool \<Rightarrow> nat \<Rightarrow> event \<Rightarrow> string \<Rightarrow> string \<Rightarrow> AuthError + AuthContext" where
  "verify_auth_event env panicked now ev expected_challenge relay_url =
     (if panicked then Inl AuthInternal
      else
        (case verify_nip42_event env now ev expected_challenge relay_url of
           Inl e \<Rightarrow> Inl e
         | Inr _ \<Rightarrow>
             Inr \<lparr>ac_pubkey = ev_pubkey ev, ac_scopes = all_known, ac_channel_ids = None, ac_auth_method = Nip42,
                  ac_agent_owner_pubkey = None\<rparr>))"

definition normalize_url :: "'u auth_env \<Rightarrow> string \<Rightarrow> string" where
  "normalize_url env raw =
     (case ae_url_parse env raw of
        None \<Rightarrow> ae_lowercase env raw
      | Some u \<Rightarrow> ae_url_string env (ae_url_set_path env (trim_end_slashes (ae_url_path env u)) u))"

definition eq_ignore_ascii_case :: "string \<Rightarrow> string \<Rightarrow> bool" where
  "eq_ignore_ascii_case a b \<longleftrightarrow> to_ascii_lowercase a = to_ascii_lowercase b"

definition verify_nip98_event ::
  "'u auth_env \<Rightarrow> nat \<Rightarrow> string \<Rightarrow> string \<Rightarrow> string \<Rightarrow> string option \<Rightarrow> AuthError + pubkey" where
  "verify_nip98_event env now event_json expected_url expected_method body =
     (case ae_parse_event env event_json of
        None \<Rightarrow> Inl (Nip98Invalid EventJson)
      | Some ev \<Rightarrow>
          if unat (ev_kind ev) \<noteq> KIND_HTTP_AUTH then Inl (Nip98Invalid (WrongKind (ev_kind ev)))
          else if \<not> verify_event env ev then Inl (Nip98Invalid BadSignature)
          else if TIMESTAMP_TOLERANCE_SECS < abs_diff now (ev_created_at ev)
          then Inl (Nip98Invalid (OutsideWindow (abs_diff now (ev_created_at ev))))
          else
            (case find_content ''u'' ev of
               None \<Rightarrow> Inl (Nip98Invalid MissingU)
             | Some u_tag \<Rightarrow>
                 if normalize_url env u_tag \<noteq> normalize_url env expected_url
                 then Inl (Nip98Invalid (UrlMismatch u_tag expected_url))
                 else
                   (case find_content ''method'' ev of
                      None \<Rightarrow> Inl (Nip98Invalid MissingMethod)
                    | Some method_tag \<Rightarrow>
                        if \<not> eq_ignore_ascii_case method_tag expected_method
                        then Inl (Nip98Invalid (MethodMismatch method_tag expected_method))
                        else
                          (case (find_content ''payload'' ev, body) of
                             (Some payload_hex, Some b) \<Rightarrow>
                               if ae_sha256_hex env b \<noteq> payload_hex then Inl (Nip98Invalid PayloadMismatch)
                               else Inr (ev_pubkey ev)
                           | _ \<Rightarrow> Inr (ev_pubkey ev)))))"

section \<open>The shared store\<close>

type_synonym kv = "(string, int \<times> nat option) hmap"

text \<open>A key is gone once the clock is past its expiry.\<close>

definition kv_live :: "nat \<Rightarrow> kv \<Rightarrow> string \<Rightarrow> (int \<times> nat option) option" where
  "kv_live now st k =
     (case hm_get st k of
        Some (v, Some e) \<Rightarrow> if e < now then None else Some (v, Some e)
      | x \<Rightarrow> x)"

definition redis_set_nx_ex :: "nat \<Rightarrow> string \<Rightarrow> nat \<Rightarrow> kv \<Rightarrow> kv \<times> bool" where
  "redis_set_nx_ex now k ttl st =
     (case kv_live now st k of
        Some _ \<Rightarrow> (st, False)
      | None \<Rightarrow> (hm_insert k (1, Some (now + 1000 * ttl)) st, True))"

text \<open>\<open>EXPIRE\<close>: an error when the time does not fit 64 bits; a time that is not positive deletes the key.\<close>

definition redis_expire :: "nat \<Rightarrow> string \<Rightarrow> int \<Rightarrow> kv \<Rightarrow> kv option" where
  "redis_expire now k secs st =
     (if (2 ^ 63 - 1) div 1000 < secs \<or> secs < - (2 ^ 63 div 1000) \<or> 2 ^ 63 - 1 - int now < secs * 1000 then None
      else
        (case kv_live now st k of
           None \<Rightarrow> Some st
         | Some (v, _) \<Rightarrow>
             if secs \<le> 0 then Some (hm_remove k st)
             else Some (hm_insert k (v, Some (now + nat (secs * 1000))) st)))"

text \<open>The seconds left, rounded; -1 without an expiry and -2 without a key.\<close>

definition redis_ttl :: "nat \<Rightarrow> string \<Rightarrow> kv \<Rightarrow> int" where
  "redis_ttl now k st =
     (case kv_live now st k of
        None \<Rightarrow> - 2
      | Some (_, None) \<Rightarrow> - 1
      | Some (_, Some e) \<Rightarrow> (int e - int now + 500) div 1000)"

definition rate_limit_script :: "nat \<Rightarrow> string \<Rightarrow> int \<Rightarrow> kv \<Rightarrow> kv \<times> (int \<times> int) option" where
  "rate_limit_script now k window st =
     (case kv_live now st k of
        Some (v, e) \<Rightarrow>
          if 2 ^ 63 - 1 \<le> v then (st, None)
          else
            (let st1 = hm_insert k (v + 1, e) st
             in if v + 1 = 1
                then (case redis_expire now k window st1 of
                        None \<Rightarrow> (st1, None)
                      | Some st2 \<Rightarrow> (st2, Some (v + 1, redis_ttl now k st2)))
                else (st1, Some (v + 1, redis_ttl now k st1)))
      | None \<Rightarrow>
          (let st1 = hm_insert k (1, None) st
           in case redis_expire now k window st1 of
                None \<Rightarrow> (st1, None)
              | Some st2 \<Rightarrow> (st2, Some (1, redis_ttl now k st2))))"

datatype kv_fault = KvOk | KvFail bool

section \<open>The replay guard\<close>

definition DEFAULT_REPLAY_TTL_SECS :: nat where "DEFAULT_REPLAY_TTL_SECS = 120"
definition MAX_REPLAY_TTL_SECS :: nat where "MAX_REPLAY_TTL_SECS = 3600"

definition nip98_replay_key_for_scope :: "string \<Rightarrow> event_id \<Rightarrow> string" where
  "nip98_replay_key_for_scope scope i = ''buzz:'' @ scope @ '':nip98:'' @ i"

definition nip98_replay_key :: "'u auth_env \<Rightarrow> TenantContext \<Rightarrow> event_id \<Rightarrow> string" where
  "nip98_replay_key env ctx i = nip98_replay_key_for_scope (ae_uuid_text env (tc_community ctx)) i"

definition try_mark_in_scope :: "kv_fault \<Rightarrow> nat \<Rightarrow> string \<Rightarrow> event_id \<Rightarrow> nat \<Rightarrow> kv \<Rightarrow> kv \<times> (AuthError + bool)" where
  "try_mark_in_scope f now scope i ttl_secs st =
     (let ttl = max DEFAULT_REPLAY_TTL_SECS (min ttl_secs MAX_REPLAY_TTL_SECS);
          (st', fresh) = redis_set_nx_ex now (nip98_replay_key_for_scope scope i) ttl st
      in case f of
           KvOk \<Rightarrow> (st', Inr fresh)
         | KvFail applied \<Rightarrow> (if applied then st' else st, Inl AuthInternal))"

definition try_mark ::
  "'u auth_env \<Rightarrow> kv_fault \<Rightarrow> nat \<Rightarrow> TenantContext \<Rightarrow> event_id \<Rightarrow> nat \<Rightarrow> kv \<Rightarrow> kv \<times> (AuthError + bool)" where
  "try_mark env f now ctx i ttl_secs st = try_mark_in_scope f now (ae_uuid_text env (tc_community ctx)) i ttl_secs st"

section \<open>The rate limiter\<close>

record RateLimitResult =
  rl_allowed :: bool
  rl_current :: nat
  rl_limit :: nat
  rl_reset_in_secs :: nat

definition RateLimitResult_allowed :: "nat \<Rightarrow> nat \<Rightarrow> nat \<Rightarrow> RateLimitResult" where
  "RateLimitResult_allowed current limit reset = \<lparr>rl_allowed = True, rl_current = current, rl_limit = limit, rl_reset_in_secs = reset\<rparr>"

definition RateLimitResult_denied :: "nat \<Rightarrow> nat \<Rightarrow> nat \<Rightarrow> RateLimitResult" where
  "RateLimitResult_denied current limit reset = \<lparr>rl_allowed = False, rl_current = current, rl_limit = limit, rl_reset_in_secs = reset\<rparr>"

datatype LimitType = Messages | ApiCalls | WsEvents | IpConnections

fun key_suffix :: "LimitType \<Rightarrow> string" where
  "key_suffix Messages = ''msg''"
| "key_suffix ApiCalls = ''api''"
| "key_suffix WsEvents = ''ws''"
| "key_suffix IpConnections = ''conn''"

record RateLimitConfig =
  human_messages_per_min :: nat
  human_api_calls_per_min :: nat
  human_ws_events_per_sec :: nat
  agent_standard_messages_per_min :: nat
  agent_standard_api_calls_per_min :: nat
  agent_elevated_messages_per_min :: nat
  agent_platform_messages_per_min :: nat

definition default_rate_limits :: RateLimitConfig where
  "default_rate_limits =
     \<lparr>human_messages_per_min = 60, human_api_calls_per_min = 300, human_ws_events_per_sec = 10,
      agent_standard_messages_per_min = 120, agent_standard_api_calls_per_min = 600,
      agent_elevated_messages_per_min = 300, agent_platform_messages_per_min = 600\<rparr>"

definition rate_limit_key :: "'u auth_env \<Rightarrow> TenantContext \<Rightarrow> pubkey \<Rightarrow> LimitType \<Rightarrow> string" where
  "rate_limit_key env ctx pk t =
     ''buzz:'' @ ae_uuid_text env (tc_community ctx) @ '':ratelimit:'' @ pk @ '':'' @ key_suffix t"

definition ip_rate_limit_key :: "'u auth_env \<Rightarrow> IpAddr \<Rightarrow> string" where
  "ip_rate_limit_key env ip = ''buzz:ratelimit:ip:'' @ ae_ip_text env ip @ '':conn''"

text \<open>\<open>as i64\<close> of a value below \<open>2 ^ 64\<close>.\<close>

definition as_i64 :: "nat \<Rightarrow> int" where
  "as_i64 n = (if n < 2 ^ 63 then int n else int n - 2 ^ 64)"

text \<open>\<open>f\<close> is the fault of the script, \<open>f'\<close> that of the repair.\<close>

definition run_rate_limit ::
  "kv_fault \<Rightarrow> kv_fault \<Rightarrow> nat \<Rightarrow> string \<Rightarrow> nat \<Rightarrow> nat \<Rightarrow> kv \<Rightarrow> kv \<times> (AuthError + RateLimitResult)" where
  "run_rate_limit f f' now k window_secs limit st =
     (let (st1, reply) = rate_limit_script now k (as_i64 window_secs) st
      in case f of
           KvFail applied \<Rightarrow> (if applied then st1 else st, Inl AuthInternal)
         | KvOk \<Rightarrow>
             (case reply of
                None \<Rightarrow> (st1, Inl AuthInternal)
              | Some (n, ttl) \<Rightarrow>
                  (let result = (\<lambda>reset. if nat n \<le> limit then RateLimitResult_allowed (nat n) limit reset
                                         else RateLimitResult_denied (nat n) limit reset)
                   in if ttl < 0
                      then (case (redis_expire now k (as_i64 window_secs) st1, f') of
                              (None, _) \<Rightarrow> (st1, Inl AuthInternal)
                            | (Some st2, KvOk) \<Rightarrow> (st2, Inr (result window_secs))
                            | (Some st2, KvFail applied) \<Rightarrow> (if applied then st2 else st1, Inl AuthInternal))
                      else (st1, Inr (result (nat ttl))))))"

definition check_and_increment ::
  "'u auth_env \<Rightarrow> kv_fault \<Rightarrow> kv_fault \<Rightarrow> nat \<Rightarrow> TenantContext \<Rightarrow> pubkey \<Rightarrow> LimitType \<Rightarrow> nat \<Rightarrow> nat \<Rightarrow> kv \<Rightarrow>
     kv \<times> (AuthError + RateLimitResult)" where
  "check_and_increment env f f' now ctx pk t window_secs limit st =
     run_rate_limit f f' now (rate_limit_key env ctx pk t) window_secs limit st"

definition check_ip_connection ::
  "'u auth_env \<Rightarrow> kv_fault \<Rightarrow> kv_fault \<Rightarrow> nat \<Rightarrow> IpAddr \<Rightarrow> nat \<Rightarrow> nat \<Rightarrow> kv \<Rightarrow> kv \<times> (AuthError + RateLimitResult)" where
  "check_ip_connection env f f' now ip window_secs limit st =
     run_rate_limit f f' now (ip_rate_limit_key env ip) window_secs limit st"

section \<open>Admission\<close>

definition WS_BURST_WINDOW_SECS :: nat where "WS_BURST_WINDOW_SECS = 5"

datatype AdmissionError = Exceeded nat | Unavailable

definition check_principal ::
  "'u auth_env \<Rightarrow> kv_fault \<Rightarrow> kv_fault \<Rightarrow> nat \<Rightarrow> TenantContext \<Rightarrow> pubkey \<Rightarrow> LimitType \<Rightarrow> nat \<Rightarrow> nat \<Rightarrow> kv \<Rightarrow>
     kv \<times> (AdmissionError + unit)" where
  "check_principal env f f' now ctx pk t window_secs limit st =
     (case check_and_increment env f f' now ctx pk t window_secs limit st of
        (st', Inr r) \<Rightarrow> (st', if rl_allowed r then Inr () else Inl (Exceeded (rl_reset_in_secs r)))
      | (st', Inl _) \<Rightarrow> (st', Inl Unavailable))"

definition ws_admission_budget :: "nat \<Rightarrow> nat \<times> nat" where
  "ws_admission_budget per_second_limit =
     (WS_BURST_WINDOW_SECS, min (per_second_limit * WS_BURST_WINDOW_SECS) (2 ^ 64 - 1))"

datatype client_message = ClientEvent | ClientReq | ClientCount | ClientOther

text \<open>Whether the message may proceed; the auth state of the connection is \<open>auth\<close>.\<close>

definition enforce_ws_admission ::
  "'u auth_env \<Rightarrow> (nat \<Rightarrow> kv_fault) \<Rightarrow> nat \<Rightarrow> nat \<Rightarrow> RateLimitConfig \<Rightarrow> TenantContext \<Rightarrow> AuthContext option \<Rightarrow>
     client_message \<Rightarrow> kv \<Rightarrow> kv \<times> bool" where
  "enforce_ws_admission env f now now' limits tenant auth msg st =
     (if msg = ClientOther then (st, True)
      else
        (case auth of
           None \<Rightarrow> (st, True)
         | Some ctx \<Rightarrow>
             (let (window, limit) = ws_admission_budget (human_ws_events_per_sec limits);
                  (st1, r) = check_principal env (f 0) (f 1) now tenant (ac_pubkey ctx) WsEvents window limit st
              in if \<not> isl r
                 then (if msg = ClientEvent
                       then (let message_limit = (if ac_agent_owner_pubkey ctx \<noteq> None then agent_standard_messages_per_min limits
                                                  else human_messages_per_min limits);
                                 (st2, r') = check_principal env (f 2) (f 3) now' tenant (ac_pubkey ctx) Messages 60 message_limit st1
                             in (st2, \<not> isl r'))
                       else (st1, True))
                 else (st1, False))))"

section \<open>Authentication of the HTTP bridge\<close>

datatype bridge_reason =
  InvalidBase64 | InvalidUtf8 | InvalidEventJson | MissingPayload | Nip98Rejected AuthError | InvalidXPubkey | MissingAuth
| ReplayDetected | ReplayUnavailable | QuotaExceeded nat | AdmissionUnavailable

type_synonym api_error = "nat \<times> bridge_reason"

record http_headers =
  hh_authorization :: "string option"
  hh_x_pubkey :: "string option"

definition zero_id :: event_id where "zero_id = replicate 64 (CHR ''0'')"

definition verify_bridge_auth_with_options ::
  "'u auth_env \<Rightarrow> nat \<Rightarrow> http_headers \<Rightarrow> string \<Rightarrow> string \<Rightarrow> string option \<Rightarrow> bool \<Rightarrow> bool \<Rightarrow>
     api_error + pubkey \<times> event_id" where
  "verify_bridge_auth_with_options env now headers method url body require_auth_token require_payload =
     (case Option.bind (hh_authorization headers) (strip_prefix ''Nostr '') of
        Some auth_str \<Rightarrow>
          (case ae_base64 env auth_str of
             None \<Rightarrow> Inl (401, InvalidBase64)
           | Some bs \<Rightarrow>
               (case ae_utf8 env bs of
                  None \<Rightarrow> Inl (401, InvalidUtf8)
                | Some event_json \<Rightarrow>
                    (case ae_parse_event env event_json of
                       None \<Rightarrow> Inl (401, InvalidEventJson)
                     | Some ev \<Rightarrow>
                         if require_payload \<and> \<not> list_ex (\<lambda>t. tag_kind_str t = ''payload'') (ev_tags ev)
                         then Inl (401, MissingPayload)
                         else
                           (case verify_nip98_event env now event_json url method body of
                              Inl e \<Rightarrow> Inl (401, Nip98Rejected e)
                            | Inr pk \<Rightarrow> Inr (pk, ev_id ev)))))
      | None \<Rightarrow>
          if \<not> require_auth_token
          then (case hh_x_pubkey headers of
                  Some hex \<Rightarrow>
                    (case ae_pubkey_from_hex env hex of
                       None \<Rightarrow> Inl (401, InvalidXPubkey)
                     | Some pk \<Rightarrow> Inr (pk, zero_id))
                | None \<Rightarrow> Inl (401, MissingAuth))
          else Inl (401, MissingAuth))"

definition verify_bridge_auth where
  "verify_bridge_auth env now headers method url body require_auth_token =
     verify_bridge_auth_with_options env now headers method url body require_auth_token False"

definition check_nip98_replay ::
  "'u auth_env \<Rightarrow> kv_fault \<Rightarrow> nat \<Rightarrow> TenantContext \<Rightarrow> event_id \<Rightarrow> kv \<Rightarrow> kv \<times> (api_error + unit)" where
  "check_nip98_replay env f now tenant i st =
     (if i = zero_id then (st, Inr ())
      else
        (case try_mark env f now tenant i DEFAULT_REPLAY_TTL_SECS st of
           (st', Inr True) \<Rightarrow> (st', Inr ())
         | (st', Inr False) \<Rightarrow> (st', Inl (401, ReplayDetected))
         | (st', Inl _) \<Rightarrow> (st', Inl (401, ReplayUnavailable))))"

definition enforce_http_admission ::
  "'u auth_env \<Rightarrow> kv_fault \<Rightarrow> kv_fault \<Rightarrow> nat \<Rightarrow> RateLimitConfig \<Rightarrow> TenantContext \<Rightarrow> pubkey \<Rightarrow> kv \<Rightarrow> kv \<times> (api_error + unit)" where
  "enforce_http_admission env f f' now limits tenant pk st =
     (case check_principal env f f' now tenant pk ApiCalls 60 (human_api_calls_per_min limits) st of
        (st', Inr _) \<Rightarrow> (st', Inr ())
      | (st', Inl (Exceeded reset)) \<Rightarrow> (st', Inl (429, QuotaExceeded reset))
      | (st', Inl Unavailable) \<Rightarrow> (st', Inl (503, AdmissionUnavailable)))"

definition nip98_expected_url :: "string \<Rightarrow> TenantContext \<Rightarrow> string \<Rightarrow> string" where
  "nip98_expected_url config_relay_url tenant path =
     (if strip_prefix ''wss://'' (trim_start config_relay_url) \<noteq> None then ''https'' else ''http'') @
     ''://'' @ tc_host tenant @ path"

definition nip42_expected_relay_url :: "string \<Rightarrow> TenantContext \<Rightarrow> string" where
  "nip42_expected_relay_url config_relay_url tenant =
     (if strip_prefix ''wss://'' (trim_start config_relay_url) \<noteq> None then ''wss'' else ''ws'') @
     ''://'' @ tc_host tenant"

text \<open>
  A request of the bridge up to its payload: the tenant of the host, the signed event, admission
  and the replay guard, in the order of \<open>submit_event\<close> and \<open>submit_event_authed\<close>. The clock of
  the pod reads \<open>br_verified_at\<close> when the event is checked, that of the store \<open>br_admitted_at\<close> and
  \<open>br_marked_at\<close>.
\<close>

record bridge_request =
  br_host :: string
  br_headers :: http_headers
  br_body :: string
  br_verified_at :: nat
  br_admitted_at :: nat
  br_marked_at :: nat
  br_faults :: "nat \<Rightarrow> kv_fault"

record 'e bridge_config =
  bc_relay_url :: string
  bc_require_auth_token :: bool
  bc_limits :: RateLimitConfig
  bc_resolve :: "string \<Rightarrow> 'e + uuid option"

datatype bridge_outcome = HostUnknown | Unauthenticated api_error | Refused api_error | Authorized TenantContext pubkey event_id

definition submit_event_auth ::
  "'u auth_env \<Rightarrow> 'e bridge_config \<Rightarrow> bridge_request \<Rightarrow> kv \<Rightarrow> kv \<times> bridge_outcome" where
  "submit_event_auth env cfg rq st =
     (case bind_community (bc_resolve cfg) (br_host rq) of
        Inl _ \<Rightarrow> (st, HostUnknown)
      | Inr tenant \<Rightarrow>
          (case verify_bridge_auth env (br_verified_at rq div 1000) (br_headers rq) ''POST''
                  (nip98_expected_url (bc_relay_url cfg) tenant ''/events'') (Some (br_body rq))
                  (bc_require_auth_token cfg) of
             Inl e \<Rightarrow> (st, Unauthenticated e)
           | Inr (pk, i) \<Rightarrow>
               (case enforce_http_admission env (br_faults rq 0) (br_faults rq 1) (br_admitted_at rq) (bc_limits cfg) tenant pk st of
                  (st1, Inl e) \<Rightarrow> (st1, Refused e)
                | (st1, Inr _) \<Rightarrow>
                    (case check_nip98_replay env (br_faults rq 2) (br_marked_at rq) tenant i st1 of
                       (st2, Inl e) \<Rightarrow> (st2, Refused e)
                     | (st2, Inr _) \<Rightarrow> (st2, Authorized tenant pk i)))))"

end
