(* ===== verification/Auth_Props.thy ===== *)
theory Auth_Props
  imports Auth
begin

text \<open>
  Correctness of authentication and admission. Pods share one store and their calls interleave in any
  order: \<open>grant_times\<close> lists when the calls on a key were granted. A replay marker is granted again
  only after its life time; a fixed window grants at most twice its limit in any interval of its
  length; an event is authorised a second time only when it was post-dated to the edge of the
  tolerance, and such a second time exists.
\<close>

section \<open>Calls of the shared store\<close>

datatype store_op =
  Principal TenantContext pubkey LimitType nat nat
| IpConnection IpAddr nat nat
| Replay TenantContext event_id nat

record store_call =
  sc_now :: nat
  sc_faults :: "kv_fault \<times> kv_fault"
  sc_op :: store_op

definition call_key :: "'u auth_env \<Rightarrow> store_call \<Rightarrow> string" where
  "call_key env c =
     (case sc_op c of
        Principal ctx pk t _ _ \<Rightarrow> rate_limit_key env ctx pk t
      | IpConnection ip _ _ \<Rightarrow> ip_rate_limit_key env ip
      | Replay ctx i _ \<Rightarrow> nip98_replay_key env ctx i)"

definition exec_call :: "'u auth_env \<Rightarrow> store_call \<Rightarrow> kv \<Rightarrow> kv \<times> bool" where
  "exec_call env c st =
     (case sc_op c of
        Principal ctx pk t w l \<Rightarrow>
          map_prod id (case_sum (\<lambda>_. False) rl_allowed)
            (check_and_increment env (fst (sc_faults c)) (snd (sc_faults c)) (sc_now c) ctx pk t w l st)
      | IpConnection ip w l \<Rightarrow>
          map_prod id (case_sum (\<lambda>_. False) rl_allowed)
            (check_ip_connection env (fst (sc_faults c)) (snd (sc_faults c)) (sc_now c) ip w l st)
      | Replay ctx i ttl \<Rightarrow>
          map_prod id (case_sum (\<lambda>_. False) id) (try_mark env (fst (sc_faults c)) (sc_now c) ctx i ttl st))"

fun run_calls :: "'u auth_env \<Rightarrow> store_call list \<Rightarrow> kv \<Rightarrow> kv" where
  "run_calls env [] st = st"
| "run_calls env (c # cs) st = run_calls env cs (fst (exec_call env c st))"

fun grant_times :: "'u auth_env \<Rightarrow> string \<Rightarrow> store_call list \<Rightarrow> kv \<Rightarrow> nat list" where
  "grant_times env k [] st = []"
| "grant_times env k (c # cs) st =
     (if snd (exec_call env c st) \<and> call_key env c = k then [sc_now c] else []) @
     grant_times env k cs (fst (exec_call env c st))"

definition in_order :: "store_call list \<Rightarrow> bool" where
  "in_order cs \<longleftrightarrow> sorted (map sc_now cs)"

lemma in_order_Cons [simp]: "in_order (c # cs) \<longleftrightarrow> in_order cs \<and> (\<forall>d \<in> set cs. sc_now c \<le> sc_now d)"
  by (auto simp: in_order_def)

lemma in_order_Nil [simp]: "in_order []"
  by (simp add: in_order_def)

lemma grant_times_from: "t \<in> set (grant_times env k cs st) \<Longrightarrow> \<exists>c \<in> set cs. sc_now c = t"
  by (induction cs arbitrary: st) (auto split: if_splits)

section \<open>A call leaves other keys alone\<close>

lemma expire_frame: "redis_expire now k s st = Some st' \<Longrightarrow> k' \<noteq> k \<Longrightarrow> hm_get st' k' = hm_get st k'"
  by (auto simp: redis_expire_def split: if_splits option.splits)

lemma script_frame: "k' \<noteq> k \<Longrightarrow> hm_get (fst (rate_limit_script now k w st)) k' = hm_get st k'"
  by (auto simp: rate_limit_script_def Let_def expire_frame split: option.split)

lemma run_rate_limit_frame:
  assumes "k' \<noteq> k"
  shows "hm_get (fst (run_rate_limit f f' now k w l st)) k' = hm_get st k'"
proof -
  obtain st1 reply where script: "rate_limit_script now k (as_i64 w) st = (st1, reply)"
    by (metis surj_pair)
  then have "hm_get st1 k' = hm_get st k'"
    using script_frame [OF assms, of now "as_i64 w" st] by simp
  then show ?thesis
    using assms script by (auto simp: run_rate_limit_def expire_frame split: kv_fault.split option.split prod.split)
qed

lemma try_mark_frame:
  "k' \<noteq> nip98_replay_key_for_scope s i \<Longrightarrow> hm_get (fst (try_mark_in_scope f now s i ttl st)) k' = hm_get st k'"
  by (auto simp: try_mark_in_scope_def redis_set_nx_ex_def Let_def split: kv_fault.split option.split prod.split)

lemma exec_frame: "call_key env c \<noteq> k \<Longrightarrow> hm_get (fst (exec_call env c st)) k = hm_get st k"
  by (auto simp: exec_call_def call_key_def check_and_increment_def check_ip_connection_def run_rate_limit_frame
      try_mark_frame try_mark_def nip98_replay_key_def split: store_op.split)

section \<open>Keys of different purposes\<close>

definition uuid_text_ok :: "'u auth_env \<Rightarrow> bool" where
  "uuid_text_ok env \<longleftrightarrow> (\<forall>c. CHR '':'' \<notin> set (ae_uuid_text env c))"

lemma third_field:
  assumes "CHR '':'' \<notin> set c" and "CHR '':'' \<notin> set p"
  shows "split_on (CHR '':'') (''buzz:'' @ c @ '':'' @ p @ '':'' @ r) ! 2 = p"
proof -
  have "''buzz:'' @ c @ '':'' @ p @ '':'' @ r = ''buzz'' @ CHR '':'' # c @ CHR '':'' # p @ CHR '':'' # r"
    by simp
  then show ?thesis
    using assms by (simp only: split_on_append_sep) (simp add: split_on_append_sep)
qed

lemma purposes_differ:
  assumes "uuid_text_ok env"
  shows "rate_limit_key env ctx pk t \<noteq> nip98_replay_key env ctx' i"
    and "ip_rate_limit_key env ip \<noteq> nip98_replay_key env ctx' i"
proof -
  have c: "CHR '':'' \<notin> set (ae_uuid_text env u)" for u
    using assms by (simp add: uuid_text_ok_def)
  have n: "split_on (CHR '':'') (nip98_replay_key env ctx' i) ! 2 = ''nip98''"
    using third_field [OF c, of "''nip98''"] by (simp add: nip98_replay_key_def nip98_replay_key_for_scope_def)
  have r: "split_on (CHR '':'') (rate_limit_key env ctx pk t) ! 2 = ''ratelimit''"
    using third_field [OF c, of "''ratelimit''"] by (simp add: rate_limit_key_def)
  have p: "split_on (CHR '':'') (ip_rate_limit_key env ip) ! 2 = ''ip''"
    using third_field [of "''ratelimit''" "''ip''"] by (simp add: ip_rate_limit_key_def)
  have "''ratelimit'' \<noteq> ''nip98''" and "''ip'' \<noteq> ''nip98''"
    by simp_all
  then show "rate_limit_key env ctx pk t \<noteq> nip98_replay_key env ctx' i"
    and "ip_rate_limit_key env ip \<noteq> nip98_replay_key env ctx' i"
    using n r p by metis+
qed

section \<open>Replay markers\<close>

text \<open>Until its expiry a marker refuses every claim.\<close>

lemma mark_refused:
  assumes "uuid_text_ok env" and "k = nip98_replay_key env ctx i" and "hm_get st k = Some (v, Some e)"
    and "sc_now c \<le> e"
  shows "\<not> (snd (exec_call env c st) \<and> call_key env c = k) \<and> hm_get (fst (exec_call env c st)) k = Some (v, Some e)"
proof (cases "call_key env c = k")
  case False
  then show ?thesis
    using exec_frame [OF False] assms(3) by simp
next
  case True
  then obtain ctx' i' ttl where op: "sc_op c = Replay ctx' i' ttl"
    using purposes_differ [OF assms(1)] assms(2) by (cases "sc_op c") (auto simp: call_key_def)
  then have "nip98_replay_key_for_scope (ae_uuid_text env (tc_community ctx')) i' = k"
    using True by (simp add: call_key_def nip98_replay_key_def)
  moreover have "kv_live (sc_now c) st k = Some (v, Some e)"
    using assms(3,4) by (simp add: kv_live_def)
  ultimately show ?thesis
    using op assms(3)
    by (auto simp: exec_call_def try_mark_def try_mark_in_scope_def redis_set_nx_ex_def Let_def split: kv_fault.split)
qed

lemma mark_granted:
  assumes "uuid_text_ok env" and "k = nip98_replay_key env ctx i" and "snd (exec_call env c st)" and "call_key env c = k"
  shows "\<exists>e. hm_get (fst (exec_call env c st)) k = Some (1, Some e) \<and> sc_now c + 120000 \<le> e"
proof -
  obtain ctx' i' ttl where op: "sc_op c = Replay ctx' i' ttl"
    using purposes_differ [OF assms(1)] assms(2,4) by (cases "sc_op c") (auto simp: call_key_def)
  moreover have "nip98_replay_key_for_scope (ae_uuid_text env (tc_community ctx')) i' = k"
    using op assms(4) by (simp add: call_key_def nip98_replay_key_def)
  ultimately show ?thesis
    using assms(3)
    by (auto simp: exec_call_def try_mark_def try_mark_in_scope_def redis_set_nx_ex_def Let_def
        DEFAULT_REPLAY_TTL_SECS_def MAX_REPLAY_TTL_SECS_def split: kv_fault.splits option.splits if_splits)
qed

lemma marked_until:
  assumes "uuid_text_ok env" and "k = nip98_replay_key env ctx i" and "in_order cs"
    and "hm_get st k = Some (v, Some e)"
  shows "\<forall>t \<in> set (grant_times env k cs st). e < t"
  using assms(3,4)
proof (induction cs arbitrary: st)
  case (Cons c cs)
  show ?case
  proof (cases "sc_now c \<le> e")
    case True
    then show ?thesis
      using mark_refused [OF assms(1,2) Cons.prems(2) True] Cons.IH Cons.prems(1) by auto
  next
    case False
    then show ?thesis
      using Cons.prems(1) grant_times_from [of _ env k "c # cs" st] by fastforce
  qed
qed simp

text \<open>
  A replay marker is claimed once in its life time. Whatever calls the pods interleave on the shared
  store, rate limits included, with failing and half-failing calls, two granted claims of one
  event id in one community are more than 120 seconds apart.
\<close>

theorem replay_claims_far_apart:
  assumes "uuid_text_ok env" and "in_order cs"
  shows "sorted_wrt (\<lambda>t u. t + 120000 < u) (grant_times env (nip98_replay_key env ctx i) cs st)"
  using assms(2)
proof (induction cs arbitrary: st)
  case (Cons c cs)
  let ?k = "nip98_replay_key env ctx i" and ?st = "fst (exec_call env c st)"
  have rest: "sorted_wrt (\<lambda>t u. t + 120000 < u) (grant_times env ?k cs ?st)"
    using Cons by simp
  show ?case
  proof (cases "snd (exec_call env c st) \<and> call_key env c = ?k")
    case True
    then obtain e where e: "hm_get ?st ?k = Some (1, Some e)" "sc_now c + 120000 \<le> e"
      using mark_granted [OF assms(1) refl] by blast
    have "\<forall>t \<in> set (grant_times env ?k cs ?st). e < t"
      using marked_until [OF assms(1) refl _ e(1), of cs] Cons.prems by simp
    then show ?thesis
      using rest e(2) by fastforce
  qed (use rest in auto)
qed simp

section \<open>Fixed windows\<close>

text \<open>What a call on the key of a limiter does to its counter.\<close>

definition limiter_call :: "'u auth_env \<Rightarrow> string \<Rightarrow> nat \<Rightarrow> nat \<Rightarrow> store_call \<Rightarrow> bool" where
  "limiter_call env k w l c \<longleftrightarrow>
     call_key env c \<noteq> k \<or>
     sc_now c + 1000 * w < 2 ^ 63 \<and>
     (case sc_op c of
        Principal _ _ _ w' l' \<Rightarrow> w' = w \<and> l' = l
      | IpConnection _ w' l' \<Rightarrow> w' = w \<and> l' = l
      | Replay _ _ _ \<Rightarrow> False)"

lemma exec_limiter:
  assumes "limiter_call env k w l c" and "call_key env c = k"
  shows "exec_call env c st =
    map_prod id (case_sum (\<lambda>_. False) rl_allowed)
      (run_rate_limit (fst (sc_faults c)) (snd (sc_faults c)) (sc_now c) k w l st)"
  using assms
  by (cases "sc_op c") (auto simp: limiter_call_def exec_call_def call_key_def check_and_increment_def check_ip_connection_def)

lemma script_fresh:
  assumes "kv_live now st k = None" and "0 < w" and "now + 1000 * w < 2 ^ 63"
  shows "rate_limit_script now k (as_i64 w) st = (hm_insert k (1, Some (now + 1000 * w)) (hm_insert k (1, None) st), Some (1, int w))"
proof -
  have w: "as_i64 w = int w" "int w \<le> (2 ^ 63 - 1) div 1000" "int w * 1000 \<le> 2 ^ 63 - 1 - int now"
    using assms(3) by (auto simp: as_i64_def)
  then show ?thesis
    using assms(1,2)
    by (simp add: rate_limit_script_def redis_expire_def redis_ttl_def kv_live_def nat_mult_distrib mult.commute)
qed

lemma script_live:
  assumes "kv_live now st k = Some (v, Some e)" and "0 < v" and "v < 2 ^ 63 - 1"
  shows "rate_limit_script now k w st = (hm_insert k (v + 1, Some e) st, Some (v + 1, (int e - int now + 500) div 1000))"
    and "0 \<le> (int e - int now + 500) div 1000"
proof -
  have "now \<le> e"
    using assms(1) by (auto simp: kv_live_def split: option.splits if_splits)
  then show "rate_limit_script now k w st = (hm_insert k (v + 1, Some e) st, Some (v + 1, (int e - int now + 500) div 1000))"
    and "0 \<le> (int e - int now + 500) div 1000"
    using assms by (auto simp: rate_limit_script_def redis_ttl_def kv_live_def)
qed

lemma limiter_fresh:
  assumes "limiter_call env k w l c" and "call_key env c = k" and "0 < w" and "kv_live (sc_now c) st k = None"
  shows "hm_get (fst (exec_call env c st)) k = hm_get st k \<and> \<not> snd (exec_call env c st) \<or>
    hm_get (fst (exec_call env c st)) k = Some (1, Some (sc_now c + 1000 * w)) \<and> (snd (exec_call env c st) \<longrightarrow> 1 \<le> l)"
proof -
  have "sc_now c + 1000 * w < 2 ^ 63"
    using assms(1,2) by (simp add: limiter_call_def)
  then show ?thesis
    using script_fresh [OF assms(4,3)]
    by (auto simp: exec_limiter [OF assms(1,2)] run_rate_limit_def RateLimitResult_allowed_def RateLimitResult_denied_def
        split: kv_fault.split if_splits)
qed

lemma limiter_live:
  assumes "limiter_call env k w l c" and "call_key env c = k" and "kv_live (sc_now c) st k = Some (v, Some e)" and "0 < v"
  shows "hm_get (fst (exec_call env c st)) k = Some (v, Some e) \<and> \<not> snd (exec_call env c st) \<or>
    hm_get (fst (exec_call env c st)) k = Some (v + 1, Some e) \<and> (snd (exec_call env c st) \<longrightarrow> nat (v + 1) \<le> l)"
proof -
  have get: "hm_get st k = Some (v, Some e)"
    using assms(3) by (auto simp: kv_live_def split: option.splits if_splits)
  show ?thesis
  proof (cases "v < 2 ^ 63 - 1")
    case True
    then show ?thesis
      using script_live [OF assms(3,4) True] get
      by (auto simp: exec_limiter [OF assms(1,2)] run_rate_limit_def RateLimitResult_allowed_def RateLimitResult_denied_def
          split: kv_fault.split if_splits)
  next
    case False
    then have "rate_limit_script (sc_now c) k (as_i64 w) st = (st, None)"
      using assms(3) by (simp add: rate_limit_script_def)
    then show ?thesis
      using get by (auto simp: exec_limiter [OF assms(1,2)] run_rate_limit_def split: kv_fault.split)
  qed
qed

text \<open>Grants of a key in an interval.\<close>

definition grants_in :: "'u auth_env \<Rightarrow> string \<Rightarrow> nat \<Rightarrow> nat \<Rightarrow> store_call list \<Rightarrow> kv \<Rightarrow> nat" where
  "grants_in env k lo hi cs st = length (filter (\<lambda>t. lo \<le> t \<and> t \<le> hi) (grant_times env k cs st))"

lemma grants_in_Nil [simp]: "grants_in env k lo hi [] st = 0"
  by (simp add: grants_in_def)

lemma grants_in_Cons:
  "grants_in env k lo hi (c # cs) st =
     (if snd (exec_call env c st) \<and> call_key env c = k \<and> lo \<le> sc_now c \<and> sc_now c \<le> hi then 1 else 0) +
     grants_in env k lo hi cs (fst (exec_call env c st))"
  by (simp add: grants_in_def)

lemma grants_beyond: "(\<forall>c \<in> set cs. hi < sc_now c) \<Longrightarrow> grants_in env k lo hi cs st = 0"
  using grant_times_from [of _ env k cs st] by (fastforce simp: grants_in_def filter_empty_conv)

lemma grants_in_window:
  assumes "in_order cs" and "list_all (limiter_call env k w l) cs" and "hi \<le> e"
    and "hm_get st k = Some (v, Some e)" and "0 < v"
  shows "grants_in env k lo hi cs st \<le> l - nat v"
  using assms(1,2,4,5)
proof (induction cs arbitrary: st v)
  case (Cons c cs)
  let ?st = "fst (exec_call env c st)" and ?g = "snd (exec_call env c st)"
  have IH: "grants_in env k lo hi cs ?st \<le> l - nat v'" if "hm_get ?st k = Some (v', Some e)" "0 < v'" for v'
    using Cons.IH [of ?st v'] Cons.prems(1,2) that by simp
  consider "call_key env c \<noteq> k" | "call_key env c = k" "sc_now c \<le> e" | "e < sc_now c"
    by linarith
  then show ?case
  proof cases
    case 1
    then show ?thesis
      using IH [of v] Cons.prems(3,4) exec_frame [OF 1, of st] by (simp add: grants_in_Cons)
  next
    case 2
    then have "kv_live (sc_now c) st k = Some (v, Some e)"
      using Cons.prems(3) by (simp add: kv_live_def)
    then consider "hm_get ?st k = Some (v, Some e)" "\<not> ?g"
      | "hm_get ?st k = Some (v + 1, Some e)" "?g \<longrightarrow> nat (v + 1) \<le> l"
      using limiter_live [of env k w l c st v e] 2(1) Cons.prems(2,4) by auto
    then show ?thesis
    proof cases
      case 1
      then show ?thesis
        using IH [of v] Cons.prems(4) by (simp add: grants_in_Cons)
    next
      case 2
      then show ?thesis
        using IH [of "v + 1"] Cons.prems(4) by (auto simp: grants_in_Cons nat_add_distrib)
    qed
  next
    case 3
    then have "\<forall>d \<in> set (c # cs). hi < sc_now d"
      using Cons.prems(1) assms(3) by auto
    then show ?thesis
      using grants_beyond by (metis zero_le)
  qed
qed simp

lemma grants_after_expiry:
  assumes "0 < w" and "hi \<le> lo + 1000 * w" and "in_order cs" and "list_all (limiter_call env k w l) cs"
    and "\<forall>c \<in> set cs. lo \<le> sc_now c \<and> kv_live (sc_now c) st k = None"
  shows "grants_in env k lo hi cs st \<le> l"
  using assms(3-5)
proof (induction cs arbitrary: st)
  case (Cons c cs)
  let ?st = "fst (exec_call env c st)" and ?g = "snd (exec_call env c st)"
  have same: "grants_in env k lo hi cs ?st \<le> l" if "hm_get ?st k = hm_get st k"
  proof -
    have "kv_live (sc_now d) ?st k = None" if "d \<in> set cs" for d
      using \<open>hm_get ?st k = hm_get st k\<close> Cons.prems(3) that by (simp add: kv_live_def)
    then show ?thesis
      using Cons by simp
  qed
  show ?case
  proof (cases "call_key env c = k")
    case False
    then show ?thesis
      using same exec_frame [OF False, of st] by (simp add: grants_in_Cons)
  next
    case True
    then consider "hm_get ?st k = hm_get st k" "\<not> ?g"
      | "hm_get ?st k = Some (1, Some (sc_now c + 1000 * w))" "?g \<longrightarrow> 1 \<le> l"
      using limiter_fresh [of env k w l c st] assms(1) Cons.prems(2,3) by auto
    then show ?thesis
    proof cases
      case 1
      then show ?thesis
        using same by (simp add: grants_in_Cons)
    next
      case 2
      have "hi \<le> sc_now c + 1000 * w"
        using Cons.prems(3) assms(2) by simp
      then have "grants_in env k lo hi cs ?st \<le> l - nat 1"
        using grants_in_window [of cs env k w l hi _ ?st 1] 2(1) Cons.prems(1,2) by simp
      then show ?thesis
        using 2(2) by (auto simp: grants_in_Cons)
    qed
  qed
qed simp

definition counter_ok :: "string \<Rightarrow> kv \<Rightarrow> bool" where
  "counter_ok k st \<longleftrightarrow> (case hm_get st k of None \<Rightarrow> True | Some (v, e) \<Rightarrow> 0 < v \<and> e \<noteq> None)"

lemma counter_ok_exec:
  assumes "limiter_call env k w l c" and "0 < w" and "counter_ok k st"
  shows "counter_ok k (fst (exec_call env c st))"
proof (cases "call_key env c = k")
  case True
  show ?thesis
  proof (cases "kv_live (sc_now c) st k")
    case None
    then show ?thesis
      using limiter_fresh [OF assms(1) True assms(2) None] assms(3) by (auto simp: counter_ok_def)
  next
    case (Some p)
    then obtain v e where "kv_live (sc_now c) st k = Some (v, Some e)" and "0 < v"
      using assms(3) by (auto simp: counter_ok_def kv_live_def split: option.splits if_splits)
    then show ?thesis
      using limiter_live [OF assms(1) True] by (fastforce simp: counter_ok_def)
  qed
qed (use assms(3) exec_frame [of env c k st] in \<open>simp add: counter_ok_def\<close>)

lemma grants_across_expiry:
  assumes "0 < w" and "hi \<le> lo + 1000 * w" and "in_order cs" and "list_all (limiter_call env k w l) cs"
    and "\<forall>c \<in> set cs. lo \<le> sc_now c" and "hm_get st k = Some (v, Some e)" and "0 < v"
  shows "grants_in env k lo hi cs st \<le> (l - nat v) + l"
  using assms(3-7)
proof (induction cs arbitrary: st v)
  case (Cons c cs)
  let ?st = "fst (exec_call env c st)" and ?g = "snd (exec_call env c st)"
  have IH: "grants_in env k lo hi cs ?st \<le> (l - nat v') + l" if "hm_get ?st k = Some (v', Some e)" "0 < v'" for v'
    using Cons.IH [of ?st v'] Cons.prems(1-3) that by simp
  consider (other) "call_key env c \<noteq> k" | (live) "call_key env c = k" "sc_now c \<le> e" | (dead) "e < sc_now c"
    by linarith
  then show ?case
  proof cases
    case other
    then show ?thesis
      using IH [of v] Cons.prems(4,5) exec_frame [OF other, of st] by (simp add: grants_in_Cons)
  next
    case live
    then have "kv_live (sc_now c) st k = Some (v, Some e)"
      using Cons.prems(4) by (simp add: kv_live_def)
    then consider "hm_get ?st k = Some (v, Some e)" "\<not> ?g"
      | "hm_get ?st k = Some (v + 1, Some e)" "?g \<longrightarrow> nat (v + 1) \<le> l"
      using limiter_live [of env k w l c st v e] live(1) Cons.prems(2,5) by auto
    then show ?thesis
    proof cases
      case 1
      then show ?thesis
        using IH [of v] Cons.prems(5) by (simp add: grants_in_Cons)
    next
      case 2
      then show ?thesis
        using IH [of "v + 1"] Cons.prems(5) by (auto simp: grants_in_Cons nat_add_distrib)
    qed
  next
    case dead
    then have "\<forall>d \<in> set (c # cs). lo \<le> sc_now d \<and> kv_live (sc_now d) st k = None"
      using Cons.prems(1,3,4) by (auto simp: kv_live_def)
    then have "grants_in env k lo hi (c # cs) st \<le> l"
      using grants_after_expiry [OF assms(1,2) Cons.prems(1,2)] by blast
    then show ?thesis
      by simp
  qed
qed simp

text \<open>
  C18. A fixed window grants at most twice its limit. Whatever calls the pods interleave on the shared
  store, with failing and half-failing calls, the number of calls that are granted on one key
  in any interval as long as the window is at most twice the limit, as the documentation of the
  limiter says. All calls on the key use the same positive window and limit, and the clock plus
  the window stays below 63 bits.
\<close>

theorem rate_limit_bound:
  assumes "0 < w" and "in_order cs" and "list_all (limiter_call env k w l) cs" and "counter_ok k st"
  shows "length (filter (\<lambda>t. lo \<le> t \<and> t \<le> lo + 1000 * w) (grant_times env k cs st)) \<le> 2 * l"
  using assms(2-4)
proof (induction cs arbitrary: st)
  case (Cons c cs)
  show ?case
  proof (cases "sc_now c < lo")
    case True
    then show ?thesis
      using Cons counter_ok_exec [OF _ assms(1) Cons.prems(3), of env l c] by simp
  next
    case False
    then have times: "\<forall>d \<in> set (c # cs). lo \<le> sc_now d"
      using Cons.prems(1) by auto
    have "grants_in env k lo (lo + 1000 * w) (c # cs) st \<le> 2 * l"
    proof (cases "hm_get st k")
      case None
      then have "\<forall>d \<in> set (c # cs). lo \<le> sc_now d \<and> kv_live (sc_now d) st k = None"
        using times by (simp add: kv_live_def)
      then have "grants_in env k lo (lo + 1000 * w) (c # cs) st \<le> l"
        using grants_after_expiry [OF assms(1) le_refl Cons.prems(1,2)] by blast
      then show ?thesis
        by simp
    next
      case (Some p)
      then obtain v e where "hm_get st k = Some (v, Some e)" "0 < v"
        using Cons.prems(3) by (auto simp: counter_ok_def split: prod.splits)
      then show ?thesis
        using grants_across_expiry [OF assms(1) le_refl Cons.prems(1,2) times] by fastforce
    qed
    then show ?thesis
      by (simp add: grants_in_def)
  qed
qed simp

section \<open>Requests\<close>

lemma marker_stays:
  assumes "uuid_text_ok env" and "k = nip98_replay_key env ctx i" and "\<forall>c \<in> set cs. sc_now c \<le> e"
    and "hm_get st k = Some (v, Some e)"
  shows "hm_get (run_calls env cs st) k = Some (v, Some e)"
  using assms(3,4)
proof (induction cs arbitrary: st)
  case (Cons c cs)
  then show ?case
    using mark_refused [OF assms(1,2) Cons.prems(2), of c] by simp
qed simp

lemma granted_marker:
  assumes "uuid_text_ok env" and "k = nip98_replay_key env ctx i" and "\<forall>c \<in> set cs. sc_now c \<le> m + 120000"
    and "m \<in> set (grant_times env k cs st)"
  shows "\<exists>v e. hm_get (run_calls env cs st) k = Some (v, Some e) \<and> m + 120000 \<le> e"
  using assms(3,4)
proof (induction cs arbitrary: st)
  case (Cons c cs)
  show ?case
  proof (cases "m \<in> set (grant_times env k cs (fst (exec_call env c st)))")
    case True
    then show ?thesis
      using Cons by simp
  next
    case False
    then have c: "snd (exec_call env c st)" "call_key env c = k" "sc_now c = m"
      using Cons.prems(2) by (auto split: if_splits)
    then obtain e where "hm_get (fst (exec_call env c st)) k = Some (1, Some e)" "m + 120000 \<le> e"
      using mark_granted [OF assms(1,2)] by blast
    then show ?thesis
      using marker_stays [OF assms(1,2), of cs e] Cons.prems(1) by fastforce
  qed
qed simp

lemma bridge_auth_event:
  assumes "verify_bridge_auth env now h meth url body tok = Inr (pk, i)" and "i \<noteq> zero_id"
  obtains json ev where "ae_parse_event env json = Some ev" and "ev_id ev = i" and "ev_pubkey ev = pk"
    and "verify_event env ev" and "abs_diff now (ev_created_at ev) \<le> 60"
    and "\<exists>u. find_content ''u'' ev = Some u \<and> normalize_url env u = normalize_url env url"
  using assms
  by (auto simp: verify_bridge_auth_def verify_bridge_auth_with_options_def verify_nip98_event_def TIMESTAMP_TOLERANCE_SECS_def not_less
      split: option.splits sum.splits if_splits)

lemma admission_frame:
  assumes "k \<noteq> rate_limit_key env tenant pk ApiCalls"
  shows "hm_get (fst (enforce_http_admission env f f' now limits tenant pk st)) k = hm_get st k"
  using run_rate_limit_frame [OF assms]
  by (simp add: enforce_http_admission_def check_principal_def check_and_increment_def
      split: prod.split sum.split AdmissionError.split) (metis fst_conv)


lemma first_admission:
  assumes "kv_live now st (rate_limit_key env tenant pk ApiCalls) = None" and "now + 60000 < 2 ^ 63" and "1 \<le> human_api_calls_per_min limits"
  shows "\<exists>st'. enforce_http_admission env KvOk KvOk now limits tenant pk st = (st', Inr ()) \<and>
    hm_get st' (rate_limit_key env tenant pk ApiCalls) = Some (1, Some (now + 60000))"
  using script_fresh [OF assms(1), of 60] assms(2,3)
  by (simp add: enforce_http_admission_def check_principal_def check_and_increment_def run_rate_limit_def
      RateLimitResult_allowed_def)

lemma mark_fresh:
  assumes "kv_live now st (nip98_replay_key env tenant i) = None" and "i \<noteq> zero_id"
  shows "check_nip98_replay env KvOk now tenant i st = (hm_insert (nip98_replay_key env tenant i) (1, Some (now + 120000)) st, Inr ())"
  using assms
  by (simp add: check_nip98_replay_def try_mark_def try_mark_in_scope_def redis_set_nx_ex_def nip98_replay_key_def
      DEFAULT_REPLAY_TTL_SECS_def MAX_REPLAY_TTL_SECS_def)

lemma submit_authorized:
  assumes "bind_community (bc_resolve cfg) (br_host rq) = Inr tenant"
    and "verify_bridge_auth env (br_verified_at rq div 1000) (br_headers rq) ''POST''
      (nip98_expected_url (bc_relay_url cfg) tenant ''/events'') (Some (br_body rq)) (bc_require_auth_token cfg) = Inr (pk, i)"
    and "enforce_http_admission env (br_faults rq 0) (br_faults rq 1) (br_admitted_at rq) (bc_limits cfg) tenant pk st = (st1, Inr ())"
    and "check_nip98_replay env (br_faults rq 2) (br_marked_at rq) tenant i st1 = (st2, Inr ())"
  shows "submit_event_auth env cfg rq st = (st2, Authorized tenant pk i)"
  using assms by (simp add: submit_event_auth_def)

text \<open>
  C37. The markers expire one second too early. An event that is first used exactly 60 seconds before its
  own timestamp can be used again in the last second of its validity: the verifier compares whole
  seconds, so it still accepts the event at 60.001 seconds after the timestamp, when the marker of
  120 seconds has just expired. Both requests are authorised.
\<close>

theorem post_dated_event_replayed:
  assumes "uuid_text_ok env" and "bind_community (bc_resolve cfg) host = Inr tenant"
    and "\<forall>now. abs_diff now ts \<le> 60 \<longrightarrow> verify_bridge_auth env now headers ''POST''
      (nip98_expected_url (bc_relay_url cfg) tenant ''/events'') (Some body) (bc_require_auth_token cfg) = Inr (pk, i)"
    and "60 \<le> ts" and "1000 * ts + 130000 < 2 ^ 63" and "i \<noteq> zero_id" and "1 \<le> human_api_calls_per_min (bc_limits cfg)"
  shows "\<exists>st1 st2.
    submit_event_auth env cfg
      \<lparr>br_host = host, br_headers = headers, br_body = body, br_verified_at = 1000 * ts - 60000, br_admitted_at = 1000 * ts - 60000,
       br_marked_at = 1000 * ts - 60000, br_faults = \<lambda>_. KvOk\<rparr> [] = (st1, Authorized tenant pk i) \<and>
    submit_event_auth env cfg
      \<lparr>br_host = host, br_headers = headers, br_body = body, br_verified_at = 1000 * ts + 60001, br_admitted_at = 1000 * ts + 60001,
       br_marked_at = 1000 * ts + 60001, br_faults = \<lambda>_. KvOk\<rparr> st1 = (st2, Authorized tenant pk i)"
proof -
  let ?k = "nip98_replay_key env tenant i" and ?r = "rate_limit_key env tenant pk ApiCalls"
  let ?t = "1000 * ts - 60000" and ?u = "1000 * ts + 60001"
  have other: "?r \<noteq> ?k"
    by (rule purposes_differ(1) [OF assms(1)])
  have ver: "verify_bridge_auth env (now div 1000) headers ''POST'' (nip98_expected_url (bc_relay_url cfg) tenant ''/events'')
      (Some body) (bc_require_auth_token cfg) = Inr (pk, i)" if "now = ?t \<or> now = ?u" for now
  proof -
    have "?t div 1000 = ts - 60" "?u div 1000 = ts + 60"
      using assms(4) by (auto simp: diff_mult_distrib2 [symmetric])
    then show ?thesis
      using assms(3,4) that by (auto simp: abs_diff_def)
  qed
  obtain sa where sa: "enforce_http_admission env KvOk KvOk ?t (bc_limits cfg) tenant pk [] = (sa, Inr ())"
    "hm_get sa ?r = Some (1, Some (?t + 60000))"
  proof -
    have "?t + 60000 < 2 ^ 63"
      using assms(5) by linarith
    then show ?thesis
      using first_admission [of ?t "[]" env tenant pk "bc_limits cfg"] assms(7) that by (auto simp: kv_live_def)
  qed
  have "hm_get sa ?k = None"
    using admission_frame [of ?k env tenant pk KvOk KvOk ?t "bc_limits cfg" "[]"] sa(1) other by simp
  then have m1: "check_nip98_replay env KvOk ?t tenant i sa = (hm_insert ?k (1, Some (?t + 120000)) sa, Inr ())"
    using assms(6) by (intro mark_fresh) (simp_all add: kv_live_def)
  let ?s = "hm_insert ?k (1, Some (?t + 120000)) sa"
  have "kv_live ?u ?s ?r = None"
    using sa(2) other assms(4) by (simp add: kv_live_def)
  then obtain sb where sb: "enforce_http_admission env KvOk KvOk ?u (bc_limits cfg) tenant pk ?s = (sb, Inr ())"
    using first_admission [of ?u ?s env tenant pk "bc_limits cfg"] assms(5,7) by auto
  have "hm_get sb ?k = Some (1, Some (?t + 120000))"
    using admission_frame [of ?k env tenant pk KvOk KvOk ?u "bc_limits cfg" ?s] sb(1) other by simp
  then have m2: "check_nip98_replay env KvOk ?u tenant i sb = (hm_insert ?k (1, Some (?u + 120000)) sb, Inr ())"
    using assms(4,6) by (intro mark_fresh) (simp_all add: kv_live_def)
  let ?rq = "\<lambda>t. \<lparr>br_host = host, br_headers = headers, br_body = body, br_verified_at = t, br_admitted_at = t, br_marked_at = t,
    br_faults = \<lambda>_. KvOk\<rparr>"
  have "submit_event_auth env cfg (?rq ?t) [] = (?s, Authorized tenant pk i)"
    by (rule submit_authorized [of cfg _ tenant env pk i _ sa]) (simp_all only: bridge_request.simps assms(2) ver [of ?t] simp_thms sa(1) m1)
  moreover have "submit_event_auth env cfg (?rq ?u) ?s = (hm_insert ?k (1, Some (?u + 120000)) sb, Authorized tenant pk i)"
    by (rule submit_authorized [of cfg _ tenant env pk i _ sb]) (simp_all only: bridge_request.simps assms(2) ver [of ?u] simp_thms sb m2)
  ultimately show ?thesis
    by blast
qed

section \<open>An instance\<close>

definition sample_http_event :: event where
  "sample_http_event =
     \<lparr>ev_id = ''e1'', ev_pubkey = ''pk'', ev_created_at = 1000, ev_kind = 27235,
      ev_tags = [plain_tag [''u'', ''http://h/events''], plain_tag [''method'', ''post'']], ev_content = []\<rparr>"

definition sample_auth_env :: "unit auth_env" where
  "sample_auth_env =
     \<lparr>ae_verify_id = \<lambda>_. True, ae_verify_signature = \<lambda>_. True, ae_parse_event = \<lambda>_. Some sample_http_event,
      ae_base64 = Some, ae_utf8 = Some, ae_sha256_hex = id, ae_url_parse = \<lambda>_. None, ae_url_path = \<lambda>_. [],
      ae_url_set_path = \<lambda>_ u. u, ae_url_host_str = \<lambda>_. None, ae_url_set_host = \<lambda>_ u. u, ae_url_string = \<lambda>_. [],
      ae_lowercase = id, ae_pubkey_from_hex = Some, ae_uuid_text = \<lambda>_. ''c'', ae_ip_text = \<lambda>_. ''ip''\<rparr>"

definition sample_bridge :: "unit bridge_config" where
  "sample_bridge =
     \<lparr>bc_relay_url = ''ws://h'', bc_require_auth_token = True, bc_limits = default_rate_limits,
      bc_resolve = \<lambda>h. Inr (if h = ''h'' then Some 7 else None)\<rparr>"

definition sample_tenant :: TenantContext where
  "sample_tenant = \<lparr>tc_community = 7, tc_host = ''h''\<rparr>"

definition sample_headers :: http_headers where
  "sample_headers = \<lparr>hh_authorization = Some ''Nostr x'', hh_x_pubkey = None\<rparr>"

definition sample_mark :: "nat \<Rightarrow> store_call" where
  "sample_mark t = \<lparr>sc_now = t, sc_faults = (KvOk, KvOk), sc_op = Replay sample_tenant ''e1'' 120\<rparr>"

definition sample_limit :: "nat \<Rightarrow> store_call" where
  "sample_limit t = \<lparr>sc_now = t, sc_faults = (KvOk, KvOk), sc_op = Principal sample_tenant ''pk'' ApiCalls 60 1\<rparr>"

lemma sample_uuid_text: "uuid_text_ok sample_auth_env"
  by (simp add: uuid_text_ok_def sample_auth_env_def)

lemma sample_bind: "bind_community (bc_resolve sample_bridge) ''H:80'' = Inr sample_tenant"
  by code_simp

lemma sample_verified:
  assumes "abs_diff now 1000 \<le> 60"
  shows "verify_bridge_auth sample_auth_env now sample_headers ''POST''
    (nip98_expected_url (bc_relay_url sample_bridge) sample_tenant ''/events'') (Some body) True = Inr (''pk'', ''e1'')"
proof -
  have "nip98_expected_url (bc_relay_url sample_bridge) sample_tenant ''/events'' = ''http://h/events''"
    by code_simp
  moreover have "eq_ignore_ascii_case ''post'' ''POST''"
    by code_simp
  moreover have "strip_prefix ''Nostr '' ''Nostr x'' = Some ''x''"
    by code_simp
  ultimately show ?thesis
    using assms
    by (simp add: verify_bridge_auth_def verify_bridge_auth_with_options_def verify_nip98_event_def sample_headers_def
        sample_auth_env_def sample_http_event_def KIND_HTTP_AUTH_def verify_event_def TIMESTAMP_TOLERANCE_SECS_def
        find_content_def plain_tag_def normalize_url_def)
qed

lemma sample_id: "''e1'' \<noteq> zero_id"
  by (auto simp: zero_id_def dest: arg_cong [where f = length])

lemmas sample_call_simps = sample_mark_def sample_limit_def exec_call_def call_key_def try_mark_def try_mark_in_scope_def
  hm_get_Cons redis_set_nx_ex_def kv_live_def nip98_replay_key_def DEFAULT_REPLAY_TTL_SECS_def MAX_REPLAY_TTL_SECS_def

lemma sample_grants:
  "grant_times sample_auth_env (nip98_replay_key sample_auth_env sample_tenant ''e1'') [sample_mark 1000000, sample_mark 1120000, sample_mark 1120001] [] =
     [1000000, 1120001]"
  by (simp add: sample_call_simps)

theorem replay_claims_far_apart_witness:
  "sorted_wrt (\<lambda>t u. t + 120000 < u)
     (grant_times sample_auth_env (nip98_replay_key sample_auth_env sample_tenant ''e1'') [sample_mark 1000000, sample_mark 1120000, sample_mark 1120001] []) \<and>
   length (grant_times sample_auth_env (nip98_replay_key sample_auth_env sample_tenant ''e1'') [sample_mark 1000000, sample_mark 1120000, sample_mark 1120001] []) = 2"
proof -
  have "in_order [sample_mark 1000000, sample_mark 1120000, sample_mark 1120001]"
    by (simp add: sample_mark_def)
  then show ?thesis
    using replay_claims_far_apart [OF sample_uuid_text] sample_grants by simp
qed

theorem rate_limit_bound_witness:
  "length (filter (\<lambda>t. 1000 \<le> t \<and> t \<le> 1000 + 1000 * 60)
     (grant_times sample_auth_env (rate_limit_key sample_auth_env sample_tenant ''pk'' ApiCalls) [sample_limit 1000, sample_limit 2000] [])) \<le> 2 * 1 \<and>
   grant_times sample_auth_env (rate_limit_key sample_auth_env sample_tenant ''pk'' ApiCalls) [sample_limit 1000, sample_limit 2000] [] = [1000]"
proof -
  let ?k = "rate_limit_key sample_auth_env sample_tenant ''pk'' ApiCalls"
  have "list_all (limiter_call sample_auth_env ?k 60 1) [sample_limit 1000, sample_limit 2000]"
    by (simp add: limiter_call_def sample_limit_def call_key_def)
  moreover have "in_order [sample_limit 1000, sample_limit 2000]"
    by (simp add: sample_limit_def)
  moreover have "counter_ok ?k []"
    by (simp add: counter_ok_def)
  moreover have "grant_times sample_auth_env ?k [sample_limit 1000, sample_limit 2000] [] = [1000]"
    by (simp add: sample_call_simps check_and_increment_def run_rate_limit_def rate_limit_script_def redis_expire_def redis_ttl_def
        as_i64_def RateLimitResult_allowed_def RateLimitResult_denied_def)
  ultimately show ?thesis
    using rate_limit_bound [of 60 "[sample_limit 1000, sample_limit 2000]" sample_auth_env ?k 1 "[]" 1000] by simp
qed

definition sample_request :: "nat \<Rightarrow> bridge_request" where
  "sample_request t =
     \<lparr>br_host = ''H:80'', br_headers = sample_headers, br_body = ''b'', br_verified_at = t, br_admitted_at = t, br_marked_at = t,
      br_faults = \<lambda>_. KvOk\<rparr>"


theorem post_dated_event_replayed_witness:
  "\<exists>st1 st2.
    submit_event_auth sample_auth_env sample_bridge
      \<lparr>br_host = ''H:80'', br_headers = sample_headers, br_body = ''b'', br_verified_at = 1000 * 1000 - 60000, br_admitted_at = 1000 * 1000 - 60000,
       br_marked_at = 1000 * 1000 - 60000, br_faults = \<lambda>_. KvOk\<rparr> [] = (st1, Authorized sample_tenant ''pk'' ''e1'') \<and>
    submit_event_auth sample_auth_env sample_bridge
      \<lparr>br_host = ''H:80'', br_headers = sample_headers, br_body = ''b'', br_verified_at = 1000 * 1000 + 60001, br_admitted_at = 1000 * 1000 + 60001,
       br_marked_at = 1000 * 1000 + 60001, br_faults = \<lambda>_. KvOk\<rparr> st1 = (st2, Authorized sample_tenant ''pk'' ''e1'')"
proof (rule post_dated_event_replayed [OF sample_uuid_text sample_bind])
  show "\<forall>now. abs_diff now 1000 \<le> 60 \<longrightarrow> verify_bridge_auth sample_auth_env now sample_headers ''POST''
      (nip98_expected_url (bc_relay_url sample_bridge) sample_tenant ''/events'') (Some ''b'') (bc_require_auth_token sample_bridge) = Inr (''pk'', ''e1'')"
    using sample_verified by (simp add: sample_bridge_def)
qed (use sample_id in \<open>simp_all add: sample_bridge_def default_rate_limits_def\<close>)

end
