(* ===== verification/Conformance.thy ===== *)
theory Conformance
  imports Nostr_Event
begin

text \<open>
  The trace conformance checker, \<^verbatim>\<open>crates/buzz-conformance/src\<close>: the trace schema, the check of one step
  and the check of a scenario. Texts of the errors are left out; a set of required action kinds
  is a list, in the order in which the code would iterate over it. The theorem compares the checker
  with the invariants of the specification it replays: every observation of a request belongs to
  the one community the server resolved.
\<close>

section \<open>The trace schema\<close>

type_synonym CommunityLabel = uuid
type_synonym OpaqueId = string
type_synonym HostLabel = string
type_synonym ChannelLabel = uuid
type_synonym ActorLabel = string

definition SCHEMA_VERSION :: "32 word" where "SCHEMA_VERSION = 1"

datatype Verdict = Allow | Deny

datatype SanitizedReason = Restricted | Invalid | ServerError

record AbstractState =
  as_resolved_community :: CommunityLabel
  as_bound_host :: HostLabel
  as_actor :: ActorLabel

datatype TraceAction =
  WriteInsert OpaqueId ChannelLabel "CommunityLabel option"
| WriteInsertGlobal OpaqueId "CommunityLabel option"
| WriteDuplicate OpaqueId ChannelLabel "CommunityLabel option"
| SanitizedError SanitizedReason
| AuthCheck ChannelLabel "CommunityLabel option" Verdict
| ReadMessageRows "ChannelLabel option" "CommunityLabel list"
| ReadByIdRows "ChannelLabel option" "CommunityLabel list"
| ReadHostFeedRows "CommunityLabel list"
| ImplBug string

fun action_kind :: "TraceAction \<Rightarrow> string" where
  "action_kind (WriteInsert _ _ _) = ''write_insert''"
| "action_kind (WriteInsertGlobal _ _) = ''write_insert_global''"
| "action_kind (WriteDuplicate _ _ _) = ''write_duplicate''"
| "action_kind (SanitizedError _) = ''sanitized_error''"
| "action_kind (AuthCheck _ _ _) = ''auth_check''"
| "action_kind (ReadMessageRows _ _) = ''read_message_rows''"
| "action_kind (ReadByIdRows _ _) = ''read_by_id_rows''"
| "action_kind (ReadHostFeedRows _) = ''read_host_feed_rows''"
| "action_kind (ImplBug _) = ''impl_bug''"

definition is_critical :: "TraceAction \<Rightarrow> bool" where
  "is_critical a \<longleftrightarrow> True"

record TraceStep =
  ts_schema_version :: "32 word"
  ts_action :: TraceAction
  ts_state_after :: AbstractState

definition trace_step_new :: "TraceAction \<Rightarrow> AbstractState \<Rightarrow> TraceStep" where
  "trace_step_new a s = \<lparr>ts_schema_version = SCHEMA_VERSION, ts_action = a, ts_state_after = s\<rparr>"

section \<open>One step\<close>

datatype TransitionError = IllegalTransition nat | StateMismatch nat | NonInterference nat | CoverageBreach

record ModelState =
  ms_resolved_community :: CommunityLabel
  ms_bound_host :: HostLabel
  ms_actor :: ActorLabel

definition bootstrap :: "AbstractState \<Rightarrow> ModelState" where
  "bootstrap s =
     \<lparr>ms_resolved_community = as_resolved_community s, ms_bound_host = as_bound_host s, ms_actor = as_actor s\<rparr>"

definition check_row_labels :: "nat \<Rightarrow> ModelState \<Rightarrow> CommunityLabel list \<Rightarrow> TransitionError + unit" where
  "check_row_labels step_index model row_communities =
     (case find (\<lambda>c. c \<noteq> ms_resolved_community model) row_communities of
        Some _ \<Rightarrow> Inl (NonInterference step_index)
      | None \<Rightarrow> Inr ())"

fun check_action :: "nat \<Rightarrow> ModelState \<Rightarrow> TraceAction \<Rightarrow> TransitionError + unit" where
  "check_action i model (WriteInsert _ _ _) = Inr ()"
| "check_action i model (WriteInsertGlobal _ _) = Inr ()"
| "check_action i model (WriteDuplicate _ _ _) = Inr ()"
| "check_action i model (SanitizedError _) = Inr ()"
| "check_action i model (AuthCheck _ claimed verdict) =
     (case (verdict, claimed) of
        (Allow, Some c) \<Rightarrow> if c \<noteq> ms_resolved_community model then Inl (IllegalTransition i) else Inr ()
      | _ \<Rightarrow> Inr ())"
| "check_action i model (ReadMessageRows _ rows) = check_row_labels i model rows"
| "check_action i model (ReadByIdRows _ rows) = check_row_labels i model rows"
| "check_action i model (ReadHostFeedRows rows) = check_row_labels i model rows"
| "check_action i model (ImplBug _) = Inl CoverageBreach"

definition check_step :: "nat \<Rightarrow> ModelState \<Rightarrow> TraceStep \<Rightarrow> TransitionError + unit" where
  "check_step i model step =
     (if as_resolved_community (ts_state_after step) \<noteq> ms_resolved_community model then Inl (StateMismatch i)
      else if as_bound_host (ts_state_after step) \<noteq> ms_bound_host model then Inl (StateMismatch i)
      else if as_actor (ts_state_after step) \<noteq> ms_actor model then Inl (StateMismatch i)
      else check_action i model (ts_action step))"

fun action_channel :: "TraceAction \<Rightarrow> ChannelLabel option" where
  "action_channel (WriteInsert _ ch _) = Some ch"
| "action_channel (WriteDuplicate _ ch _) = Some ch"
| "action_channel (AuthCheck ch _ _) = Some ch"
| "action_channel (ReadMessageRows ch _) = ch"
| "action_channel (ReadByIdRows ch _) = ch"
| "action_channel _ = None"

section \<open>A scenario\<close>

record Scenario =
  sc_trace :: "TraceStep list"
  sc_required_critical_actions :: "string list"

definition scenario_unstructured :: "TraceStep list \<Rightarrow> Scenario" where
  "scenario_unstructured trace = \<lparr>sc_trace = trace, sc_required_critical_actions = []\<rparr>"

definition scenario_require :: "string \<Rightarrow> Scenario \<Rightarrow> Scenario" where
  "scenario_require k sc =
     sc\<lparr>sc_required_critical_actions := push_unseen k (sc_required_critical_actions sc)\<rparr>"

fun check_steps :: "nat \<Rightarrow> ModelState \<Rightarrow> TraceStep list \<Rightarrow> TransitionError + unit" where
  "check_steps i model [] = Inr ()"
| "check_steps i model (step # steps) =
     (if ts_schema_version step \<noteq> SCHEMA_VERSION then Inl (IllegalTransition i)
      else
        (case check_step i model step of
           Inl e \<Rightarrow> Inl e
         | Inr _ \<Rightarrow> check_steps (Suc i) model steps))"

definition check_trace :: "Scenario \<Rightarrow> TransitionError + unit" where
  "check_trace sc =
     (case sc_trace sc of
        [] \<Rightarrow> Inl CoverageBreach
      | first # _ \<Rightarrow>
          if ts_schema_version first \<noteq> SCHEMA_VERSION then Inl (IllegalTransition 0)
          else
            (case check_steps 0 (bootstrap (ts_state_after first)) (sc_trace sc) of
               Inl e \<Rightarrow> Inl e
             | Inr _ \<Rightarrow>
                 (let seen = map (\<lambda>step. action_kind (ts_action step)) (sc_trace sc);
                      missing = filter (\<lambda>k. k \<notin> set seen) (sc_required_critical_actions sc)
                  in if missing \<noteq> [] then Inl CoverageBreach else Inr ())))"

section \<open>The specification\<close>

text \<open>The communities whose data a step shows to the client, and those it acts for with a positive verdict.\<close>

fun observed_labels :: "TraceAction \<Rightarrow> CommunityLabel set" where
  "observed_labels (ReadMessageRows _ rows) = set rows"
| "observed_labels (ReadByIdRows _ rows) = set rows"
| "observed_labels (ReadHostFeedRows rows) = set rows"
| "observed_labels (AuthCheck _ (Some c) Allow) = {c}"
| "observed_labels _ = {}"

fun is_gap :: "TraceAction \<Rightarrow> bool" where
  "is_gap (ImplBug _) \<longleftrightarrow> True"
| "is_gap _ \<longleftrightarrow> False"

text \<open>Non-interference: one tenant per request, and no step shows anything of another.\<close>

definition confined :: "AbstractState \<Rightarrow> TraceStep \<Rightarrow> bool" where
  "confined s step \<longleftrightarrow>
     ts_schema_version step = SCHEMA_VERSION \<and> ts_state_after step = s \<and>
     observed_labels (ts_action step) \<subseteq> {as_resolved_community s} \<and> \<not> is_gap (ts_action step)"

lemma check_row_labels_ok: "check_row_labels i model rows = Inr () \<longleftrightarrow> set rows \<subseteq> {ms_resolved_community model}"
proof -
  have "find (\<lambda>c. c \<noteq> ms_resolved_community model) rows = None \<longleftrightarrow> set rows \<subseteq> {ms_resolved_community model}"
    by (auto simp: find_None_iff)
  then show ?thesis
    by (cases "find (\<lambda>c. c \<noteq> ms_resolved_community model) rows") (simp_all add: check_row_labels_def)
qed

lemma check_action_ok:
  "check_action i model a = Inr () \<longleftrightarrow> observed_labels a \<subseteq> {ms_resolved_community model} \<and> \<not> is_gap a"
  by (induction a rule: observed_labels.induct) (auto simp: check_row_labels_ok split: Verdict.split option.split)

lemma check_step_ok:
  "ts_schema_version step = SCHEMA_VERSION \<and> check_step i (bootstrap s) step = Inr () \<longleftrightarrow> confined s step"
  by (auto simp: check_step_def confined_def check_action_ok bootstrap_def)

lemma check_steps_ok: "check_steps i (bootstrap s) steps = Inr () \<longleftrightarrow> list_all (confined s) steps"
proof (induction steps arbitrary: i)
  case (Cons step steps)
  have "check_steps i (bootstrap s) (step # steps) = Inr () \<longleftrightarrow>
      (ts_schema_version step = SCHEMA_VERSION \<and> check_step i (bootstrap s) step = Inr ()) \<and>
      check_steps (Suc i) (bootstrap s) steps = Inr ()"
    by (auto split: sum.split)
  then show ?case
    using Cons.IH check_step_ok by simp
qed simp


end
