(* ===== verification/Workflow_Def.thy ===== *)
theory Workflow_Def
  imports Rust_Text Decimal
begin

text \<open>
  Workflow definitions, \<^verbatim>\<open>crates/buzz-workflow/src/schema.rs\<close> and \<^verbatim>\<open>error.rs\<close>: the data types,
  validation, cron normalisation and durations. The texts of the errors are left out; whether a
  normalised cron expression parses is a parameter (the \<^verbatim>\<open>cron\<close> crate). The theorem compares the
  validation with the conditions its documentation states.
\<close>

datatype WorkflowError =
  InvalidYaml | InvalidDefinition | ConditionError | TemplateError | StepTimeout string nat | WebhookError
| CapacityExceeded | WfDatabase | WfUnauthorized | NotImplemented string

fun error_code :: "WorkflowError \<Rightarrow> string" where
  "error_code InvalidYaml = ''invalid_yaml''"
| "error_code InvalidDefinition = ''invalid_definition''"
| "error_code ConditionError = ''condition_evaluation_failed''"
| "error_code TemplateError = ''template_resolution_failed''"
| "error_code (StepTimeout _ _) = ''step_timeout''"
| "error_code WebhookError = ''webhook_failed''"
| "error_code CapacityExceeded = ''capacity_exceeded''"
| "error_code WfDatabase = ''database_error''"
| "error_code WfUnauthorized = ''owner_unauthorized''"
| "error_code (NotImplemented _) = ''action_not_implemented''"

datatype TriggerDef =
  MessagePosted "string option"
| ReactionAdded "string option" "string option"
| DiffPosted "string option"
| Schedule "string option" "string option"
| Webhook

datatype ActionDef =
  SendMessage string "string option" bool
| SendDm string string
| SetChannelTopic string
| AddReaction string
| CallWebhook string "string option" "(string, string) hmap option" "string option"
| RequestApproval string string "string option"
| Delay string

record Step =
  sp_id :: string
  sp_name :: "string option"
  sp_if_expr :: "string option"
  sp_timeout_secs :: "nat option"
  sp_action :: ActionDef

record WorkflowDef =
  wd_name :: string
  wd_description :: "string option"
  wd_trigger :: TriggerDef
  wd_steps :: "Step list"
  wd_enabled :: bool

fun is_call_webhook :: "ActionDef \<Rightarrow> bool" where
  "is_call_webhook (CallWebhook _ _ _ _) \<longleftrightarrow> True"
| "is_call_webhook _ \<longleftrightarrow> False"

definition requires_elevated_authority :: "WorkflowDef \<Rightarrow> bool" where
  "requires_elevated_authority d \<longleftrightarrow> list_ex (\<lambda>s. is_call_webhook (sp_action s)) (wd_steps d)"

section \<open>Durations\<close>

definition checked_mul :: "nat \<Rightarrow> nat \<Rightarrow> nat option" where
  "checked_mul a b = (if a * b < 2 ^ 64 then Some (a * b) else None)"

definition parse_unit :: "nat \<Rightarrow> string \<Rightarrow> WorkflowError + nat" where
  "parse_unit secs n =
     (case parse_u64 (trim n) of
        None \<Rightarrow> Inl InvalidDefinition
      | Some k \<Rightarrow> (case checked_mul k secs of None \<Rightarrow> Inl InvalidDefinition | Some r \<Rightarrow> Inr r))"

definition parse_duration_secs :: "string \<Rightarrow> WorkflowError + nat" where
  "parse_duration_secs raw =
     (let duration = trim raw
      in case strip_suffix ''h'' duration of
           Some n \<Rightarrow> parse_unit 3600 n
         | None \<Rightarrow>
             (case strip_suffix ''m'' duration of
                Some n \<Rightarrow> parse_unit 60 n
              | None \<Rightarrow>
                  (case strip_suffix ''s'' duration of
                     Some n \<Rightarrow> parse_unit 1 n
                   | None \<Rightarrow> (case parse_u64 duration of None \<Rightarrow> Inl InvalidDefinition | Some k \<Rightarrow> Inr k))))"

section \<open>Validation\<close>

definition valid_step_id :: "string \<Rightarrow> bool" where
  "valid_step_id i \<longleftrightarrow> i \<noteq> [] \<and> length i \<le> 64 \<and> list_all (\<lambda>c. is_ascii_alphanumeric c \<or> c = CHR ''_'') i"

fun check_step_ids :: "string list \<Rightarrow> Step list \<Rightarrow> WorkflowError + unit" where
  "check_step_ids seen [] = Inr ()"
| "check_step_ids seen (s # steps) =
     (if trim (sp_id s) = [] then Inl InvalidDefinition
      else if \<not> valid_step_id (sp_id s) then Inl InvalidDefinition
      else if sp_id s \<in> set seen then Inl InvalidDefinition
      else check_step_ids (sp_id s # seen) steps)"

fun trigger_has_message :: "TriggerDef \<Rightarrow> bool" where
  "trigger_has_message (MessagePosted _) \<longleftrightarrow> True"
| "trigger_has_message (ReactionAdded _ _) \<longleftrightarrow> True"
| "trigger_has_message (DiffPosted _) \<longleftrightarrow> True"
| "trigger_has_message _ \<longleftrightarrow> False"

fun replies_in_thread :: "ActionDef \<Rightarrow> bool" where
  "replies_in_thread (SendMessage _ _ r) \<longleftrightarrow> r"
| "replies_in_thread _ \<longleftrightarrow> False"

definition normalize_cron :: "string \<Rightarrow> string" where
  "normalize_cron expr =
     (let n = count_words expr
      in if n = 5 then ''0 '' @ expr @ '' *'' else if n = 6 then expr @ '' *'' else expr)"

definition validate_cron :: "(string \<Rightarrow> bool) \<Rightarrow> string \<Rightarrow> WorkflowError + unit" where
  "validate_cron cron_parses expr = (if cron_parses (normalize_cron expr) then Inr () else Inl InvalidDefinition)"

definition check_interval :: "string \<Rightarrow> WorkflowError + unit" where
  "check_interval dur =
     (case parse_duration_secs dur of
        Inl _ \<Rightarrow> Inl InvalidDefinition
      | Inr secs \<Rightarrow> if secs < 60 then Inl InvalidDefinition else Inr ())"

definition check_trigger :: "(string \<Rightarrow> bool) \<Rightarrow> TriggerDef \<Rightarrow> WorkflowError + unit" where
  "check_trigger cron_parses t =
     (case t of
        Schedule cron interval \<Rightarrow>
          if cron = None \<and> interval = None then Inl InvalidDefinition
          else if cron \<noteq> None \<and> interval \<noteq> None then Inl InvalidDefinition
          else
            (case (case cron of Some expr \<Rightarrow> validate_cron cron_parses expr | None \<Rightarrow> Inr ()) of
               Inl e \<Rightarrow> Inl e
             | Inr _ \<Rightarrow> (case interval of Some dur \<Rightarrow> check_interval dur | None \<Rightarrow> Inr ()))
      | _ \<Rightarrow> Inr ())"

definition validate :: "(string \<Rightarrow> bool) \<Rightarrow> WorkflowDef \<Rightarrow> WorkflowError + unit" where
  "validate cron_parses d =
     (if trim (wd_name d) = [] then Inl InvalidDefinition
      else if wd_steps d = [] then Inl InvalidDefinition
      else
        (case check_step_ids [] (wd_steps d) of
           Inl e \<Rightarrow> Inl e
         | Inr _ \<Rightarrow>
             if \<not> trigger_has_message (wd_trigger d) \<and> list_ex (\<lambda>s. replies_in_thread (sp_action s)) (wd_steps d)
             then Inl InvalidDefinition
             else check_trigger cron_parses (wd_trigger d)))"

definition parse_yaml ::
  "(string \<Rightarrow> WorkflowDef option) \<Rightarrow> (WorkflowDef \<Rightarrow> string option) \<Rightarrow> (string \<Rightarrow> bool) \<Rightarrow> string \<Rightarrow>
     WorkflowError + WorkflowDef \<times> string" where
  "parse_yaml from_yaml to_json cron_parses yaml =
     (case from_yaml yaml of
        None \<Rightarrow> Inl InvalidYaml
      | Some d \<Rightarrow>
          (case validate cron_parses d of
             Inl e \<Rightarrow> Inl e
           | Inr _ \<Rightarrow> (case to_json d of None \<Rightarrow> Inl InvalidDefinition | Some json \<Rightarrow> Inr (d, json))))"

section \<open>What validation guarantees\<close>

lemma white_space_not_word:
  "list_all (\<lambda>w. w \<noteq> [] \<and> \<not> is_ascii_alphanumeric (hd w) \<and> hd w \<noteq> CHR ''_'' \<and>
     \<not> is_ascii_alphanumeric (last w) \<and> last w \<noteq> CHR ''_'') white_space"
  by code_simp

lemma strip_words_none: "(\<And>w. w \<in> set ws \<Longrightarrow> \<not> prefix w s) \<Longrightarrow> strip_words ws s = s"
  by (subst strip_words.simps) (auto simp: find_Some_iff split: option.split)

definition plain_char :: "char \<Rightarrow> bool" where
  "plain_char c \<longleftrightarrow> is_ascii_alphanumeric c \<or> c = CHR ''_''"

lemma trim_plain:
  assumes i: "i \<noteq> []" "plain_char (hd i)" "plain_char (last i)"
  shows "trim i = i"
proof -
  have ws: "w \<noteq> [] \<and> \<not> plain_char (hd w) \<and> \<not> plain_char (last w)" if "w \<in> set white_space" for w
    using white_space_not_word that by (auto simp: list_all_iff plain_char_def)
  have start: "trim_start i = i"
    unfolding trim_start_def
  proof (rule strip_words_none, rule notI)
    fix w assume w: "w \<in> set white_space" and "prefix w i"
    then have "hd w = hd i"
      using ws by (auto simp: prefix_def)
    then show False
      using ws [OF w] i by metis
  qed
  have "strip_words (map rev white_space) (rev i) = rev i"
  proof (rule strip_words_none, rule notI)
    fix v assume "v \<in> set (map rev white_space)" and pre: "prefix v (rev i)"
    then obtain w where w: "w \<in> set white_space" "v = rev w"
      by auto
    then have "last w = last i"
      using ws pre by (auto simp: suffix_to_prefix [symmetric] suffix_def)
    then show False
      using ws [OF w(1)] i by metis
  qed
  then show ?thesis
    by (simp add: trim_def start trim_end_def)
qed

lemma trim_safe_id: "valid_step_id i \<Longrightarrow> trim i \<noteq> []"
  using trim_plain [of i] hd_in_set [of i] last_in_set [of i] by (auto simp: valid_step_id_def list_all_iff plain_char_def)

lemma check_step_ids_ok:
  "check_step_ids seen steps = Inr () \<longleftrightarrow>
     list_all (\<lambda>s. valid_step_id (sp_id s)) steps \<and> distinct (map sp_id steps) \<and> set (map sp_id steps) \<inter> set seen = {}"
  by (induction steps arbitrary: seen) (auto simp: trim_safe_id)

definition good_trigger :: "(string \<Rightarrow> bool) \<Rightarrow> TriggerDef \<Rightarrow> bool" where
  "good_trigger cron_parses t =
     (case t of
        Schedule (Some expr) None \<Rightarrow> cron_parses (normalize_cron expr)
      | Schedule None (Some dur) \<Rightarrow> (\<exists>secs. parse_duration_secs dur = Inr secs \<and> 60 \<le> secs)
      | Schedule _ _ \<Rightarrow> False
      | _ \<Rightarrow> True)"

lemma check_trigger_ok: "check_trigger cron_parses t = Inr () \<longleftrightarrow> good_trigger cron_parses t"
  by (cases t) (auto simp: check_trigger_def good_trigger_def validate_cron_def check_interval_def
      split: option.splits sum.splits if_splits)

lemma check_step_ids_cases: "check_step_ids seen steps = Inr () \<or> check_step_ids seen steps = Inl InvalidDefinition"
  by (induction seen steps rule: check_step_ids.induct) auto

lemma check_trigger_cases: "check_trigger cp t = Inr () \<or> check_trigger cp t = Inl InvalidDefinition"
  by (cases t) (auto simp: check_trigger_def validate_cron_def check_interval_def split: option.splits sum.splits)

text \<open>
  Validation accepts exactly the documented definitions: the name is not blank, there is a step,
  the step ids are pairwise distinct words of at most 64 ASCII letters, digits and underscores, a
  reply in the thread is only asked for when the trigger carries a message, and a schedule has
  either a cron expression that parses after normalisation or an interval of at least a minute,
  not both. Every rejection is an invalid definition.
\<close>

theorem validate_exact:
  "validate cron_parses d =
     (if trim (wd_name d) \<noteq> [] \<and> wd_steps d \<noteq> [] \<and> distinct (map sp_id (wd_steps d)) \<and>
         list_all (\<lambda>s. valid_step_id (sp_id s)) (wd_steps d) \<and>
         (trigger_has_message (wd_trigger d) \<or> list_all (\<lambda>s. \<not> replies_in_thread (sp_action s)) (wd_steps d)) \<and>
         good_trigger cron_parses (wd_trigger d)
      then Inr () else Inl InvalidDefinition)"
  using check_step_ids_cases [of "[]" "wd_steps d"] check_trigger_cases [of cron_parses "wd_trigger d"]
    check_step_ids_ok [of "[]" "wd_steps d"] check_trigger_ok [of cron_parses "wd_trigger d"]
  by (auto simp: validate_def list_ex_iff list_all_iff)

end
