(* ===== verification/Workflow_Run.thy ===== *)
theory Workflow_Run
  imports Workflow_Def Network Json Nostr_Event
begin

text \<open>
  The workflow executor, \<^verbatim>\<open>crates/buzz-workflow/src/executor.rs\<close> with the \<^verbatim>\<open>reqwest\<close> feature the relay
  builds it with, \<^verbatim>\<open>action_sink.rs\<close>, and \<open>finalize_run\<close> of \<^verbatim>\<open>lib.rs\<close>.
  \<^item> \<open>wf_env\<close> holds the third-party functions: key and uuid texts, JSON texts, the contexts of evalexpr,
    URLs. \<open>step_world\<close> is what the outside answers while one step runs: the evaluation of a
    condition, the community write fence, the database, the message sink, DNS and HTTP.
  \<^item> A step returns the effects it had outside, in order, next to its result. A step that is cut off
    (its timeout, or the loss of the write lease) has had any number of its effects.
  \<^item> Texts of errors and log lines are left out. Numbers of \<open>json!\<close> are injected by \<open>we_number\<close>.
\<close>

section \<open>Trigger context and templates\<close>

record TriggerContext =
  tr_text :: string
  tr_author :: string
  tr_channel_id :: string
  tr_timestamp :: string
  tr_emoji :: string
  tr_message_id :: string
  tr_is_reply :: bool
  tr_webhook_fields :: "(string, string) hmap"

definition default_trigger :: TriggerContext where
  "default_trigger =
     \<lparr>tr_text = [], tr_author = [], tr_channel_id = [], tr_timestamp = [], tr_emoji = [], tr_message_id = [],
      tr_is_reply = False, tr_webhook_fields = []\<rparr>"

definition get_field :: "TriggerContext \<Rightarrow> string \<Rightarrow> string option" where
  "get_field t name =
     (if name = ''text'' then Some (tr_text t)
      else if name = ''author'' then Some (tr_author t)
      else if name = ''channel_id'' then Some (tr_channel_id t)
      else if name = ''timestamp'' then Some (tr_timestamp t)
      else if name = ''emoji'' then Some (tr_emoji t)
      else if name = ''message_id'' then Some (tr_message_id t)
      else hm_get (tr_webhook_fields t) name)"

datatype 'f evalue = EString string | EFloat 'f | EInt int | EBoolean bool | ETuple "'f evalue list" | EEmpty

record ('n, 'f, 'c, 'u) wf_env =
  we_pubkey_from_hex :: "string \<Rightarrow> pubkey option"
  we_to_bech32 :: "pubkey \<Rightarrow> string option"
  we_number :: "nat \<Rightarrow> 'n"
  we_number_text :: "'n \<Rightarrow> string"
  we_json_text :: "'n json \<Rightarrow> string"
  we_json_parse :: "string \<Rightarrow> 'n json option"
  we_as_i64 :: "'n \<Rightarrow> int option"
  we_as_f64 :: "'n \<Rightarrow> 'f option"
  we_new_context :: 'c
  we_set_function :: "string \<Rightarrow> ('f evalue \<Rightarrow> 'f evalue option) \<Rightarrow> 'c \<Rightarrow> 'c option"
  we_set_value :: "string \<Rightarrow> 'f evalue \<Rightarrow> 'c \<Rightarrow> 'c option"
  we_get_value :: "'c \<Rightarrow> string \<Rightarrow> 'f evalue option"
  we_parse_uuid :: "string \<Rightarrow> uuid option"
  we_uuid_text :: "uuid \<Rightarrow> string"
  we_hex :: "string \<Rightarrow> string"
  we_url_parse :: "string \<Rightarrow> 'u option"
  we_url_host :: "'u \<Rightarrow> string option"
  we_url_port :: "'u \<Rightarrow> nat option"
  we_method_ok :: "string \<Rightarrow> bool"
  we_utf8_lossy :: "string \<Rightarrow> string"

type_synonym 'n outputs = "(string, 'n json) hmap"

definition json_to_string :: "('n, 'f, 'c, 'u) wf_env \<Rightarrow> 'n json \<Rightarrow> string" where
  "json_to_string env v =
     (case v of
        JScalar (JString s) \<Rightarrow> s
      | JScalar (JBool b) \<Rightarrow> (if b then ''true'' else ''false'')
      | JScalar (JNumber n) \<Rightarrow> we_number_text env n
      | JScalar JNull \<Rightarrow> []
      | other \<Rightarrow> we_json_text env other)"

definition json_get_str :: "('n, 'f, 'c, 'u) wf_env \<Rightarrow> 'n json \<Rightarrow> string \<Rightarrow> string option" where
  "json_get_str env v key =
     (case v of
        JObject members \<Rightarrow> map_option (json_to_string env) (map_of members key)
      | _ \<Rightarrow> None)"

definition resolve_variable :: "('n, 'f, 'c, 'u) wf_env \<Rightarrow> string \<Rightarrow> TriggerContext \<Rightarrow> 'n outputs \<Rightarrow> string option" where
  "resolve_variable env path t outs =
     (case strip_prefix ''trigger.'' path of
        Some field \<Rightarrow> get_field t field
      | None \<Rightarrow>
          (case strip_prefix ''steps.'' path of
             Some rest \<Rightarrow>
               (case split_once (CHR ''.'') rest of
                  (step_id, Some rest') \<Rightarrow>
                    (case split_once (CHR ''.'') rest' of
                       (middle, Some field) \<Rightarrow>
                         if middle \<noteq> ''output'' then None
                         else (case hm_get outs step_id of None \<Rightarrow> None | Some v \<Rightarrow> json_get_str env v field)
                     | (_, None) \<Rightarrow> None)
                | (_, None) \<Rightarrow> None)
           | None \<Rightarrow> None))"

definition apply_filter :: "('n, 'f, 'c, 'u) wf_env \<Rightarrow> string \<Rightarrow> string \<Rightarrow> WorkflowError + string" where
  "apply_filter env v raw =
     (let filt = trim raw
      in case Option.bind (strip_prefix ''truncate('' filt) (strip_suffix '')'') of
           Some inner \<Rightarrow>
             (case parse_u64 (trim inner) of
                None \<Rightarrow> Inl TemplateError
              | Some n \<Rightarrow> Inr (take_chars n v))
         | None \<Rightarrow>
             if filt = ''npub'' \<or> filt = ''truncate_pubkey''
             then Inr (case we_pubkey_from_hex env v of
                         Some pk \<Rightarrow> (case we_to_bech32 env pk of Some npub \<Rightarrow> npub | None \<Rightarrow> v)
                       | None \<Rightarrow> v)
             else Inl TemplateError)"

text \<open>What one \<open>{{...}}\<close> becomes, given the trimmed text between the braces.\<close>

definition expand :: "('n, 'f, 'c, 'u) wf_env \<Rightarrow> TriggerContext \<Rightarrow> 'n outputs \<Rightarrow> string \<Rightarrow> WorkflowError + string" where
  "expand env t outs expr =
     (let (var_path, filt) = split_once (CHR ''|'') expr
      in case (resolve_variable env (trim var_path) t outs, map_option trim filt) of
           (Some v, Some f) \<Rightarrow> apply_filter env v f
         | (Some v, None) \<Rightarrow> Inr v
         | (None, _) \<Rightarrow> Inr (''{{'' @ expr @ ''}}''))"

function template_loop ::
  "('n, 'f, 'c, 'u) wf_env \<Rightarrow> TriggerContext \<Rightarrow> 'n outputs \<Rightarrow> string \<Rightarrow> string \<Rightarrow> WorkflowError + string" where
  "template_loop env t outs result remaining =
     (case split_sub ''{{'' remaining of
        None \<Rightarrow> Inr (result @ remaining)
      | Some (before, after) \<Rightarrow>
          (case split_sub ''}}'' after of
             None \<Rightarrow> Inr (result @ before @ ''{{'' @ after)
           | Some (inner, rest) \<Rightarrow>
               (case expand env t outs (trim inner) of
                  Inl e \<Rightarrow> Inl e
                | Inr v \<Rightarrow> template_loop env t outs (result @ before @ v) rest)))"
  by pat_completeness auto
termination
proof (relation "measure (\<lambda>(_, _, _, _, remaining). length remaining)")
  fix remaining p before after q inner rest
  assume "split_sub ''{{'' remaining = Some p" "(before, after) = p" "split_sub ''}}'' after = Some q" "(inner, rest) = q"
  then have "remaining = before @ ''{{'' @ after" "after = inner @ ''}}'' @ rest"
    by (auto dest!: split_sub_Some)
  then show "((env, t, outs, result @ before @ v, rest), env, t, outs, result, remaining) \<in>
      measure (\<lambda>(_, _, _, _, remaining). length remaining)"
    for env :: "('n, 'f, 'c, 'u) wf_env" and t and outs :: "'n outputs" and result v
    by simp
qed simp

declare template_loop.simps [simp del]

definition resolve_template ::
  "('n, 'f, 'c, 'u) wf_env \<Rightarrow> TriggerContext \<Rightarrow> 'n outputs \<Rightarrow> string \<Rightarrow> WorkflowError + string" where
  "resolve_template env t outs template =
     (if \<not> sublist ''{{'' template then Inr template else template_loop env t outs [] template)"

section \<open>Conditions\<close>

definition json_value_to_eval :: "('n, 'f, 'c, 'u) wf_env \<Rightarrow> 'n json \<Rightarrow> 'f evalue" where
  "json_value_to_eval env v =
     (case v of
        JScalar (JString s) \<Rightarrow> EString s
      | JScalar (JBool b) \<Rightarrow> EBoolean b
      | JScalar (JNumber n) \<Rightarrow>
          (case we_as_i64 env n of
             Some i \<Rightarrow> EInt i
           | None \<Rightarrow> (case we_as_f64 env n of Some f \<Rightarrow> EFloat f | None \<Rightarrow> EString (we_number_text env n)))
      | JScalar JNull \<Rightarrow> EEmpty
      | other \<Rightarrow> EString (we_json_text env other))"

text \<open>The string helpers registered for conditions; \<open>None\<close> is an error of evalexpr.\<close>

fun on_two_strings :: "(string \<Rightarrow> string \<Rightarrow> bool) \<Rightarrow> 'f evalue \<Rightarrow> 'f evalue option" where
  "on_two_strings p (ETuple [EString a, EString b]) = Some (EBoolean (p a b))"
| "on_two_strings p _ = None"

fun str_len :: "'f evalue \<Rightarrow> 'f evalue option" where
  "str_len (EString s) = Some (EInt (int (length s)))"
| "str_len _ = None"

definition helper_functions :: "(string \<times> ('f evalue \<Rightarrow> 'f evalue option)) list" where
  "helper_functions =
     [(''str_contains'', on_two_strings (\<lambda>haystack needle. sublist needle haystack)),
      (''str_starts_with'', on_two_strings (\<lambda>s p. prefix p s)),
      (''str_ends_with'', on_two_strings (\<lambda>s p. suffix p s)),
      (''str_len'', str_len)]"

fun set_functions ::
  "('n, 'f, 'c, 'u) wf_env \<Rightarrow> (string \<times> ('f evalue \<Rightarrow> 'f evalue option)) list \<Rightarrow> 'c \<Rightarrow> WorkflowError + 'c" where
  "set_functions env [] ctx = Inr ctx"
| "set_functions env ((name, f) # fs) ctx =
     (case we_set_function env name f ctx of None \<Rightarrow> Inl ConditionError | Some ctx' \<Rightarrow> set_functions env fs ctx')"

fun set_values :: "('n, 'f, 'c, 'u) wf_env \<Rightarrow> (string \<times> 'f evalue) list \<Rightarrow> 'c \<Rightarrow> WorkflowError + 'c" where
  "set_values env [] ctx = Inr ctx"
| "set_values env ((name, v) # vs) ctx =
     (case we_set_value env name v ctx of None \<Rightarrow> Inl ConditionError | Some ctx' \<Rightarrow> set_values env vs ctx')"

definition webhook_values :: "TriggerContext \<Rightarrow> (string \<times> 'f evalue) list" where
  "webhook_values t =
     map (\<lambda>(key, v). (''trigger_'' @ key, EString v))
       (filter (\<lambda>(key, _). \<not> (prefix ''trigger_'' key \<or> prefix ''steps_'' key)) (tr_webhook_fields t))"

definition trigger_values :: "TriggerContext \<Rightarrow> (string \<times> 'f evalue) list" where
  "trigger_values t =
     [(''trigger_text'', EString (tr_text t)), (''trigger_author'', EString (tr_author t)),
      (''trigger_channel_id'', EString (tr_channel_id t)), (''trigger_timestamp'', EString (tr_timestamp t)),
      (''trigger_emoji'', EString (tr_emoji t)), (''trigger_message_id'', EString (tr_message_id t)),
      (''trigger_is_reply'', EBoolean (tr_is_reply t))]"

definition output_values :: "('n, 'f, 'c, 'u) wf_env \<Rightarrow> string \<times> 'n json \<Rightarrow> (string \<times> 'f evalue) list" where
  "output_values env p =
     (case p of
        (step_id, JObject members) \<Rightarrow>
          map (\<lambda>(field, v). (''steps_'' @ step_id @ ''_output_'' @ field, json_value_to_eval env v)) members
      | _ \<Rightarrow> [])"

definition build_eval_context ::
  "('n, 'f, 'c, 'u) wf_env \<Rightarrow> TriggerContext \<Rightarrow> 'n outputs \<Rightarrow> WorkflowError + 'c" where
  "build_eval_context env t outs =
     (case set_functions env helper_functions (we_new_context env) of
        Inl e \<Rightarrow> Inl e
      | Inr ctx \<Rightarrow> set_values env (webhook_values t @ trigger_values t @ concat (map (output_values env) outs)) ctx)"

definition MAX_EXPR_LEN :: nat where "MAX_EXPR_LEN = 4096"

text \<open>\<open>eval\<close> is the boolean the evaluator returned within its time, if it did.\<close>

definition evaluate_condition ::
  "('n, 'f, 'c, 'u) wf_env \<Rightarrow> (string \<Rightarrow> 'c \<Rightarrow> bool option) \<Rightarrow> string \<Rightarrow> TriggerContext \<Rightarrow> 'n outputs \<Rightarrow> WorkflowError + bool" where
  "evaluate_condition env eval expr t outs =
     (case build_eval_context env t outs of
        Inl e \<Rightarrow> Inl e
      | Inr ctx \<Rightarrow>
          if length expr > MAX_EXPR_LEN then Inl ConditionError
          else (case eval expr ctx of None \<Rightarrow> Inl ConditionError | Some b \<Rightarrow> Inr b))"

section \<open>Templates of a step\<close>

definition resolve_opt ::
  "('n, 'f, 'c, 'u) wf_env \<Rightarrow> TriggerContext \<Rightarrow> 'n outputs \<Rightarrow> string option \<Rightarrow> WorkflowError + string option" where
  "resolve_opt env t outs s =
     (case s of None \<Rightarrow> Inr None | Some v \<Rightarrow> map_sum id Some (resolve_template env t outs v))"

fun resolve_headers ::
  "('n, 'f, 'c, 'u) wf_env \<Rightarrow> TriggerContext \<Rightarrow> 'n outputs \<Rightarrow> (string, string) hmap \<Rightarrow> WorkflowError + (string, string) hmap" where
  "resolve_headers env t outs [] = Inr []"
| "resolve_headers env t outs ((k, v) # hs) =
     (case resolve_template env t outs v of
        Inl e \<Rightarrow> Inl e
      | Inr v' \<Rightarrow> map_sum id (Cons (k, v')) (resolve_headers env t outs hs))"

definition then_do :: "'e + 'a \<Rightarrow> ('a \<Rightarrow> 'e + 'b) \<Rightarrow> 'e + 'b" where
  "then_do r f = (case r of Inl e \<Rightarrow> Inl e | Inr x \<Rightarrow> f x)"

lemma then_do_Inr [simp]: "then_do (Inr x) f = f x"
  by (simp add: then_do_def)

lemma then_do_Inl [simp]: "then_do (Inl e) f = Inl e"
  by (simp add: then_do_def)

lemma then_do_eq_Inr: "then_do r f = Inr y \<longleftrightarrow> (\<exists>x. r = Inr x \<and> f x = Inr y)"
  by (cases r) auto

fun resolve_step_templates ::
  "('n, 'f, 'c, 'u) wf_env \<Rightarrow> TriggerContext \<Rightarrow> 'n outputs \<Rightarrow> ActionDef \<Rightarrow> WorkflowError + ActionDef" where
  "resolve_step_templates env t outs (SendMessage text channel reply) =
     then_do (resolve_template env t outs text) (\<lambda>text'.
     then_do (resolve_opt env t outs channel) (\<lambda>channel'.
       Inr (SendMessage text' channel' reply)))"
| "resolve_step_templates env t outs (SendDm to_key text) =
     then_do (resolve_template env t outs to_key) (\<lambda>to_key'.
     then_do (resolve_template env t outs text) (\<lambda>text'.
       Inr (SendDm to_key' text')))"
| "resolve_step_templates env t outs (SetChannelTopic topic) =
     then_do (resolve_template env t outs topic) (\<lambda>topic'. Inr (SetChannelTopic topic'))"
| "resolve_step_templates env t outs (AddReaction emoji) =
     then_do (resolve_template env t outs emoji) (\<lambda>emoji'. Inr (AddReaction emoji'))"
| "resolve_step_templates env t outs (CallWebhook url method headers body) =
     then_do (case headers of None \<Rightarrow> Inr None | Some h \<Rightarrow> map_sum id Some (resolve_headers env t outs h)) (\<lambda>headers'.
     then_do (resolve_template env t outs url) (\<lambda>url'.
     then_do (resolve_opt env t outs body) (\<lambda>body'.
       Inr (CallWebhook url' method headers' body'))))"
| "resolve_step_templates env t outs (RequestApproval from_who message timeout) =
     then_do (resolve_template env t outs from_who) (\<lambda>from_who'.
     then_do (resolve_template env t outs message) (\<lambda>message'.
       Inr (RequestApproval from_who' message' timeout)))"
| "resolve_step_templates env t outs (Delay duration) = Inr (Delay duration)"

section \<open>Actions\<close>

datatype 'n StepResult = Completed "'n json" | Suspended string | Skipped

datatype ActionSinkError = InvalidInput | ChannelNotFound | ChannelArchived | EventBuild | SinkDatabase | EmptyContent

text \<open>What a run does outside: a message handed to the sink, a request sent to a pinned address, a
  reaction posted to the relay's own API, a pause.\<close>

datatype wf_effect =
  PublishMessage uuid string string string "string option"
| SendHttp IpAddr nat string string "(string, string) hmap option" "string option"
| PostReaction string string "(string \<times> string) option"
| Sleep nat

datatype interruption = Ran | LeaseLost nat | TimedOut nat

record WorkflowRecord =
  wr_id :: uuid
  wr_community_id :: uuid
  wr_channel_id :: "uuid option"
  wr_owner_pubkey :: string
  wr_definition :: "WorkflowDef option"

record http_response =
  hr_status :: nat
  hr_chunks :: "string list"
  hr_complete :: bool

record 'c step_world =
  sw_eval :: "string \<Rightarrow> 'c \<Rightarrow> bool option"
  sw_fence_acquired :: bool
  sw_fence_verified :: bool
  sw_fence_released :: bool
  sw_interruption :: interruption
  sw_get_run :: "uuid \<Rightarrow> uuid \<Rightarrow> uuid option"
  sw_get_workflow :: "uuid \<Rightarrow> uuid \<Rightarrow> WorkflowRecord option"
  sw_sink :: "(wf_effect \<Rightarrow> ActionSinkError + string) option"
  sw_resolve :: "string \<Rightarrow> IpAddr list option"
  sw_client_built :: bool
  sw_http :: "wf_effect \<Rightarrow> http_response option"
  sw_env_var :: "string \<Rightarrow> string option"
  sw_new_uuid :: uuid

definition resolve_send_message_channel ::
  "('n, 'f, 'c, 'u) wf_env \<Rightarrow> string option \<Rightarrow> string \<Rightarrow> uuid option \<Rightarrow> WorkflowError + string" where
  "resolve_send_message_channel env raw trigger_channel workflow_channel_id =
     (let explicit = (case map_option trim raw of Some [] \<Rightarrow> None | x \<Rightarrow> x)
      in case workflow_channel_id of
           Some ch \<Rightarrow>
             (case explicit of
                Some text \<Rightarrow>
                  (case we_parse_uuid env text of
                     None \<Rightarrow> Inl InvalidDefinition
                   | Some override \<Rightarrow> if override \<noteq> ch then Inl InvalidDefinition else Inr (we_uuid_text env ch))
              | None \<Rightarrow> Inr (we_uuid_text env ch))
         | None \<Rightarrow>
             (case explicit of
                Some text \<Rightarrow>
                  (case we_parse_uuid env text of
                     None \<Rightarrow> Inl InvalidDefinition
                   | Some override \<Rightarrow> Inr (we_uuid_text env override))
              | None \<Rightarrow> if trim trigger_channel = [] then Inl InvalidDefinition else Inr (trim trigger_channel)))"

definition check_ssrf :: "(string \<Rightarrow> IpAddr list option) \<Rightarrow> string \<Rightarrow> nat \<Rightarrow> WorkflowError + IpAddr" where
  "check_ssrf resolve host port =
     (case resolve (host @ '':'' @ decimal port) of
        None \<Rightarrow> Inl WebhookError
      | Some [] \<Rightarrow> Inl WebhookError
      | Some (ip # ips) \<Rightarrow> if list_ex is_private_ip (ip # ips) then Inl WebhookError else Inr ip)"

definition WEBHOOK_MAX_RESPONSE_BYTES :: nat where "WEBHOOK_MAX_RESPONSE_BYTES = 1024 * 1024"

fun read_body :: "string \<Rightarrow> string list \<Rightarrow> bool \<Rightarrow> WorkflowError + string" where
  "read_body body [] complete = (if complete then Inr body else Inl WebhookError)"
| "read_body body (chunk # chunks) complete =
     (let body' = body @ chunk
      in if length body' > WEBHOOK_MAX_RESPONSE_BYTES then Inl WebhookError else read_body body' chunks complete)"

definition call_webhook_impl ::
  "('n, 'f, 'c, 'u) wf_env \<Rightarrow> 'c step_world \<Rightarrow> string \<Rightarrow> string \<Rightarrow> (string, string) hmap option \<Rightarrow> string option \<Rightarrow>
     wf_effect list \<times> (WorkflowError + 'n json)" where
  "call_webhook_impl env w url method headers body =
     (case Option.bind (we_url_parse env url) (\<lambda>u. map_option (Pair u) (we_url_host env u)) of
        None \<Rightarrow> ([], Inl WebhookError)
      | Some (u, host) \<Rightarrow>
          (let port = (case we_url_port env u of Some p \<Rightarrow> p | None \<Rightarrow> 80)
           in case check_ssrf (sw_resolve w) host port of
                Inl e \<Rightarrow> ([], Inl e)
              | Inr safe_ip \<Rightarrow>
                  if \<not> sw_client_built w \<or> \<not> we_method_ok env method then ([], Inl WebhookError)
                  else
                    (let req = SendHttp safe_ip port method url headers body
                     in ([req],
                         case sw_http w req of
                           None \<Rightarrow> Inl WebhookError
                         | Some resp \<Rightarrow>
                             then_do (read_body [] (hr_chunks resp) (hr_complete resp)) (\<lambda>bytes.
                               Inr (JObject [(''status'', JScalar (JNumber (we_number env (hr_status resp)))),
                                             (''body'', JScalar (JString (we_utf8_lossy env bytes)))]))))))"

definition add_reaction_impl ::
  "('n, 'f, 'c, 'u) wf_env \<Rightarrow> 'c step_world \<Rightarrow> string \<Rightarrow> string \<Rightarrow> wf_effect list \<times> (WorkflowError + 'n json)" where
  "add_reaction_impl env w message_id emoji =
     (let base_url = (case sw_env_var w ''BUZZ_RELAY_BASE_URL'' of Some b \<Rightarrow> b | None \<Rightarrow> ''http://localhost:3000'');
          url = base_url @ ''/api/messages/'' @ message_id @ ''/reactions'';
          auth = (case sw_env_var w ''BUZZ_API_TOKEN'' of
                    Some token \<Rightarrow> Some (''Authorization'', ''Bearer '' @ token)
                  | None \<Rightarrow> map_option (Pair ''X-Pubkey'') (sw_env_var w ''BUZZ_RELAY_PUBKEY''));
          req = PostReaction url emoji auth
      in ([req],
          case sw_http w req of
            None \<Rightarrow> Inl WebhookError
          | Some resp \<Rightarrow>
              if \<not> (200 \<le> hr_status resp \<and> hr_status resp < 300) then Inl WebhookError
              else
                (let text = (if hr_complete resp then we_utf8_lossy env (concat (hr_chunks resp)) else []);
                     json = (case we_json_parse env text of Some j \<Rightarrow> j | None \<Rightarrow> JObject [(''raw'', JScalar (JString text))])
                 in Inr (JObject [(''added'', JScalar (JBool True)),
                                  (''status'', JScalar (JNumber (we_number env (hr_status resp)))),
                                  (''response'', json)]))))"

definition MAX_DELAY_SECS :: nat where "MAX_DELAY_SECS = 270"

definition send_message_action ::
  "('n, 'f, 'c, 'u) wf_env \<Rightarrow> 'c step_world \<Rightarrow> uuid \<Rightarrow> uuid \<Rightarrow> TriggerContext \<Rightarrow> string \<Rightarrow> string option \<Rightarrow> bool \<Rightarrow>
     wf_effect list \<times> (WorkflowError + 'n StepResult)" where
  "send_message_action env w community run_id t text channel reply_in_thread =
     (case Option.bind (sw_get_run w community run_id) (sw_get_workflow w community) of
        None \<Rightarrow> ([], Inl WebhookError)
      | Some workflow \<Rightarrow>
          (case resolve_send_message_channel env channel (tr_channel_id t) (wr_channel_id workflow) of
             Inl e \<Rightarrow> ([], Inl e)
           | Inr channel_id \<Rightarrow>
               if reply_in_thread \<and> tr_message_id t = [] then ([], Inl InvalidDefinition)
               else
                 (let msg = PublishMessage community channel_id text (we_hex env (wr_owner_pubkey workflow))
                              (if reply_in_thread then Some (tr_message_id t) else None)
                  in case sw_sink w of
                       None \<Rightarrow> ([], Inl InvalidDefinition)
                     | Some send \<Rightarrow>
                         ([msg],
                          case send msg of
                            Inl _ \<Rightarrow> Inl WebhookError
                          | Inr event_id \<Rightarrow>
                              Inr (Completed (JObject [(''sent'', JScalar (JBool True)),
                                                       (''event_id'', JScalar (JString event_id))]))))))"

fun perform ::
  "('n, 'f, 'c, 'u) wf_env \<Rightarrow> 'c step_world \<Rightarrow> uuid \<Rightarrow> uuid \<Rightarrow> TriggerContext \<Rightarrow> ActionDef \<Rightarrow>
     wf_effect list \<times> (WorkflowError + 'n StepResult)" where
  "perform env w community run_id t (SendMessage text channel reply) =
     send_message_action env w community run_id t text channel reply"
| "perform env w community run_id t (SendDm _ _) = ([], Inl (NotImplemented ''SendDm''))"
| "perform env w community run_id t (SetChannelTopic _) = ([], Inl (NotImplemented ''SetChannelTopic''))"
| "perform env w community run_id t (AddReaction emoji) =
     (if tr_message_id t = [] then ([], Inl InvalidDefinition)
      else map_prod id (map_sum id Completed) (add_reaction_impl env w (tr_message_id t) emoji))"
| "perform env w community run_id t (CallWebhook url method headers body) =
     map_prod id (map_sum id Completed)
       (call_webhook_impl env w url (case method of Some m \<Rightarrow> m | None \<Rightarrow> ''POST'') headers body)"
| "perform env w community run_id t (RequestApproval _ _ _) = ([], Inr (Suspended (we_uuid_text env (sw_new_uuid w))))"
| "perform env w community run_id t (Delay duration) =
     (case parse_duration_secs duration of
        Inl e \<Rightarrow> ([], Inl e)
      | Inr secs \<Rightarrow>
          if secs > MAX_DELAY_SECS then ([], Inl InvalidDefinition)
          else ([Sleep secs], Inr (Completed (JObject [(''slept_secs'', JScalar (JNumber (we_number env secs)))]))))"

definition dispatch_action ::
  "('n, 'f, 'c, 'u) wf_env \<Rightarrow> 'c step_world \<Rightarrow> uuid \<Rightarrow> uuid \<Rightarrow> TriggerContext \<Rightarrow> ActionDef \<Rightarrow>
     wf_effect list \<times> (WorkflowError + 'n StepResult)" where
  "dispatch_action env w community run_id t action =
     (if \<not> sw_fence_acquired w \<or> \<not> sw_fence_verified w then ([], Inl WebhookError)
      else
        (let (effects, result) = perform env w community run_id t action
         in case sw_interruption w of
              LeaseLost n \<Rightarrow> (take n effects, Inl WebhookError)
            | _ \<Rightarrow>
                (case result of
                   Inr r \<Rightarrow> (effects, if sw_fence_released w then Inr r else Inl WebhookError)
                 | Inl e \<Rightarrow> (effects, Inl e))))"

section \<open>Runs\<close>

record 'n ExecutionResult =
  er_approval_token :: "string option"
  er_step_index :: nat
  er_step_outputs :: "'n outputs"
  er_trace :: "'n json list"

record 'n PartialProgress =
  pp_step_index :: nat
  pp_trace :: "'n json list"

definition no_progress :: "'n PartialProgress" where
  "no_progress = \<lparr>pp_step_index = 0, pp_trace = []\<rparr>"

type_synonym 'n run_result = "(WorkflowError \<times> 'n PartialProgress) + 'n ExecutionResult"

definition skipped_entry :: "string \<Rightarrow> 'n json" where
  "skipped_entry i = JObject [(''step_id'', JScalar (JString i)), (''status'', JScalar (JString ''skipped''))]"

definition completed_entry :: "string \<Rightarrow> 'n json \<Rightarrow> 'n json" where
  "completed_entry i v =
     JObject [(''step_id'', JScalar (JString i)), (''status'', JScalar (JString ''completed'')), (''output'', v)]"

text \<open>The dispatch under its timeout.\<close>

definition dispatch_timed ::
  "('n, 'f, 'c, 'u) wf_env \<Rightarrow> 'c step_world \<Rightarrow> nat \<Rightarrow> uuid \<Rightarrow> uuid \<Rightarrow> TriggerContext \<Rightarrow> string \<Rightarrow> ActionDef \<Rightarrow>
     wf_effect list \<times> (WorkflowError + 'n StepResult)" where
  "dispatch_timed env w timeout_secs community run_id t step_id action =
     (let (effects, result) = dispatch_action env w community run_id t action
      in case sw_interruption w of
           TimedOut n \<Rightarrow> (take n effects, Inl (StepTimeout step_id timeout_secs))
         | _ \<Rightarrow> (effects, result))"

text \<open>One iteration: \<open>Inl\<close> ends the run, \<open>Inr\<close> carries the outputs and the trace to the next step.\<close>

definition run_step ::
  "('n, 'f, 'c, 'u) wf_env \<Rightarrow> 'c step_world \<Rightarrow> nat \<Rightarrow> uuid \<Rightarrow> uuid \<Rightarrow> TriggerContext \<Rightarrow> nat \<Rightarrow> Step \<Rightarrow> 'n outputs \<Rightarrow> 'n json list \<Rightarrow>
     wf_effect list \<times> ('n run_result + 'n outputs \<times> 'n json list)" where
  "run_step env w default_timeout community run_id t i step outs trace =
     (let failed = (\<lambda>e. Inl (Inl (e, \<lparr>pp_step_index = i, pp_trace = trace\<rparr>)))
      in case (case sp_if_expr step of None \<Rightarrow> Inr True | Some expr \<Rightarrow> evaluate_condition env (sw_eval w) expr t outs) of
           Inl e \<Rightarrow> ([], failed e)
         | Inr False \<Rightarrow> ([], Inr (outs, trace @ [skipped_entry (sp_id step)]))
         | Inr True \<Rightarrow>
             (case resolve_step_templates env t outs (sp_action step) of
                Inl e \<Rightarrow> ([], failed e)
              | Inr action \<Rightarrow>
                  (case dispatch_timed env w (case sp_timeout_secs step of Some n \<Rightarrow> n | None \<Rightarrow> default_timeout)
                          community run_id t (sp_id step) action of
                     (effects, Inl e) \<Rightarrow> (effects, failed e)
                   | (effects, Inr (Completed v)) \<Rightarrow>
                       (effects, Inr (hm_insert (sp_id step) v outs, trace @ [completed_entry (sp_id step) v]))
                   | (effects, Inr (Suspended token)) \<Rightarrow>
                       (effects, Inl (Inr \<lparr>er_approval_token = Some token, er_step_index = i,
                                            er_step_outputs = outs, er_trace = trace\<rparr>))
                   | (effects, Inr Skipped) \<Rightarrow> (effects, Inr (outs, trace @ [skipped_entry (sp_id step)])))))"

fun steps_loop ::
  "('n, 'f, 'c, 'u) wf_env \<Rightarrow> (nat \<Rightarrow> 'c step_world) \<Rightarrow> nat \<Rightarrow> uuid \<Rightarrow> uuid \<Rightarrow> TriggerContext \<Rightarrow> nat \<Rightarrow> nat \<Rightarrow> Step list \<Rightarrow>
     'n outputs \<Rightarrow> 'n json list \<Rightarrow> wf_effect list \<times> 'n run_result" where
  "steps_loop env world default_timeout community run_id t start_index i [] outs trace =
     ([], Inr \<lparr>er_approval_token = None, er_step_index = i, er_step_outputs = outs, er_trace = trace\<rparr>)"
| "steps_loop env world default_timeout community run_id t start_index i (step # steps) outs trace =
     (if i < start_index
      then steps_loop env world default_timeout community run_id t start_index (Suc i) steps outs trace
      else
        (case run_step env (world i) default_timeout community run_id t i step outs trace of
           (effects, Inl result) \<Rightarrow> (effects, result)
         | (effects, Inr (outs', trace')) \<Rightarrow>
             map_prod ((@) effects) id
               (steps_loop env world default_timeout community run_id t start_index (Suc i) steps outs' trace')))"

definition execute_steps ::
  "('n, 'f, 'c, 'u) wf_env \<Rightarrow> (nat \<Rightarrow> 'c step_world) \<Rightarrow> nat \<Rightarrow> uuid \<Rightarrow> uuid \<Rightarrow> WorkflowDef \<Rightarrow> TriggerContext \<Rightarrow> nat \<Rightarrow>
     'n outputs option \<Rightarrow> wf_effect list \<times> 'n run_result" where
  "execute_steps env world default_timeout community run_id d t start_index initial_outputs =
     steps_loop env world default_timeout community run_id t start_index 0 (wd_steps d)
       (case initial_outputs of Some outs \<Rightarrow> outs | None \<Rightarrow> []) []"

datatype RunStatus = RunPending | Running | WaitingApproval | RunCompleted | RunFailed | RunCancelled

record 'n WorkflowRun =
  rn_status :: RunStatus
  rn_current_step :: nat
  rn_trace :: "'n json list"
  rn_error_code :: "string option"

text \<open>The database either applies an update or reports an error.\<close>

definition update_workflow_run ::
  "bool \<Rightarrow> RunStatus \<Rightarrow> nat \<Rightarrow> 'n json list \<Rightarrow> string option \<Rightarrow> 'n WorkflowRun \<Rightarrow> 'n WorkflowRun option" where
  "update_workflow_run db_ok status step trace failure run =
     (if db_ok then Some \<lparr>rn_status = status, rn_current_step = step, rn_trace = trace, rn_error_code = failure\<rparr> else None)"

definition execute_run ::
  "('n, 'f, 'c, 'u) wf_env \<Rightarrow> (nat \<Rightarrow> 'c step_world) \<Rightarrow> bool \<Rightarrow> bool \<Rightarrow> nat \<Rightarrow> uuid \<Rightarrow> uuid \<Rightarrow> WorkflowDef \<Rightarrow> TriggerContext \<Rightarrow>
     'n WorkflowRun \<Rightarrow> 'n WorkflowRun \<times> wf_effect list \<times> 'n run_result" where
  "execute_run env world permit db_ok default_timeout community run_id d t run =
     (if \<not> permit then (run, [], Inl (CapacityExceeded, no_progress))
      else
        (case update_workflow_run db_ok Running 0 [] None run of
           None \<Rightarrow> (run, [], Inl (WfDatabase, no_progress))
         | Some run' \<Rightarrow> (run', execute_steps env world default_timeout community run_id d t 0 None)))"

definition execute_from_step ::
  "('n, 'f, 'c, 'u) wf_env \<Rightarrow> (nat \<Rightarrow> 'c step_world) \<Rightarrow> bool \<Rightarrow> bool \<Rightarrow> bool \<Rightarrow> nat \<Rightarrow> uuid \<Rightarrow> uuid \<Rightarrow> WorkflowDef \<Rightarrow>
     TriggerContext \<Rightarrow> nat \<Rightarrow> 'n outputs option \<Rightarrow> 'n WorkflowRun \<Rightarrow> 'n WorkflowRun \<times> wf_effect list \<times> 'n run_result" where
  "execute_from_step env world permit read_ok db_ok default_timeout community run_id d t start_index initial_outputs run =
     (if \<not> permit then (run, [], Inl (CapacityExceeded, no_progress))
      else
        (let existing_trace = (if read_ok then rn_trace run else [])
         in case update_workflow_run db_ok Running start_index existing_trace None run of
              None \<Rightarrow> (run, [], Inl (WfDatabase, no_progress))
            | Some run' \<Rightarrow> (run', execute_steps env world default_timeout community run_id d t start_index initial_outputs)))"

definition finalize_run ::
  "bool \<Rightarrow> 'n run_result \<Rightarrow> 'n json list option \<Rightarrow> 'n WorkflowRun \<Rightarrow> 'n WorkflowRun" where
  "finalize_run db_ok result existing_trace run =
     (let before = (case existing_trace of Some tr \<Rightarrow> tr | None \<Rightarrow> []);
          update = (case result of
             Inr r \<Rightarrow>
               if er_approval_token r \<noteq> None
               then update_workflow_run db_ok RunFailed (er_step_index r) (before @ er_trace r) (Some ''approval_not_supported'') run
               else update_workflow_run db_ok RunCompleted (er_step_index r) (before @ er_trace r) None run
           | Inl (e, progress) \<Rightarrow>
               update_workflow_run db_ok RunFailed (pp_step_index progress) (before @ pp_trace progress) (Some (error_code e)) run)
      in case update of Some run' \<Rightarrow> run' | None \<Rightarrow> run)"

section \<open>Resuming after an approval\<close>

text \<open>\<^verbatim>\<open>resume_workflow_after_approval\<close> of the relay's \<^verbatim>\<open>handlers/command_executor.rs\<close>: the outputs are read back from
  the trace.\<close>

definition trace_output :: "'n json \<Rightarrow> (string \<times> 'n json) option" where
  "trace_output entry =
     (case entry of
        JObject members \<Rightarrow>
          (case (map_of members ''step_id'', map_of members ''output'') of
             (Some (JScalar (JString i)), Some v) \<Rightarrow> Some (i, v)
           | _ \<Rightarrow> None)
      | _ \<Rightarrow> None)"

definition reconstruct_outputs :: "'n json list \<Rightarrow> 'n outputs" where
  "reconstruct_outputs trace =
     fold (\<lambda>entry outs. case trace_output entry of Some (i, v) \<Rightarrow> hm_insert i v outs | None \<Rightarrow> outs) trace []"

definition resume_workflow_after_approval ::
  "('n, 'f, 'c, 'u) wf_env \<Rightarrow> (nat \<Rightarrow> 'c step_world) \<Rightarrow> bool \<Rightarrow> bool \<Rightarrow> bool \<Rightarrow> bool \<Rightarrow> nat \<Rightarrow> uuid \<Rightarrow> uuid \<Rightarrow>
     WorkflowRecord option \<Rightarrow> TriggerContext option \<Rightarrow> nat \<Rightarrow> 'n WorkflowRun \<Rightarrow> 'n WorkflowRun \<times> wf_effect list" where
  "resume_workflow_after_approval env world permit read_ok db_ok final_ok default_timeout community run_id workflow trigger resume_index run =
     (if rn_status run \<noteq> WaitingApproval then (run, [])
      else
        (case workflow of
           None \<Rightarrow> (run, [])
         | Some w \<Rightarrow>
             (case wr_definition w of
                None \<Rightarrow>
                  (case update_workflow_run db_ok RunFailed (rn_current_step run) (rn_trace run) (Some ''invalid_definition'') run of
                     Some run' \<Rightarrow> (run', [])
                   | None \<Rightarrow> (run, []))
              | Some d \<Rightarrow>
                  (let t = (case trigger of Some t \<Rightarrow> t | None \<Rightarrow> default_trigger);
                       (run', effects, result) =
                         execute_from_step env world permit read_ok db_ok default_timeout community run_id d t resume_index
                           (Some (reconstruct_outputs (rn_trace run))) run
                   in (finalize_run final_ok result (Some (rn_trace run)) run', effects)))))"

end
