(* ===== verification/Workflow_Run_Props.thy ===== *)
theory Workflow_Run_Props
  imports Workflow_Run
begin

text \<open>
  Properties of the executor: templates are substituted in one pass, conditions see the trigger as
  it is, a run touches the outside only where it may, and resuming a run from its trace is the same
  as never having stopped.
\<close>

section \<open>Templates\<close>

lemma template_loop_acc:
  "template_loop env t outs (r @ acc) rem = map_sum id ((@) r) (template_loop env t outs acc rem)"
proof (induction env t outs acc rem arbitrary: r rule: template_loop.induct)
  case (1 env t outs acc rem)
  show ?case
  proof (cases "split_sub ''{{'' rem")
    case None
    then show ?thesis
      by (simp add: template_loop.simps [of _ _ _ _ rem])
  next
    case (Some p)
    obtain before after where p: "p = (before, after)"
      by (cases p)
    show ?thesis
    proof (cases "split_sub ''}}'' after")
      case None
      then show ?thesis
        using Some p by (simp add: template_loop.simps [of _ _ _ _ rem])
    next
      case (Some q)
      obtain inner rest where q: "q = (inner, rest)"
        by (cases q)
      note splits = \<open>split_sub ''{{'' rem = Some p\<close> Some p q
      show ?thesis
      proof (cases "expand env t outs (trim inner)")
        case (Inl e)
        then show ?thesis
          using splits by (simp add: template_loop.simps [of _ _ _ _ rem])
      next
        case (Inr v)
        have step: "template_loop env t outs u rem = template_loop env t outs (u @ before @ v) rest" for u
          using splits Inr by (subst template_loop.simps) simp
        show ?thesis
          unfolding step using 1 [OF splits(1) splits(3) [symmetric] splits(2) splits(4) [symmetric] Inr, of r]
          by (simp only: append_assoc)
      qed
    qed
  qed
qed

lemma resolve_template_loop: "resolve_template env t outs s = template_loop env t outs [] s"
  by (simp add: resolve_template_def template_loop.simps [of _ _ _ _ s] split_sub_None [THEN iffD2])

text \<open>
  Templates are substituted in one pass: after a text without an opening mark, the text
  between the first pair of marks is replaced by what it expands to, which is never scanned again,
  and the rest is resolved on its own. Values that a message or a webhook supplied can therefore
  not introduce placeholders.
\<close>

theorem template_single_pass:
  assumes "\<not> sublist ''{{'' (a @ ''{'')" and "\<not> sublist ''}}'' (e @ ''}'')"
  shows "resolve_template env t outs (a @ ''{{'' @ e @ ''}}'' @ b) =
    then_do (expand env t outs (trim e)) (\<lambda>v. map_sum id (\<lambda>r. a @ v @ r) (resolve_template env t outs b))"
proof -
  have "split_sub ''{{'' (a @ ''{{'' @ e @ ''}}'' @ b) = Some (a, e @ ''}}'' @ b)"
    using assms(1) by (intro split_sub_append) auto
  moreover have "split_sub ''}}'' (e @ ''}}'' @ b) = Some (e, b)"
    using assms(2) by (intro split_sub_append) auto
  ultimately show ?thesis
    unfolding resolve_template_loop
    using template_loop_acc [of env t outs "a @ v" "[]" b for v]
    by (subst template_loop.simps) (auto simp: then_do_def split: sum.split intro!: arg_cong [of _ _ "\<lambda>f. map_sum id f _"])
qed

section \<open>Conditions\<close>

text \<open>The variables of an evalexpr context: a stored value is read back, other variables keep theirs,
  and a variable cannot change its type.\<close>

fun same_type :: "'f evalue \<Rightarrow> 'f evalue \<Rightarrow> bool" where
  "same_type (EString _) (EString _) \<longleftrightarrow> True"
| "same_type (EFloat _) (EFloat _) \<longleftrightarrow> True"
| "same_type (EInt _) (EInt _) \<longleftrightarrow> True"
| "same_type (EBoolean _) (EBoolean _) \<longleftrightarrow> True"
| "same_type (ETuple _) (ETuple _) \<longleftrightarrow> True"
| "same_type EEmpty EEmpty \<longleftrightarrow> True"
| "same_type _ _ \<longleftrightarrow> False"

definition context_laws :: "('n, 'f, 'c, 'u) wf_env \<Rightarrow> bool" where
  "context_laws env \<longleftrightarrow>
     (\<forall>k v ctx ctx' k'. we_set_value env k v ctx = Some ctx' \<longrightarrow>
        we_get_value env ctx' k' = (if k' = k then Some v else we_get_value env ctx k')) \<and>
     (\<forall>k v ctx u. we_get_value env ctx k = Some u \<and> \<not> same_type u v \<longrightarrow> we_set_value env k v ctx = None)"

lemma set_values_append: "set_values env (xs @ ys) ctx = then_do (set_values env xs ctx) (set_values env ys)"
  by (induction xs arbitrary: ctx) (auto split: option.split)

lemma set_values_get:
  assumes "context_laws env" and "set_values env vs ctx = Inr ctx'"
  shows "we_get_value env ctx' k = (case map_of (rev vs) k of Some v \<Rightarrow> Some v | None \<Rightarrow> we_get_value env ctx k)"
  using assms(2)
proof (induction vs arbitrary: ctx)
  case (Cons p vs)
  obtain name v where p: "p = (name, v)"
    by (cases p)
  then obtain ctx1 where ctx1: "we_set_value env name v ctx = Some ctx1" "set_values env vs ctx1 = Inr ctx'"
    using Cons.prems by (auto split: option.splits)
  moreover have "we_get_value env ctx1 k = (if k = name then Some v else we_get_value env ctx k)"
    using assms(1) ctx1(1) by (auto simp: context_laws_def)
  ultimately show ?case
    using Cons.IH [OF ctx1(2)] p by (auto simp: map_add_def split: option.split)
qed simp

lemma output_names: "(k, v) \<in> set (output_values env p) \<Longrightarrow> prefix ''steps_'' k"
  by (auto simp: output_values_def split: prod.splits json.splits)

lemma webhook_names: "(k, v) \<in> set (webhook_values t) \<Longrightarrow> prefix ''trigger_'' k"
  by (auto simp: webhook_values_def)

lemma map_of_rev_None: "(\<And>v. (k, v) \<notin> set vs) \<Longrightarrow> map_of (rev vs) k = None"
  by (auto simp: map_of_eq_None_iff)

lemma names_apart: "prefix ''steps_'' k \<Longrightarrow> \<not> prefix ''trigger_'' k"
  by (cases k) (auto simp: prefix_def)

text \<open>
  What a webhook body contains cannot pass for the trigger: in every context a condition is
  evaluated in, the standard trigger variables have the values of the trigger, and no field of the
  body determines a variable of a step output.
\<close>

theorem trigger_variables_authentic:
  fixes env :: "('n, 'f, 'c, 'u) wf_env"
  assumes "context_laws env" and "build_eval_context env t outs = Inr ctx"
  shows "list_all (\<lambda>(k, v). we_get_value env ctx k = Some v) (trigger_values t) \<and>
    (\<forall>k t' ctx'. prefix ''steps_'' k \<and> build_eval_context env t' outs = Inr ctx' \<longrightarrow>
       we_get_value env ctx' k = we_get_value env ctx k)"
proof (intro conjI)
  obtain ctx0 where ctx0: "set_functions env helper_functions (we_new_context env) = Inr ctx0"
    using assms(2) by (auto simp: build_eval_context_def split: sum.splits)
  let ?outs = "concat (map (output_values env) outs)"
  have get: "we_get_value env c k =
      (case map_of (rev (webhook_values u @ trigger_values u @ ?outs)) k of Some v \<Rightarrow> Some v | None \<Rightarrow> we_get_value env ctx0 k)"
    if "build_eval_context env u outs = Inr c" for u c k
    using that set_values_get [OF assms(1)] by (simp add: build_eval_context_def ctx0)
  have none: "map_of (rev ?outs) k = None" if "prefix ''trigger_'' k" for k
    using names_apart that by (intro map_of_rev_None) (auto dest: output_names)
  show "list_all (\<lambda>(k, v). we_get_value env ctx k = Some v) (trigger_values t)"
  proof -
    have "we_get_value env ctx k = Some v" if kv: "(k, v) \<in> set (trigger_values t)" for k v
    proof -
      have "map_of (rev (trigger_values t)) k = Some v" and "prefix ''trigger_'' k"
        using kv by (auto simp: trigger_values_def)
      then show ?thesis
        using get [OF assms(2), of k] none [of k] by (simp add: map_add_def)
    qed
    then show ?thesis
      by (auto simp: list_all_iff)
  qed
  show "\<forall>k t' ctx'. prefix ''steps_'' k \<and> build_eval_context env t' outs = Inr ctx' \<longrightarrow>
      we_get_value env ctx' k = we_get_value env ctx k"
  proof (intro allI impI, elim conjE)
    fix k t' ctx'
    assume k: "prefix ''steps_'' k" and ctx': "build_eval_context env t' outs = Inr ctx'"
    have none': "map_of (rev (webhook_values u @ trigger_values u :: (string \<times> 'f evalue) list)) k = None" for u
      using names_apart [OF k] by (intro map_of_rev_None) (auto simp: trigger_values_def dest: webhook_names)
    show "we_get_value env ctx' k = we_get_value env ctx k"
      using get [OF ctx', of k] get [OF assms(2), of k] none' [of t'] none' [of t]
      by (simp add: map_add_def split: option.splits)
  qed
qed

lemma set_values_error: "set_values env vs ctx = Inl e \<Longrightarrow> e = ConditionError"
  by (induction vs arbitrary: ctx) (auto split: option.splits)

lemma set_functions_error: "set_functions env fs ctx = Inl e \<Longrightarrow> e = ConditionError"
  by (induction fs arbitrary: ctx) (auto split: option.splits)

lemma build_eval_context_error: "build_eval_context env t outs = Inl e \<Longrightarrow> e = ConditionError"
  by (auto simp: build_eval_context_def split: sum.splits dest: set_values_error set_functions_error)

lemma webhook_strings: "(k, v) \<in> set (webhook_values t) \<Longrightarrow> \<exists>x. v = EString x"
  by (auto simp: webhook_values_def)

lemma is_reply_field_refused:
  fixes env :: "('n, 'f, 'c, 'u) wf_env"
  assumes "context_laws env" and "hm_has (tr_webhook_fields t) ''is_reply''"
  shows "build_eval_context env t outs \<noteq> Inr ctx"
proof
  assume "build_eval_context env t outs = Inr ctx"
  then obtain ctx0 where "set_values env (webhook_values t @ trigger_values t @ concat (map (output_values env) outs)) ctx0 = Inr ctx"
    by (auto simp: build_eval_context_def split: sum.splits)
  moreover obtain strs where strs: "trigger_values t = strs @ [(''trigger_is_reply'', EBoolean (tr_is_reply t) :: 'f evalue)]"
      "map_of (rev strs) ''trigger_is_reply'' = None"
    by (rule that [of "butlast (trigger_values t)"]) (simp_all add: trigger_values_def)
  ultimately obtain ctx1 ctx2 where ctx1: "set_values env (webhook_values t @ strs) ctx0 = Inr ctx1"
      and ctx2: "we_set_value env ''trigger_is_reply'' (EBoolean (tr_is_reply t)) ctx1 = Some ctx2"
    by (auto simp: set_values_append then_do_eq_Inr split: option.splits)
  obtain x where "(''is_reply'', x) \<in> set (tr_webhook_fields t)"
    using assms(2) by (auto simp: hm_has_def dest: hm_get_SomeD)
  then have "(''trigger_is_reply'', EString x :: 'f evalue) \<in> set (webhook_values t)"
    by (force simp: webhook_values_def)
  then have "map_of (rev (webhook_values t :: (string \<times> 'f evalue) list)) ''trigger_is_reply'' \<noteq> None"
    unfolding map_of_eq_None_iff set_rev by (metis fst_conv imageI)
  then obtain v :: "'f evalue" where v: "map_of (rev (webhook_values t)) ''trigger_is_reply'' = Some v"
    by auto
  then obtain y where y: "v = EString y"
    using webhook_strings [of "''trigger_is_reply''" v t] map_of_SomeD [OF v] by auto
  have "we_get_value env ctx1 ''trigger_is_reply'' = Some (EString y)"
    using set_values_get [OF assms(1) ctx1, of "''trigger_is_reply''"] v y strs(2) by (simp add: map_add_def)
  moreover have "\<not> same_type (EString y) (EBoolean (tr_is_reply t) :: 'f evalue)"
    by simp
  ultimately have "we_set_value env ''trigger_is_reply'' (EBoolean (tr_is_reply t)) ctx1 = None"
    using assms(1) unfolding context_laws_def by blast
  then show False
    using ctx2 by simp
qed

text \<open>
  A webhook body with a field \<open>is_reply\<close> makes every condition of the workflow fail: the field is
  stored as the string variable \<open>trigger_is_reply\<close>, and the context then refuses the boolean of
  the same name.
\<close>

theorem is_reply_field_fails_conditions:
  assumes "context_laws env" and "hm_has (tr_webhook_fields t) ''is_reply''"
  shows "evaluate_condition env eval expr t outs = Inl ConditionError"
  using is_reply_field_refused [OF assms, of outs] build_eval_context_error [of env t outs]
  by (auto simp: evaluate_condition_def split: sum.split)

section \<open>What a run does outside\<close>

text \<open>An effect that step \<open>i\<close> of the run may have.\<close>

definition confined_effect ::
  "('n, 'f, 'c, 'u) wf_env \<Rightarrow> 'c step_world \<Rightarrow> uuid \<Rightarrow> uuid \<Rightarrow> TriggerContext \<Rightarrow> Step \<Rightarrow> wf_effect \<Rightarrow> bool" where
  "confined_effect env w community run_id t step e \<longleftrightarrow>
     sw_fence_acquired w \<and> sw_fence_verified w \<and>
     (case e of
        PublishMessage c channel _ owner reply \<Rightarrow>
          c = community \<and>
          (\<exists>wid wrec. sw_get_run w community run_id = Some wid \<and> sw_get_workflow w community wid = Some wrec \<and>
             owner = we_hex env (wr_owner_pubkey wrec) \<and>
             (case wr_channel_id wrec of Some ch \<Rightarrow> channel = we_uuid_text env ch | None \<Rightarrow> True)) \<and>
          (reply = None \<or> reply = Some (tr_message_id t) \<and> tr_message_id t \<noteq> [])
      | SendHttp ip _ _ _ _ _ \<Rightarrow> is_call_webhook (sp_action step) \<and> \<not> is_private_ip ip
      | PostReaction _ _ _ \<Rightarrow> tr_message_id t \<noteq> []
      | Sleep n \<Rightarrow> n \<le> 270)"

lemma check_ssrf_public: "check_ssrf resolve host port = Inr ip \<Longrightarrow> \<not> is_private_ip ip"
  by (auto simp: check_ssrf_def split: option.splits list.splits if_splits)

lemma send_channel:
  "resolve_send_message_channel env raw tc wch = Inr channel \<Longrightarrow>
     case wch of Some ch \<Rightarrow> channel = we_uuid_text env ch | None \<Rightarrow> True"
  by (auto simp: resolve_send_message_channel_def Let_def split: option.splits if_splits)

lemma resolve_keeps_webhook: "resolve_step_templates env t outs a = Inr a' \<Longrightarrow> is_call_webhook a' \<longleftrightarrow> is_call_webhook a"
  by (cases a) (auto simp: then_do_eq_Inr)

lemma send_message_confined:
  assumes "e \<in> set (fst (send_message_action env w community run_id t text channel reply))"
    and "sw_fence_acquired w" and "sw_fence_verified w"
  shows "confined_effect env w community run_id t step e"
proof -
  obtain wid wrec channel_id where lookups: "sw_get_run w community run_id = Some wid"
      "sw_get_workflow w community wid = Some wrec"
      and channel: "resolve_send_message_channel env channel (tr_channel_id t) (wr_channel_id wrec) = Inr channel_id"
      and e: "e = PublishMessage community channel_id text (we_hex env (wr_owner_pubkey wrec))
        (if reply then Some (tr_message_id t) else None)" "reply \<longrightarrow> tr_message_id t \<noteq> []"
    using assms(1)
    by (auto simp: send_message_action_def Let_def split: option.splits sum.splits if_splits Option.bind_splits)
  then show ?thesis
    using assms(2,3) send_channel [OF channel] by (auto simp: confined_effect_def)
qed

lemma webhook_confined:
  assumes "e \<in> set (fst (call_webhook_impl env w url method headers body))"
    and "sw_fence_acquired w" and "sw_fence_verified w" and "is_call_webhook (sp_action step)"
  shows "confined_effect env w community run_id t step e"
  using assms
  by (auto simp: call_webhook_impl_def confined_effect_def Let_def
      split: option.splits sum.splits if_splits Option.bind_splits dest: check_ssrf_public)

lemma perform_confined:
  assumes "e \<in> set (fst (perform env w community run_id t action))"
    and "sw_fence_acquired w" and "sw_fence_verified w" and "is_call_webhook action \<longrightarrow> is_call_webhook (sp_action step)"
  shows "confined_effect env w community run_id t step e"
proof (cases action)
  case (AddReaction emoji)
  then show ?thesis
    using assms by (auto simp: add_reaction_impl_def confined_effect_def Let_def split: if_splits)
next
  case (Delay d)
  then show ?thesis
    using assms by (auto simp: confined_effect_def MAX_DELAY_SECS_def split: sum.splits if_splits)
qed (use assms send_message_confined webhook_confined in auto)

lemma dispatch_confined:
  assumes "e \<in> set (fst (dispatch_timed env w secs community run_id t i action))"
    and "is_call_webhook action \<longrightarrow> is_call_webhook (sp_action step)"
  shows "confined_effect env w community run_id t step e"
proof -
  have "e \<in> set (fst (dispatch_action env w community run_id t action))"
    using assms(1) by (auto simp: dispatch_timed_def split: prod.splits interruption.splits dest: in_set_takeD)
  then have "sw_fence_acquired w" "sw_fence_verified w" "e \<in> set (fst (perform env w community run_id t action))"
    by (auto simp: dispatch_action_def split: prod.splits interruption.splits if_splits sum.splits dest: in_set_takeD)
  then show ?thesis
    using perform_confined assms(2) by blast
qed

lemma run_step_confined:
  assumes "e \<in> set (fst (run_step env w dt community run_id t i step outs trace))"
  shows "confined_effect env w community run_id t step e"
proof -
  let ?secs = "case sp_timeout_secs step of Some n \<Rightarrow> n | None \<Rightarrow> dt"
  obtain action where "resolve_step_templates env t outs (sp_action step) = Inr action"
      and "e \<in> set (fst (dispatch_timed env w ?secs community run_id t (sp_id step) action))"
    using assms by (auto simp: run_step_def Let_def split: sum.splits bool.splits prod.splits StepResult.splits)
  then show ?thesis
    using dispatch_confined resolve_keeps_webhook by metis
qed

lemma steps_loop_confined:
  assumes "e \<in> set (fst (steps_loop env world dt community run_id t start i steps outs trace))"
  shows "\<exists>j < length steps. start \<le> i + j \<and> confined_effect env (world (i + j)) community run_id t (steps ! j) e"
  using assms
proof (induction steps arbitrary: i outs trace)
  case (Cons step steps)
  let ?goal = "\<exists>j < length (step # steps). start \<le> i + j \<and> confined_effect env (world (i + j)) community run_id t ((step # steps) ! j) e"
  have later: ?goal if e: "e \<in> set (fst (steps_loop env world dt community run_id t start (Suc i) steps outs' trace'))" for outs' trace'
  proof -
    obtain j where "j < length steps" "start \<le> Suc i + j" "confined_effect env (world (Suc i + j)) community run_id t (steps ! j) e"
      using Cons.IH [OF e] by auto
    then show ?thesis
      by (intro exI [of _ "Suc j"]) simp
  qed
  consider (later) outs' trace' where "e \<in> set (fst (steps_loop env world dt community run_id t start (Suc i) steps outs' trace'))"
    | (here) "start \<le> i" "e \<in> set (fst (run_step env (world i) dt community run_id t i step outs trace))"
    using Cons.prems by (auto split: if_splits prod.splits sum.splits)
  then show ?case
  proof cases
    case here
    then show ?thesis
      using run_step_confined by (intro exI [of _ 0]) auto
  qed (rule later)
qed simp


section \<open>The trace\<close>

fun entry_step :: "'n json \<Rightarrow> string option" where
  "entry_step (JObject ((_, JScalar (JString i)) # _)) = Some i"
| "entry_step _ = None"

text \<open>How a run ended: its trace and the index of the step it ended at.\<close>

fun ended_at :: "'n run_result \<Rightarrow> nat \<times> 'n json list" where
  "ended_at (Inr r) = (er_step_index r, er_trace r)"
| "ended_at (Inl (_, p)) = (pp_step_index p, pp_trace p)"

lemma run_step_next:
  assumes "run_step env w dt community run_id t i step outs trace = (effects, Inr (outs', trace'))"
  shows "(outs' = outs \<and> trace' = trace @ [skipped_entry (sp_id step)]) \<or>
    (\<exists>v. outs' = hm_insert (sp_id step) v outs \<and> trace' = trace @ [completed_entry (sp_id step) v])"
  using assms
  by (auto simp: run_step_def Let_def split: sum.splits bool.splits prod.splits StepResult.splits)

lemma run_step_end:
  assumes "run_step env w dt community run_id t i step outs trace = (effects, Inl result)"
  shows "ended_at result = (i, trace)" and "\<not> (\<exists>r. result = Inr r \<and> er_approval_token r = None)"
  using assms
  by (auto simp: run_step_def Let_def split: sum.splits bool.splits prod.splits StepResult.splits)

lemma run_step_trace:
  assumes "run_step env w dt community run_id t i step outs trace = (effects, Inr (outs', trace'))"
  shows "map entry_step trace' = map entry_step trace @ [Some (sp_id step)]"
  using run_step_next [OF assms] by (auto simp: skipped_entry_def completed_entry_def)

lemma steps_loop_trace:
  assumes "start \<le> i" and "steps_loop env world dt community run_id t start i steps outs trace = (effects, result)"
    and "ended_at result = (k, trace')"
  shows "i \<le> k \<and> k \<le> i + length steps \<and> map entry_step trace' = map entry_step trace @ map (Some \<circ> sp_id) (take (k - i) steps) \<and>
    ((\<exists>r. result = Inr r \<and> er_approval_token r = None) \<longleftrightarrow> k = i + length steps)"
  using assms
proof (induction steps arbitrary: i outs trace effects)
  case Nil
  then show ?case
    by auto
next
  case (Cons step steps)
  obtain e1 next_state where run: "run_step env (world i) dt community run_id t i step outs trace = (e1, next_state)"
    by (cases "run_step env (world i) dt community run_id t i step outs trace")
  show ?case
  proof (cases next_state)
    case (Inl res)
    then have "result = res"
      using Cons.prems run by simp
    then have "k = i" "trace' = trace" "\<not> (\<exists>r. result = Inr r \<and> er_approval_token r = None)"
      using run_step_end [OF run [unfolded Inl]] Cons.prems(3) by auto
    then show ?thesis
      by simp
  next
    case (Inr p)
    obtain outs1 trace1 where p: "p = (outs1, trace1)"
      by (cases p)
    obtain e2 where loop: "steps_loop env world dt community run_id t start (Suc i) steps outs1 trace1 = (e2, result)"
      using Cons.prems run Inr p by (cases "steps_loop env world dt community run_id t start (Suc i) steps outs1 trace1") auto
    have IH: "Suc i \<le> k" "k \<le> Suc i + length steps"
        "map entry_step trace' = map entry_step trace1 @ map (Some \<circ> sp_id) (take (k - Suc i) steps)"
        "(\<exists>r. result = Inr r \<and> er_approval_token r = None) \<longleftrightarrow> k = Suc i + length steps"
      using Cons.IH [OF _ loop Cons.prems(3)] Cons.prems(1) by auto
    have "k - i = Suc (k - Suc i)"
      using IH(1) by simp
    then show ?thesis
      using IH run_step_trace run Inr p by (auto simp: run_step_trace)
  qed
qed

text \<open>
  The recorded progress is accurate: however a run ends, its trace has one entry for each step
  before the step it ended at, in the order of the definition, and it ends normally exactly when it
  has passed the last step.
\<close>

theorem progress_is_accurate:
  assumes "execute_steps env world dt community run_id d t 0 None = (effects, result)" and "ended_at result = (k, trace)"
  shows "k \<le> length (wd_steps d) \<and> map entry_step trace = map (Some \<circ> sp_id) (take k (wd_steps d)) \<and>
    ((\<exists>r. result = Inr r \<and> er_approval_token r = None) \<longleftrightarrow> k = length (wd_steps d))"
  using steps_loop_trace [of 0 0 env world dt community run_id t "wd_steps d" "[]" "[]" effects result k trace] assms
  by (simp add: execute_steps_def)

section \<open>Resuming\<close>

lemma completed_not_suspended: "map_sum id Completed x \<noteq> Inr (Suspended tok)"
  by (cases x) auto

lemma perform_suspended: "perform env w community run_id t action = (effects, Inr (Suspended tok)) \<Longrightarrow> effects = []"
  by (cases action) (auto simp: send_message_action_def Let_def completed_not_suspended map_prod_def
      split: option.splits sum.splits if_splits Option.bind_splits prod.splits)

lemma dispatch_suspended:
  "dispatch_timed env w secs community run_id t i action = (effects, Inr (Suspended tok)) \<Longrightarrow> effects = []"
  by (auto simp: dispatch_timed_def dispatch_action_def split: prod.splits interruption.splits sum.splits if_splits
      dest: perform_suspended)

lemma run_step_suspended:
  assumes "run_step env w dt community run_id t i step outs trace = (effects, Inl (Inr r))"
  shows "effects = [] \<and> er_step_index r = i \<and> er_step_outputs r = outs \<and> er_trace r = trace"
  using assms
  by (auto simp: run_step_def Let_def split: sum.splits bool.splits prod.splits StepResult.splits dest: dispatch_suspended)

text \<open>The trace a run starts with is only carried along, and so is the index.\<close>

fun map_result :: "(nat \<Rightarrow> nat) \<Rightarrow> ('n json list \<Rightarrow> 'n json list) \<Rightarrow> 'n run_result \<Rightarrow> 'n run_result" where
  "map_result f g (Inr r) = Inr (r\<lparr>er_step_index := f (er_step_index r), er_trace := g (er_trace r)\<rparr>)"
| "map_result f g (Inl (e, p)) = Inl (e, \<lparr>pp_step_index = f (pp_step_index p), pp_trace = g (pp_trace p)\<rparr>)"

lemma run_step_carries:
  "run_step env w dt community run_id t (f i) step outs (pre @ trace) =
     map_prod id (map_sum (map_result f ((@) pre)) (map_prod id ((@) pre)))
       (run_step env w dt community run_id t i step outs trace)"
  by (auto simp: run_step_def Let_def split: sum.splits bool.splits prod.splits StepResult.splits)

lemma steps_loop_carries:
  assumes "\<And>j. f (Suc j) = Suc (f j)" and "\<And>j. i \<le> j \<Longrightarrow> world (f j) = world' j"
    and "start \<le> i" and "start' \<le> f i"
  shows "steps_loop env world dt community run_id t start' (f i) steps outs (pre @ trace) =
     map_prod id (map_result f ((@) pre)) (steps_loop env world' dt community run_id t start i steps outs trace)"
  using assms(2-4)
proof (induction steps arbitrary: i outs trace)
  case (Cons step steps)
  have world: "world (f i) = world' i" and bounds: "\<not> i < start" "\<not> f i < start'"
    using Cons.prems by auto
  have later: "steps_loop env world dt community run_id t start' (Suc (f i)) steps outs1 (pre @ trace1) =
      map_prod id (map_result f ((@) pre)) (steps_loop env world' dt community run_id t start (Suc i) steps outs1 trace1)" for outs1 trace1
    using Cons.IH [of "Suc i" outs1 trace1] Cons.prems assms(1) [of i] by (simp add: id_def)
  show ?case
    using run_step_carries [of env "world' i" dt community run_id t f i step outs pre trace] world bounds later
    by (auto simp: map_prod_def split_beta split: prod.splits sum.splits)
qed simp

lemma reconstruct_step:
  assumes "run_step env w dt community run_id t i step outs trace = (effects, Inr (outs', trace'))" and "outs = reconstruct_outputs trace"
  shows "outs' = reconstruct_outputs trace'"
  using run_step_next [OF assms(1)] assms(2)
  by (auto simp: reconstruct_outputs_def trace_output_def skipped_entry_def completed_entry_def)

text \<open>A run that suspended: what follows the step it suspended at does not matter, and the outputs are those
  of the trace.\<close>

lemma steps_loop_suspended:
  assumes "steps_loop env world dt community run_id t 0 i steps outs trace = (effects, Inr r)" and "er_approval_token r \<noteq> None"
    and "outs = reconstruct_outputs trace"
  shows "\<exists>xs ap ys. steps = xs @ ap # ys \<and> er_step_index r = i + length xs \<and> er_step_outputs r = reconstruct_outputs (er_trace r) \<and>
    (\<forall>world' zs. (\<forall>m < i + length xs. world' m = world m) \<longrightarrow>
       steps_loop env world' dt community run_id t 0 i (xs @ zs) outs trace =
         map_prod ((@) effects) id (steps_loop env world' dt community run_id t 0 (i + length xs) zs (er_step_outputs r) (er_trace r)))"
  using assms
proof (induction steps arbitrary: i outs trace effects)
  case (Cons step steps)
  obtain e1 next_state where run: "run_step env (world i) dt community run_id t i step outs trace = (e1, next_state)"
    by (cases "run_step env (world i) dt community run_id t i step outs trace")
  show ?case
  proof (cases next_state)
    case (Inl res)
    then have "res = Inr r" "effects = e1"
      using Cons.prems run by auto
    then have "effects = []" "er_step_index r = i" "er_step_outputs r = outs" "er_trace r = trace"
      using run_step_suspended run Inl by metis+
    then show ?thesis
      using Cons.prems(3) by (intro exI [of _ "[]"] exI [of _ step] exI [of _ steps]) (simp add: prod.map_id0)
  next
    case (Inr p)
    obtain outs1 trace1 where p: "p = (outs1, trace1)"
      by (cases p)
    obtain e2 where loop: "steps_loop env world dt community run_id t 0 (Suc i) steps outs1 trace1 = (e2, Inr r)" and e: "effects = e1 @ e2"
      using Cons.prems run Inr p by (cases "steps_loop env world dt community run_id t 0 (Suc i) steps outs1 trace1") auto
    have "outs1 = reconstruct_outputs trace1"
      using reconstruct_step run Inr p Cons.prems(3) by blast
    then obtain xs ap ys where IH: "steps = xs @ ap # ys" "er_step_index r = Suc i + length xs"
        "er_step_outputs r = reconstruct_outputs (er_trace r)"
        "\<forall>world' zs. (\<forall>m < Suc i + length xs. world' m = world m) \<longrightarrow>
           steps_loop env world' dt community run_id t 0 (Suc i) (xs @ zs) outs1 trace1 =
             map_prod ((@) e2) id (steps_loop env world' dt community run_id t 0 (Suc i + length xs) zs (er_step_outputs r) (er_trace r))"
      using Cons.IH [OF loop Cons.prems(2)] by blast
    have "steps_loop env world' dt community run_id t 0 i ((step # xs) @ zs) outs trace =
        map_prod ((@) effects) id (steps_loop env world' dt community run_id t 0 (i + length (step # xs)) zs (er_step_outputs r) (er_trace r))"
      if agree: "\<forall>m < i + length (step # xs). world' m = world m" for world' zs
    proof -
      have "world' i = world i"
        using agree by simp
      moreover have "steps_loop env world' dt community run_id t 0 (Suc i) (xs @ zs) outs1 trace1 =
          map_prod ((@) e2) id (steps_loop env world' dt community run_id t 0 (Suc i + length xs) zs (er_step_outputs r) (er_trace r))"
        using IH(4) agree by simp
      ultimately show ?thesis
        using run Inr p e
        by (cases "steps_loop env world' dt community run_id t 0 (Suc i + length xs) zs (er_step_outputs r) (er_trace r)") simp
    qed
    then show ?thesis
      using IH(1-3) by (intro exI [of _ "step # xs"] exI [of _ ap] exI [of _ ys]) (auto simp: id_def)
  qed
qed auto

lemma steps_loop_skips:
  "i + length xs \<le> start \<Longrightarrow>
     steps_loop env world dt community run_id t start i (xs @ ys) outs trace =
     steps_loop env world dt community run_id t start (i + length xs) ys outs trace"
  by (induction xs arbitrary: i) auto


section \<open>Witnesses\<close>

definition sample_wf_env :: "(nat, unit, (string \<times> unit evalue) list, string) wf_env" where
  "sample_wf_env =
     \<lparr>we_pubkey_from_hex = \<lambda>_. None, we_to_bech32 = \<lambda>_. None, we_number = \<lambda>n. n, we_number_text = decimal,
      we_json_text = \<lambda>_. [], we_json_parse = \<lambda>_. None, we_as_i64 = \<lambda>n. Some (int n), we_as_f64 = \<lambda>_. None,
      we_new_context = [], we_set_function = \<lambda>_ _ ctx. Some ctx,
      we_set_value = \<lambda>k v ctx. (case map_of ctx k of
         Some u \<Rightarrow> if same_type u v then Some ((k, v) # ctx) else None | None \<Rightarrow> Some ((k, v) # ctx)),
      we_get_value = map_of, we_parse_uuid = \<lambda>_. None, we_uuid_text = \<lambda>u. decimal (unat u), we_hex = \<lambda>s. s,
      we_url_parse = Some, we_url_host = \<lambda>_. Some ''h'', we_url_port = \<lambda>_. Some 443, we_method_ok = \<lambda>_. True,
      we_utf8_lossy = \<lambda>s. s\<rparr>"

definition sample_trigger :: TriggerContext where
  "sample_trigger =
     default_trigger\<lparr>tr_author := ''alice'', tr_text := ''{{trigger.author}}'', tr_webhook_fields := [(''author'', ''bob'')]\<rparr>"

definition sample_wf_world :: "(string \<times> unit evalue) list step_world" where
  "sample_wf_world =
     \<lparr>sw_eval = \<lambda>_ _. Some True, sw_fence_acquired = True, sw_fence_verified = True, sw_fence_released = True,
      sw_interruption = Ran, sw_get_run = \<lambda>_ _. Some 7,
      sw_get_workflow = \<lambda>c wid. Some \<lparr>wr_id = wid, wr_community_id = c, wr_channel_id = Some 5, wr_owner_pubkey = ''own'', wr_definition = None\<rparr>,
      sw_sink = Some (\<lambda>_. Inr ''ev''), sw_resolve = \<lambda>_. Some [V4 0x08080808], sw_client_built = True,
      sw_http = \<lambda>_. Some \<lparr>hr_status = 200, hr_chunks = [''ok''], hr_complete = True\<rparr>, sw_env_var = \<lambda>_. None, sw_new_uuid = 9\<rparr>"

definition sample_step :: "string \<Rightarrow> ActionDef \<Rightarrow> Step" where
  "sample_step i a = \<lparr>sp_id = i, sp_name = None, sp_if_expr = None, sp_timeout_secs = None, sp_action = a\<rparr>"

definition sample_def :: WorkflowDef where
  "sample_def =
     \<lparr>wd_name = ''w'', wd_description = None, wd_trigger = Webhook,
      wd_steps = [sample_step ''a'' (SendMessage ''hi {{trigger.text}}'' None False), sample_step ''b'' (RequestApproval ''x'' ''y'' None),
        sample_step ''c'' (CallWebhook ''https://h/{{steps.a.output.event_id}}'' None None None)], wd_enabled = True\<rparr>"

lemma sample_context_laws: "context_laws sample_wf_env"
  by (auto simp: context_laws_def sample_wf_env_def split: option.splits if_splits)

lemmas sample_text_simps = trim_plain plain_char_def is_ascii_alphanumeric_def byte_in_def sublist_Cons_right strip_prefix_def
  split_once_def resolve_variable_def get_field_def expand_def

lemma sample_expand:
  "expand sample_wf_env sample_trigger outs ''trigger.text'' = Inr ''{{trigger.author}}''"
  by (simp add: sample_text_simps sample_trigger_def default_trigger_def)

lemma sample_resolve:
  "resolve_template sample_wf_env sample_trigger outs ''hi {{trigger.text}}'' = Inr ''hi {{trigger.author}}''"
  by (simp add: resolve_template_def template_loop.simps sample_expand sample_text_simps(1-5))

lemma sample_public: "\<not> is_private_ip (V4 0x08080808)"
  by code_simp

theorem template_single_pass_witness:
  "resolve_template sample_wf_env sample_trigger [] (''hi '' @ ''{{'' @ ''trigger.text'' @ ''}}'' @ ''!'') =
     then_do (expand sample_wf_env sample_trigger [] (trim ''trigger.text''))
       (\<lambda>v. map_sum id (\<lambda>r. ''hi '' @ v @ r) (resolve_template sample_wf_env sample_trigger [] ''!'')) \<and>
   expand sample_wf_env sample_trigger [] (trim ''trigger.text'') = Inr ''{{trigger.author}}''"
proof
  have "\<not> sublist ''{{'' (''hi '' @ ''{'')" "\<not> sublist ''}}'' (''trigger.text'' @ ''}'')"
    by (simp_all add: sublist_Cons_right)
  then show "resolve_template sample_wf_env sample_trigger [] (''hi '' @ ''{{'' @ ''trigger.text'' @ ''}}'' @ ''!'') =
     then_do (expand sample_wf_env sample_trigger [] (trim ''trigger.text''))
       (\<lambda>v. map_sum id (\<lambda>r. ''hi '' @ v @ r) (resolve_template sample_wf_env sample_trigger [] ''!''))"
    by (rule template_single_pass)
qed (simp add: sample_expand sample_text_simps(1-4))

theorem trigger_variables_authentic_witness:
  "\<exists>ctx. build_eval_context sample_wf_env sample_trigger [] = Inr ctx \<and>
     list_all (\<lambda>(k, v). we_get_value sample_wf_env ctx k = Some v) (trigger_values sample_trigger)"
proof -
  obtain ctx where "build_eval_context sample_wf_env sample_trigger [] = Inr ctx"
    by (simp add: build_eval_context_def helper_functions_def webhook_values_def trigger_values_def sample_wf_env_def
        sample_trigger_def default_trigger_def)
  then show ?thesis
    using trigger_variables_authentic [OF sample_context_laws] by blast
qed

theorem is_reply_field_fails_conditions_witness:
  "evaluate_condition sample_wf_env (\<lambda>_ _. Some True) ''true'' (default_trigger\<lparr>tr_webhook_fields := [(''is_reply'', ''x'')]\<rparr>) [] =
     Inl ConditionError"
  by (rule is_reply_field_fails_conditions [OF sample_context_laws]) (simp add: hm_has_def hm_get_Cons)

lemma sample_expand_output:
  "expand sample_wf_env sample_trigger [(''a'', JObject [(''sent'', v), (''event_id'', JScalar (JString ''ev''))])] ''steps.a.output.event_id'' =
     Inr ''ev''"
  by (simp add: sample_text_simps json_get_str_def json_to_string_def hm_get_Cons)

lemma sample_resolve_output:
  "resolve_template sample_wf_env sample_trigger [(''a'', JObject [(''sent'', v), (''event_id'', JScalar (JString ''ev''))])]
     ''https://h/{{steps.a.output.event_id}}'' = Inr ''https://h/ev''"
  by (simp add: resolve_template_def template_loop.simps sample_expand_output sample_text_simps(1-5))

lemmas sample_run_simps = execute_steps_def run_step_def dispatch_timed_def dispatch_action_def send_message_action_def
  call_webhook_impl_def check_ssrf_def resolve_send_message_channel_def resolve_opt_def sample_step_def sample_def_def
  sample_wf_world_def

lemma sample_env_simps:
  "we_uuid_text sample_wf_env u = decimal (unat u)" "we_hex sample_wf_env s = s" "we_url_parse sample_wf_env s = Some s"
  "we_url_host sample_wf_env s = Some ''h''" "we_url_port sample_wf_env s = Some 443" "we_method_ok sample_wf_env m"
  "we_number sample_wf_env n = n" "we_utf8_lossy sample_wf_env s = s"
  by (simp_all add: sample_wf_env_def)

lemma sample_ids: "decimal 5 = ''5''" "decimal 9 = ''9''" "decimal 443 = ''443''"
  by code_simp+

lemma sample_plain: "resolve_template env t outs [c] = Inr [c]"
  by (simp add: resolve_template_def sublist_Cons_right)

definition sample_output :: "nat json" where
  "sample_output = JObject [(''sent'', JScalar (JBool True)), (''event_id'', JScalar (JString ''ev''))]"

lemma sample_suspends:
  "execute_steps sample_wf_env (\<lambda>_. sample_wf_world) 300 1 2 sample_def sample_trigger 0 None =
     ([PublishMessage 1 ''5'' ''hi {{trigger.author}}'' ''own'' None],
      Inr \<lparr>er_approval_token = Some ''9'', er_step_index = 1, er_step_outputs = [(''a'', sample_output)],
           er_trace = [completed_entry ''a'' sample_output]\<rparr>)"
  by (simp add: sample_run_simps sample_env_simps sample_resolve sample_output_def sample_plain sample_ids)


theorem progress_is_accurate_witness:
  "map entry_step [completed_entry ''a'' sample_output] = map (Some \<circ> sp_id) (take 1 (wd_steps sample_def))"
  using progress_is_accurate [OF sample_suspends, of 1 "[completed_entry ''a'' sample_output]"] by simp

definition sample_waiting :: "nat WorkflowRun" where
  "sample_waiting =
     \<lparr>rn_status = WaitingApproval, rn_current_step = 1, rn_trace = [completed_entry ''a'' sample_output], rn_error_code = None\<rparr>"

definition sample_record :: WorkflowRecord where
  "sample_record = \<lparr>wr_id = 7, wr_community_id = 1, wr_channel_id = Some 5, wr_owner_pubkey = ''own'', wr_definition = Some sample_def\<rparr>"

lemma sample_reconstruct: "reconstruct_outputs [completed_entry ''a'' v] = [(''a'', v)]"
  by (simp add: reconstruct_outputs_def trace_output_def completed_entry_def)

lemma sample_resumes:
  "snd (resume_workflow_after_approval sample_wf_env (\<lambda>_. sample_wf_world) True True True True 300 1 2 (Some sample_record)
     (Some sample_trigger) 2 sample_waiting) = [SendHttp (V4 0x08080808) 443 ''POST'' ''https://h/ev'' None None]"
  using sample_public
  by (simp add: resume_workflow_after_approval_def sample_waiting_def sample_record_def execute_from_step_def update_workflow_run_def
      sample_reconstruct sample_run_simps sample_env_simps sample_output_def sample_resolve_output WEBHOOK_MAX_RESPONSE_BYTES_def)


end
