(* ===== verification/Workflow_Schedule.thy ===== *)
theory Workflow_Schedule
  imports Workflow_Run Event_Filter
begin

text \<open>
  How runs start, \<^verbatim>\<open>crates/buzz-workflow/src/lib.rs\<close>: the authority of the owner, the triggers of a
  stored event, and the scheduler with its durable claims (\<^verbatim>\<open>crates/buzz-db/src/workflow.rs\<close>).
  \<^item> An instant is a number of nanoseconds since the epoch. The cron crate and the range of chrono's
    timestamps are parameters (\<open>sched_env\<close>).
  \<^item> What the database answers is an argument of each call (\<open>event_world\<close>, \<open>fire_world\<close>). The table of
    claims is state, because inserting a claim is the step at which pods meet; the anchor a pod has
    read earlier is an argument, so any other pod may have acted in between.
  \<^item> Starting the executor is the run in the result; what the run does is \<open>execute_run\<close>.
\<close>

section \<open>Authority of the owner\<close>

definition owner_authority_allows :: "string option \<Rightarrow> bool \<Rightarrow> bool" where
  "owner_authority_allows role needs_elevated =
     (case role of
        None \<Rightarrow> False
      | Some r \<Rightarrow> if needs_elevated then r = ''owner'' \<or> r = ''admin'' else True)"

text \<open>\<open>None\<close> is a failed lookup.\<close>

definition check_owner_authority :: "string option option \<Rightarrow> WorkflowDef \<Rightarrow> WorkflowError + unit" where
  "check_owner_authority lookup d =
     (case lookup of
        None \<Rightarrow> Inl WfUnauthorized
      | Some role \<Rightarrow> if owner_authority_allows role (requires_elevated_authority d) then Inr () else Inl WfUnauthorized)"

section \<open>Events\<close>

definition trigger_matches_event :: "TriggerDef \<Rightarrow> nat \<Rightarrow> bool" where
  "trigger_matches_event trigger k =
     (case trigger of
        MessagePosted _ \<Rightarrow> k = KIND_STREAM_MESSAGE
      | ReactionAdded _ _ \<Rightarrow> k = KIND_REACTION
      | DiffPosted _ \<Rightarrow> k = KIND_STREAM_MESSAGE_DIFF
      | Schedule _ _ \<Rightarrow> False
      | Webhook \<Rightarrow> False)"

definition event_is_reply :: "event \<Rightarrow> bool" where
  "event_is_reply ev \<longleftrightarrow> reply_marker (parse_thread_markers (ev_tags ev)) \<noteq> None"

fun find_map :: "('a \<Rightarrow> 'b option) \<Rightarrow> 'a list \<Rightarrow> 'b option" where
  "find_map f [] = None"
| "find_map f (x # xs) = (case f x of Some y \<Rightarrow> Some y | None \<Rightarrow> find_map f xs)"

text \<open>The target of a reaction: the content of the last \<open>e\<close> tag that holds an event id.\<close>

definition reaction_target :: "event \<Rightarrow> event_id" where
  "reaction_target ev =
     (case find_map
             (\<lambda>t. if tag_kind_str t = ''e''
                  then (case tag_content t of
                          Some v \<Rightarrow> if length v = 64 \<and> list_all is_ascii_hexdigit v then Some v else None
                        | None \<Rightarrow> None)
                  else None)
             (rev (ev_tags ev)) of
        Some v \<Rightarrow> v
      | None \<Rightarrow> ev_id ev)"

definition build_trigger_context :: "('n, 'f, 'c, 'u) wf_env \<Rightarrow> StoredEvent \<Rightarrow> TriggerContext" where
  "build_trigger_context env stored =
     (let ev = st_event stored;
          reaction = (event_kind_u32 ev = KIND_REACTION)
      in \<lparr>tr_text = ev_content ev,
          tr_author = ev_pubkey ev,
          tr_channel_id = (case st_channel_id stored of Some ch \<Rightarrow> we_uuid_text env ch | None \<Rightarrow> []),
          tr_timestamp = decimal (ev_created_at ev),
          tr_emoji = (if reaction then ev_content ev else []),
          tr_message_id = (if reaction then reaction_target ev else ev_id ev),
          tr_is_reply = event_is_reply ev,
          tr_webhook_fields = []\<rparr>)"

definition should_fire_workflow ::
  "('n, 'f, 'c, 'u) wf_env \<Rightarrow> (string \<Rightarrow> 'c \<Rightarrow> bool option) \<Rightarrow> WorkflowDef \<Rightarrow> TriggerContext \<Rightarrow> bool" where
  "should_fire_workflow env eval d t \<longleftrightarrow>
     (case wd_trigger d of
        ReactionAdded (Some expected) _ \<Rightarrow> tr_emoji t = expected
      | _ \<Rightarrow> True) \<and>
     (case (case wd_trigger d of
              MessagePosted filt \<Rightarrow> filt
            | ReactionAdded _ filt \<Rightarrow> filt
            | DiffPosted filt \<Rightarrow> filt
            | Schedule _ _ \<Rightarrow> None
            | Webhook \<Rightarrow> None) of
        None \<Rightarrow> True
      | Some expr \<Rightarrow> evaluate_condition env eval expr t [] = Inr True)"

record 'c event_world =
  ew_eval :: "string \<Rightarrow> 'c \<Rightarrow> bool option"
  ew_role :: "string option option"
  ew_created :: "uuid option"

record started_run =
  sr_community :: uuid
  sr_workflow :: WorkflowRecord
  sr_definition :: WorkflowDef
  sr_trigger :: TriggerContext
  sr_run_id :: uuid

text \<open>One workflow of the channel: the run it starts, if any.\<close>

definition fire_on_event ::
  "('n, 'f, 'c, 'u) wf_env \<Rightarrow> 'c event_world \<Rightarrow> uuid \<Rightarrow> nat \<Rightarrow> TriggerContext \<Rightarrow> WorkflowRecord \<Rightarrow> started_run option" where
  "fire_on_event env w community k t workflow =
     (case wr_definition workflow of
        None \<Rightarrow> None
      | Some d \<Rightarrow>
          if \<not> wd_enabled d \<or> \<not> trigger_matches_event (wd_trigger d) k then None
          else if \<not> should_fire_workflow env (ew_eval w) d t then None
          else
            (case check_owner_authority (ew_role w) d of
               Inl _ \<Rightarrow> None
             | Inr _ \<Rightarrow>
                 (case ew_created w of
                    None \<Rightarrow> None
                  | Some run_id \<Rightarrow>
                      Some \<lparr>sr_community = community, sr_workflow = workflow, sr_definition = d, sr_trigger = t, sr_run_id = run_id\<rparr>)))"

fun fire_all ::
  "('n, 'f, 'c, 'u) wf_env \<Rightarrow> (nat \<Rightarrow> 'c event_world) \<Rightarrow> uuid \<Rightarrow> nat \<Rightarrow> TriggerContext \<Rightarrow> nat \<Rightarrow> WorkflowRecord list \<Rightarrow> started_run list" where
  "fire_all env world community k t i [] = []"
| "fire_all env world community k t i (workflow # workflows) =
     (case fire_on_event env (world i) community k t workflow of
        None \<Rightarrow> fire_all env world community k t (Suc i) workflows
      | Some run \<Rightarrow> run # fire_all env world community k t (Suc i) workflows)"

text \<open>\<open>cached\<close> is what the look-aside cache holds for the channel, \<open>listed\<close> what the database lists, and the
  second component of the result is the list that is put into the cache.\<close>

definition on_event ::
  "('n, 'f, 'c, 'u) wf_env \<Rightarrow> (nat \<Rightarrow> 'c event_world) \<Rightarrow> WorkflowRecord list option \<Rightarrow> WorkflowRecord list option \<Rightarrow> bool \<Rightarrow>
     uuid \<Rightarrow> StoredEvent \<Rightarrow> (WorkflowError + started_run list) \<times> WorkflowRecord list option" where
  "on_event env world cached listed serialized community stored =
     (case st_channel_id stored of
        None \<Rightarrow> (Inr [], None)
      | Some channel_id \<Rightarrow>
          (let k = event_kind_u32 (st_event stored)
           in if is_workflow_execution_kind k then (Inr [], None)
              else
                (case (case cached of Some ws \<Rightarrow> Some ws | None \<Rightarrow> listed) of
                   None \<Rightarrow> (Inl WfDatabase, None)
                 | Some workflows \<Rightarrow>
                     (Inr (if workflows = [] \<or> \<not> serialized then []
                           else fire_all env world community k (build_trigger_context env stored) 0 workflows),
                      if cached = None then Some workflows else None))))"

section \<open>Schedules\<close>

record sched_env =
  sv_cron :: "string \<Rightarrow> (int \<Rightarrow> int option) option"
  sv_from_timestamp :: "int \<Rightarrow> int option"

definition NANOS :: int where "NANOS = 1000000000"

definition cron_fire_instant :: "sched_env \<Rightarrow> string \<Rightarrow> int \<Rightarrow> int \<Rightarrow> int option" where
  "cron_fire_instant sv expr now window_secs =
     (case sv_cron sv (normalize_cron expr) of
        None \<Rightarrow> None
      | Some next_after \<Rightarrow>
          (case next_after (now - window_secs * NANOS) of
             Some t \<Rightarrow> if t \<le> now then Some t else None
           | None \<Rightarrow> None))"

definition secs_i64 :: "nat \<Rightarrow> int" where
  "secs_i64 n = (if n < 2 ^ 63 then int n else int n - 2 ^ 64)"

definition div_euclid :: "int \<Rightarrow> int \<Rightarrow> int" where
  "div_euclid a b = (if 0 < b then a div b else - (a div (- b)))"

definition interval_fire_instant :: "sched_env \<Rightarrow> string \<Rightarrow> int \<Rightarrow> int option" where
  "interval_fire_instant sv dur now =
     (case parse_duration_secs dur of
        Inr interval_secs \<Rightarrow>
          if 0 < interval_secs
          then (let secs = secs_i64 interval_secs
                in sv_from_timestamp sv (div_euclid (now div NANOS) secs * secs))
          else None
      | Inl _ \<Rightarrow> None)"

definition interval_should_fire :: "string \<Rightarrow> int option \<Rightarrow> int \<Rightarrow> bool" where
  "interval_should_fire dur last_fired now =
     (case parse_duration_secs dur of
        Inr interval_secs \<Rightarrow>
          (let prev = (case last_fired of Some t \<Rightarrow> t | None \<Rightarrow> now);
               elapsed = nat (\<bar>now - prev\<bar> div NANOS)
           in interval_secs \<le> elapsed)
      | Inl _ \<Rightarrow> False)"

type_synonym fire_clock = "(uuid \<times> uuid, int) hmap"

definition interval_prefilter_should_fire ::
  "fire_clock \<Rightarrow> uuid \<Rightarrow> uuid \<Rightarrow> string \<Rightarrow> int option \<Rightarrow> int \<Rightarrow> fire_clock \<times> bool" where
  "interval_prefilter_should_fire clock community workflow_id dur prev now =
     (if interval_should_fire dur prev now then (clock, True)
      else if prev = None then (hm_insert (community, workflow_id) now clock, False)
      else (clock, False))"

type_synonym claim = "uuid \<times> uuid \<times> int"

datatype claim_fault = ClaimAnswers | ClaimFails bool

record fire_world =
  fw_anchor :: "int option option"
  fw_role :: "string option option"
  fw_workflow_exists :: bool
  fw_claim_fault :: claim_fault
  fw_serialized :: bool
  fw_created :: "uuid option"

text \<open>The insert answers whether it stored the claim; a failed call may have stored it.\<close>

definition claim_scheduled_workflow_fire :: "fire_world \<Rightarrow> claim \<Rightarrow> claim list \<Rightarrow> claim list \<times> bool option" where
  "claim_scheduled_workflow_fire w c claims =
     (let won = (fw_workflow_exists w \<and> c \<notin> set claims);
          claims' = (if won then c # claims else claims)
      in case fw_claim_fault w of
           ClaimAnswers \<Rightarrow> (claims', Some won)
         | ClaimFails applied \<Rightarrow> (if applied then claims' else claims, None))"

definition latest_scheduled_workflow_fire :: "uuid \<Rightarrow> uuid \<Rightarrow> claim list \<Rightarrow> int option" where
  "latest_scheduled_workflow_fire community workflow_id claims =
     (let ts = map (snd \<circ> snd) (filter (\<lambda>(c, i, _). c = community \<and> i = workflow_id) claims)
      in if ts = [] then None else Some (Max (set ts)))"

text \<open>The instant a workflow is due for in this tick, and whether it is an interval.\<close>

definition due_instant :: "sched_env \<Rightarrow> fire_world \<Rightarrow> int \<Rightarrow> WorkflowRecord \<Rightarrow> TriggerDef \<Rightarrow> fire_clock \<Rightarrow> fire_clock \<times> (int \<times> bool) option" where
  "due_instant sv w now workflow trigger clock =
     (case trigger of
        Schedule (Some expr) None \<Rightarrow> (clock, map_option (\<lambda>t. (t, False)) (cron_fire_instant sv expr now 60))
      | Schedule None (Some dur) \<Rightarrow>
          (let prev = (case hm_get clock (wr_community_id workflow, wr_id workflow) of
                         Some t \<Rightarrow> Some t
                       | None \<Rightarrow> (case fw_anchor w of Some anchor \<Rightarrow> anchor | None \<Rightarrow> None));
               (clock', fire) = interval_prefilter_should_fire clock (wr_community_id workflow) (wr_id workflow) dur prev now
           in (clock', if fire then map_option (\<lambda>t. (t, True)) (interval_fire_instant sv dur now) else None))
      | _ \<Rightarrow> (clock, None))"

definition schedule_trigger :: "('n, 'f, 'c, 'u) wf_env \<Rightarrow> uuid \<Rightarrow> int \<Rightarrow> TriggerContext" where
  "schedule_trigger env channel_id now =
     default_trigger\<lparr>tr_channel_id := we_uuid_text env channel_id, tr_timestamp := decimal (nat (now div NANOS))\<rparr>"

text \<open>One workflow in one tick: the clock, the claims, and the run with the instant it is for.\<close>

definition tick_workflow ::
  "('n, 'f, 'c, 'u) wf_env \<Rightarrow> sched_env \<Rightarrow> fire_world \<Rightarrow> int \<Rightarrow> WorkflowRecord \<Rightarrow> fire_clock \<times> claim list \<Rightarrow>
     (fire_clock \<times> claim list) \<times> (started_run \<times> int) option" where
  "tick_workflow env sv w now workflow st =
     (let (clock, claims) = st; community = wr_community_id workflow; key = (community, wr_id workflow)
      in case wr_definition workflow of
           None \<Rightarrow> (st, None)
         | Some d \<Rightarrow>
             if \<not> wd_enabled d then (st, None)
             else
               (case wr_channel_id workflow of
                  None \<Rightarrow> (st, None)
                | Some channel_id \<Rightarrow>
                    (case due_instant sv w now workflow (wd_trigger d) clock of
                       (clock1, None) \<Rightarrow> ((clock1, claims), None)
                     | (clock1, Some (scheduled_for, interval)) \<Rightarrow>
                         (case check_owner_authority (fw_role w) d of
                            Inl _ \<Rightarrow> ((clock1, claims), None)
                          | Inr _ \<Rightarrow>
                              (let clock2 = (if interval then hm_insert key now clock1 else clock1)
                               in case claim_scheduled_workflow_fire w (community, wr_id workflow, scheduled_for) claims of
                                    (claims', None) \<Rightarrow> ((clock1, claims'), None)
                                  | (claims', Some False) \<Rightarrow> ((clock2, claims'), None)
                                  | (claims', Some True) \<Rightarrow>
                                      if \<not> fw_serialized w then ((clock1, claims'), None)
                                      else
                                        (case fw_created w of
                                           None \<Rightarrow> ((clock1, claims'), None)
                                         | Some run_id \<Rightarrow>
                                             ((clock2, claims'),
                                              Some (\<lparr>sr_community = community, sr_workflow = workflow, sr_definition = d,
                                                     sr_trigger = schedule_trigger env channel_id now, sr_run_id = run_id\<rparr>,
                                                    scheduled_for))))))))"

fun tick_all ::
  "('n, 'f, 'c, 'u) wf_env \<Rightarrow> sched_env \<Rightarrow> (nat \<Rightarrow> fire_world) \<Rightarrow> int \<Rightarrow> nat \<Rightarrow> WorkflowRecord list \<Rightarrow> fire_clock \<times> claim list \<Rightarrow>
     (fire_clock \<times> claim list) \<times> (started_run \<times> int) list" where
  "tick_all env sv world now i [] st = (st, [])"
| "tick_all env sv world now i (workflow # workflows) st =
     (let (st1, run) = tick_workflow env sv (world i) now workflow st;
          (st2, runs) = tick_all env sv world now (Suc i) workflows st1
      in (st2, (case run of Some r \<Rightarrow> [r] | None \<Rightarrow> []) @ runs))"

text \<open>A tick of the background loop; \<open>listed\<close> is the answer of the database.\<close>

definition run_tick ::
  "('n, 'f, 'c, 'u) wf_env \<Rightarrow> sched_env \<Rightarrow> (nat \<Rightarrow> fire_world) \<Rightarrow> int \<Rightarrow> WorkflowRecord list option \<Rightarrow> fire_clock \<times> claim list \<Rightarrow>
     (fire_clock \<times> claim list) \<times> (started_run \<times> int) list" where
  "run_tick env sv world now listed st =
     (case listed of
        None \<Rightarrow> (st, [])
      | Some workflows \<Rightarrow>
          (let ((clock, claims), runs) = tick_all env sv world now 0 workflows st;
               active = map (\<lambda>r. (wr_community_id r, wr_id r)) workflows
           in ((hm_retain (\<lambda>key _. key \<in> set active) clock, claims), runs)))"

end
