(* ===== verification/Workflow_Schedule_Props.thy ===== *)
theory Workflow_Schedule_Props
  imports Workflow_Schedule Workflow_Run_Props
begin

text \<open>
  Properties of how runs start: every run has the current authority of its owner, a scheduled instant is
  run at most once over all pods, an interval that starts cold fires, and what a restart does to the
  interval.
\<close>

section \<open>Authority\<close>

definition has_authority :: "string option option \<Rightarrow> WorkflowDef \<Rightarrow> bool" where
  "has_authority lookup d \<longleftrightarrow>
     (\<exists>role. lookup = Some (Some role) \<and> (requires_elevated_authority d \<longrightarrow> role \<in> {''owner'', ''admin''}))"

lemma check_owner_authority_ok: "check_owner_authority lookup d = Inr u \<longleftrightarrow> has_authority lookup d"
  by (auto simp: check_owner_authority_def owner_authority_allows_def has_authority_def split: option.splits if_splits)

definition fit_to_run :: "WorkflowRecord \<Rightarrow> started_run \<Rightarrow> bool" where
  "fit_to_run workflow run \<longleftrightarrow>
     sr_workflow run = workflow \<and> wr_definition workflow = Some (sr_definition run) \<and> wd_enabled (sr_definition run)"

lemma fire_on_event_run:
  assumes "fire_on_event env w community k t workflow = Some run"
  shows "fit_to_run workflow run \<and> has_authority (ew_role w) (sr_definition run) \<and> sr_community run = community \<and> sr_trigger run = t \<and>
    trigger_matches_event (wd_trigger (sr_definition run)) k"
  using assms
  by (auto simp: fire_on_event_def fit_to_run_def check_owner_authority_ok split: option.splits if_splits sum.splits)

lemma fire_all_runs:
  "run \<in> set (fire_all env world community k t i workflows) \<Longrightarrow>
     \<exists>j < length workflows. fire_on_event env (world (i + j)) community k t (workflows ! j) = Some run"
proof (induction workflows arbitrary: i)
  case (Cons workflow workflows)
  show ?case
  proof (cases "fire_on_event env (world i) community k t workflow = Some run")
    case True
    then show ?thesis
      by (intro exI [of _ 0]) simp
  next
    case False
    then have "run \<in> set (fire_all env world community k t (Suc i) workflows)"
      using Cons.prems by (auto split: option.splits)
    then obtain j where "j < length workflows" "fire_on_event env (world (Suc i + j)) community k t (workflows ! j) = Some run"
      using Cons.IH by blast
    then show ?thesis
      by (intro exI [of _ "Suc j"]) simp
  qed
qed simp

lemma tick_workflow_run:
  assumes "tick_workflow env sv w now workflow (clock, claims) = (st, Some (run, instant))"
  shows "fit_to_run workflow run \<and> has_authority (fw_role w) (sr_definition run) \<and> sr_community run = wr_community_id workflow \<and>
    (sr_community run, wr_id workflow, instant) \<notin> set claims \<and> snd st = (sr_community run, wr_id workflow, instant) # claims \<and>
    (\<exists>clock1 interval. due_instant sv w now workflow (wd_trigger (sr_definition run)) clock = (clock1, Some (instant, interval)) \<and>
       fst st = (if interval then hm_insert (wr_community_id workflow, wr_id workflow) now clock1 else clock1))"
proof -
  obtain d ch where d: "wr_definition workflow = Some d" "wd_enabled d" "wr_channel_id workflow = Some ch"
    using assms by (auto simp: tick_workflow_def Let_def split: option.splits if_splits)
  obtain clock1 due where due: "due_instant sv w now workflow (wd_trigger d) clock = (clock1, due)"
    by (cases "due_instant sv w now workflow (wd_trigger d) clock")
  obtain scheduled_for interval where some: "due = Some (scheduled_for, interval)"
    using assms d due by (cases due) (auto simp: tick_workflow_def)
  have auth: "check_owner_authority (fw_role w) d = Inr ()"
    using assms d due some by (cases "check_owner_authority (fw_role w) d") (auto simp: tick_workflow_def)
  obtain claims' won where claim: "claim_scheduled_workflow_fire w (wr_community_id workflow, wr_id workflow, scheduled_for) claims = (claims', won)"
    by (cases "claim_scheduled_workflow_fire w (wr_community_id workflow, wr_id workflow, scheduled_for) claims")
  have won: "won = Some True"
    using assms d due some auth claim by (auto simp: tick_workflow_def Let_def split: option.splits bool.splits)
  then have "(wr_community_id workflow, wr_id workflow, scheduled_for) \<notin> set claims"
      "claims' = (wr_community_id workflow, wr_id workflow, scheduled_for) # claims"
    using claim by (auto simp: claim_scheduled_workflow_fire_def Let_def split: claim_fault.splits)
  moreover have "instant = scheduled_for" "sr_workflow run = workflow" "sr_definition run = d" "sr_community run = wr_community_id workflow"
      "st = (if interval then hm_insert (wr_community_id workflow, wr_id workflow) now clock1 else clock1, claims')"
    using assms d due some auth claim won by (auto simp: tick_workflow_def Let_def split: if_splits option.splits)
  ultimately show ?thesis
    using d due some auth by (auto simp: fit_to_run_def check_owner_authority_ok)
qed

lemma tick_all_runs:
  assumes "(run, instant) \<in> set (snd (tick_all env sv world now i workflows st))"
  shows "\<exists>j < length workflows. \<exists>st' st''. tick_workflow env sv (world (i + j)) now (workflows ! j) st' = (st'', Some (run, instant))"
  using assms
proof (induction workflows arbitrary: i st)
  case (Cons workflow workflows)
  obtain st1 r1 where step: "tick_workflow env sv (world i) now workflow st = (st1, r1)"
    by (cases "tick_workflow env sv (world i) now workflow st")
  show ?case
  proof (cases "r1 = Some (run, instant)")
    case True
    then show ?thesis
      using step by (intro exI [of _ 0] conjI exI [of _ st] exI [of _ st1]) simp_all
  next
    case False
    then have "(run, instant) \<in> set (snd (tick_all env sv world now (Suc i) workflows st1))"
      using Cons.prems step by (auto split: option.splits prod.splits)
    then obtain j st' st'' where "j < length workflows" "tick_workflow env sv (world (Suc i + j)) now (workflows ! j) st' = (st'', Some (run, instant))"
      using Cons.IH by blast
    then show ?thesis
      by (intro exI [of _ "Suc j"] conjI exI [of _ st'] exI [of _ st'']) simp_all
  qed
qed simp

lemma event_run_authority:
  assumes "fst (on_event env world cached listed serialized community stored) = Inr runs" and "run \<in> set runs"
  shows "\<exists>workflows i. (cached = Some workflows \<or> cached = None \<and> listed = Some workflows) \<and> i < length workflows \<and>
    fit_to_run (workflows ! i) run \<and> has_authority (ew_role (world i)) (sr_definition run) \<and> sr_community run = community \<and>
    trigger_matches_event (wd_trigger (sr_definition run)) (event_kind_u32 (st_event stored)) \<and>
    \<not> is_workflow_execution_kind (event_kind_u32 (st_event stored)) \<and> tr_author (sr_trigger run) = ev_pubkey (st_event stored)"
proof -
  let ?k = "event_kind_u32 (st_event stored)" and ?t = "build_trigger_context env stored"
  obtain workflows where listed: "cached = Some workflows \<or> cached = None \<and> listed = Some workflows"
      and run: "run \<in> set (fire_all env world community ?k ?t 0 workflows)" and k: "\<not> is_workflow_execution_kind ?k"
    using assms by (auto simp: on_event_def Let_def split: option.splits if_splits)
  obtain i where i: "i < length workflows" "fire_on_event env (world i) community ?k ?t (workflows ! i) = Some run"
    using fire_all_runs [OF run] by auto
  have "tr_author ?t = ev_pubkey (st_event stored)"
    by (simp add: build_trigger_context_def Let_def)
  then show ?thesis
    using listed k i(1) fire_on_event_run [OF i(2)] by metis
qed

lemma tick_run_authority:
  assumes run: "(run, instant) \<in> set (snd (run_tick env sv fires now listed st))"
  shows "\<exists>workflows i. listed = Some workflows \<and> i < length workflows \<and> fit_to_run (workflows ! i) run \<and>
    has_authority (fw_role (fires i)) (sr_definition run) \<and> sr_community run = wr_community_id (workflows ! i)"
proof -
  obtain workflows where workflows: "listed = Some workflows"
    using run by (auto simp: run_tick_def split: option.splits)
  then obtain i st' st'' where i: "i < length workflows" "tick_workflow env sv (fires i) now (workflows ! i) st' = (st'', Some (run, instant))"
    using run tick_all_runs [of run instant env sv fires now 0 workflows st] by (auto simp: run_tick_def split: prod.splits)
  then show ?thesis
    using workflows tick_workflow_run [of env sv "fires i" now "workflows ! i" "fst st'" "snd st'" st'' run instant] by auto
qed

text \<open>
  No run starts without current authority. A run that an event or a tick of the scheduler starts
  belongs to a listed, enabled workflow whose owner the lookup just before found to be a member of
  the channel, as an owner or admin if the definition calls webhooks. An event starts only workflows
  with a matching trigger, in the community it was stored under, never if it was published by a
  workflow execution itself, and the author the conditions see is its signer.
\<close>

theorem runs_are_authorized:
  "(\<forall>runs run. fst (on_event env world cached listed serialized community stored) = Inr runs \<and> run \<in> set runs \<longrightarrow>
      (\<exists>workflows i. (cached = Some workflows \<or> cached = None \<and> listed = Some workflows) \<and> i < length workflows \<and>
         fit_to_run (workflows ! i) run \<and> has_authority (ew_role (world i)) (sr_definition run) \<and> sr_community run = community \<and>
         trigger_matches_event (wd_trigger (sr_definition run)) (event_kind_u32 (st_event stored)) \<and>
         \<not> is_workflow_execution_kind (event_kind_u32 (st_event stored)) \<and> tr_author (sr_trigger run) = ev_pubkey (st_event stored))) \<and>
   (\<forall>run instant. (run, instant) \<in> set (snd (run_tick env sv fires now listed st)) \<longrightarrow>
      (\<exists>workflows i. listed = Some workflows \<and> i < length workflows \<and> fit_to_run (workflows ! i) run \<and>
         has_authority (fw_role (fires i)) (sr_definition run) \<and> sr_community run = wr_community_id (workflows ! i)))"
  using event_run_authority [of env world cached listed serialized community stored] tick_run_authority [of _ _ env sv fires now listed st]
  by blast

section \<open>At most one run for an instant\<close>

text \<open>The pods share the claims; each has its own clock, which a restart or the pruning of a tick changes.\<close>

datatype pod_event = Fires nat fire_world int WorkflowRecord | ClockSet nat fire_clock

fun pod_step ::
  "('n, 'f, 'c, 'u) wf_env \<Rightarrow> sched_env \<Rightarrow> pod_event \<Rightarrow> (nat \<Rightarrow> fire_clock) \<times> claim list \<Rightarrow>
     ((nat \<Rightarrow> fire_clock) \<times> claim list) \<times> (started_run \<times> int) list" where
  "pod_step env sv (Fires pod w now workflow) (clocks, claims) =
     (let ((clock, claims'), run) = tick_workflow env sv w now workflow (clocks pod, claims)
      in ((clocks(pod := clock), claims'), case run of Some r \<Rightarrow> [r] | None \<Rightarrow> []))"
| "pod_step env sv (ClockSet pod clock) (clocks, claims) = ((clocks(pod := clock), claims), [])"

fun pods_run ::
  "('n, 'f, 'c, 'u) wf_env \<Rightarrow> sched_env \<Rightarrow> pod_event list \<Rightarrow> (nat \<Rightarrow> fire_clock) \<times> claim list \<Rightarrow> (started_run \<times> int) list" where
  "pods_run env sv [] st = []"
| "pods_run env sv (e # es) st =
     (let (st', runs) = pod_step env sv e st in runs @ pods_run env sv es st')"

definition fire_key :: "started_run \<times> int \<Rightarrow> claim" where
  "fire_key p = (sr_community (fst p), wr_id (sr_workflow (fst p)), snd p)"

lemma tick_claims_grow:
  "tick_workflow env sv w now workflow (clock, claims) = ((clock', claims'), None) \<Longrightarrow> set claims \<subseteq> set claims'"
  by (auto simp: tick_workflow_def claim_scheduled_workflow_fire_def Let_def
      split: option.splits if_splits sum.splits prod.splits claim_fault.splits bool.splits)

lemma pod_step_keys:
  assumes "pod_step env sv e (clocks, claims) = ((clocks', claims'), runs)"
  shows "set claims \<subseteq> set claims' \<and> distinct (map fire_key runs) \<and> fire_key ` set runs \<subseteq> set claims' - set claims"
proof (cases e)
  case (Fires pod w now workflow)
  obtain clock2 claims2 run where step: "tick_workflow env sv w now workflow (clocks pod, claims) = ((clock2, claims2), run)"
    by (metis prod.collapse)
  show ?thesis
  proof (cases run)
    case None
    then show ?thesis
      using assms Fires step tick_claims_grow [OF step [unfolded None]] by auto
  next
    case (Some p)
    obtain started instant where p: "p = (started, instant)"
      by (cases p)
    have "runs = [p]" "claims' = claims2"
      using assms Fires step Some by auto
    then show ?thesis
      using tick_workflow_run [OF step [unfolded Some p]] p by (auto simp: fire_key_def fit_to_run_def)
  qed
qed (use assms in auto)

text \<open>
  C12. A scheduled instant of a workflow is run at most once, over all pods, whatever clocks they
  have, in whichever order their steps interleave, after any number of restarts and whatever the
  database answers: the runs have pairwise different keys, and none is one that was claimed before.
\<close>

theorem scheduled_at_most_once:
  "distinct (map fire_key (pods_run env sv es (clocks, claims))) \<and>
   fire_key ` set (pods_run env sv es (clocks, claims)) \<inter> set claims = {}"
proof (induction es arbitrary: clocks claims)
  case (Cons e es)
  obtain clocks' claims' runs where step: "pod_step env sv e (clocks, claims) = ((clocks', claims'), runs)"
    by (metis prod.collapse)
  have keys: "set claims \<subseteq> set claims'" "distinct (map fire_key runs)" "fire_key ` set runs \<subseteq> set claims' - set claims"
    using pod_step_keys [OF step] by auto
  have later: "distinct (map fire_key (pods_run env sv es (clocks', claims')))"
      "fire_key ` set (pods_run env sv es (clocks', claims')) \<inter> set claims' = {}"
    using Cons.IH by auto
  show ?case
    using keys later by (auto simp: step)
qed simp

section \<open>Intervals\<close>

definition on_interval :: "WorkflowRecord \<Rightarrow> string \<Rightarrow> nat \<Rightarrow> bool" where
  "on_interval workflow dur secs \<longleftrightarrow>
     (\<exists>d ch. wr_definition workflow = Some d \<and> wd_enabled d \<and> wr_channel_id workflow = Some ch \<and>
        wd_trigger d = Schedule None (Some dur)) \<and> parse_duration_secs dur = Inr secs"

text \<open>A world in which nothing fails and the owner may run the workflow.\<close>

definition fair_world :: "WorkflowRecord \<Rightarrow> fire_world \<Rightarrow> bool" where
  "fair_world workflow w \<longleftrightarrow>
     fw_workflow_exists w \<and> fw_claim_fault w = ClaimAnswers \<and> fw_serialized w \<and> fw_created w \<noteq> None \<and>
     (\<forall>d. wr_definition workflow = Some d \<longrightarrow> has_authority (fw_role w) d)"

abbreviation wf_key :: "WorkflowRecord \<Rightarrow> uuid \<times> uuid" where
  "wf_key workflow \<equiv> (wr_community_id workflow, wr_id workflow)"

lemma elapsed: "interval_should_fire dur (Some t0) now \<longleftrightarrow> t0 + int secs * NANOS \<le> now"
  if "parse_duration_secs dur = Inr secs" "t0 \<le> now"
proof -
  have "int secs \<le> (now - t0) div NANOS \<longleftrightarrow> int secs * NANOS \<le> now - t0"
    unfolding NANOS_def by linarith
  moreover have "0 \<le> (now - t0) div NANOS"
    using that(2) by (simp add: NANOS_def pos_imp_zdiv_nonneg_iff)
  ultimately show ?thesis
    using that by (auto simp: interval_should_fire_def le_nat_iff)
qed

lemma tick_before:
  assumes "on_interval workflow dur secs" and "hm_get clock (wf_key workflow) = Some t0" and "t0 \<le> now" and "now < t0 + int secs * NANOS"
  shows "tick_workflow env sv w now workflow (clock, claims) = ((clock, claims), None)"
  using assms elapsed [of dur secs t0 now]
  by (auto simp: on_interval_def tick_workflow_def due_instant_def interval_prefilter_should_fire_def Let_def)

lemma tick_cold:
  assumes "on_interval workflow dur secs" and "0 < secs" and "hm_get clock (wf_key workflow) = None" and "fw_anchor w \<in> {None, Some None}"
  shows "tick_workflow env sv w now workflow (clock, claims) = ((hm_insert (wf_key workflow) now clock, claims), None)"
  using assms elapsed [of dur secs now now]
  by (auto simp: on_interval_def tick_workflow_def due_instant_def interval_prefilter_should_fire_def interval_should_fire_def Let_def)

lemma tick_due:
  assumes "on_interval workflow dur secs" and "(case hm_get clock (wf_key workflow) of Some t \<Rightarrow> Some t | None \<Rightarrow> the_anchor) = Some prev"
    and "fw_anchor w = Some the_anchor"
    and "prev \<le> now" and "prev + int secs * NANOS \<le> now" and "fair_world workflow w"
    and "interval_fire_instant sv dur now = Some instant" and "(wr_community_id workflow, wr_id workflow, instant) \<notin> set claims"
  shows "\<exists>run. tick_workflow env sv w now workflow (clock, claims) =
      ((hm_insert (wf_key workflow) now clock, (wr_community_id workflow, wr_id workflow, instant) # claims), Some (run, instant)) \<and>
    fit_to_run workflow run"
proof -
  obtain d ch run_id where d: "wr_definition workflow = Some d" "wd_enabled d" "wr_channel_id workflow = Some ch"
      "wd_trigger d = Schedule None (Some dur)" "parse_duration_secs dur = Inr secs" "fw_created w = Some run_id"
      "check_owner_authority (fw_role w) d = Inr ()"
    using assms(1,6) by (auto simp: on_interval_def fair_world_def check_owner_authority_ok)
  have "due_instant sv w now workflow (wd_trigger d) clock = (clock, Some (instant, True))"
    using assms(2,3,4,5,7) d(4) elapsed [OF d(5) assms(4)]
    by (simp add: due_instant_def interval_prefilter_should_fire_def Let_def split: option.splits)
  then show ?thesis
    using d assms(6,8) by (auto simp: tick_workflow_def claim_scheduled_workflow_fire_def fair_world_def fit_to_run_def Let_def)
qed

fun tick_times ::
  "('n, 'f, 'c, 'u) wf_env \<Rightarrow> sched_env \<Rightarrow> WorkflowRecord \<Rightarrow> (fire_world \<times> int) list \<Rightarrow> fire_clock \<times> claim list \<Rightarrow> fire_clock \<times> claim list" where
  "tick_times env sv workflow [] st = st"
| "tick_times env sv workflow ((w, now) # ticks) st =
     tick_times env sv workflow ticks (fst (tick_workflow env sv w now workflow st))"

lemma tick_times_before:
  assumes "on_interval workflow dur secs" and "hm_get clock (wf_key workflow) = Some t0"
    and "\<forall>(w, now) \<in> set ticks. t0 \<le> now \<and> now < t0 + int secs * NANOS"
  shows "tick_times env sv workflow ticks (clock, claims) = (clock, claims)"
  using assms(3) by (induction ticks) (auto simp: tick_before [OF assms(1,2)])

text \<open>
  An interval workflow that has never fired does fire: the first tick that sees it starts its
  clock, later ticks leave the clock alone, and the first tick at least an interval after it starts
  the run, if the owner may run it, nothing fails and no other pod has claimed the instant.
\<close>

theorem cold_interval_fires:
  assumes "on_interval workflow dur secs" and "0 < secs" and "hm_get clock (wf_key workflow) = None" and "fw_anchor w0 = Some None"
    and "\<forall>(w, now) \<in> set ticks. t0 \<le> now \<and> now < t0 + int secs * NANOS" and "t0 + int secs * NANOS \<le> now"
    and "fair_world workflow w" and "fw_anchor w \<noteq> None" and "interval_fire_instant sv dur now = Some instant"
    and "(wr_community_id workflow, wr_id workflow, instant) \<notin> set claims"
  shows "\<exists>st run. tick_workflow env sv w now workflow (tick_times env sv workflow ((w0, t0) # ticks) (clock, claims)) =
    (st, Some (run, instant)) \<and> fit_to_run workflow run"
proof -
  let ?clock = "hm_insert (wf_key workflow) t0 clock"
  have "tick_workflow env sv w0 t0 workflow (clock, claims) = ((?clock, claims), None)"
    using assms(1-4) by (intro tick_cold) auto
  then have "tick_times env sv workflow ((w0, t0) # ticks) (clock, claims) = (?clock, claims)"
    using tick_times_before [OF assms(1) _ assms(5), of ?clock] by simp
  moreover obtain anchor where "fw_anchor w = Some anchor"
    using assms(8) by auto
  moreover have "t0 \<le> now"
    using assms(2,6) by (simp add: NANOS_def)
  ultimately obtain run where "tick_workflow env sv w now workflow (tick_times env sv workflow ((w0, t0) # ticks) (clock, claims)) =
      ((hm_insert (wf_key workflow) now ?clock, (wr_community_id workflow, wr_id workflow, instant) # claims), Some (run, instant))"
      "fit_to_run workflow run"
    using tick_due [OF assms(1), where clock = ?clock and prev = t0 and the_anchor = anchor and env = env and w = w and now = now and
        sv = sv and instant = instant and claims = claims] assms(6-10) by auto
  then show ?thesis
    by blast
qed


section \<open>Witnesses\<close>

definition sample_sched :: sched_env where
  "sample_sched = \<lparr>sv_cron = \<lambda>_. None, sv_from_timestamp = \<lambda>s. Some (s * NANOS)\<rparr>"

definition hourly :: WorkflowRecord where
  "hourly = sample_record\<lparr>wr_definition := Some (sample_def\<lparr>wd_trigger := Schedule None (Some ''1h'')\<rparr>)\<rparr>"

definition hourly_world :: "int option \<Rightarrow> fire_world" where
  "hourly_world anchor =
     \<lparr>fw_anchor = Some anchor, fw_role = Some (Some ''owner''), fw_workflow_exists = True, fw_claim_fault = ClaimAnswers,
      fw_serialized = True, fw_created = Some 11\<rparr>"

lemma hourly_secs: "parse_duration_secs ''1h'' = Inr 3600"
  by (simp add: parse_duration_secs_def parse_unit_def sample_text_simps(1-4) strip_suffix_def strip_prefix_def parse_u64_def
      parse_digits_def is_digit_def digits_value_def digit_value_def checked_mul_def)

lemma hourly_on_interval: "on_interval hourly ''1h'' 3600"
  by (simp add: on_interval_def hourly_def hourly_secs sample_record_def sample_def_def)

lemma hourly_fair: "fair_world hourly (hourly_world anchor)"
  by (simp add: fair_world_def hourly_world_def has_authority_def)

lemma hourly_anchor: "fw_anchor (hourly_world anchor) = Some anchor"
  by (simp add: hourly_world_def)

lemma sample_timestamp: "sv_from_timestamp sample_sched s = Some (s * NANOS)"
  by (simp add: sample_sched_def)

lemma NANOS_pos: "0 < NANOS"
  by (simp add: NANOS_def)

lemma hourly_instant: "interval_fire_instant sample_sched ''1h'' (3600 * NANOS) = Some (3600 * NANOS)"
  by (simp add: interval_fire_instant_def hourly_secs sample_sched_def secs_i64_def div_euclid_def NANOS_def)

theorem cold_interval_fires_witness:
  "\<exists>st run. tick_workflow sample_wf_env sample_sched (hourly_world None) (3600 * NANOS) hourly
     (tick_times sample_wf_env sample_sched hourly ((hourly_world None, 0) # [(hourly_world None, 60 * NANOS)]) ([], [])) =
       (st, Some (run, 3600 * NANOS)) \<and> fit_to_run hourly run"
  by (rule cold_interval_fires [OF hourly_on_interval])
     (use NANOS_pos in \<open>auto simp: hourly_fair hourly_instant hourly_anchor\<close>)


definition on_message :: WorkflowRecord where
  "on_message = sample_record\<lparr>wr_definition := Some (sample_def\<lparr>wd_trigger := MessagePosted None\<rparr>)\<rparr>"

definition message_event :: StoredEvent where
  "message_event =
     \<lparr>st_event = \<lparr>ev_id = ''e'', ev_pubkey = ''alice'', ev_created_at = 5, ev_kind = 9, ev_tags = [], ev_content = ''hi''\<rparr>,
      st_received_at = 6, st_channel_id = Some 5, st_verified = True\<rparr>"

definition message_world :: "(string \<times> unit evalue) list event_world" where
  "message_world = \<lparr>ew_eval = \<lambda>_ _. None, ew_role = Some (Some ''admin''), ew_created = Some 12\<rparr>"

theorem runs_are_authorized_witness:
  "\<exists>run. fst (on_event sample_wf_env (\<lambda>_. message_world) None (Some [on_message]) True 1 message_event) = Inr [run] \<and>
     fit_to_run on_message run \<and> has_authority (ew_role message_world) (sr_definition run)"
proof -
  obtain run where run: "fst (on_event sample_wf_env (\<lambda>_. message_world) None (Some [on_message]) True 1 message_event) = Inr [run]"
    by (simp add: on_event_def message_event_def on_message_def message_world_def sample_record_def sample_def_def fire_on_event_def
        trigger_matches_event_def should_fire_workflow_def check_owner_authority_def owner_authority_allows_def event_kind_u32_def
        is_workflow_execution_kind_def KIND_WORKFLOW_TRIGGERED_def KIND_STREAM_MESSAGE_def)
  then have "\<exists>workflows i. (None = Some workflows \<or> (None :: WorkflowRecord list option) = None \<and> Some [on_message] = Some workflows) \<and>
      i < length workflows \<and> fit_to_run (workflows ! i) run \<and> has_authority (ew_role message_world) (sr_definition run)"
    using conjunct1 [OF runs_are_authorized [of sample_wf_env "\<lambda>_. message_world" None "Some [on_message]" True 1 message_event
        sample_sched "\<lambda>_. hourly_world None" 0 "([], [])"]] by fastforce
  then show ?thesis
    using run by auto
qed

end
