(* ===== verification/Replica_Fence.thy ===== *)
theory Replica_Fence
  imports Prelude "HOL-Library.Product_Lexorder" "HOL-Library.List_Lexorder"
begin

text \<open>
  The read fence of the database crate (\<open>crates/buzz-db/src/replica_fence.rs\<close>) and the read
  routing that relies on it (\<open>crates/buzz-db/src/lib.rs\<close>, \<open>crates/buzz-db/src/thread.rs\<close>).

  \<^item> The fence keeps a ring of heartbeat tokens, each with the wall it proves. \<open>fence_record\<close>,
    \<open>fence_resolve\<close>, \<open>fence_close\<close> and the other \<open>fence_\<close> functions are the methods of
    \<open>ReplicaFence\<close>.
  \<^item> The database the fence speaks about is a commit log, the transactions that are still open
    and a clock. A commit log entry carries the event rows the transaction inserts, or the new
    value of the heartbeat row. A reader session is at a prefix of the log, since replicas replay
    it in order. \<open>fence_act\<close> interleaves the transactions of the relay's writer pool, the
    heartbeats of other pods and the probe of this pod one statement at a time.
  \<^item> \<open>route_read\<close> and the two paged reads are the clients: they serve a page from a reader
    session when its observation of the heartbeat proves enough.

  Instants and timestamps are microseconds. The writer host's clock does not run backwards, and
  the heartbeat token does not reach the end of \<open>i64\<close>. Soft deletes are not modelled: a page may
  show a row the writer already hides, which the code accepts.
\<close>

section \<open>The fence\<close>

definition SECOND :: int where
  "SECOND = 1000000"

definition CREATED_AT_FLOOR :: int where
  "CREATED_AT_FLOOR = 960 * SECOND"

definition FENCE_CLOCK_MARGIN :: int where
  "FENCE_CLOCK_MARGIN = 5 * SECOND"

definition FENCE_STALENESS :: int where
  "FENCE_STALENESS = 30 * SECOND"

definition RING_CAPACITY :: nat where
  "RING_CAPACITY = 120"

record TokenEntry =
  te_token :: int
  te_committed_at :: int
  te_fence_wall :: int

record FenceInner =
  fi_epoch :: "nat option"
  fi_ring :: "TokenEntry list"

datatype RecordOutcome = Recorded | TokenRegression

datatype ResolveOutcome = Proved TokenEntry | EpochMismatch | TokenBehind

definition fence_new :: FenceInner where
  "fence_new = \<lparr>fi_epoch = None, fi_ring = []\<rparr>"

definition fence_close :: "FenceInner \<Rightarrow> FenceInner" where
  "fence_close f = f\<lparr>fi_ring := []\<rparr>"

definition ring_back :: "'a list \<Rightarrow> 'a option" where
  "ring_back xs = (if xs = [] then None else Some (last xs))"

definition ring_push :: "TokenEntry \<Rightarrow> TokenEntry list \<Rightarrow> TokenEntry list" where
  "ring_push e r = (if length r = RING_CAPACITY then tl r else r) @ [e]"

definition fence_record ::
  "int \<Rightarrow> nat \<Rightarrow> int \<Rightarrow> int \<Rightarrow> FenceInner \<Rightarrow> FenceInner \<times> RecordOutcome" where
  "fence_record token epoch committed_at wall f =
     (let e = \<lparr>te_token = token, te_committed_at = committed_at, te_fence_wall = wall\<rparr> in
      if fi_epoch f \<noteq> Some epoch
      then (\<lparr>fi_epoch = Some epoch, fi_ring = ring_push e []\<rparr>, Recorded)
      else if (case ring_back (fi_ring f) of None \<Rightarrow> False | Some l \<Rightarrow> token \<le> te_token l)
      then (f\<lparr>fi_ring := []\<rparr>, TokenRegression)
      else (f\<lparr>fi_ring := ring_push e (fi_ring f)\<rparr>, Recorded))"

definition fence_resolve :: "FenceInner \<Rightarrow> int \<Rightarrow> nat \<Rightarrow> ResolveOutcome" where
  "fence_resolve f token epoch =
     (if (case fi_epoch f of None \<Rightarrow> False | Some e \<Rightarrow> e \<noteq> epoch) then EpochMismatch
      else case find (\<lambda>e. te_token e \<le> token) (rev (fi_ring f)) of
             None \<Rightarrow> TokenBehind
           | Some e \<Rightarrow> Proved e)"

definition elapsed :: "int \<Rightarrow> TokenEntry \<Rightarrow> int" where
  "elapsed now e = max 0 (now - te_committed_at e)"

definition fence_newest :: "FenceInner \<Rightarrow> int \<Rightarrow> TokenEntry option" where
  "fence_newest f now =
     (case ring_back (fi_ring f) of
        None \<Rightarrow> None
      | Some e \<Rightarrow> if elapsed now e \<le> FENCE_STALENESS then Some e else None)"

definition fence_heartbeat_age :: "FenceInner \<Rightarrow> int \<Rightarrow> int option" where
  "fence_heartbeat_age f now = map_option (elapsed now) (ring_back (fi_ring f))"

definition fence_verified_through :: "FenceInner \<Rightarrow> int \<Rightarrow> int option" where
  "fence_verified_through f now = map_option te_fence_wall (fence_newest f now)"

definition fence_covers :: "FenceInner \<Rightarrow> int \<Rightarrow> int \<Rightarrow> bool" where
  "fence_covers f now ts =
     (case fence_verified_through f now of None \<Rightarrow> False | Some fence \<Rightarrow> ts \<le> fence)"

definition fence_wall :: "int \<Rightarrow> int option \<Rightarrow> int" where
  "fence_wall sample_s oldest =
     (case oldest of Some t \<Rightarrow> min t sample_s | None \<Rightarrow> sample_s)
       - CREATED_AT_FLOOR - FENCE_CLOCK_MARGIN"

section \<open>The writer database\<close>

text \<open>
  An event row with the part of its \<open>thread_metadata\<close> row the pages read: the root, the depth and
  the broadcast flag. Both rows are inserted by one transaction
  (\<open>insert_event_with_thread_metadata\<close>). \<open>er_ok\<close> says whether the row reconstructs to an event.
\<close>

record event_row =
  er_community :: nat
  er_id :: "nat list"
  er_channel :: "nat option"
  er_created_at :: int
  er_kind :: nat
  er_thread :: "(nat list option \<times> nat \<times> bool) option"
  er_ok :: bool

datatype log_entry =
    CommitRows int "event_row list"
  | CommitBeat int int nat

fun entry_at :: "log_entry \<Rightarrow> int" where
  "entry_at (CommitRows at rows) = at"
| "entry_at (CommitBeat at token epoch) = at"

fun entry_rows :: "log_entry \<Rightarrow> event_row list" where
  "entry_rows (CommitRows at rows) = rows"
| "entry_rows (CommitBeat at token epoch) = []"

definition rows_of :: "log_entry list \<Rightarrow> event_row list" where
  "rows_of log = concat (map entry_rows log)"

text \<open>The heartbeat row as a session at this prefix of the log reads it.\<close>

fun heartbeat :: "log_entry list \<Rightarrow> (int \<times> nat) option" where
  "heartbeat [] = None"
| "heartbeat (c # cs) =
     (case heartbeat cs of
        Some b \<Rightarrow> Some b
      | None \<Rightarrow> (case c of CommitBeat at token epoch \<Rightarrow> Some (token, epoch)
                         | CommitRows at rows \<Rightarrow> None))"

fun epoch_used :: "nat \<Rightarrow> log_entry \<Rightarrow> bool" where
  "epoch_used e (CommitBeat at token epoch) = (epoch = e)"
| "epoch_used e (CommitRows at rows) = False"

text \<open>
  The trigger function \<open>events_created_at_floor_guard\<close> of migration 0021 on one row: it lets a
  row pass that has no channel or is not older than the floor.
\<close>

definition floor_guard :: "int \<Rightarrow> event_row \<Rightarrow> bool" where
  "floor_guard now r \<longleftrightarrow> er_channel r = None \<or> \<not> er_created_at r < now - CREATED_AT_FLOOR"

text \<open>
  A transaction that is neither committed nor aborted. It becomes visible in
  \<open>pg_stat_activity\<close> (\<open>ot_shown\<close>) at some point between its start and the deferred guard. A
  prepared one has left the activity view.
\<close>

record open_tx =
  ot_xid :: nat
  ot_pid :: nat
  ot_start :: int
  ot_shown :: bool
  ot_rows :: "event_row list"
  ot_guard :: "int option"
  ot_prepared :: "int option"

text \<open>One row of \<open>pg_stat_activity\<close> as the probe's role sees it; \<open>None\<close> is NULL.\<close>

record activity =
  ac_pid :: nat
  ac_backend_type :: "string option"
  ac_state :: "string option"
  ac_xact_start :: "int option"

text \<open>SQL \<open>min\<close> and \<open>least\<close> ignore NULL.\<close>

fun least_opt :: "int option \<Rightarrow> int option \<Rightarrow> int option" where
  "least_opt None y = y"
| "least_opt (Some a) None = Some a"
| "least_opt (Some a) (Some b) = Some (min a b)"

definition min_opt :: "int option list \<Rightarrow> int option" where
  "min_opt xs = foldr least_opt xs None"

definition masked_row :: "activity \<Rightarrow> bool" where
  "masked_row a \<longleftrightarrow>
     ac_backend_type a = None \<or>
     (ac_backend_type a = Some ''client backend'' \<and>
      (ac_state a = None \<or> (ac_state a \<noteq> Some ''idle'' \<and> ac_xact_start a = None)))"

definition activity_oldest :: "nat \<Rightarrow> activity list \<Rightarrow> int option" where
  "activity_oldest me view = min_opt (map ac_xact_start (filter (\<lambda>a. ac_pid a \<noteq> me) view))"

definition activity_masked :: "nat \<Rightarrow> activity list \<Rightarrow> nat" where
  "activity_masked me view = length (filter (\<lambda>a. ac_pid a \<noteq> me \<and> masked_row a) view)"

text \<open>
  What \<open>pg_stat_activity\<close> promises: every transaction that is shown has a row, which either is
  masked as a whole or gives its start.
\<close>

definition faithful_view :: "open_tx list \<Rightarrow> activity list \<Rightarrow> bool" where
  "faithful_view txs view \<longleftrightarrow>
     list_all (\<lambda>t. ot_shown t \<and> ot_prepared t = None \<longrightarrow>
       list_ex (\<lambda>a. ac_pid a = ot_pid t \<and>
         (ac_backend_type a = None \<or> ac_xact_start a = Some (ot_start t))) view) txs"

section \<open>The probe\<close>

text \<open>Where \<open>probe_once\<close> stands between two of its awaited statements.\<close>

datatype probe_stage =
    Idle
  | Sampled int
  | Scanned int "int option" nat
  | Ready int "int option"
  | Stamped int "int option" int
  | Beaten int "int option" int int nat
  | Rotating int int
  | Rotated int int int nat

record fence_world =
  fw_clock :: int
  fw_log :: "log_entry list"
  fw_open :: "open_tx list"
  fw_probe :: nat
  fw_fence :: FenceInner
  fw_stage :: probe_stage

definition probe_fail :: "fence_world \<Rightarrow> fence_world" where
  "probe_fail w = w\<lparr>fw_fence := fence_close (fw_fence w), fw_stage := Idle\<rparr>"

definition sample_clock :: "fence_world \<Rightarrow> fence_world option" where
  "sample_clock w =
     (case fw_stage w of Idle \<Rightarrow> Some (w\<lparr>fw_stage := Sampled (fw_clock w)\<rparr>) | _ \<Rightarrow> None)"

definition scan_activity :: "activity list \<Rightarrow> fence_world \<Rightarrow> fence_world option" where
  "scan_activity view w =
     (case fw_stage w of
        Sampled s \<Rightarrow>
          if faithful_view (fw_open w) view
          then Some (w\<lparr>fw_stage := Scanned s (activity_oldest (fw_probe w) view)
                                            (activity_masked (fw_probe w) view)\<rparr>)
          else None
      | _ \<Rightarrow> None)"

definition scan_prepared :: "fence_world \<Rightarrow> fence_world option" where
  "scan_prepared w =
     (case fw_stage w of
        Scanned s oldest masked \<Rightarrow>
          if masked > 0 then Some (probe_fail w)
          else Some (w\<lparr>fw_stage :=
                 Ready s (least_opt oldest (min_opt (map ot_prepared (fw_open w))))\<rparr>)
      | _ \<Rightarrow> None)"

definition stamp :: "fence_world \<Rightarrow> fence_world option" where
  "stamp w =
     (case fw_stage w of
        Ready s oldest \<Rightarrow> Some (w\<lparr>fw_stage := Stamped s oldest (fw_clock w)\<rparr>)
      | _ \<Rightarrow> None)"

definition commit_token :: "fence_world \<Rightarrow> fence_world option" where
  "commit_token w =
     (case fw_stage w of
        Stamped s oldest c \<Rightarrow>
          (case heartbeat (fw_log w) of
             None \<Rightarrow> Some (probe_fail w)
           | Some (token, epoch) \<Rightarrow>
               Some (w\<lparr>fw_log := fw_log w @ [CommitBeat (fw_clock w) (token + 1) epoch],
                       fw_stage := Beaten s oldest c (token + 1) epoch\<rparr>))
      | _ \<Rightarrow> None)"

definition record_sample :: "fence_world \<Rightarrow> fence_world option" where
  "record_sample w =
     (case fw_stage w of
        Beaten s oldest c token epoch \<Rightarrow>
          (case fence_record token epoch c (fence_wall s oldest) (fw_fence w) of
             (f, Recorded) \<Rightarrow> Some (w\<lparr>fw_fence := f, fw_stage := Idle\<rparr>)
           | (f, TokenRegression) \<Rightarrow>
               Some (w\<lparr>fw_fence := f, fw_stage := Rotating (fence_wall s oldest) (fw_clock w)\<rparr>))
      | Rotated wall c token epoch \<Rightarrow>
          Some (w\<lparr>fw_fence := fst (fence_record token epoch c wall (fw_fence w)),
                  fw_stage := Idle\<rparr>)
      | _ \<Rightarrow> None)"

definition rotate_epoch :: "nat \<Rightarrow> fence_world \<Rightarrow> fence_world option" where
  "rotate_epoch fresh w =
     (case fw_stage w of
        Rotating wall c \<Rightarrow>
          if list_ex (epoch_used fresh) (fw_log w) then None
          else (case heartbeat (fw_log w) of
             None \<Rightarrow> Some (probe_fail w)
           | Some (token, epoch) \<Rightarrow>
               Some (w\<lparr>fw_log := fw_log w @ [CommitBeat (fw_clock w) (token + 1) fresh],
                       fw_stage := Rotated wall c (token + 1) fresh\<rparr>))
      | _ \<Rightarrow> None)"

section \<open>The transactions\<close>

definition tx_of :: "fence_world \<Rightarrow> nat \<Rightarrow> open_tx option" where
  "tx_of w xid = find (\<lambda>t. ot_xid t = xid) (fw_open w)"

definition put_tx :: "open_tx \<Rightarrow> fence_world \<Rightarrow> fence_world" where
  "put_tx t w = w\<lparr>fw_open := t # filter (\<lambda>u. ot_xid u \<noteq> ot_xid t) (fw_open w)\<rparr>"

definition drop_tx :: "nat \<Rightarrow> fence_world \<Rightarrow> fence_world" where
  "drop_tx xid w = w\<lparr>fw_open := filter (\<lambda>u. ot_xid u \<noteq> xid) (fw_open w)\<rparr>"

text \<open>The deferred trigger runs in commit processing, at \<open>COMMIT\<close> or at \<open>PREPARE\<close>.\<close>

definition run_guard :: "open_tx \<Rightarrow> fence_world \<Rightarrow> fence_world option" where
  "run_guard t w =
     (if ot_shown t \<and> ot_guard t = None
      then Some (if list_all (floor_guard (fw_clock w)) (ot_rows t)
                 then put_tx (t\<lparr>ot_guard := Some (fw_clock w)\<rparr>) w
                 else drop_tx (ot_xid t) w)
      else None)"

definition prepare_tx :: "int \<Rightarrow> open_tx \<Rightarrow> fence_world \<Rightarrow> fence_world option" where
  "prepare_tx gap t w =
     (case ot_guard t of
        None \<Rightarrow> None
      | Some g \<Rightarrow> if ot_prepared t = None \<and> fw_clock w - g < gap
                  then Some (put_tx (t\<lparr>ot_prepared := Some (fw_clock w)\<rparr>) w)
                  else None)"

definition commit_tx :: "open_tx \<Rightarrow> fence_world \<Rightarrow> fence_world option" where
  "commit_tx t w =
     (if ot_guard t = None then None
      else Some ((drop_tx (ot_xid t) w)
             \<lparr>fw_log := fw_log w @ [CommitRows (fw_clock w) (ot_rows t)]\<rparr>))"

definition begin_tx :: "nat \<Rightarrow> nat \<Rightarrow> fence_world \<Rightarrow> fence_world option" where
  "begin_tx xid pid w =
     (if pid = fw_probe w \<or> tx_of w xid \<noteq> None then None
      else Some (put_tx \<lparr>ot_xid = xid, ot_pid = pid, ot_start = fw_clock w, ot_shown = False,
                         ot_rows = [], ot_guard = None, ot_prepared = None\<rparr> w))"

text \<open>
  Every writer that inserts thread metadata passes the event a channel, so a row of a thread page
  is channel-bearing.
\<close>

definition write_tx :: "event_row \<Rightarrow> open_tx \<Rightarrow> fence_world \<Rightarrow> fence_world option" where
  "write_tx r t w =
     (if ot_guard t = None \<and> (er_thread r \<noteq> None \<longrightarrow> er_channel r \<noteq> None)
      then Some (put_tx (t\<lparr>ot_rows := ot_rows t @ [r]\<rparr>) w) else None)"

text \<open>The heartbeat of another pod, and the seed of the heartbeat row by migration 0026.\<close>

definition foreign_beat :: "nat option \<Rightarrow> fence_world \<Rightarrow> fence_world option" where
  "foreign_beat rotated w =
     (case heartbeat (fw_log w) of
        None \<Rightarrow> None
      | Some (token, epoch) \<Rightarrow>
          (case rotated of
             None \<Rightarrow> Some (w\<lparr>fw_log := fw_log w @ [CommitBeat (fw_clock w) (token + 1) epoch]\<rparr>)
           | Some fresh \<Rightarrow>
               if list_ex (epoch_used fresh) (fw_log w) then None
               else Some (w\<lparr>fw_log := fw_log w @ [CommitBeat (fw_clock w) (token + 1) fresh]\<rparr>)))"

definition seed_heartbeat :: "nat \<Rightarrow> fence_world \<Rightarrow> fence_world option" where
  "seed_heartbeat epoch w =
     (if heartbeat (fw_log w) = None
      then Some (w\<lparr>fw_log := fw_log w @ [CommitBeat (fw_clock w) 0 epoch]\<rparr>) else None)"

text \<open>A restore from a backup: the log is cut, and no transaction survives.\<close>

definition restore :: "nat \<Rightarrow> fence_world \<Rightarrow> fence_world" where
  "restore n w = w\<lparr>fw_log := take n (fw_log w), fw_open := []\<rparr>"

datatype fence_action =
    Tick int
  | Begin nat nat
  | Show nat
  | Write nat event_row
  | Guard nat
  | Prepare nat
  | Commit nat
  | Abort nat
  | ForeignBeat "nat option"
  | Seed nat
  | Sample
  | ScanActivity "activity list"
  | ScanPrepared
  | Stamp
  | CommitToken
  | RecordSample
  | RotateEpoch nat
  | ProbeError
  | Restore nat

definition on_tx ::
  "fence_world \<Rightarrow> nat \<Rightarrow> (open_tx \<Rightarrow> fence_world \<Rightarrow> fence_world option) \<Rightarrow> fence_world option" where
  "on_tx w xid f = (case tx_of w xid of None \<Rightarrow> None | Some t \<Rightarrow> f t w)"

text \<open>
  One step of the whole system; \<open>None\<close> when it is not enabled. \<open>gap\<close> bounds the time between the
  deferred guard of a transaction and the instant \<open>PREPARE TRANSACTION\<close> records for it.
\<close>

fun fence_act :: "int \<Rightarrow> fence_action \<Rightarrow> fence_world \<Rightarrow> fence_world option" where
  "fence_act gap (Tick d) w = (if 0 \<le> d then Some (w\<lparr>fw_clock := fw_clock w + d\<rparr>) else None)"
| "fence_act gap (Begin xid pid) w = begin_tx xid pid w"
| "fence_act gap (Show xid) w = on_tx w xid (\<lambda>t w. Some (put_tx (t\<lparr>ot_shown := True\<rparr>) w))"
| "fence_act gap (Write xid r) w = on_tx w xid (write_tx r)"
| "fence_act gap (Guard xid) w = on_tx w xid run_guard"
| "fence_act gap (Prepare xid) w = on_tx w xid (prepare_tx gap)"
| "fence_act gap (Commit xid) w = on_tx w xid commit_tx"
| "fence_act gap (Abort xid) w = Some (drop_tx xid w)"
| "fence_act gap (ForeignBeat rotated) w = foreign_beat rotated w"
| "fence_act gap (Seed epoch) w = seed_heartbeat epoch w"
| "fence_act gap Sample w = sample_clock w"
| "fence_act gap (ScanActivity view) w = scan_activity view w"
| "fence_act gap ScanPrepared w = scan_prepared w"
| "fence_act gap Stamp w = stamp w"
| "fence_act gap CommitToken w = commit_token w"
| "fence_act gap RecordSample w = record_sample w"
| "fence_act gap (RotateEpoch fresh) w = rotate_epoch fresh w"
| "fence_act gap ProbeError w = Some (probe_fail w)"
| "fence_act gap (Restore n) w = Some (restore n w)"

fun fence_acts :: "int \<Rightarrow> fence_action list \<Rightarrow> fence_world \<Rightarrow> fence_world option" where
  "fence_acts gap [] w = Some w"
| "fence_acts gap (a # as) w =
     (case fence_act gap a w of None \<Rightarrow> None | Some w' \<Rightarrow> fence_acts gap as w')"

definition fence_boot :: "nat \<Rightarrow> int \<Rightarrow> fence_world" where
  "fence_boot me now = \<lparr>fw_clock = now, fw_log = [], fw_open = [], fw_probe = me,
                        fw_fence = fence_new, fw_stage = Idle\<rparr>"

section \<open>Routing\<close>

datatype RoutePredicate =
    Bounded
  | Covered int
  | CoveredPostVerified
  | BoundedOrCovered int

datatype RouteDecision = Replica TokenEntry string | Writer string

text \<open>What \<open>proved_reader\<close> meets on the reader pool.\<close>

datatype reader_outcome =
    AcquireTimedOut
  | AcquireFailed
  | BeginTimedOut
  | BeginFailed
  | RowMissing
  | ObservationFailed
  | Observed int nat

fun proved_reader :: "FenceInner \<Rightarrow> reader_outcome \<Rightarrow> string + TokenEntry" where
  "proved_reader f AcquireTimedOut = Inl ''reader_acquire_timeout''"
| "proved_reader f AcquireFailed = Inl ''reader_validation_error''"
| "proved_reader f BeginTimedOut = Inl ''reader_acquire_timeout''"
| "proved_reader f BeginFailed = Inl ''reader_validation_error''"
| "proved_reader f RowMissing = Inl ''reader_validation_error''"
| "proved_reader f ObservationFailed = Inl ''reader_validation_error''"
| "proved_reader f (Observed token epoch) =
     (case fence_resolve f token epoch of
        Proved e \<Rightarrow> Inr e
      | EpochMismatch \<Rightarrow> Inl ''reader_validation_error''
      | TokenBehind \<Rightarrow> Inl ''reader_token_behind'')"

definition read_budget_from_ms :: "nat \<Rightarrow> int option" where
  "read_budget_from_ms ms = (if ms = 0 then None else Some (min (int ms * 1000) FENCE_STALENESS))"

definition from_channel_cursor :: "(int \<times> nat list) option \<Rightarrow> RoutePredicate" where
  "from_channel_cursor cursor =
     (case cursor of Some (ts, i) \<Rightarrow> Covered ts | None \<Rightarrow> Bounded)"

definition for_query :: "nat option \<Rightarrow> int option \<Rightarrow> bool \<Rightarrow> RoutePredicate" where
  "for_query channel_id until routing_enabled =
     (if \<not> routing_enabled then Bounded
      else case (channel_id, until) of
             (Some c, Some upper) \<Rightarrow> BoundedOrCovered upper
           | _ \<Rightarrow> Bounded)"

definition bounded_precheck :: "int option \<Rightarrow> int \<Rightarrow> TokenEntry \<Rightarrow> string option" where
  "bounded_precheck budget now newest =
     (case budget of
        Some b \<Rightarrow> if elapsed now newest \<le> b then None else Some ''stale''
      | None \<Rightarrow> Some ''disabled'')"

definition covered_precheck :: "int \<Rightarrow> TokenEntry \<Rightarrow> string option" where
  "covered_precheck upper newest =
     (if upper \<le> te_fence_wall newest then None else Some ''stale'')"

fun route_precheck :: "RoutePredicate \<Rightarrow> int option \<Rightarrow> int \<Rightarrow> TokenEntry \<Rightarrow> string option" where
  "route_precheck Bounded budget now newest = bounded_precheck budget now newest"
| "route_precheck (Covered upper) budget now newest = covered_precheck upper newest"
| "route_precheck CoveredPostVerified budget now newest = None"
| "route_precheck (BoundedOrCovered upper) budget now newest =
     (case covered_precheck upper newest of
        None \<Rightarrow> None | Some r \<Rightarrow> bounded_precheck budget now newest)"

definition bounded_holds :: "int option \<Rightarrow> int \<Rightarrow> TokenEntry \<Rightarrow> bool" where
  "bounded_holds budget now e = (case budget of None \<Rightarrow> False | Some b \<Rightarrow> elapsed now e \<le> b)"

fun route_verdict :: "RoutePredicate \<Rightarrow> int option \<Rightarrow> int \<Rightarrow> TokenEntry \<Rightarrow> string option" where
  "route_verdict Bounded budget now e = (if bounded_holds budget now e then Some ''fresh'' else None)"
| "route_verdict (Covered upper) budget now e =
     (if upper \<le> te_fence_wall e then Some ''covered'' else None)"
| "route_verdict CoveredPostVerified budget now e = Some ''covered''"
| "route_verdict (BoundedOrCovered upper) budget now e =
     (if upper \<le> te_fence_wall e then Some ''covered''
      else if bounded_holds budget now e then Some ''fresh'' else None)"

text \<open>
  \<open>route_read\<close> looks at the ring twice: for the precheck (\<open>f1\<close> at the instant \<open>now1\<close>) and, after
  the reader session was opened, to resolve its observation (\<open>f2\<close>, the verdict falls at \<open>now2\<close>).
\<close>

definition route_read ::
  "bool \<Rightarrow> int option \<Rightarrow> RoutePredicate \<Rightarrow> FenceInner \<Rightarrow> int \<Rightarrow> reader_outcome \<Rightarrow> FenceInner \<Rightarrow> int
     \<Rightarrow> RouteDecision" where
  "route_read read_pool budget predicate f1 now1 reader f2 now2 =
     (if \<not> read_pool then Writer ''disabled''
      else case fence_newest f1 now1 of
        None \<Rightarrow> Writer ''uninitialized''
      | Some newest \<Rightarrow>
          (case route_precheck predicate budget now1 newest of
             Some reason \<Rightarrow> Writer reason
           | None \<Rightarrow>
               (case proved_reader f2 reader of
                  Inl reason \<Rightarrow> Writer reason
                | Inr e \<Rightarrow>
                    (case route_verdict predicate budget now2 e of
                       Some reason \<Rightarrow> Replica e reason
                     | None \<Rightarrow> Writer ''stale''))))"

section \<open>The routed pages\<close>

definition window_matches ::
  "nat \<Rightarrow> nat \<Rightarrow> (int \<times> nat list) option \<Rightarrow> nat list option \<Rightarrow> event_row \<Rightarrow> bool" where
  "window_matches community channel cursor kinds r \<longleftrightarrow>
     er_community r = community \<and>
     er_channel r = Some channel \<and>
     (case er_thread r of
        None \<Rightarrow> True
      | Some (root, depth, broadcast) \<Rightarrow> depth = 0 \<or> (depth = 1 \<and> broadcast)) \<and>
     (case cursor of
        None \<Rightarrow> True
      | Some (ts, i) \<Rightarrow> er_created_at r < ts \<or> (er_created_at r = ts \<and> i < er_id r)) \<and>
     (case kinds of None \<Rightarrow> True | Some ks \<Rightarrow> ks = [] \<or> er_kind r \<in> set ks)"

record ChannelWindow =
  cw_rows :: "event_row list"
  cw_has_more :: bool
  cw_next_cursor :: "(int \<times> nat list) option"

definition get_channel_window_on ::
  "event_row list \<Rightarrow> nat \<Rightarrow> nat \<Rightarrow> nat \<Rightarrow> (int \<times> nat list) option \<Rightarrow> nat list option \<Rightarrow> ChannelWindow"
  where
  "get_channel_window_on rows community channel limit cursor kinds =
     (let db_rows = take (limit + 1) (sort_key (\<lambda>r. (- er_created_at r, er_id r))
                      (filter (window_matches community channel cursor kinds) rows));
          has_more = limit < length db_rows;
          page = take limit db_rows
      in \<lparr>cw_rows = filter er_ok page,
          cw_has_more = has_more,
          cw_next_cursor = (if has_more
                            then map_option (\<lambda>r. (er_created_at r, er_id r)) (ring_back page)
                            else None)\<rparr>)"

text \<open>\<open>query_ok\<close>: whether the page query itself succeeds on the reader session.\<close>

definition get_channel_window ::
  "RouteDecision \<Rightarrow> bool \<Rightarrow> event_row list \<Rightarrow> event_row list
     \<Rightarrow> nat \<Rightarrow> nat \<Rightarrow> nat \<Rightarrow> (int \<times> nat list) option \<Rightarrow> nat list option \<Rightarrow> ChannelWindow" where
  "get_channel_window decision query_ok reader_rows writer_rows community channel limit cursor kinds =
     (case decision of
        Replica e reason \<Rightarrow>
          get_channel_window_on (if query_ok then reader_rows else writer_rows)
            community channel limit cursor kinds
      | Writer reason \<Rightarrow> get_channel_window_on writer_rows community channel limit cursor kinds)"

text \<open>
  The cursor of a thread page: eight bytes of a big-endian \<open>i64\<close>, then the event id. \<open>from_ts\<close> is
  chrono's conversion of seconds to a timestamp, which fails out of its range.
\<close>

definition be_i64 :: "nat list \<Rightarrow> int" where
  "be_i64 bs = (let u = foldl (\<lambda>acc b. acc * 256 + int b) 0 bs in
                if 2 ^ 63 \<le> u then u - 2 ^ 64 else u)"

definition cursor_key ::
  "(int \<Rightarrow> int option) \<Rightarrow> nat list option \<Rightarrow> (int \<times> nat list option) option" where
  "cursor_key from_ts cursor =
     (case cursor of
        None \<Rightarrow> None
      | Some bytes \<Rightarrow>
          if 8 \<le> length bytes
          then map_option (\<lambda>ts. (ts, if 8 < length bytes then Some (drop 8 bytes) else None))
                 (from_ts (be_i64 (take 8 bytes)))
          else None)"

text \<open>The page size is below \<open>2\<^sup>31\<close>, so that the cast \<open>limit as i32\<close> of the code keeps it.\<close>

definition thread_matches ::
  "nat \<Rightarrow> nat list \<Rightarrow> nat option \<Rightarrow> (int \<times> nat list option) option \<Rightarrow> event_row \<Rightarrow> bool" where
  "thread_matches community root depth_limit key r \<longleftrightarrow>
     er_community r = community \<and>
     (case er_thread r of
        None \<Rightarrow> False
      | Some (root', depth, broadcast) \<Rightarrow>
          root' = Some root \<and>
          (case depth_limit of None \<Rightarrow> True | Some dl \<Rightarrow> depth \<le> dl)) \<and>
     (case key of
        None \<Rightarrow> True
      | Some (ts, Some i) \<Rightarrow> (ts, i) < (er_created_at r, er_id r)
      | Some (ts, None) \<Rightarrow> ts < er_created_at r)"

definition get_thread_replies_on ::
  "event_row list \<Rightarrow> nat \<Rightarrow> nat list \<Rightarrow> nat option \<Rightarrow> nat \<Rightarrow> (int \<times> nat list option) option
     \<Rightarrow> event_row list" where
  "get_thread_replies_on rows community root depth_limit limit key =
     filter er_ok (take limit (sort_key (\<lambda>r. (er_created_at r, er_id r))
       (filter (thread_matches community root depth_limit key) rows)))"

definition thread_predicate :: "nat list option \<Rightarrow> RoutePredicate" where
  "thread_predicate cursor = (case cursor of Some bytes \<Rightarrow> CoveredPostVerified | None \<Rightarrow> Bounded)"

definition get_thread_replies ::
  "RouteDecision \<Rightarrow> bool \<Rightarrow> event_row list \<Rightarrow> event_row list \<Rightarrow> (int \<Rightarrow> int option)
     \<Rightarrow> nat \<Rightarrow> nat list \<Rightarrow> nat option \<Rightarrow> nat \<Rightarrow> nat list option \<Rightarrow> event_row list" where
  "get_thread_replies decision query_ok reader_rows writer_rows from_ts community root depth_limit limit cursor =
     (let key = cursor_key from_ts cursor;
          authoritative = get_thread_replies_on writer_rows community root depth_limit limit key
      in case decision of
           Writer reason \<Rightarrow> authoritative
         | Replica e reason \<Rightarrow>
             if \<not> query_ok then authoritative
             else let replies = get_thread_replies_on reader_rows community root depth_limit limit key
                  in if cursor = None then replies
                     else if limit \<le> length replies \<and>
                             (case ring_back replies of
                                None \<Rightarrow> False
                              | Some tail \<Rightarrow> er_created_at tail \<le> te_fence_wall e)
                     then replies
                     else authoritative)"

end
