(* ===== verification/Replica_Fence_Props.thy ===== *)
theory Replica_Fence_Props
  imports Replica_Fence
begin

text \<open>
  What the replica fence promises.
  \<^item> \<open>advance\<close> is what one step of the system may do to the commit log and to the guarded
    transactions; every step but a restore satisfies it.
  \<^item> \<open>entry_covers\<close> is the proof an entry of the ring stands for; \<open>fence_inv\<close> says that every
    entry of the ring has it, and what the stages of the probe have established so far.
  \<^item> The claims compose this with \<open>route_read\<close> and the paged reads.
\<close>

section \<open>The commit log\<close>

lemma heartbeat_append:
  "heartbeat (xs @ ys) = (case heartbeat ys of None \<Rightarrow> heartbeat xs | Some b \<Rightarrow> Some b)"
  by (induction xs) (auto split: option.splits)

lemma heartbeat_single [simp]:
  "heartbeat [CommitBeat at token epoch] = Some (token, epoch)"
  "heartbeat [CommitRows at rows] = None"
  by simp_all

lemma heartbeat_snoc [simp]:
  "heartbeat (xs @ [CommitBeat at token epoch]) = Some (token, epoch)"
  "heartbeat (xs @ [CommitRows at rows]) = heartbeat xs"
  by (simp_all add: heartbeat_append)

lemma rows_of_append [simp]: "rows_of (xs @ ys) = rows_of xs @ rows_of ys"
  by (simp add: rows_of_def)

lemma in_rows_of: "r \<in> set (rows_of xs) \<longleftrightarrow> (\<exists>c\<in>set xs. r \<in> set (entry_rows c))"
  by (auto simp: rows_of_def)

text \<open>The token a session reads only grows as it replays the log.\<close>

definition tokens_mono :: "log_entry list \<Rightarrow> bool" where
  "tokens_mono log \<longleftrightarrow>
     (\<forall>pre post t e. log = pre @ post \<longrightarrow> heartbeat pre = Some (t, e) \<longrightarrow>
        (\<exists>t' e'. heartbeat log = Some (t', e') \<and> t \<le> t'))"

section \<open>What a step may change\<close>

definition settled :: "int \<Rightarrow> open_tx \<Rightarrow> bool" where
  "settled now t \<longleftrightarrow>
     (\<forall>r\<in>set (ot_rows t). er_channel r \<noteq> None \<longrightarrow> now - CREATED_AT_FLOOR \<le> er_created_at r)"

definition same_guarded :: "open_tx \<Rightarrow> open_tx \<Rightarrow> bool" where
  "same_guarded u t \<longleftrightarrow>
     ot_guard u = ot_guard t \<and> ot_rows u = ot_rows t \<and>
     (ot_prepared t = None \<longrightarrow> ot_prepared u = None)"

definition log_extends :: "fence_world \<Rightarrow> log_entry \<Rightarrow> bool" where
  "log_extends w c \<longleftrightarrow>
     entry_at c = fw_clock w \<and>
     (\<forall>r\<in>set (entry_rows c). \<exists>t\<in>set (fw_open w). ot_guard t \<noteq> None \<and> r \<in> set (ot_rows t)) \<and>
     (\<forall>t' e' t e. heartbeat [c] = Some (t', e') \<longrightarrow> heartbeat (fw_log w) = Some (t, e) \<longrightarrow>
        t' = t + 1)"

definition advance :: "fence_world \<Rightarrow> fence_world \<Rightarrow> bool" where
  "advance w w' \<longleftrightarrow>
     fw_clock w \<le> fw_clock w' \<and>
     (fw_log w' = fw_log w \<or> (\<exists>c. fw_log w' = fw_log w @ [c] \<and> log_extends w c)) \<and>
     (\<forall>t\<in>set (fw_open w'). ot_guard t \<noteq> None \<longrightarrow>
        (\<exists>u\<in>set (fw_open w). same_guarded u t) \<or>
        (ot_guard t = Some (fw_clock w) \<and> settled (fw_clock w) t))"

lemma same_guarded_refl [simp]: "same_guarded t t"
  by (simp add: same_guarded_def)

lemma kept_guarded: "t \<in> set txs \<Longrightarrow> \<exists>u\<in>set txs. same_guarded u t"
  using same_guarded_refl by blast

lemma advanceI:
  assumes "fw_clock w' = fw_clock w" "fw_log w' = fw_log w"
    and "\<And>t. t \<in> set (fw_open w') \<Longrightarrow> ot_guard t \<noteq> None \<Longrightarrow>
           (\<exists>u\<in>set (fw_open w). same_guarded u t) \<or>
           (ot_guard t = Some (fw_clock w) \<and> settled (fw_clock w) t)"
  shows "advance w w'"
  using assms by (simp add: advance_def)

lemma advance_extend:
  assumes "fw_clock w' = fw_clock w" "fw_log w' = fw_log w @ [c]" "log_extends w c"
    and "set (fw_open w') \<subseteq> set (fw_open w)"
  shows "advance w w'"
  using assms unfolding advance_def by (metis order_refl same_guarded_refl subsetD)

lemma advance_same:
  assumes "fw_clock w' = fw_clock w" "fw_log w' = fw_log w" "set (fw_open w') \<subseteq> set (fw_open w)"
  shows "advance w w'"
  using assms by (intro advanceI) (blast intro: same_guarded_refl)+

lemma tx_of_Some: "tx_of w xid = Some t \<Longrightarrow> t \<in> set (fw_open w) \<and> ot_xid t = xid"
  by (auto simp: tx_of_def find_Some_iff)

lemma advance_put:
  assumes "ot_guard t \<noteq> None \<Longrightarrow> (\<exists>u\<in>set (fw_open w). same_guarded u t) \<or>
             (ot_guard t = Some (fw_clock w) \<and> settled (fw_clock w) t)"
  shows "advance w (put_tx t w)"
  using assms kept_guarded by (intro advanceI) (fastforce simp: put_tx_def)+

lemma advance_drop: "advance w (drop_tx xid w)"
  by (rule advance_same) (auto simp: drop_tx_def)

lemma advance_fail: "advance w (probe_fail w)"
  by (rule advance_same) (auto simp: probe_fail_def)

lemma advance_beat:
  assumes "fw_clock w' = fw_clock w" "fw_open w' = fw_open w"
    and "fw_log w' = fw_log w @ [CommitBeat (fw_clock w) token epoch]"
    and "\<And>t e. heartbeat (fw_log w) = Some (t, e) \<Longrightarrow> token = t + 1"
  shows "advance w w'"
  by (rule advance_extend [OF assms(1,3)]) (use assms(2,4) in \<open>auto simp: log_extends_def\<close>)

lemma foreign_beat_advances: "foreign_beat rotated w = Some w' \<Longrightarrow> advance w w'"
  by (auto simp: foreign_beat_def split: option.splits prod.splits if_splits intro!: advance_beat)

lemma seed_advances: "seed_heartbeat epoch w = Some w' \<Longrightarrow> advance w w'"
  by (auto simp: seed_heartbeat_def split: if_splits intro!: advance_beat)

lemma commit_token_advances: "commit_token w = Some w' \<Longrightarrow> advance w w'"
  by (auto simp: commit_token_def split: probe_stage.splits option.splits prod.splits
           intro: advance_fail advance_beat)

lemma rotate_advances: "rotate_epoch fresh w = Some w' \<Longrightarrow> advance w w'"
  by (auto simp: rotate_epoch_def
           split: probe_stage.splits option.splits prod.splits if_splits
           intro: advance_fail advance_beat)

lemma local_probe_advances:
  "sample_clock w = Some w' \<Longrightarrow> advance w w'"
  "scan_activity view w = Some w' \<Longrightarrow> advance w w'"
  "scan_prepared w = Some w' \<Longrightarrow> advance w w'"
  "stamp w = Some w' \<Longrightarrow> advance w w'"
  "record_sample w = Some w' \<Longrightarrow> advance w w'"
  by (auto simp: sample_clock_def scan_activity_def scan_prepared_def stamp_def record_sample_def
           split: probe_stage.splits if_splits prod.splits RecordOutcome.splits
           intro: advance_fail advance_same)

lemma guard_settles:
  "list_all (floor_guard now) (ot_rows t) \<Longrightarrow> settled now (t\<lparr>ot_guard := g\<rparr>)"
  by (auto simp: settled_def floor_guard_def list_all_iff)

lemma guard_advances:
  assumes "run_guard t w = Some w'" "t \<in> set (fw_open w)"
  shows "advance w w'"
proof (cases "list_all (floor_guard (fw_clock w)) (ot_rows t)")
  case True
  then show ?thesis
    using assms guard_settles by (auto simp: run_guard_def split: if_splits intro!: advance_put)
next
  case False
  then show ?thesis
    using assms by (auto simp: run_guard_def split: if_splits intro: advance_drop)
qed

lemma commit_advances:
  assumes "commit_tx t w = Some w'" "t \<in> set (fw_open w)"
  shows "advance w w'"
proof -
  have "log_extends w (CommitRows (fw_clock w) (ot_rows t))"
    using assms by (force simp: log_extends_def commit_tx_def split: if_splits)
  then show ?thesis
    using assms by (auto simp: commit_tx_def drop_tx_def split: if_splits intro: advance_extend)
qed

lemma other_tx_advances:
  "begin_tx xid pid w = Some w' \<Longrightarrow> advance w w'"
  "write_tx r t w = Some w' \<Longrightarrow> advance w w'"
  by (auto simp: begin_tx_def write_tx_def split: if_splits intro!: advance_put)

lemma prepare_advances:
  assumes "prepare_tx gap t w = Some w'" "t \<in> set (fw_open w)"
  shows "advance w w'"
  using assms
  by (auto simp: prepare_tx_def same_guarded_def split: option.splits if_splits intro!: advance_put)

lemma show_advances:
  "t \<in> set (fw_open w) \<Longrightarrow> advance w (put_tx (t\<lparr>ot_shown := True\<rparr>) w)"
  by (rule advance_put) (auto simp: same_guarded_def)

lemma tick_advances: "0 \<le> d \<Longrightarrow> advance w (w\<lparr>fw_clock := fw_clock w + d\<rparr>)"
  unfolding advance_def by (auto intro: kept_guarded)

lemmas step_advances =
  foreign_beat_advances seed_advances commit_token_advances rotate_advances local_probe_advances
  guard_advances commit_advances other_tx_advances prepare_advances show_advances tick_advances
  advance_drop advance_fail

fun restores :: "fence_action \<Rightarrow> bool" where
  "restores (Restore n) = True"
| "restores _ = False"

lemma act_advances:
  assumes "fence_act gap a w = Some w'" "\<not> restores a"
  shows "advance w w'"
  using assms
  by (cases a) (auto simp: on_tx_def split: option.splits if_splits dest!: tx_of_Some
    intro: step_advances)

section \<open>What an entry of the ring proves\<close>

definition later_than :: "TokenEntry \<Rightarrow> event_row \<Rightarrow> bool" where
  "later_than e r \<longleftrightarrow> (er_channel r \<noteq> None \<longrightarrow> te_fence_wall e < er_created_at r)"

definition entry_covers :: "TokenEntry \<Rightarrow> fence_world \<Rightarrow> bool" where
  "entry_covers e w \<longleftrightarrow>
     te_committed_at e \<le> fw_clock w \<and>
     te_fence_wall e + CREATED_AT_FLOOR + FENCE_CLOCK_MARGIN \<le> fw_clock w \<and>
     (\<exists>t ep. heartbeat (fw_log w) = Some (t, ep) \<and> te_token e \<le> t) \<and>
     (\<forall>pre post t ep. fw_log w = pre @ post \<longrightarrow> heartbeat pre = Some (t, ep) \<longrightarrow> te_token e \<le> t \<longrightarrow>
        (\<forall>c\<in>set post. te_committed_at e \<le> entry_at c \<and> (\<forall>r\<in>set (entry_rows c). later_than e r))) \<and>
     (\<forall>t\<in>set (fw_open w). ot_guard t \<noteq> None \<longrightarrow> (\<forall>r\<in>set (ot_rows t). later_than e r))"

lemma margin_pos [simp]: "0 < FENCE_CLOCK_MARGIN"
  by (simp add: FENCE_CLOCK_MARGIN_def SECOND_def)

lemma settled_later:
  assumes "settled now t" "te_fence_wall e + CREATED_AT_FLOOR + FENCE_CLOCK_MARGIN \<le> now"
    and "r \<in> set (ot_rows t)"
  shows "later_than e r"
proof -
  have "er_channel r \<noteq> None \<longrightarrow> now - CREATED_AT_FLOOR \<le> er_created_at r"
    using assms by (simp add: settled_def)
  then show ?thesis
    using assms(2) margin_pos unfolding later_than_def by linarith
qed

lemma covers_suffix:
  assumes "entry_covers e w" "fw_log w = pre @ post" "heartbeat pre = Some (t, ep)"
    and "te_token e \<le> t" "c \<in> set post"
  shows "te_committed_at e \<le> entry_at c \<and> (\<forall>r\<in>set (entry_rows c). later_than e r)"
  using assms unfolding entry_covers_def by blast

text \<open>A split of an extended log is a split of the log, or the whole.\<close>

lemma snoc_split:
  assumes "xs @ [c] = pre @ post"
  shows "post = [] \<or> (\<exists>ys. post = ys @ [c] \<and> xs = pre @ ys)"
  using assms by (cases post rule: rev_cases) auto

lemma tokens_mono_advance:
  assumes "advance w w'" "tokens_mono (fw_log w)"
  shows "tokens_mono (fw_log w')"
proof (cases "fw_log w' = fw_log w")
  case False
  then obtain c where c: "fw_log w' = fw_log w @ [c]" "log_extends w c"
    using assms(1) by (auto simp: advance_def)
  have "\<exists>t' e'. heartbeat (fw_log w') = Some (t', e') \<and> t \<le> t'"
    if s: "fw_log w' = pre @ post" "heartbeat pre = Some (t, e)" for pre post t e
  proof (cases "post = []")
    case False
    then obtain ys where "fw_log w = pre @ ys"
      using snoc_split [of "fw_log w" c pre post] s(1) c(1) by metis
    then obtain t' e' where t': "heartbeat (fw_log w) = Some (t', e')" "t \<le> t'"
      using assms(2) s(2) unfolding tokens_mono_def by blast
    show ?thesis
    proof (cases "heartbeat [c]")
      case None
      then show ?thesis
        using t' c(1) by (simp add: heartbeat_append)
    next
      case (Some b)
      then have "fst b = t' + 1"
        using c(2) t'(1) unfolding log_extends_def by (metis prod.collapse)
      then show ?thesis
        using Some t'(2) c(1) by (cases b) (simp add: heartbeat_append)
    qed
  qed (use s in simp)
  then show ?thesis
    by (auto simp: tokens_mono_def)
qed (use assms(2) in simp)

lemma entry_covers_advance:
  assumes adv: "advance w w'" and e: "entry_covers e w" and mono: "tokens_mono (fw_log w)"
  shows "entry_covers e w'"
proof -
  have clock: "fw_clock w \<le> fw_clock w'"
    using adv by (simp add: advance_def)
  have open_txs: "later_than e r"
    if "t \<in> set (fw_open w')" "ot_guard t \<noteq> None" "r \<in> set (ot_rows t)" for t r
    using that adv e settled_later [of "fw_clock w" t e r]
    by (fastforce simp: advance_def entry_covers_def same_guarded_def)
  have token: "\<exists>t ep. heartbeat (fw_log w') = Some (t, ep) \<and> te_token e \<le> t"
    using tokens_mono_advance [OF adv mono] adv e
    unfolding tokens_mono_def advance_def entry_covers_def
    by (metis append_Nil2 order_trans)
  have split: "te_committed_at e \<le> entry_at c \<and> (\<forall>r\<in>set (entry_rows c). later_than e r)"
    if s: "fw_log w' = pre @ post" "heartbeat pre = Some (t, ep)" "te_token e \<le> t" "c \<in> set post"
    for pre post t ep c
  proof (cases "fw_log w' = fw_log w")
    case False
    then obtain d where d: "fw_log w' = fw_log w @ [d]" "log_extends w d"
      using adv by (auto simp: advance_def)
    have new: "te_committed_at e \<le> entry_at d \<and> (\<forall>r\<in>set (entry_rows d). later_than e r)"
      using d(2) e by (fastforce simp: log_extends_def entry_covers_def)
    obtain ys where ys: "post = ys @ [d]" "fw_log w = pre @ ys"
      using snoc_split [of "fw_log w" d pre post] d s(1,4) by (metis empty_iff empty_set)
    show ?thesis
      using covers_suffix [OF e ys(2) s(2,3), of c] new s(4) ys(1) by auto
  qed (use s in \<open>auto intro!: covers_suffix [OF e _ s(2,3)]\<close>)
  show ?thesis
    unfolding entry_covers_def
    using clock open_txs token split e by (auto simp: entry_covers_def)
qed

section \<open>The invariant\<close>

definition tx_ok :: "nat \<Rightarrow> int \<Rightarrow> open_tx \<Rightarrow> bool" where
  "tx_ok me now t \<longleftrightarrow>
     ot_pid t \<noteq> me \<and> ot_start t \<le> now \<and>
     (case ot_guard t of
        None \<Rightarrow> ot_prepared t = None
      | Some g \<Rightarrow> ot_shown t \<and> ot_start t \<le> g \<and> g \<le> now \<and> settled g t \<and>
                  (\<forall>p. ot_prepared t = Some p \<longrightarrow> p - FENCE_CLOCK_MARGIN < g))"

definition lower :: "int \<Rightarrow> int option \<Rightarrow> int" where
  "lower s oldest = (case oldest of Some t \<Rightarrow> min t s | None \<Rightarrow> s)"

definition scanned_ok :: "int \<Rightarrow> int option \<Rightarrow> fence_world \<Rightarrow> bool" where
  "scanned_ok s oldest w \<longleftrightarrow>
     s \<le> fw_clock w \<and>
     (\<forall>t\<in>set (fw_open w). \<forall>g. ot_guard t = Some g \<longrightarrow> ot_prepared t = None \<longrightarrow> lower s oldest \<le> g)"

definition ready_ok :: "int \<Rightarrow> int option \<Rightarrow> fence_world \<Rightarrow> bool" where
  "ready_ok s oldest w \<longleftrightarrow>
     s \<le> fw_clock w \<and>
     (\<forall>t\<in>set (fw_open w). \<forall>g. ot_guard t = Some g \<longrightarrow> lower s oldest - FENCE_CLOCK_MARGIN < g)"

definition beaten_ok :: "TokenEntry \<Rightarrow> fence_world \<Rightarrow> bool" where
  "beaten_ok e w \<longleftrightarrow> entry_covers e w \<and> (\<forall>d\<in>set (fi_ring (fw_fence w)). te_token d < te_token e)"

fun stage_ok :: "probe_stage \<Rightarrow> fence_world \<Rightarrow> bool" where
  "stage_ok Idle w = True"
| "stage_ok (Sampled s) w = (s \<le> fw_clock w)"
| "stage_ok (Scanned s oldest masked) w = (masked = 0 \<longrightarrow> scanned_ok s oldest w)"
| "stage_ok (Ready s oldest) w = ready_ok s oldest w"
| "stage_ok (Stamped s oldest c) w = (ready_ok s oldest w \<and> c \<le> fw_clock w)"
| "stage_ok (Beaten s oldest c token epoch) w =
     beaten_ok \<lparr>te_token = token, te_committed_at = c, te_fence_wall = fence_wall s oldest\<rparr> w"
| "stage_ok (Rotating wall c) w = False"
| "stage_ok (Rotated wall c token epoch) w = False"

definition ring_ok :: "TokenEntry list \<Rightarrow> bool" where
  "ring_ok r \<longleftrightarrow> length r \<le> RING_CAPACITY \<and> sorted_wrt (\<lambda>d e. te_token d < te_token e) r"

definition fence_inv :: "fence_world \<Rightarrow> bool" where
  "fence_inv w \<longleftrightarrow>
     tokens_mono (fw_log w) \<and>
     (\<forall>t\<in>set (fw_open w). tx_ok (fw_probe w) (fw_clock w) t) \<and>
     ring_ok (fi_ring (fw_fence w)) \<and>
     (\<forall>e\<in>set (fi_ring (fw_fence w)). entry_covers e w) \<and>
     stage_ok (fw_stage w) w"

lemma fence_wall_lower: "fence_wall s oldest = lower s oldest - CREATED_AT_FLOOR - FENCE_CLOCK_MARGIN"
  by (simp add: fence_wall_def lower_def split: option.splits)

lemma lower_le [simp]: "lower s oldest \<le> s"
  by (simp add: lower_def split: option.splits)

lemma lower_least [simp]: "lower s (least_opt a b) \<le> lower s a" "lower s (least_opt a (Some p)) \<le> p"
  by (cases a; cases b; simp add: lower_def; fail) (cases a; simp add: lower_def)

lemma min_opt_le: "Some p \<in> set xs \<Longrightarrow> \<exists>m. min_opt xs = Some m \<and> m \<le> p"
proof (induction xs)
  case (Cons x xs)
  show ?case
  proof (cases "x = Some p")
    case True
    then show ?thesis
      by (cases "min_opt xs") (simp_all add: min_opt_def)
  next
    case False
    then obtain m where "min_opt xs = Some m" "m \<le> p"
      using Cons by auto
    then show ?thesis
      by (cases x) (auto simp: min_opt_def)
  qed
qed simp

subsection \<open>Steps that are not the probe's keep its stage\<close>

lemma advance_guarded:
  assumes "advance w w'" "t \<in> set (fw_open w')" "ot_guard t = Some g"
  shows "(\<exists>u\<in>set (fw_open w). ot_guard u = Some g \<and> same_guarded u t) \<or> g = fw_clock w"
proof -
  have "(\<exists>u\<in>set (fw_open w). same_guarded u t) \<or> ot_guard t = Some (fw_clock w)"
    using assms unfolding advance_def by auto
  then show ?thesis
    using assms(3) by (auto simp: same_guarded_def)
qed

lemma scanned_ok_advance:
  assumes "advance w w'" "scanned_ok s oldest w"
  shows "scanned_ok s oldest w'"
proof -
  have "lower s oldest \<le> g"
    if t: "t \<in> set (fw_open w')" "ot_guard t = Some g" "ot_prepared t = None" for t g
    using advance_guarded [OF assms(1) t(1,2)]
  proof
    assume "\<exists>u\<in>set (fw_open w). ot_guard u = Some g \<and> same_guarded u t"
    then show ?thesis
      using assms(2) t(3) by (auto simp: scanned_ok_def same_guarded_def)
  next
    assume "g = fw_clock w"
    then show ?thesis
      using assms(2) lower_le [of s oldest] unfolding scanned_ok_def by linarith
  qed
  then show ?thesis
    using assms by (auto simp: advance_def scanned_ok_def)
qed

lemma ready_ok_advance:
  assumes "advance w w'" "ready_ok s oldest w"
  shows "ready_ok s oldest w'"
proof -
  have "lower s oldest - FENCE_CLOCK_MARGIN < g"
    if t: "t \<in> set (fw_open w')" "ot_guard t = Some g" for t g
    using advance_guarded [OF assms(1) t(1,2)]
  proof
    assume "\<exists>u\<in>set (fw_open w). ot_guard u = Some g \<and> same_guarded u t"
    then show ?thesis
      using assms(2) by (auto simp: ready_ok_def)
  next
    assume "g = fw_clock w"
    then show ?thesis
      using assms(2) lower_le [of s oldest] margin_pos unfolding ready_ok_def by linarith
  qed
  then show ?thesis
    using assms by (auto simp: advance_def ready_ok_def)
qed

lemma stage_ok_advance:
  assumes "advance w w'" "tokens_mono (fw_log w)" "fw_fence w' = fw_fence w" "stage_ok st w"
  shows "stage_ok st w'"
  using assms scanned_ok_advance [OF assms(1)] ready_ok_advance [OF assms(1)]
    entry_covers_advance [OF assms(1) _ assms(2)]
  by (cases st) (auto simp: beaten_ok_def advance_def)

subsection \<open>The steps keep the transactions well-formed\<close>

lemma tx_ok_later: "tx_ok me now t \<Longrightarrow> now \<le> now' \<Longrightarrow> tx_ok me now' t"
  by (auto simp: tx_ok_def split: option.splits)

definition txs_ok :: "fence_world \<Rightarrow> bool" where
  "txs_ok w \<longleftrightarrow> (\<forall>t\<in>set (fw_open w). tx_ok (fw_probe w) (fw_clock w) t)"

lemma txs_ok_put: "txs_ok w \<Longrightarrow> tx_ok (fw_probe w) (fw_clock w) t \<Longrightarrow> txs_ok (put_tx t w)"
  by (auto simp: txs_ok_def put_tx_def)

lemma txs_ok_drop: "txs_ok w \<Longrightarrow> txs_ok (drop_tx xid w)"
  by (auto simp: txs_ok_def drop_tx_def)

lemma txs_ok_tick: "txs_ok w \<Longrightarrow> 0 \<le> d \<Longrightarrow> txs_ok (w\<lparr>fw_clock := fw_clock w + d\<rparr>)"
  by (auto simp: txs_ok_def intro: tx_ok_later)

lemma txs_ok_probe:
  assumes "txs_ok w"
  shows "sample_clock w = Some w' \<Longrightarrow> txs_ok w'"
    and "scan_activity view w = Some w' \<Longrightarrow> txs_ok w'"
    and "scan_prepared w = Some w' \<Longrightarrow> txs_ok w'"
    and "stamp w = Some w' \<Longrightarrow> txs_ok w'"
    and "commit_token w = Some w' \<Longrightarrow> txs_ok w'"
    and "record_sample w = Some w' \<Longrightarrow> txs_ok w'"
    and "rotate_epoch fresh w = Some w' \<Longrightarrow> txs_ok w'"
    and "foreign_beat rotated w = Some w' \<Longrightarrow> txs_ok w'"
    and "seed_heartbeat epoch w = Some w' \<Longrightarrow> txs_ok w'"
    and "txs_ok (probe_fail w)"
  using assms
  by (auto simp: sample_clock_def scan_activity_def scan_prepared_def stamp_def commit_token_def
           record_sample_def rotate_epoch_def foreign_beat_def seed_heartbeat_def probe_fail_def
           txs_ok_def split: probe_stage.splits option.splits prod.splits if_splits RecordOutcome.splits)

lemma txs_ok_guard:
  assumes "txs_ok w" "t \<in> set (fw_open w)" "run_guard t w = Some w'"
  shows "txs_ok w'"
proof -
  have "tx_ok (fw_probe w) (fw_clock w) (t\<lparr>ot_guard := Some (fw_clock w)\<rparr>)"
    if "list_all (floor_guard (fw_clock w)) (ot_rows t)" "ot_shown t" "ot_guard t = None"
    using that(2,3) assms(1,2) guard_settles [OF that(1)]
    by (auto simp: txs_ok_def tx_ok_def dest!: bspec)
  then show ?thesis
    using assms by (auto simp: run_guard_def split: if_splits intro: txs_ok_put txs_ok_drop)
qed

lemma txs_ok_tx:
  assumes "txs_ok w" "t \<in> set (fw_open w)"
  shows "txs_ok (put_tx (t\<lparr>ot_shown := True\<rparr>) w)"
    and "write_tx r t w = Some w' \<Longrightarrow> txs_ok w'"
    and "prepare_tx FENCE_CLOCK_MARGIN t w = Some w' \<Longrightarrow> txs_ok w'"
    and "commit_tx t w = Some w' \<Longrightarrow> txs_ok w'"
proof -
  have t: "tx_ok (fw_probe w) (fw_clock w) t"
    using assms by (simp add: txs_ok_def)
  show "txs_ok (put_tx (t\<lparr>ot_shown := True\<rparr>) w)"
    using t by (intro txs_ok_put assms) (auto simp: tx_ok_def settled_def split: option.splits)
  show "write_tx r t w = Some w' \<Longrightarrow> txs_ok w'"
    using t by (auto simp: write_tx_def tx_ok_def split: if_splits intro!: txs_ok_put assms)
  show "prepare_tx FENCE_CLOCK_MARGIN t w = Some w' \<Longrightarrow> txs_ok w'"
    using t by (auto simp: prepare_tx_def tx_ok_def settled_def split: option.splits if_splits
                     intro!: txs_ok_put assms)
  show "commit_tx t w = Some w' \<Longrightarrow> txs_ok w'"
    using assms by (auto simp: commit_tx_def drop_tx_def txs_ok_def split: if_splits)
qed

lemma txs_ok_begin: "txs_ok w \<Longrightarrow> begin_tx xid pid w = Some w' \<Longrightarrow> txs_ok w'"
  by (auto simp: begin_tx_def tx_ok_def split: if_splits intro!: txs_ok_put)

lemma txs_ok_act:
  assumes "fence_act FENCE_CLOCK_MARGIN a w = Some w'" "\<not> restores a" "txs_ok w"
  shows "txs_ok w'"
  using assms
  by (cases a) (auto simp: on_tx_def split: option.splits if_splits dest!: tx_of_Some
    intro: txs_ok_probe txs_ok_guard txs_ok_tx txs_ok_begin txs_ok_drop txs_ok_tick)

subsection \<open>The steps of the probe\<close>

text \<open>The activity scan bounds every guarded transaction that is not prepared.\<close>

lemma masked_none:
  assumes "activity_masked me view = 0" "a \<in> set view" "ac_pid a \<noteq> me"
  shows "ac_backend_type a \<noteq> None"
  using assms by (auto simp: activity_masked_def filter_empty_conv masked_row_def)

lemma scan_bounds:
  assumes txs: "txs_ok w" and view: "faithful_view (fw_open w) view"
    and masked: "activity_masked (fw_probe w) view = 0" and s: "s \<le> fw_clock w"
  shows "scanned_ok s (activity_oldest (fw_probe w) view) w"
proof -
  have "lower s (activity_oldest (fw_probe w) view) \<le> g"
    if t: "t \<in> set (fw_open w)" "ot_guard t = Some g" "ot_prepared t = None" for t g
  proof -
    have ok: "ot_pid t \<noteq> fw_probe w" "ot_shown t" "ot_start t \<le> g"
      using txs t by (auto simp: txs_ok_def tx_ok_def dest!: bspec)
    then obtain a where a: "a \<in> set view" "ac_pid a = ot_pid t"
        "ac_backend_type a = None \<or> ac_xact_start a = Some (ot_start t)"
      using view t by (auto simp: faithful_view_def list_all_iff list_ex_iff)
    then have "ac_xact_start a = Some (ot_start t)"
      using masked_none [OF masked a(1)] ok(1) by auto
    then have "Some (ot_start t) \<in> set (map ac_xact_start (filter (\<lambda>a. ac_pid a \<noteq> fw_probe w) view))"
      using a ok(1) by force
    then obtain m where "activity_oldest (fw_probe w) view = Some m" "m \<le> ot_start t"
      using min_opt_le unfolding activity_oldest_def by blast
    then show ?thesis
      using ok(3) by (simp add: lower_def)
  qed
  then show ?thesis
    using s by (simp add: scanned_ok_def)
qed

text \<open>The prepared scan bounds the others, since the guard of a prepared one is just before it.\<close>

lemma prepared_bounds:
  assumes txs: "txs_ok w" and sc: "scanned_ok s oldest w"
  shows "ready_ok s (least_opt oldest (min_opt (map ot_prepared (fw_open w)))) w"
proof -
  let ?all = "least_opt oldest (min_opt (map ot_prepared (fw_open w)))"
  have "lower s ?all - FENCE_CLOCK_MARGIN < g"
    if t: "t \<in> set (fw_open w)" "ot_guard t = Some g" for t g
  proof (cases "ot_prepared t")
    case None
    then have "lower s oldest \<le> g"
      using sc t by (auto simp: scanned_ok_def)
    then show ?thesis
      using lower_least(1) [of s oldest "min_opt (map ot_prepared (fw_open w))"] margin_pos by linarith
  next
    case (Some p)
    then have "Some p \<in> set (map ot_prepared (fw_open w))"
      using t(1) by force
    then obtain m where m: "min_opt (map ot_prepared (fw_open w)) = Some m" "m \<le> p"
      using min_opt_le by blast
    have "p - FENCE_CLOCK_MARGIN < g"
      using txs t Some by (auto simp: txs_ok_def tx_ok_def dest!: bspec)
    then show ?thesis
      using lower_least(2) [of s oldest m] m by (simp only:)
  qed
  then show ?thesis
    using sc by (simp add: ready_ok_def scanned_ok_def)
qed

text \<open>The token that is committed last covers what the scans bounded.\<close>

lemma token_covers:
  assumes txs: "txs_ok w" and mono: "tokens_mono (fw_log w)" and ready: "ready_ok s oldest w"
    and c: "c \<le> fw_clock w" and hb: "heartbeat (fw_log w) = Some (token, epoch)"
  shows "entry_covers \<lparr>te_token = token + 1, te_committed_at = c, te_fence_wall = fence_wall s oldest\<rparr>
           (w\<lparr>fw_log := fw_log w @ [CommitBeat (fw_clock w) (token + 1) ep], fw_stage := st\<rparr>)"
    (is "entry_covers ?e ?w")
proof -
  have wall: "te_fence_wall ?e + CREATED_AT_FLOOR + FENCE_CLOCK_MARGIN \<le> fw_clock w"
    using ready order_trans [OF lower_le, of s _ oldest] by (simp add: fence_wall_lower ready_ok_def)
  have split: "post = []"
    if p: "fw_log ?w = pre @ post" "heartbeat pre = Some (t, ep')" "token + 1 \<le> t" for pre post t ep'
  proof (rule ccontr)
    assume "post \<noteq> []"
    then obtain ys where "fw_log w = pre @ ys"
      using snoc_split [of "fw_log w" _ pre post] p(1) by auto
    then have "t \<le> token"
      using mono hb p(2) unfolding tokens_mono_def by fastforce
    then show False
      using p(3) by simp
  qed
  have rows: "later_than ?e r"
    if t: "t \<in> set (fw_open w)" "ot_guard t \<noteq> None" "r \<in> set (ot_rows t)" for t r
  proof -
    obtain g where g: "ot_guard t = Some g" "settled g t"
      using txs t by (auto simp: txs_ok_def tx_ok_def dest!: bspec)
    then have "lower s oldest - FENCE_CLOCK_MARGIN < g"
      using ready t(1) by (auto simp: ready_ok_def)
    moreover have "er_channel r \<noteq> None \<longrightarrow> g - CREATED_AT_FLOOR \<le> er_created_at r"
      using g(2) t(3) by (simp add: settled_def)
    ultimately show ?thesis
      unfolding later_than_def fence_wall_lower by auto
  qed
  have nothing_after: "\<forall>pre post t ep'. fw_log ?w = pre @ post \<longrightarrow> heartbeat pre = Some (t, ep') \<longrightarrow>
      te_token ?e \<le> t \<longrightarrow> (\<forall>x\<in>set post. P x)" for P
    using split by (metis TokenEntry.select_convs(1) empty_iff empty_set)
  show ?thesis
    unfolding entry_covers_def by (intro conjI nothing_after) (use c wall rows in auto)
qed

lemma entry_covers_same:
  "fw_clock w' = fw_clock w \<Longrightarrow> fw_log w' = fw_log w \<Longrightarrow> fw_open w' = fw_open w \<Longrightarrow>
   entry_covers e w' = entry_covers e w"
  by (simp add: entry_covers_def)

lemma set_ring_push: "set (ring_push e r) \<subseteq> insert e (set r)"
  by (cases r) (auto simp: ring_push_def)

lemma ring_ok_push:
  assumes "ring_ok r" "\<forall>d\<in>set r. te_token d < te_token e"
  shows "ring_ok (ring_push e r)"
  using assms
  by (cases r) (auto simp: ring_ok_def ring_push_def sorted_wrt_append RING_CAPACITY_def)

text \<open>Recording a token that is above the ring never regresses and keeps the ring sound.\<close>

lemma record_above:
  fixes f :: FenceInner
  assumes "\<forall>d\<in>set (fi_ring f). te_token d < token" "ring_ok (fi_ring f)"
    and "fence_record token epoch c wall f = (f', out)"
  shows "out = Recorded" "ring_ok (fi_ring f')"
    "set (fi_ring f') \<subseteq>
       insert \<lparr>te_token = token, te_committed_at = c, te_fence_wall = wall\<rparr> (set (fi_ring f))"
proof -
  let ?e = "\<lparr>te_token = token, te_committed_at = c, te_fence_wall = wall\<rparr>"
  have last: "fi_ring f = [] \<or> te_token (last (fi_ring f)) < token"
    using assms(1) last_in_set by blast
  have "(f' = \<lparr>fi_epoch = Some epoch, fi_ring = ring_push ?e []\<rparr> \<or>
         f' = f\<lparr>fi_ring := ring_push ?e (fi_ring f)\<rparr>) \<and> out = Recorded"
    using assms(3) last by (auto simp: fence_record_def ring_back_def Let_def split: if_splits)
  then show "out = Recorded" "ring_ok (fi_ring f')"
    "set (fi_ring f') \<subseteq> insert ?e (set (fi_ring f))"
    using ring_ok_push [OF assms(2), of ?e] ring_ok_push [of "[]" ?e] assms(1)
      set_ring_push [of ?e "fi_ring f"] set_ring_push [of ?e "[]"]
    by (auto simp: ring_ok_def)
qed

definition fence_step :: "fence_world \<Rightarrow> fence_world \<Rightarrow> bool" where
  "fence_step w w' \<longleftrightarrow>
     (\<exists>a. \<not> restores a \<and> fence_act FENCE_CLOCK_MARGIN a w = Some w')"

definition fence_start :: "fence_world \<Rightarrow> bool" where
  "fence_start w \<longleftrightarrow> (\<exists>me now. w = fence_boot me now)"

definition ring_sound :: "fence_world \<Rightarrow> bool" where
  "ring_sound w \<longleftrightarrow>
     ring_ok (fi_ring (fw_fence w)) \<and> (\<forall>e\<in>set (fi_ring (fw_fence w)). entry_covers e w)"

lemma fence_inv_parts:
  "fence_inv w \<longleftrightarrow> tokens_mono (fw_log w) \<and> txs_ok w \<and> ring_sound w \<and> stage_ok (fw_stage w) w"
  by (auto simp: fence_inv_def txs_ok_def ring_sound_def)

lemma ring_sound_kept:
  assumes "advance w w'" "fence_inv w" "fw_fence w' = fw_fence w"
  shows "ring_sound w'"
  using assms entry_covers_advance [OF assms(1)] by (auto simp: fence_inv_parts ring_sound_def)

lemma ring_sound_fail: "ring_sound (probe_fail w)"
  by (simp add: ring_sound_def probe_fail_def fence_close_def ring_ok_def)

lemma stage_kept:
  assumes "advance w w'" "fence_inv w" "fw_fence w' = fw_fence w" "fw_stage w' = fw_stage w"
  shows "ring_sound w' \<and> stage_ok (fw_stage w') w'"
  using assms ring_sound_kept stage_ok_advance by (auto simp: fence_inv_parts)

lemma fail_ok: "ring_sound (probe_fail w) \<and> stage_ok (fw_stage (probe_fail w)) (probe_fail w)"
  by (simp add: ring_sound_fail) (simp add: probe_fail_def)

lemma sample_ok:
  assumes "fence_inv w" "sample_clock w = Some w'"
  shows "ring_sound w' \<and> stage_ok (fw_stage w') w'"
proof -
  have "ring_sound w'"
    using assms by (auto intro!: ring_sound_kept [OF local_probe_advances(1)]
                         simp: sample_clock_def split: probe_stage.splits)
  then show ?thesis
    using assms by (auto simp: sample_clock_def split: probe_stage.splits)
qed

lemma scan_activity_ok:
  assumes "fence_inv w" "scan_activity view w = Some w'"
  shows "ring_sound w' \<and> stage_ok (fw_stage w') w'"
proof -
  obtain s where s: "fw_stage w = Sampled s" "faithful_view (fw_open w) view"
      "w' = w\<lparr>fw_stage := Scanned s (activity_oldest (fw_probe w) view)
                                  (activity_masked (fw_probe w) view)\<rparr>"
    using assms(2) by (auto simp: scan_activity_def split: probe_stage.splits if_splits)
  have "ring_sound w'"
    using assms s(3) by (auto intro!: ring_sound_kept [OF local_probe_advances(2)])
  moreover have "scanned_ok s (activity_oldest (fw_probe w) view) w"
    if "activity_masked (fw_probe w) view = 0"
    using assms(1) s that by (auto simp: fence_inv_parts intro: scan_bounds)
  ultimately show ?thesis
    using s(3) by (auto simp: scanned_ok_def)
qed

lemma scan_prepared_ok:
  assumes "fence_inv w" "scan_prepared w = Some w'"
  shows "ring_sound w' \<and> stage_ok (fw_stage w') w'"
proof -
  obtain s oldest masked where s: "fw_stage w = Scanned s oldest masked"
    using assms(2) by (auto simp: scan_prepared_def split: probe_stage.splits)
  show ?thesis
  proof (cases "masked > 0")
    case True
    then show ?thesis
      using assms(2) s fail_ok by (auto simp: scan_prepared_def)
  next
    case False
    then have w': "w' = w\<lparr>fw_stage := Ready s (least_opt oldest (min_opt (map ot_prepared (fw_open w))))\<rparr>"
      using assms(2) s by (simp add: scan_prepared_def)
    have "ring_sound w'"
      using assms w' by (auto intro!: ring_sound_kept [OF local_probe_advances(3)])
    moreover have "ready_ok s (least_opt oldest (min_opt (map ot_prepared (fw_open w)))) w"
      using assms(1) s False by (auto simp: fence_inv_parts intro: prepared_bounds)
    ultimately show ?thesis
      using w' by (simp add: ready_ok_def)
  qed
qed

lemma stamp_ok:
  assumes "fence_inv w" "stamp w = Some w'"
  shows "ring_sound w' \<and> stage_ok (fw_stage w') w'"
proof -
  obtain s oldest where s: "fw_stage w = Ready s oldest"
      "w' = w\<lparr>fw_stage := Stamped s oldest (fw_clock w)\<rparr>"
    using assms(2) by (auto simp: stamp_def split: probe_stage.splits)
  have "ring_sound w'"
    using assms s(2) by (auto intro!: ring_sound_kept [OF local_probe_advances(4)])
  then show ?thesis
    using assms(1) s by (simp add: fence_inv_parts ready_ok_def)
qed

lemma commit_token_ok:
  assumes "fence_inv w" "commit_token w = Some w'"
  shows "ring_sound w' \<and> stage_ok (fw_stage w') w'"
proof -
  obtain s oldest c where s: "fw_stage w = Stamped s oldest c"
    using assms(2) by (auto simp: commit_token_def split: probe_stage.splits)
  show ?thesis
  proof (cases "heartbeat (fw_log w)")
    case None
    then show ?thesis
      using assms(2) s fail_ok by (auto simp: commit_token_def)
  next
    case (Some hb)
    obtain token epoch where hb: "heartbeat (fw_log w) = Some (token, epoch)"
      using Some by (cases hb) auto
    have w': "w' = w\<lparr>fw_log := fw_log w @ [CommitBeat (fw_clock w) (token + 1) epoch],
                     fw_stage := Beaten s oldest c (token + 1) epoch\<rparr>"
      using assms(2) s hb by (simp add: commit_token_def)
    have "ring_sound w'"
      using assms w' by (auto intro!: ring_sound_kept [OF commit_token_advances])
    moreover have "te_token d < token + 1" if "d \<in> set (fi_ring (fw_fence w))" for d
      using assms(1) that hb by (auto simp: fence_inv_parts ring_sound_def entry_covers_def dest!: bspec)
    moreover have "entry_covers \<lparr>te_token = token + 1, te_committed_at = c,
                     te_fence_wall = fence_wall s oldest\<rparr> w'"
      unfolding w' using assms(1) s hb by (intro token_covers) (auto simp: fence_inv_parts)
    ultimately show ?thesis
      using w' by (simp add: beaten_ok_def)
  qed
qed

lemma record_sample_ok:
  assumes "fence_inv w" "record_sample w = Some w'"
  shows "ring_sound w' \<and> stage_ok (fw_stage w') w'"
proof -
  have st: "stage_ok (fw_stage w) w"
    using assms(1) by (simp add: fence_inv_parts)
  obtain s oldest c token epoch where s: "fw_stage w = Beaten s oldest c token epoch"
    using assms(2) st by (cases "fw_stage w") (auto simp: record_sample_def)
  let ?e = "\<lparr>te_token = token, te_committed_at = c, te_fence_wall = fence_wall s oldest\<rparr>"
  obtain f out where f: "fence_record token epoch c (fence_wall s oldest) (fw_fence w) = (f, out)"
    by fastforce
  have e: "entry_covers ?e w" "\<forall>d\<in>set (fi_ring (fw_fence w)). te_token d < token"
    using st s by (auto simp: beaten_ok_def)
  have ring: "ring_ok (fi_ring (fw_fence w))" "\<forall>d\<in>set (fi_ring (fw_fence w)). entry_covers d w"
    using assms(1) by (auto simp: fence_inv_parts ring_sound_def)
  note rec = record_above [OF e(2) ring(1) f]
  have w': "w' = w\<lparr>fw_fence := f, fw_stage := Idle\<rparr>"
    using assms(2) s f rec(1) by (simp add: record_sample_def)
  have "entry_covers d w'" if "d \<in> set (fi_ring f)" for d
    using that rec(3) e(1) ring(2) w' entry_covers_same [of w' w] by auto
  then show ?thesis
    using rec(2) w' by (simp add: ring_sound_def)
qed

lemma no_rotation:
  assumes "fence_inv w"
  shows "rotate_epoch fresh w = None"
  using assms by (cases "fw_stage w") (auto simp: fence_inv_parts rotate_epoch_def)

lemmas probe_steps_ok =
  sample_ok scan_activity_ok scan_prepared_ok stamp_ok commit_token_ok record_sample_ok

text \<open>The other steps leave the fence and the stage of the probe alone.\<close>

lemma tx_frame [simp]:
  "fw_fence (put_tx t w) = fw_fence w" "fw_stage (put_tx t w) = fw_stage w"
  "fw_fence (drop_tx xid w) = fw_fence w" "fw_stage (drop_tx xid w) = fw_stage w"
  by (simp_all add: put_tx_def drop_tx_def)

fun probe_action :: "fence_action \<Rightarrow> bool" where
  "probe_action Sample = True"
| "probe_action (ScanActivity view) = True"
| "probe_action ScanPrepared = True"
| "probe_action Stamp = True"
| "probe_action CommitToken = True"
| "probe_action RecordSample = True"
| "probe_action (RotateEpoch fresh) = True"
| "probe_action ProbeError = True"
| "probe_action _ = False"

lemma other_act_frame:
  assumes "fence_act gap a w = Some w'" "\<not> probe_action a"
  shows "fw_fence w' = fw_fence w \<and> fw_stage w' = fw_stage w"
  using assms
  by (cases a)
    (auto simp: on_tx_def begin_tx_def write_tx_def run_guard_def prepare_tx_def commit_tx_def
       foreign_beat_def seed_heartbeat_def restore_def split: option.splits if_splits prod.splits)

lemma probe_act_ok:
  assumes "fence_inv w" "fence_act gap a w = Some w'" "probe_action a"
  shows "ring_sound w' \<and> stage_ok (fw_stage w') w'"
  using assms no_rotation [OF assms(1)] fail_ok [of w] probe_steps_ok [OF assms(1)]
  by (cases a) auto

lemma fence_inv_step:
  assumes "fence_step w w'" "fence_inv w"
  shows "fence_inv w'"
proof -
  obtain a where a: "\<not> restores a" "fence_act FENCE_CLOCK_MARGIN a w = Some w'"
    using assms(1) by (auto simp: fence_step_def)
  have adv: "advance w w'"
    using act_advances [OF a(2,1)] .
  have "ring_sound w' \<and> stage_ok (fw_stage w') w'"
    using probe_act_ok [OF assms(2) a(2)] other_act_frame [OF a(2)] stage_kept [OF adv assms(2)]
    by (cases "probe_action a") auto
  moreover have "txs_ok w'"
    using txs_ok_act [OF a(2,1)] assms(2) by (simp add: fence_inv_parts)
  moreover have "tokens_mono (fw_log w')"
    using tokens_mono_advance [OF adv] assms(2) by (simp add: fence_inv_parts)
  ultimately show ?thesis
    by (simp add: fence_inv_parts)
qed

interpretation fence: invariant_system fence_start fence_step fence_inv
proof
  fix w
  assume "fence_start w"
  then show "fence_inv w"
    by (auto simp: fence_start_def fence_boot_def fence_inv_parts tokens_mono_def txs_ok_def
             ring_sound_def ring_ok_def fence_new_def)
qed (rule fence_inv_step)

section \<open>Rows of thread pages are channel-bearing\<close>

definition channelled :: "event_row \<Rightarrow> bool" where
  "channelled r \<longleftrightarrow> (er_thread r \<noteq> None \<longrightarrow> er_channel r \<noteq> None)"

definition rows_inv :: "fence_world \<Rightarrow> bool" where
  "rows_inv w \<longleftrightarrow>
     (\<forall>r\<in>set (rows_of (fw_log w)). channelled r) \<and>
     (\<forall>t\<in>set (fw_open w). \<forall>r\<in>set (ot_rows t). channelled r)"

lemma rows_inv_advance_log:
  assumes "advance w w'" "rows_inv w"
  shows "\<forall>r\<in>set (rows_of (fw_log w')). channelled r"
proof (cases "fw_log w' = fw_log w")
  case False
  then obtain c where c: "fw_log w' = fw_log w @ [c]" "log_extends w c"
    using assms(1) by (auto simp: advance_def)
  have "\<forall>r\<in>set (entry_rows c). channelled r"
    using c(2) assms(2) unfolding log_extends_def rows_inv_def by blast
  then show ?thesis
    using c(1) assms(2) by (auto simp: rows_inv_def rows_of_def)
qed (use assms(2) in \<open>simp add: rows_inv_def\<close>)

definition open_rows_ok :: "fence_world \<Rightarrow> bool" where
  "open_rows_ok w \<longleftrightarrow> (\<forall>t\<in>set (fw_open w). \<forall>r\<in>set (ot_rows t). channelled r)"

lemma open_rows_put:
  "open_rows_ok w \<Longrightarrow> \<forall>r\<in>set (ot_rows t). channelled r \<Longrightarrow> open_rows_ok (put_tx t w)"
  by (auto simp: open_rows_ok_def put_tx_def)

lemma open_rows_subset:
  "open_rows_ok w \<Longrightarrow> set (fw_open w') \<subseteq> set (fw_open w) \<Longrightarrow> open_rows_ok w'"
  by (auto simp: open_rows_ok_def)

lemma open_rows_tx:
  assumes "open_rows_ok w" "t \<in> set (fw_open w)"
  shows "open_rows_ok (put_tx (t\<lparr>ot_shown := True\<rparr>) w)"
    and "write_tx r t w = Some w' \<Longrightarrow> open_rows_ok w'"
    and "run_guard t w = Some w' \<Longrightarrow> open_rows_ok w'"
    and "prepare_tx gap t w = Some w' \<Longrightarrow> open_rows_ok w'"
    and "commit_tx t w = Some w' \<Longrightarrow> open_rows_ok w'"
proof -
  have t: "\<forall>r\<in>set (ot_rows t). channelled r"
    using assms by (simp add: open_rows_ok_def)
  show "open_rows_ok (put_tx (t\<lparr>ot_shown := True\<rparr>) w)"
    using open_rows_put [OF assms(1)] t by simp
  show "write_tx r t w = Some w' \<Longrightarrow> open_rows_ok w'"
    using open_rows_put [OF assms(1)] t by (auto simp: write_tx_def channelled_def split: if_splits)
  show "run_guard t w = Some w' \<Longrightarrow> open_rows_ok w'"
    using open_rows_put [OF assms(1)] t open_rows_subset [OF assms(1)]
    by (auto simp: run_guard_def drop_tx_def split: if_splits)
  show "prepare_tx gap t w = Some w' \<Longrightarrow> open_rows_ok w'"
    using open_rows_put [OF assms(1)] t by (auto simp: prepare_tx_def split: option.splits if_splits)
  show "commit_tx t w = Some w' \<Longrightarrow> open_rows_ok w'"
    using open_rows_subset [OF assms(1)] by (auto simp: commit_tx_def drop_tx_def split: if_splits)
qed

lemma open_rows_probe:
  assumes "open_rows_ok w" "fence_act gap a w = Some w'" "probe_action a"
  shows "open_rows_ok w'"
  using assms
  by (cases a)
    (auto simp: probe_fail_def sample_clock_def scan_activity_def scan_prepared_def stamp_def
       commit_token_def record_sample_def rotate_epoch_def open_rows_ok_def
       split: option.splits if_splits prod.splits probe_stage.splits RecordOutcome.splits)

lemma open_rows_simps:
  "open_rows_ok (w\<lparr>fw_clock := now\<rparr>) = open_rows_ok w"
  "open_rows_ok (w\<lparr>fw_log := log\<rparr>) = open_rows_ok w"
  "open_rows_ok (restore n w)"
  "open_rows_ok w \<Longrightarrow> open_rows_ok (drop_tx xid w)"
  by (auto simp: open_rows_ok_def restore_def drop_tx_def)

lemma open_rows_act:
  assumes "open_rows_ok w" "fence_act gap a w = Some w'"
  shows "open_rows_ok w'"
proof (cases "probe_action a")
  case False
  then show ?thesis
    using assms
    by (cases a) (auto simp: on_tx_def begin_tx_def foreign_beat_def seed_heartbeat_def open_rows_simps
        split: option.splits if_splits prod.splits dest!: tx_of_Some
        intro: open_rows_tx open_rows_put)
qed (use assms open_rows_probe in blast)

lemma rows_inv_step: "fence_step w w' \<Longrightarrow> rows_inv w \<Longrightarrow> rows_inv w'"
  unfolding fence_step_def
  using rows_inv_advance_log act_advances open_rows_act unfolding rows_inv_def open_rows_ok_def
  by meson

interpretation fence_rows: invariant_system fence_start fence_step rows_inv
proof
  fix w
  assume "fence_start w"
  then show "rows_inv w"
    by (auto simp: fence_start_def fence_boot_def rows_inv_def rows_of_def)
qed (rule rows_inv_step)

section \<open>What a proved session has seen\<close>

lemma fence_step_advance: "fence_step w w' \<Longrightarrow> advance w w'"
  using act_advances by (auto simp: fence_step_def)

lemma steps_keep_cover:
  assumes "fence_step\<^sup>*\<^sup>* w w'" "fence_inv w" "entry_covers e w"
  shows "entry_covers e w' \<and> (\<exists>ext. fw_log w' = fw_log w @ ext)"
  using assms(1)
proof (induction rule: rtranclp_induct)
  case (step w1 w2)
  have "tokens_mono (fw_log w1)"
    using fence.steps_inv [OF step(1) assms(2)] by (simp add: fence_inv_parts)
  then have "entry_covers e w2"
    using entry_covers_advance [OF fence_step_advance [OF step(2)]] step(3) by blast
  moreover have "\<exists>ext. fw_log w2 = fw_log w1 @ ext"
    using fence_step_advance [OF step(2)] by (auto simp: advance_def)
  ultimately show ?case
    using step(3) by auto
qed (use assms(3) in auto)

lemma resolve_Proved:
  assumes "fence_resolve f token epoch = Proved e"
  shows "e \<in> set (fi_ring f) \<and> te_token e \<le> token"
proof -
  have "find (\<lambda>e. te_token e \<le> token) (rev (fi_ring f)) = Some e"
    using assms by (auto simp: fence_resolve_def split: if_splits option.splits)
  then obtain i where "i < length (rev (fi_ring f))" "te_token e \<le> token" "e = rev (fi_ring f) ! i"
    by (auto simp: find_Some_iff)
  then show ?thesis
    by (metis nth_mem set_rev)
qed

lemma proved_suffix:
  assumes reach: "reach fence_start fence_step w" and later: "fence_step\<^sup>*\<^sup>* w w'"
    and hb: "heartbeat (take k (fw_log w)) = Some (token, epoch)"
    and res: "fence_resolve (fw_fence w) token epoch = Proved e"
  obtains ext where "fw_log w' = take k (fw_log w) @ ext"
    and "\<forall>c\<in>set ext. te_committed_at e \<le> entry_at c \<and> (\<forall>r\<in>set (entry_rows c). later_than e r)"
proof -
  have inv: "fence_inv w"
    using fence.reach_inv [OF reach] .
  have e: "entry_covers e w" "te_token e \<le> token"
    using inv resolve_Proved [OF res] by (auto simp: fence_inv_parts ring_sound_def)
  obtain ext where w': "entry_covers e w'" "fw_log w' = fw_log w @ ext"
    using steps_keep_cover [OF later inv e(1)] by auto
  then have split: "fw_log w' = take k (fw_log w) @ (drop k (fw_log w) @ ext)"
    by simp
  show thesis
    using that [OF split] covers_suffix [OF w'(1) split hb e(2)] by blast
qed

section \<open>Sorted pages\<close>

lemma filter_key_sort: "filter (\<lambda>x. f x = v) (sort_key f xs) = filter (\<lambda>x. f x = v) xs"
proof -
  have "sort_key f (filter (\<lambda>x. f x = v) xs) = filter (\<lambda>x. f x = v) xs"
    using sorted_map_same [of f "\<lambda>_. v" xs] by (intro properties_for_sort_key) simp_all
  then show ?thesis
    by (simp add: filter_sort)
qed

text \<open>Rows that sort after a full page do not change it.\<close>

lemma take_sort_key_append:
  fixes f :: "'a \<Rightarrow> 'b::linorder"
  assumes above: "\<And>x y. x \<in> set (take n (sort_key f xs)) \<Longrightarrow> y \<in> set ys \<Longrightarrow> f x \<le> f y"
    and n: "n \<le> length xs"
  shows "take n (sort_key f (xs @ ys)) = take n (sort_key f xs)"
proof -
  let ?a = "take n (sort_key f xs)" and ?b = "drop n (sort_key f xs)"
  have split: "sort_key f xs = ?a @ ?b"
    by simp
  have sorted: "sorted (map f (?a @ ?b))"
    by (simp only: append_take_drop_id sorted_sort_key)
  have "sort_key f (xs @ ys) = ?a @ sort_key f (?b @ ys)"
  proof (rule properties_for_sort_key)
    show "mset (?a @ sort_key f (?b @ ys)) = mset (xs @ ys)"
      by (metis append_assoc append_take_drop_id mset_append mset_sort)
    show "filter (\<lambda>x. f k = f x) (?a @ sort_key f (?b @ ys)) = filter (\<lambda>x. f k = f x) (xs @ ys)" for k
    proof -
      have "filter (\<lambda>x. f x = f k) (?a @ sort_key f (?b @ ys)) =
            filter (\<lambda>x. f x = f k) (?a @ ?b) @ filter (\<lambda>x. f x = f k) ys"
        by (simp only: filter_append filter_key_sort append_assoc)
      also have "\<dots> = filter (\<lambda>x. f x = f k) (xs @ ys)"
        by (simp only: append_take_drop_id filter_append filter_key_sort)
      finally show ?thesis
        by (simp only: eq_commute [of "f k"])
    qed
    show "sorted (map f (?a @ sort_key f (?b @ ys)))"
      using sorted above by (auto simp: sorted_append simp del: append_take_drop_id)
  qed
  moreover have "length ?a = n"
    using n by simp
  ultimately show ?thesis
    by simp
qed

lemma sorted_last:
  assumes "sorted (map f xs)" "x \<in> set xs"
  shows "f x \<le> f (last xs)"
  using assms by (induction xs) auto

section \<open>The routed pages\<close>

lemma route_Replica:
  assumes "route_read pool budget p f1 now1 (Observed token epoch) f2 now2 = Replica e reason"
  shows "fence_resolve f2 token epoch = Proved e" "route_verdict p budget now2 e = Some reason"
  using assms
  by (auto simp: route_read_def split: if_splits option.splits sum.splits ResolveOutcome.splits)

lemma window_ignores_later:
  assumes "\<forall>r\<in>set ext. er_channel r \<noteq> None \<longrightarrow> ts < er_created_at r"
  shows "get_channel_window_on (rows @ ext) community channel limit (Some (ts, i)) kinds =
         get_channel_window_on rows community channel limit (Some (ts, i)) kinds"
proof -
  have "filter (window_matches community channel (Some (ts, i)) kinds) ext = []"
    using assms by (fastforce simp: filter_empty_conv window_matches_def)
  then show ?thesis
    by (simp add: get_channel_window_on_def)
qed

lemma thread_ignores_later:
  assumes later: "\<forall>r\<in>set ext. wall < er_created_at r \<or> er_thread r = None"
    and full: "limit \<le> length (get_thread_replies_on rows community root depth_limit limit key)"
    and tail: "ring_back (get_thread_replies_on rows community root depth_limit limit key) = Some tail"
      "er_created_at tail \<le> wall"
  shows "get_thread_replies_on (rows @ ext) community root depth_limit limit key =
         get_thread_replies_on rows community root depth_limit limit key"
proof -
  let ?f = "\<lambda>r. (er_created_at r, er_id r)" and ?P = "thread_matches community root depth_limit key"
  let ?page = "take limit (sort_key ?f (filter ?P rows))"
  have replies: "get_thread_replies_on rows community root depth_limit limit key = filter er_ok ?page"
    by (simp add: get_thread_replies_on_def)
  have len: "limit \<le> length (filter er_ok ?page)"
    using full replies by simp
  also have "\<dots> \<le> length ?page"
    by (rule length_filter_le)
  finally have n: "limit \<le> length (filter ?P rows)"
    by simp
  have "length (filter er_ok ?page) = length ?page"
    using len length_filter_le [of er_ok ?page] by simp
  then have page: "filter er_ok ?page = ?page"
    using length_filter_less [of _ ?page er_ok] by (intro filter_True) force
  have tail_last: "tail = last ?page" "?page \<noteq> []"
    using tail(1) replies page by (auto simp: ring_back_def split: if_splits)
  have "?f x \<le> ?f y" if x: "x \<in> set ?page" and y: "y \<in> set (filter ?P ext)" for x y
  proof -
    have "sorted (map ?f ?page)"
      by (simp add: take_map [symmetric] sorted_wrt_take)
    then have "?f x \<le> ?f tail"
      using sorted_last [of ?f ?page x] x tail_last(1) by simp
    then have "er_created_at x \<le> wall"
      using tail(2) by (auto simp: less_eq_prod_def)
    moreover have "wall < er_created_at y"
      using y later by (auto simp: thread_matches_def split: option.splits)
    ultimately show ?thesis
      by (simp add: less_eq_prod_def)
  qed
  then have "take limit (sort_key ?f (filter ?P rows @ filter ?P ext)) = ?page"
    using n by (intro take_sort_key_append) auto
  then show ?thesis
    by (simp add: get_thread_replies_on_def)
qed

section \<open>A sample run\<close>

definition old_reply :: event_row where
  "old_reply = \<lparr>er_community = 1, er_id = [4], er_channel = Some 5, er_created_at = 990 * SECOND,
     er_kind = 9, er_thread = Some (Some [1], 1, True), er_ok = True\<rparr>"

definition new_reply :: event_row where
  "new_reply = old_reply\<lparr>er_id := [2], er_created_at := 1900 * SECOND\<rparr>"

definition writer_view :: "int \<Rightarrow> activity list" where
  "writer_view start = [\<lparr>ac_pid = 3, ac_backend_type = Some ''client backend'',
     ac_state = Some ''active'', ac_xact_start = Some start\<rparr>]"

text \<open>
  A reply is committed, then the probe runs while a second reply is past its guard and not yet
  committed.
\<close>

definition probe_run :: "fence_action list" where
  "probe_run =
     [Seed 7, Begin 1 3, Show 1, Write 1 old_reply, Guard 1, Commit 1, Tick 1000000000,
      Begin 2 3, Show 2, Write 2 new_reply, Guard 2,
      Sample, ScanActivity (writer_view (2000 * SECOND)), ScanPrepared, Stamp, CommitToken, RecordSample]"

definition probed :: fence_world where
  "probed = the (fence_acts FENCE_CLOCK_MARGIN probe_run (fence_boot 9 (1000 * SECOND)))"

definition probed_later :: fence_world where
  "probed_later = the (fence_act FENCE_CLOCK_MARGIN (Commit 2) probed)"

lemma acts_steps:
  assumes "fence_acts FENCE_CLOCK_MARGIN as w = Some w'" "list_all (\<lambda>a. \<not> restores a) as"
  shows "fence_step\<^sup>*\<^sup>* w w'"
  using assms
proof (induction as arbitrary: w)
  case (Cons a as)
  then obtain w1 where "fence_act FENCE_CLOCK_MARGIN a w = Some w1" "fence_step\<^sup>*\<^sup>* w1 w'"
    by (auto split: option.splits)
  moreover have "\<not> restores a"
    using Cons(3) by simp
  ultimately have "fence_step w w1" "fence_step\<^sup>*\<^sup>* w1 w'"
    by (auto simp: fence_step_def)
  then show ?case
    by (rule converse_rtranclp_into_rtranclp)
qed simp

lemma steps_reach: "fence_step\<^sup>*\<^sup>* w w' \<Longrightarrow> fence_start w \<Longrightarrow> reach fence_start fence_step w'"
  by (induction rule: rtranclp_induct) (auto intro: reach.intros)

lemma probed_acts: "fence_acts FENCE_CLOCK_MARGIN probe_run (fence_boot 9 (1000 * SECOND)) = Some probed"
proof -
  have "fence_acts FENCE_CLOCK_MARGIN probe_run (fence_boot 9 (1000 * SECOND)) \<noteq> None"
    by code_simp
  then show ?thesis
    by (auto simp: probed_def)
qed

lemma probed_reached: "reach fence_start fence_step probed"
proof -
  have "list_all (\<lambda>a. \<not> restores a) probe_run"
    by code_simp
  then show ?thesis
    using steps_reach [OF acts_steps [OF probed_acts]] by (auto simp: fence_start_def)
qed

lemma probed_moves_on: "fence_step\<^sup>*\<^sup>* probed probed_later"
proof -
  have "fence_acts FENCE_CLOCK_MARGIN [Commit 2] probed = Some probed_later"
    by code_simp
  then show ?thesis
    by (rule acts_steps) simp
qed

section \<open>Claims\<close>







section \<open>Where the proof ends\<close>

definition probe_round :: "fence_action list" where
  "probe_round = [Sample, ScanActivity [], ScanPrepared, Stamp, CommitToken, RecordSample]"

text \<open>
  The writer is restored from a backup that kept the epoch. \<open>before_restore\<close> is the timeline a
  lagging reader may still serve; after the restore a reply is committed that this reader never
  sees.
\<close>

definition before_restore :: fence_world where
  "before_restore =
     the (fence_acts FENCE_CLOCK_MARGIN ([Seed 7] @ probe_round @ [ForeignBeat None, ForeignBeat None])
            (fence_boot 9 (1000 * SECOND)))"

definition after_restore :: "fence_action list" where
  "after_restore =
     [Restore 1, Begin 1 3, Show 1, Write 1 old_reply, Guard 1, Commit 1, Tick 1000000000] @ probe_round"


text \<open>
  The margin is what protects the pages from prepared transactions: the guard of a transaction runs
  before the instant that \<open>pg_prepared_xacts\<close> shows. If \<open>PREPARE TRANSACTION\<close> takes longer than the
  margin between the two, the wall passes over a row of the transaction.
\<close>

definition edge_row :: event_row where
  "edge_row = old_reply\<lparr>er_created_at := 40 * SECOND\<rparr>"

definition late_prepare :: "fence_action list" where
  "late_prepare =
     [Seed 7, Begin 1 3, Show 1, Write 1 edge_row, Guard 1, Tick 6000000, Prepare 1] @ probe_round"

lemma late_prepare_leaves_hole:
  "\<exists>w w' e. fence_acts (10 * SECOND) late_prepare (fence_boot 9 (1000 * SECOND)) = Some w \<and>
     fence_act (10 * SECOND) (Commit 1) w = Some w' \<and>
     fence_resolve (fw_fence w) 1 7 = Proved e \<and> heartbeat (fw_log w) = Some (1, 7) \<and>
     edge_row \<in> set (rows_of (fw_log w')) \<and> edge_row \<notin> set (rows_of (fw_log w)) \<and>
     er_created_at edge_row \<le> te_fence_wall e"
proof -
  let ?w = "the (fence_acts (10 * SECOND) late_prepare (fence_boot 9 (1000 * SECOND)))"
  let ?w' = "the (fence_act (10 * SECOND) (Commit 1) ?w)"
  have "fence_acts (10 * SECOND) late_prepare (fence_boot 9 (1000 * SECOND)) = Some ?w"
      "fence_act (10 * SECOND) (Commit 1) ?w = Some ?w'"
      "fence_resolve (fw_fence ?w) 1 7 = Proved (hd (fi_ring (fw_fence ?w)))"
      "heartbeat (fw_log ?w) = Some (1, 7)"
      "edge_row \<in> set (rows_of (fw_log ?w'))" "edge_row \<notin> set (rows_of (fw_log ?w))"
      "er_created_at edge_row \<le> te_fence_wall (hd (fi_ring (fw_fence ?w)))"
    by code_simp+
  then show ?thesis
    by blast
qed

end
