(* ===== verification/K8s_Deploy.thy ===== *)
theory K8s_Deploy
  imports Prelude Rust_Text Decimal "HOL-Library.List_Lexorder" "HOL-Library.Char_ord"
begin

text \<open>
  The deploy reconciler of the Kubernetes provider (\<open>crates/buzz-backend-kubernetes/src\<close>):
  \<open>naming.rs\<close>, \<open>intent.rs\<close>, \<open>pod.rs\<close>, \<open>observe.rs\<close>, \<open>classify.rs\<close>, \<open>gc.rs\<close> and \<open>reconcile.rs\<close>.

  The reconciler talks to the cluster through the trait \<open>Substrate\<close>. A call of the trait with its
  answer is an \<open>event\<close>, and an operation of the reconciler is a function on the list of the events
  still to come: it takes the events of its own calls from the front and refuses a list whose next
  event is not the call it makes. A list that ends while the operation waits for an answer is
  \<open>Pending\<close>. So the lists an operation does not refuse are its possible interactions, finished or
  not, with an arbitrary cluster and arbitrary other writers.

  Labels and annotations are association lists. The SHA-256 fingerprint of a template is a
  parameter. Durations are seconds.
\<close>

section \<open>Kubernetes objects\<close>

record ContainerState =
  st_running :: bool
  st_terminated :: "(int \<times> string option) option"
  st_waiting :: "(string option \<times> string option) option"

record ContainerStatus =
  ct_name :: string
  ct_state :: "ContainerState option"

record PodCondition =
  pc_type :: string
  pc_status :: string
  pc_reason :: "string option"
  pc_message :: "string option"

record PodStatus =
  ps_phase :: "string option"
  ps_container_statuses :: "ContainerStatus list option"
  ps_conditions :: "PodCondition list option"

text \<open>
  A container of the pod's \<open>spec\<close> is its \<open>envFrom\<close> list, and a source of that list the name of
  its Secret, if it refers to one.
\<close>

record Pod =
  po_name :: "string option"
  po_uid :: "string option"
  po_resource_version :: "string option"
  po_deletion_timestamp :: "int option"
  po_labels :: "(string, string) hmap option"
  po_annotations :: "(string, string) hmap option"
  po_containers :: "string option list option list option"
  po_status :: "PodStatus option"

record Secret =
  se_name :: "string option"
  se_labels :: "(string, string) hmap option"
  se_annotations :: "(string, string) hmap option"
  se_creation_timestamp :: "int option"
  se_data :: "(string, string) hmap"

section \<open>Naming\<close>

definition MANAGED_BY :: string where
  "MANAGED_BY = ''buzz-backend-kubernetes''"

definition LABEL_MANAGED_BY :: string where
  "LABEL_MANAGED_BY = ''app.kubernetes.io/managed-by''"

definition LABEL_BINDING_VERSION :: string where
  "LABEL_BINDING_VERSION = ''buzz.block.xyz/binding-version''"

definition BINDING_VERSION :: string where
  "BINDING_VERSION = ''1''"

definition LABEL_AGENT_PUBKEY :: string where
  "LABEL_AGENT_PUBKEY = ''buzz.block.xyz/agent-pubkey''"

definition ANNOTATION_PUBKEY_FULL :: string where
  "ANNOTATION_PUBKEY_FULL = ''buzz.block.xyz/agent-pubkey-full''"

definition ANNOTATION_CREATE_INTENT :: string where
  "ANNOTATION_CREATE_INTENT = ''buzz.block.xyz/create-intent''"

definition ANNOTATION_IMAGE :: string where
  "ANNOTATION_IMAGE = ''buzz.block.xyz/image''"

text \<open>An identity is the 64 hex digits of its public key, which the provider derives itself.\<close>

type_synonym AgentIdentity = string

definition label_pubkey :: "AgentIdentity \<Rightarrow> string" where
  "label_pubkey i = take 32 i"

definition pod_name :: "AgentIdentity \<Rightarrow> string" where
  "pod_name i = ''buzz-agent-'' @ take 12 i"

definition secret_name :: "AgentIdentity \<Rightarrow> string \<Rightarrow> string" where
  "secret_name i generation = ''buzz-agent-'' @ take 12 i @ ''-'' @ generation"

definition selector :: "AgentIdentity \<Rightarrow> string" where
  "selector i = LABEL_AGENT_PUBKEY @ ''='' @ label_pubkey i @ '','' @ LABEL_MANAGED_BY @ ''='' @ MANAGED_BY"

definition object_labels :: "AgentIdentity \<Rightarrow> (string, string) hmap" where
  "object_labels i =
     [(LABEL_MANAGED_BY, MANAGED_BY), (LABEL_AGENT_PUBKEY, label_pubkey i),
      (LABEL_BINDING_VERSION, BINDING_VERSION)]"

section \<open>The create intent\<close>

record Resources =
  rs_cpu_request :: string
  rs_memory_request :: string
  rs_cpu_limit :: string
  rs_memory_limit :: string

record ProviderConfig =
  cf_namespace :: string
  cf_image :: string
  cf_resources :: Resources
  cf_service_account :: "string option"

record IntentTemplate =
  it_template_version :: nat
  it_namespace :: string
  it_image :: string
  it_cpu_request :: string
  it_memory_request :: string
  it_cpu_limit :: string
  it_memory_limit :: string
  it_service_account :: "string option"
  it_restart_policy :: string
  it_termination_grace_period_seconds :: int
  it_env_keys :: "string list"
  it_env_from_secret :: string
  it_workspace_mount_path :: string
  it_run_as_user :: int
  it_run_as_group :: int

definition intent_template :: "ProviderConfig \<Rightarrow> string list \<Rightarrow> IntentTemplate" where
  "intent_template cfg env_keys =
     \<lparr>it_template_version = 1,
      it_namespace = cf_namespace cfg,
      it_image = cf_image cfg,
      it_cpu_request = rs_cpu_request (cf_resources cfg),
      it_memory_request = rs_memory_request (cf_resources cfg),
      it_cpu_limit = rs_cpu_limit (cf_resources cfg),
      it_memory_limit = rs_memory_limit (cf_resources cfg),
      it_service_account = cf_service_account cfg,
      it_restart_policy = ''Never'',
      it_termination_grace_period_seconds = 60,
      it_env_keys = sort env_keys,
      it_env_from_secret = ''<per-attempt-secret>'',
      it_workspace_mount_path = ''/home/agent'',
      it_run_as_user = 10001,
      it_run_as_group = 10001\<rparr>"

section \<open>Building the objects\<close>

definition START_NONCE_KEY :: string where
  "START_NONCE_KEY = ''BUZZ_MANAGED_AGENT_START_NONCE''"

definition build_secret :: "AgentIdentity \<Rightarrow> string \<Rightarrow> (string, string) hmap \<Rightarrow> Secret" where
  "build_secret i generation env =
     \<lparr>se_name = Some (secret_name i generation),
      se_labels = Some (object_labels i),
      se_annotations = Some [(ANNOTATION_PUBKEY_FULL, i)],
      se_creation_timestamp = None,
      se_data = env\<rparr>"

definition build_pod :: "AgentIdentity \<Rightarrow> ProviderConfig \<Rightarrow> string \<Rightarrow> string \<Rightarrow> Pod" where
  "build_pod i cfg generation fingerprint =
     \<lparr>po_name = Some (pod_name i),
      po_uid = None,
      po_resource_version = None,
      po_deletion_timestamp = None,
      po_labels = Some (object_labels i),
      po_annotations = Some [(ANNOTATION_PUBKEY_FULL, i), (ANNOTATION_CREATE_INTENT, fingerprint),
                             (ANNOTATION_IMAGE, cf_image cfg)],
      po_containers = Some [Some [Some (secret_name i generation)]],
      po_status = None\<rparr>"

section \<open>Observation\<close>

record Fence =
  fn_uid :: string
  fn_resource_version :: string

datatype PullFailure = Unauthorized | ManifestUnknown | ArchMismatch

datatype Startup =
    Started
  | Terminated
  | NeverStartedRecoverable
  | NeverStartedProvablyBroken
  | NeverStartedPullFailing PullFailure

record VerifiedPod =
  vp_name :: string
  vp_fence :: Fence
  vp_deletion_marked :: bool
  vp_startup :: Startup
  vp_recorded_intent :: "string option"

datatype StartupObservation = Resolved Startup | ConfigErrorPendingSecretCheck string

definition has_marker :: "(string, string) hmap option \<Rightarrow> bool" where
  "has_marker labels =
     (case labels of
        None \<Rightarrow> False
      | Some l \<Rightarrow> hm_get l LABEL_MANAGED_BY = Some MANAGED_BY \<and>
                  hm_get l LABEL_BINDING_VERSION = Some BINDING_VERSION)"

definition annotation_matches :: "(string, string) hmap option \<Rightarrow> AgentIdentity \<Rightarrow> bool" where
  "annotation_matches annotations i =
     (case annotations of
        None \<Rightarrow> False
      | Some a \<Rightarrow> hm_get a ANNOTATION_PUBKEY_FULL = Some i)"

definition secret_is_ours :: "Secret \<Rightarrow> AgentIdentity \<Rightarrow> bool" where
  "secret_is_ours s i \<longleftrightarrow> has_marker (se_labels s) \<and> annotation_matches (se_annotations s) i"

definition str_contains :: "string \<Rightarrow> string \<Rightarrow> bool" where
  "str_contains s p \<longleftrightarrow> split_sub p s \<noteq> None"

definition classify_pull_failure :: "string \<Rightarrow> PullFailure option" where
  "classify_pull_failure message =
     (let m = to_ascii_lowercase message in
      if str_contains m ''401'' \<or> str_contains m ''unauthorized'' \<or> str_contains m ''403'' \<or>
         str_contains m ''denied'' \<or> str_contains m ''authentication required''
      then Some Unauthorized
      else if str_contains m ''manifest unknown'' \<or> str_contains m ''not found'' \<or>
              str_contains m ''manifest_unknown'' \<or> str_contains m ''repository does not exist''
      then Some ManifestUnknown
      else if str_contains m ''no match for platform'' \<or> str_contains m ''no matching manifest''
      then Some ArchMismatch
      else None)"

definition referenced_secret :: "Pod \<Rightarrow> string option" where
  "referenced_secret p =
     (case po_containers p of
        None \<Rightarrow> None
      | Some cs \<Rightarrow>
          (case List.map_filter id (concat (map (\<lambda>c. case c of None \<Rightarrow> [] | Some l \<Rightarrow> l) cs)) of
             [] \<Rightarrow> None
           | n # ns \<Rightarrow> Some n))"

text \<open>The state of the container named \<open>agent\<close>.\<close>

definition agent_state :: "Pod \<Rightarrow> ContainerState option" where
  "agent_state p =
     (case po_status p of
        None \<Rightarrow> None
      | Some s \<Rightarrow>
          (case ps_container_statuses s of
             None \<Rightarrow> None
           | Some cs \<Rightarrow> (case find (\<lambda>c. ct_name c = ''agent'') cs of
                           None \<Rightarrow> None | Some c \<Rightarrow> ct_state c)))"

definition decode_waiting :: "Pod \<Rightarrow> string \<Rightarrow> string \<Rightarrow> StartupObservation" where
  "decode_waiting p reason message =
     (if reason = ''InvalidImageName'' then Resolved NeverStartedProvablyBroken
      else if reason = ''ErrImagePull'' \<or> reason = ''ImagePullBackOff''
      then (case classify_pull_failure message of
              Some failure \<Rightarrow> Resolved (NeverStartedPullFailing failure)
            | None \<Rightarrow> Resolved NeverStartedRecoverable)
      else if reason = ''CreateContainerConfigError''
      then (case referenced_secret p of
              Some s \<Rightarrow> ConfigErrorPendingSecretCheck s
            | None \<Rightarrow> Resolved NeverStartedRecoverable)
      else Resolved NeverStartedRecoverable)"

definition decode_phase :: "Pod \<Rightarrow> StartupObservation" where
  "decode_phase p =
     (case po_status p of
        None \<Rightarrow> Resolved NeverStartedRecoverable
      | Some s \<Rightarrow> if ps_phase s = Some ''Succeeded'' \<or> ps_phase s = Some ''Failed''
                  then Resolved Terminated else Resolved NeverStartedRecoverable)"

definition decode_startup :: "Pod \<Rightarrow> StartupObservation" where
  "decode_startup p =
     (case agent_state p of
        None \<Rightarrow> decode_phase p
      | Some st \<Rightarrow>
          if st_running st then Resolved Started
          else if st_terminated st \<noteq> None then Resolved Terminated
          else case st_waiting st of
                 None \<Rightarrow> decode_phase p
               | Some (reason, message) \<Rightarrow>
                   decode_waiting p (case reason of None \<Rightarrow> [] | Some r \<Rightarrow> r)
                                    (case message of None \<Rightarrow> [] | Some m \<Rightarrow> m))"

definition int_text :: "int \<Rightarrow> string" where
  "int_text i = (if i < 0 then ''-'' @ decimal (nat (- i)) else decimal (nat i))"

definition false_condition :: "PodStatus \<Rightarrow> PodCondition option" where
  "false_condition s =
     (case ps_conditions s of None \<Rightarrow> None | Some cs \<Rightarrow> find (\<lambda>c. pc_status c = ''False'') cs)"

definition condition_text :: "PodCondition \<Rightarrow> string" where
  "condition_text c =
     (let reason = (case pc_reason c of None \<Rightarrow> [] | Some r \<Rightarrow> r);
          message = (case pc_message c of None \<Rightarrow> [] | Some m \<Rightarrow> m);
          detail = (if reason = [] then message else if message = [] then reason
                    else reason @ '': '' @ message)
      in if detail = [] then ''pod condition '' @ pc_type c @ '' is false''
         else ''pod condition '' @ pc_type c @ '' is false: '' @ detail)"

definition state_condition :: "ContainerState \<Rightarrow> string option" where
  "state_condition st =
     (case st_waiting st of
        Some (Some reason, message) \<Rightarrow> Some (''the container is waiting, reason '' @ reason)
      | _ \<Rightarrow>
          (case st_terminated st of
             Some (code, Some reason) \<Rightarrow>
               Some (''the container exited with code '' @ int_text code @ '' ('' @ reason @ '')'')
           | Some (code, None) \<Rightarrow> Some (''the container exited with code '' @ int_text code)
           | None \<Rightarrow> None))"

definition pod_condition :: "Pod \<Rightarrow> string option" where
  "pod_condition p =
     (case po_status p of
        None \<Rightarrow> None
      | Some s \<Rightarrow>
          (case (case agent_state p of None \<Rightarrow> None | Some st \<Rightarrow> state_condition st) of
             Some text \<Rightarrow> Some text
           | None \<Rightarrow>
               (case false_condition s of
                  Some c \<Rightarrow> Some (condition_text c)
                | None \<Rightarrow> map_option (\<lambda>ph. ''the pod is '' @ ph) (ps_phase s))))"

definition pod_fence :: "Pod \<Rightarrow> Fence option" where
  "pod_fence p =
     (case (po_uid p, po_resource_version p) of
        (Some u, Some rv) \<Rightarrow> Some \<lparr>fn_uid = u, fn_resource_version = rv\<rparr>
      | _ \<Rightarrow> None)"

definition recorded_intent :: "Pod \<Rightarrow> string option" where
  "recorded_intent p =
     (case po_annotations p of None \<Rightarrow> None | Some a \<Rightarrow> hm_get a ANNOTATION_CREATE_INTENT)"

definition verify_pod :: "Pod \<Rightarrow> AgentIdentity \<Rightarrow> Startup \<Rightarrow> VerifiedPod option" where
  "verify_pod p i startup =
     (if \<not> has_marker (po_labels p) then None
      else if \<not> annotation_matches (po_annotations p) i then None
      else case (po_name p, pod_fence p) of
             (Some n, Some f) \<Rightarrow>
               Some \<lparr>vp_name = n, vp_fence = f,
                     vp_deletion_marked = (po_deletion_timestamp p \<noteq> None),
                     vp_startup = startup, vp_recorded_intent = recorded_intent p\<rparr>
           | _ \<Rightarrow> None)"

section \<open>Classification\<close>

datatype Action =
    Create
  | Delete string Fence
  | AwaitDisappearance string
  | NoOp string
  | Observe string
  | Report string PullFailure

definition classify :: "VerifiedPod option \<Rightarrow> string \<Rightarrow> Action" where
  "classify observed desired =
     (case observed of
        None \<Rightarrow> Create
      | Some p \<Rightarrow>
          if vp_deletion_marked p then AwaitDisappearance (vp_name p)
          else case vp_startup p of
                 Started \<Rightarrow> NoOp (vp_name p)
               | Terminated \<Rightarrow> Delete (vp_name p) (vp_fence p)
               | NeverStartedProvablyBroken \<Rightarrow> Delete (vp_name p) (vp_fence p)
               | NeverStartedPullFailing failure \<Rightarrow> Report (vp_name p) failure
               | NeverStartedRecoverable \<Rightarrow>
                   if vp_recorded_intent p = Some desired then Observe (vp_name p)
                   else Delete (vp_name p) (vp_fence p))"

section \<open>Garbage collection\<close>

definition OPERATION_DEADLINE_SECS :: nat where
  "OPERATION_DEADLINE_SECS = 600"

definition ORPHAN_SECRET_MIN_AGE_SECS :: int where
  "ORPHAN_SECRET_MIN_AGE_SECS = 2 * int OPERATION_DEADLINE_SECS"

record GcPlan =
  gp_pods :: "string list"
  gp_secrets :: "string list"

fun orphan_sweep ::
  "AgentIdentity \<Rightarrow> string list \<Rightarrow> int \<Rightarrow> Secret list \<Rightarrow> string list \<Rightarrow> string list" where
  "orphan_sweep i protected now [] doomed = doomed"
| "orphan_sweep i protected now (s # ss) doomed =
     orphan_sweep i protected now ss
       (if \<not> secret_is_ours s i then doomed
        else case se_name s of
               None \<Rightarrow> doomed
             | Some n \<Rightarrow>
                 if n \<in> set protected \<or> n \<in> set doomed then doomed
                 else case se_creation_timestamp s of
                        None \<Rightarrow> doomed
                      | Some created \<Rightarrow>
                          if now - created \<ge> ORPHAN_SECRET_MIN_AGE_SECS then doomed @ [n] else doomed)"

definition gc_plan ::
  "AgentIdentity \<Rightarrow> Pod list \<Rightarrow> Secret list \<Rightarrow> (Pod \<Rightarrow> bool) \<Rightarrow> int option \<Rightarrow> GcPlan" where
  "gc_plan i pods secrets terminated now =
     (let ours = filter (\<lambda>p. verify_pod p i Started \<noteq> None) pods;
          doomed_pods = filter terminated ours;
          doomed_names = List.map_filter po_name doomed_pods;
          protected = List.map_filter referenced_secret
            (filter (\<lambda>p. (case po_name p of None \<Rightarrow> [] | Some n \<Rightarrow> n) \<notin> set doomed_names) ours);
          with_pods = List.map_filter referenced_secret doomed_pods
      in \<lparr>gp_pods = doomed_names,
          gp_secrets = (case now of
                          None \<Rightarrow> with_pods
                        | Some t \<Rightarrow> orphan_sweep i protected t secrets with_pods)\<rparr>)"

section \<open>Interactions with the cluster\<close>

datatype CreateOutcome = Created | AlreadyExists

datatype DeleteOutcome = Accepted | NotFound | PreconditionFailed

datatype k8s_event =
    EnsureNamespace string "string option"
  | ListPods string "string + Pod list \<times> int option"
  | ListSecrets string "string + Secret list"
  | SecretExists string "string + bool"
  | CreateSecret Secret "string option"
  | CreatePod Pod "string + CreateOutcome"
  | DeletePod string Fence "string + DeleteOutcome"
  | DeleteSecret string "string option"
  | GetPod string "string + Pod option"
  | Sleep
  | Elapsed nat
  | NewGeneration string

datatype 'a outcome = Done 'a "k8s_event list" | Pending | Refused

type_synonym 'a run = "k8s_event list \<Rightarrow> 'a outcome"

definition ret :: "'a \<Rightarrow> 'a run" where
  "ret x = (\<lambda>es. Done x es)"

definition seq :: "'a run \<Rightarrow> ('a \<Rightarrow> 'b run) \<Rightarrow> 'b run" where
  "seq m f = (\<lambda>es. case m es of Done x es' \<Rightarrow> f x es' | Pending \<Rightarrow> Pending | Refused \<Rightarrow> Refused)"

text \<open>The \<open>?\<close> operator.\<close>

definition seq_ok :: "('e + 'a) run \<Rightarrow> ('a \<Rightarrow> ('e + 'b) run) \<Rightarrow> ('e + 'b) run" where
  "seq_ok m f = seq m (\<lambda>r. case r of Inl e \<Rightarrow> ret (Inl e) | Inr x \<Rightarrow> f x)"

definition ask :: "(k8s_event \<Rightarrow> 'a option) \<Rightarrow> 'a run" where
  "ask f = (\<lambda>es. case es of
     [] \<Rightarrow> Pending
   | e # es' \<Rightarrow> (case f e of None \<Rightarrow> Refused | Some r \<Rightarrow> Done r es'))"

definition ask_namespace :: "string \<Rightarrow> (string + unit) run" where
  "ask_namespace n = ask (\<lambda>e. case e of
     EnsureNamespace m r \<Rightarrow>
       if m = n then Some (case r of None \<Rightarrow> Inr () | Some err \<Rightarrow> Inl err) else None
   | _ \<Rightarrow> None)"

definition ask_list_pods :: "string \<Rightarrow> (string + Pod list \<times> int option) run" where
  "ask_list_pods s = ask (\<lambda>e. case e of ListPods t r \<Rightarrow> if t = s then Some r else None | _ \<Rightarrow> None)"

definition ask_list_secrets :: "string \<Rightarrow> (string + Secret list) run" where
  "ask_list_secrets s = ask (\<lambda>e. case e of ListSecrets t r \<Rightarrow> if t = s then Some r else None | _ \<Rightarrow> None)"

definition ask_secret_exists :: "string \<Rightarrow> (string + bool) run" where
  "ask_secret_exists s = ask (\<lambda>e. case e of SecretExists t r \<Rightarrow> if t = s then Some r else None | _ \<Rightarrow> None)"

definition ask_create_secret :: "Secret \<Rightarrow> (string + unit) run" where
  "ask_create_secret s = ask (\<lambda>e. case e of
     CreateSecret t r \<Rightarrow>
       if t = s then Some (case r of None \<Rightarrow> Inr () | Some err \<Rightarrow> Inl err) else None
   | _ \<Rightarrow> None)"

definition ask_create_pod :: "Pod \<Rightarrow> (string + CreateOutcome) run" where
  "ask_create_pod p = ask (\<lambda>e. case e of CreatePod q r \<Rightarrow> if q = p then Some r else None | _ \<Rightarrow> None)"

definition ask_delete_pod :: "string \<Rightarrow> Fence \<Rightarrow> (string + DeleteOutcome) run" where
  "ask_delete_pod n f = ask (\<lambda>e. case e of
     DeletePod m g r \<Rightarrow> if m = n \<and> g = f then Some r else None | _ \<Rightarrow> None)"

definition ask_delete_secret :: "string \<Rightarrow> string option run" where
  "ask_delete_secret n = ask (\<lambda>e. case e of DeleteSecret m r \<Rightarrow> if m = n then Some r else None | _ \<Rightarrow> None)"

definition ask_get_pod :: "string \<Rightarrow> (string + Pod option) run" where
  "ask_get_pod n = ask (\<lambda>e. case e of GetPod m r \<Rightarrow> if m = n then Some r else None | _ \<Rightarrow> None)"

definition ask_sleep :: "unit run" where
  "ask_sleep = ask (\<lambda>e. case e of Sleep \<Rightarrow> Some () | _ \<Rightarrow> None)"

definition ask_elapsed :: "nat run" where
  "ask_elapsed = ask (\<lambda>e. case e of Elapsed d \<Rightarrow> Some d | _ \<Rightarrow> None)"

definition ask_generation :: "string run" where
  "ask_generation = ask (\<lambda>e. case e of NewGeneration g \<Rightarrow> Some g | _ \<Rightarrow> None)"

text \<open>
  A \<open>loop\<close> whose body either goes on with a new state or leaves. Every body below makes a call, so
  the list gets shorter.
\<close>

function loop_run :: "('s \<Rightarrow> ('s + 'a) run) \<Rightarrow> 's \<Rightarrow> 'a run" where
  "loop_run body s es =
     (case body s es of
        Done (Inl s') es' \<Rightarrow> if length es' < length es then loop_run body s' es' else Refused
      | Done (Inr r) es' \<Rightarrow> Done r es'
      | Pending \<Rightarrow> Pending
      | Refused \<Rightarrow> Refused)"
  by auto
termination
  by (relation "measure (\<lambda>(body, s, es). length es)") auto

declare loop_run.simps [simp del]

section \<open>The reconciler\<close>

datatype DeployError =
    SubstrateError string
  | DisappearanceTimedOut string
  | StartupNotConfirmed string
  | DidNotStart string PullFailure
  | OwnAttemptFailed string string
  | NotManagedHere string
  | WinnerNotConfirmed string
  | WinnerBeingDeleted string
  | WinnerDidNotStart string string

text \<open>An answer of the cluster, with its error text as an error of the deploy.\<close>

definition call :: "(string + 'a) run \<Rightarrow> (DeployError + 'a) run" where
  "call m = seq m (\<lambda>r. case r of Inl e \<Rightarrow> ret (Inl (SubstrateError e)) | Inr x \<Rightarrow> ret (Inr x))"

definition settle :: "Pod \<Rightarrow> (DeployError + Startup) run" where
  "settle p =
     (case decode_startup p of
        Resolved startup \<Rightarrow> ret (Inr startup)
      | ConfigErrorPendingSecretCheck s \<Rightarrow>
          seq_ok (call (ask_secret_exists s))
            (\<lambda>present. ret (Inr (if present then NeverStartedRecoverable
                                else NeverStartedProvablyBroken))))"

definition observe_pod :: "AgentIdentity \<Rightarrow> (DeployError + VerifiedPod option) run" where
  "observe_pod i =
     seq_ok (call (ask_get_pod (pod_name i))) (\<lambda>found.
       case found of
         None \<Rightarrow> ret (Inr None)
       | Some p \<Rightarrow> seq_ok (settle p) (\<lambda>startup. ret (Inr (verify_pod p i startup))))"

definition latest_condition :: "AgentIdentity \<Rightarrow> string run" where
  "latest_condition i =
     seq (ask_get_pod (pod_name i)) (\<lambda>r. ret (case r of
         Inr (Some p) \<Rightarrow> (case pod_condition p of
                           None \<Rightarrow> ''no condition reported by the cluster'' | Some c \<Rightarrow> c)
       | Inr None \<Rightarrow> ''the pod no longer exists''
       | Inl e \<Rightarrow> ''the pod's condition could not be read: '' @ e))"

subsection \<open>Preflight\<close>

fun settle_all :: "Pod list \<Rightarrow> string list \<Rightarrow> (DeployError + string list) run" where
  "settle_all [] terminated = ret (Inr terminated)"
| "settle_all (p # ps) terminated =
     seq_ok (settle p) (\<lambda>startup.
       settle_all ps
         (case po_name p of
            Some n \<Rightarrow> if startup = Terminated then terminated @ [n] else terminated
          | None \<Rightarrow> terminated))"

fun gc_pods :: "string list \<Rightarrow> (DeployError + unit) run" where
  "gc_pods [] = ret (Inr ())"
| "gc_pods (n # ns) =
     seq_ok (call (ask_get_pod n)) (\<lambda>found.
       case found of
         None \<Rightarrow> gc_pods ns
       | Some p \<Rightarrow>
           (case pod_fence p of
              None \<Rightarrow> gc_pods ns
            | Some f \<Rightarrow>
                seq_ok (settle p) (\<lambda>startup.
                  if startup \<noteq> Terminated then gc_pods ns
                  else seq (ask_delete_pod n f) (\<lambda>_. gc_pods ns))))"

fun gc_secrets :: "string list \<Rightarrow> unit run" where
  "gc_secrets [] = ret ()"
| "gc_secrets (n # ns) = seq (ask_delete_secret n) (\<lambda>_. gc_secrets ns)"

definition try_preflight_gc :: "AgentIdentity \<Rightarrow> (DeployError + unit) run" where
  "try_preflight_gc i =
     seq_ok (call (ask_list_pods (selector i))) (\<lambda>(pods, server_now).
     seq_ok (call (ask_list_secrets (selector i))) (\<lambda>secrets.
     seq_ok (settle_all pods []) (\<lambda>terminated.
       let plan = gc_plan i pods secrets
             (\<lambda>p. case po_name p of None \<Rightarrow> False | Some n \<Rightarrow> n \<in> set terminated) server_now
       in seq_ok (gc_pods (gp_pods plan)) (\<lambda>_.
          seq (gc_secrets (gp_secrets plan)) (\<lambda>_. ret (Inr ()))))))"

definition preflight_gc :: "AgentIdentity \<Rightarrow> unit run" where
  "preflight_gc i = seq (try_preflight_gc i) (\<lambda>_. ret ())"

subsection \<open>Waiting\<close>

definition await_disappearance :: "string \<Rightarrow> (DeployError + unit) run" where
  "await_disappearance n =
     loop_run (\<lambda>_.
       seq ask_elapsed (\<lambda>d.
         if d < OPERATION_DEADLINE_SECS
         then seq (call (ask_get_pod n)) (\<lambda>r.
                case r of
                  Inl e \<Rightarrow> ret (Inr (Inl e))
                | Inr None \<Rightarrow> ret (Inr (Inr ()))
                | Inr (Some p) \<Rightarrow> seq ask_sleep (\<lambda>_. ret (Inl ())))
         else ret (Inr (Inl (DisappearanceTimedOut n))))) ()"

definition secret_is_referenced :: "AgentIdentity \<Rightarrow> string \<Rightarrow> (DeployError + bool) run" where
  "secret_is_referenced i s =
     seq_ok (call (ask_list_pods (selector i))) (\<lambda>(pods, server_now).
       ret (Inr (list_ex (\<lambda>p. referenced_secret p = Some s) pods)))"

definition drop_own_secret :: "AgentIdentity \<Rightarrow> string \<Rightarrow> unit run" where
  "drop_own_secret i s =
     seq (secret_is_referenced i s) (\<lambda>r.
       case r of
         Inr False \<Rightarrow> seq (ask_delete_secret s) (\<lambda>_. ret ())
       | _ \<Rightarrow> ret ())"

definition adopt_round :: "AgentIdentity \<Rightarrow> (unit + (DeployError + string)) run" where
  "adopt_round i =
     seq ask_elapsed (\<lambda>d.
       if OPERATION_DEADLINE_SECS \<le> d
       then seq (latest_condition i) (\<lambda>c. ret (Inr (Inl (WinnerNotConfirmed c))))
       else seq (observe_pod i) (\<lambda>r.
         case r of
           Inl e \<Rightarrow> ret (Inr (Inl e))
         | Inr (Some p) \<Rightarrow>
             if vp_startup p = Started then ret (Inr (Inr (vp_name p)))
             else if vp_deletion_marked p then ret (Inr (Inl (WinnerBeingDeleted (pod_name i))))
             else if vp_startup p = Terminated \<or> vp_startup p = NeverStartedProvablyBroken
             then seq (latest_condition i)
                    (\<lambda>c. ret (Inr (Inl (WinnerDidNotStart (pod_name i) c))))
             else seq ask_sleep (\<lambda>_. ret (Inl ()))
         | Inr None \<Rightarrow> seq ask_sleep (\<lambda>_. ret (Inl ()))))"

definition adopt_winner :: "AgentIdentity \<Rightarrow> string \<Rightarrow> (DeployError + string) run" where
  "adopt_winner i own_secret =
     seq_ok (call (ask_get_pod (pod_name i))) (\<lambda>found.
       case found of
         None \<Rightarrow> seq (drop_own_secret i own_secret) (\<lambda>_. loop_run (\<lambda>_. adopt_round i) ())
       | Some p \<Rightarrow>
           seq_ok (settle p) (\<lambda>startup.
             seq (drop_own_secret i own_secret) (\<lambda>_.
               if verify_pod p i startup = None then ret (Inl (NotManagedHere (pod_name i)))
               else loop_run (\<lambda>_. adopt_round i) ())))"

subsection \<open>The loop\<close>

definition create_attempt ::
  "AgentIdentity \<Rightarrow> ProviderConfig \<Rightarrow> (string, string) hmap \<Rightarrow> string
     \<Rightarrow> (bool + (DeployError + string)) run" where
  "create_attempt i cfg env desired =
     seq ask_generation (\<lambda>generation.
     seq (call (ask_create_secret
            (build_secret i generation (hm_insert START_NONCE_KEY generation env)))) (\<lambda>made.
       case made of
         Inl e \<Rightarrow> ret (Inr (Inl e))
       | Inr _ \<Rightarrow>
           seq (call (ask_create_pod (build_pod i cfg generation desired))) (\<lambda>r.
             case r of
               Inl e \<Rightarrow> ret (Inr (Inl e))
             | Inr Created \<Rightarrow> seq ask_sleep (\<lambda>_. ret (Inl True))
             | Inr AlreadyExists \<Rightarrow>
                 seq (adopt_winner i (secret_name i generation)) (\<lambda>x. ret (Inr x)))))"

definition after_waiting :: "bool \<Rightarrow> DeployError + unit \<Rightarrow> bool + (DeployError + string)" where
  "after_waiting created r = (case r of Inl e \<Rightarrow> Inr (Inl e) | Inr _ \<Rightarrow> Inl created)"

definition perform_action ::
  "AgentIdentity \<Rightarrow> ProviderConfig \<Rightarrow> (string, string) hmap \<Rightarrow> string \<Rightarrow> bool \<Rightarrow> Action
     \<Rightarrow> (bool + (DeployError + string)) run" where
  "perform_action i cfg env desired created action =
     (case action of
        NoOp agent_id \<Rightarrow> ret (Inr (Inr agent_id))
      | Observe n \<Rightarrow> seq ask_sleep (\<lambda>_. ret (Inl created))
      | Report n failure \<Rightarrow> ret (Inr (Inl (DidNotStart n failure)))
      | AwaitDisappearance n \<Rightarrow> seq (await_disappearance n) (\<lambda>r. ret (after_waiting created r))
      | Delete n f \<Rightarrow>
          if created
          then seq (latest_condition i) (\<lambda>c. ret (Inr (Inl (OwnAttemptFailed n c))))
          else seq (call (ask_delete_pod n f)) (\<lambda>r.
                 case r of
                   Inl e \<Rightarrow> ret (Inr (Inl e))
                 | Inr PreconditionFailed \<Rightarrow> seq ask_sleep (\<lambda>_. ret (Inl created))
                 | Inr _ \<Rightarrow> seq (await_disappearance n) (\<lambda>r. ret (after_waiting created r)))
      | Create \<Rightarrow>
          seq (create_attempt i cfg env desired) (\<lambda>r. ret (case r of
              Inl c \<Rightarrow> Inl (c \<or> created) | Inr x \<Rightarrow> Inr x)))"

definition deploy_round ::
  "AgentIdentity \<Rightarrow> ProviderConfig \<Rightarrow> (string, string) hmap \<Rightarrow> string \<Rightarrow> bool
     \<Rightarrow> (bool + (DeployError + string)) run" where
  "deploy_round i cfg env desired created =
     seq ask_elapsed (\<lambda>d.
       if OPERATION_DEADLINE_SECS \<le> d
       then seq (latest_condition i) (\<lambda>c. ret (Inr (Inl (StartupNotConfirmed c))))
       else seq (observe_pod i) (\<lambda>r.
         case r of
           Inl e \<Rightarrow> ret (Inr (Inl e))
         | Inr observed \<Rightarrow> perform_action i cfg env desired created (classify observed desired)))"

definition deploy ::
  "(IntentTemplate \<Rightarrow> string) \<Rightarrow> AgentIdentity \<Rightarrow> ProviderConfig \<Rightarrow> (string, string) hmap
     \<Rightarrow> (DeployError + string) run" where
  "deploy fingerprint i cfg env =
     seq_ok (call (ask_namespace (cf_namespace cfg))) (\<lambda>_.
     seq (preflight_gc i) (\<lambda>_.
       loop_run (deploy_round i cfg env (fingerprint (intent_template cfg (map fst env)))) False))"

end
