(* ===== verification/K8s_Deploy_Props.thy ===== *)
theory K8s_Deploy_Props
  imports K8s_Deploy
begin

text \<open>
  What the deploy reconciler promises of its interaction with the cluster.
  \<^item> \<open>holds\<close> is a Hoare triple for operations on event lists: a monitor watches the events an
    operation takes, must not object to any of them, and ends in a state of the postcondition. The
    rules follow the combinators of the model.
  \<^item> \<open>deploy_mon\<close> is the monitor of the deploy: it remembers the last pod that was read, whether its
    Secret was confirmed absent, the Secret of this attempt, whether this call created a pod and
    whether the deadline was seen, and objects to a call that these do not justify.
  \<^item> The claims read the justification off the list of events.
\<close>

section \<open>A logic for interactions\<close>

fun watch :: "('m \<Rightarrow> k8s_event \<Rightarrow> 'm option) \<Rightarrow> 'm \<Rightarrow> k8s_event list \<Rightarrow> 'm option" where
  "watch mon m [] = Some m"
| "watch mon m (e # es) = (case mon m e of None \<Rightarrow> None | Some m' \<Rightarrow> watch mon m' es)"

lemma watch_ConsE:
  assumes "watch mon m (e # es) = Some m'"
  obtains m1 where "mon m e = Some m1" "watch mon m1 es = Some m'"
  using assms by (auto split: option.splits)

lemma watch_append:
  "watch mon m (xs @ ys) = (case watch mon m xs of None \<Rightarrow> None | Some m' \<Rightarrow> watch mon m' ys)"
  by (induction xs arbitrary: m) (auto split: option.splits)

definition holds ::
  "('m \<Rightarrow> k8s_event \<Rightarrow> 'm option) \<Rightarrow> ('m \<Rightarrow> bool) \<Rightarrow> 'a run \<Rightarrow> ('a \<Rightarrow> 'm \<Rightarrow> bool) \<Rightarrow> bool" where
  "holds mon P c Q \<longleftrightarrow>
     (\<forall>es m. P m \<longrightarrow>
        (case c es of
           Done x es' \<Rightarrow> \<exists>tr m'. es = tr @ es' \<and> watch mon m tr = Some m' \<and> Q x m'
         | Pending \<Rightarrow> watch mon m es \<noteq> None
         | Refused \<Rightarrow> True))"

lemma holdsI:
  assumes "\<And>es m x es'. P m \<Longrightarrow> c es = Done x es' \<Longrightarrow>
             \<exists>tr m'. es = tr @ es' \<and> watch mon m tr = Some m' \<and> Q x m'"
    and "\<And>es m. P m \<Longrightarrow> c es = Pending \<Longrightarrow> watch mon m es \<noteq> None"
  shows "holds mon P c Q"
  using assms unfolding holds_def by (auto split: outcome.splits)

lemma holds_Done:
  assumes "holds mon P c Q" "P m" "c es = Done x es'"
  obtains tr m' where "es = tr @ es'" "watch mon m tr = Some m'" "Q x m'"
proof -
  have "case c es of
           Done x es' \<Rightarrow> \<exists>tr m'. es = tr @ es' \<and> watch mon m tr = Some m' \<and> Q x m'
         | Pending \<Rightarrow> watch mon m es \<noteq> None
         | Refused \<Rightarrow> True"
    using assms(1,2) unfolding holds_def by blast
  then show thesis
    using assms(3) that by auto
qed

lemma holds_Pending:
  assumes "holds mon P c Q" "P m" "c es = Pending"
  shows "watch mon m es \<noteq> None"
proof -
  have "case c es of
           Done x es' \<Rightarrow> \<exists>tr m'. es = tr @ es' \<and> watch mon m tr = Some m' \<and> Q x m'
         | Pending \<Rightarrow> watch mon m es \<noteq> None
         | Refused \<Rightarrow> True"
    using assms(1,2) unfolding holds_def by blast
  then show ?thesis
    using assms(3) by simp
qed

lemma holds_pre: "holds mon P c Q \<Longrightarrow> (\<And>m. P' m \<Longrightarrow> P m) \<Longrightarrow> holds mon P' c Q"
  by (simp add: holds_def)

lemma holds_conj: "holds mon P c Q \<Longrightarrow> holds mon (\<lambda>m. P m \<and> R m) c Q"
  by (simp add: holds_def)

lemma holds_post:
  assumes "holds mon P c Q" "\<And>x m. Q x m \<Longrightarrow> Q' x m"
  shows "holds mon P c Q'"
proof (rule holdsI)
  fix es m x es'
  assume "P m" "c es = Done x es'"
  then show "\<exists>tr m'. es = tr @ es' \<and> watch mon m tr = Some m' \<and> Q' x m'"
    using holds_Done [OF assms(1)] assms(2) by metis
qed (use holds_Pending [OF assms(1)] in blast)

lemma holds_ret: "(\<And>m. P m \<Longrightarrow> Q x m) \<Longrightarrow> holds mon P (ret x) Q"
  by (rule holdsI) (auto simp: ret_def)

lemma holds_seq:
  assumes c: "holds mon P c R" and f: "\<And>x. holds mon (R x) (f x) Q"
  shows "holds mon P (seq c f) Q"
proof (rule holdsI)
  fix es m x es'
  assume m: "P m" and run: "seq c f es = Done x es'"
  then obtain y es1 where y: "c es = Done y es1" "f y es1 = Done x es'"
    by (auto simp: seq_def split: outcome.splits)
  obtain tr m1 where 1: "es = tr @ es1" "watch mon m tr = Some m1" "R y m1"
    using holds_Done [OF c m y(1)] .
  obtain tr' m2 where 2: "es1 = tr' @ es'" "watch mon m1 tr' = Some m2" "Q x m2"
    using holds_Done [OF f 1(3) y(2)] .
  show "\<exists>tr m'. es = tr @ es' \<and> watch mon m tr = Some m' \<and> Q x m'"
    using 1 2 by (intro exI [of _ "tr @ tr'"] exI [of _ m2]) (simp add: watch_append)
next
  fix es m
  assume m: "P m" and run: "seq c f es = Pending"
  show "watch mon m es \<noteq> None"
  proof (cases "c es")
    case (Done y es1)
    obtain tr m1 where 1: "es = tr @ es1" "watch mon m tr = Some m1" "R y m1"
      using holds_Done [OF c m Done] .
    have "f y es1 = Pending"
      using run Done by (simp add: seq_def)
    then show ?thesis
      using holds_Pending [OF f 1(3)] 1 by (simp add: watch_append)
  qed (use run holds_Pending [OF c m] in \<open>auto simp: seq_def\<close>)
qed

lemma holds_seq_ok:
  assumes "holds mon P c R" and "\<And>e m. R (Inl e) m \<Longrightarrow> Q (Inl e) m"
    and "\<And>x. holds mon (R (Inr x)) (f x) Q"
  shows "holds mon P (seq_ok c f) Q"
  unfolding seq_ok_def
proof (rule holds_seq [OF assms(1)])
  fix r
  show "holds mon (R r) (case r of Inl e \<Rightarrow> ret (Inl e) | Inr x \<Rightarrow> f x) Q"
    using assms(2,3) by (cases r) (auto intro: holds_ret)
qed

lemma holds_ask:
  assumes "\<And>e r m. P m \<Longrightarrow> f e = Some r \<Longrightarrow> \<exists>m'. mon m e = Some m' \<and> Q r m'"
  shows "holds mon P (ask f) Q"
proof (rule holdsI)
  fix es m x es'
  assume m: "P m" and run: "ask f es = Done x es'"
  then obtain e where e: "es = e # es'" "f e = Some x"
    by (auto simp: ask_def split: list.splits option.splits)
  obtain m' where "mon m e = Some m'" "Q x m'"
    using assms [OF m e(2)] by blast
  then show "\<exists>tr m'. es = tr @ es' \<and> watch mon m tr = Some m' \<and> Q x m'"
    using e(1) by (intro exI [of _ "[e]"] exI [of _ m']) simp
qed (auto simp: ask_def split: list.splits option.splits)

lemma holds_loop:
  assumes body: "\<And>s. holds mon (I s) (body s) (\<lambda>r m. case r of Inl s' \<Rightarrow> I s' m | Inr x \<Rightarrow> Q x m)"
  shows "holds mon (I s) (loop_run body s) Q"
proof -
  have "\<forall>m. I s m \<longrightarrow>
     (case loop_run body s es of
        Done x es' \<Rightarrow> \<exists>tr m'. es = tr @ es' \<and> watch mon m tr = Some m' \<and> Q x m'
      | Pending \<Rightarrow> watch mon m es \<noteq> None
      | Refused \<Rightarrow> True)" (is "?ok s es") for es
  proof (induction es arbitrary: s rule: length_induct)
    case (1 es)
    show ?case
    proof (intro allI impI)
      fix m
      assume m: "I s m"
      show "case loop_run body s es of
              Done x es' \<Rightarrow> \<exists>tr m'. es = tr @ es' \<and> watch mon m tr = Some m' \<and> Q x m'
            | Pending \<Rightarrow> watch mon m es \<noteq> None
            | Refused \<Rightarrow> True"
      proof (cases "body s es")
        case (Done r es1)
        obtain tr m1 where a: "es = tr @ es1" "watch mon m tr = Some m1"
            "case r of Inl s' \<Rightarrow> I s' m1 | Inr x \<Rightarrow> Q x m1"
          using holds_Done [OF body m Done] .
        show ?thesis
        proof (cases r)
          case (Inr x)
          then show ?thesis
            using Done a by (subst loop_run.simps) auto
        next
          case (Inl s')
          show ?thesis
          proof (cases "length es1 < length es")
            case True
            then have run: "loop_run body s es = loop_run body s' es1"
              using Done Inl by (subst loop_run.simps) simp
            have "?ok s' es1"
              using 1 True by blast
            then have "case loop_run body s' es1 of
                Done x es' \<Rightarrow> \<exists>tr m'. es1 = tr @ es' \<and> watch mon m1 tr = Some m' \<and> Q x m'
              | Pending \<Rightarrow> watch mon m1 es1 \<noteq> None
              | Refused \<Rightarrow> True"
              using a(3) Inl by simp
            then show ?thesis
              unfolding run using a(1,2) by (fastforce simp: watch_append split: outcome.splits)
          next
            case False
            then show ?thesis
              using Done Inl by (subst loop_run.simps) simp
          qed
        qed
      next
        case Pending
        then show ?thesis
          using holds_Pending [OF body m] by (subst loop_run.simps) simp
      next
        case Refused
        then show ?thesis
          by (subst loop_run.simps) simp
      qed
    qed
  qed
  then show ?thesis
    by (simp add: holds_def)
qed

section \<open>The monitor\<close>

record deploy_state =
  dm_seen :: "(string \<times> Pod) option"
  dm_absent :: "string option"
  dm_secret :: "Secret option"
  dm_created :: bool
  dm_late :: bool

text \<open>What a read of a pod proves about its startup, given the Secret that was found absent.\<close>

definition settled :: "Pod \<Rightarrow> Startup \<Rightarrow> string option \<Rightarrow> bool" where
  "settled p startup absent \<longleftrightarrow>
     (case decode_startup p of
        Resolved s \<Rightarrow> startup = s
      | ConfigErrorPendingSecretCheck n \<Rightarrow>
          startup = NeverStartedRecoverable \<or>
          (startup = NeverStartedProvablyBroken \<and> absent = Some n))"

definition replaceable :: "AgentIdentity \<Rightarrow> string \<Rightarrow> Pod \<Rightarrow> Startup \<Rightarrow> bool" where
  "replaceable i desired p startup \<longleftrightarrow>
     startup = Terminated \<or>
     (verify_pod p i startup \<noteq> None \<and> po_deletion_timestamp p = None \<and>
      (startup = NeverStartedProvablyBroken \<or>
       (startup = NeverStartedRecoverable \<and> recorded_intent p \<noteq> Some desired)))"

definition may_delete :: "AgentIdentity \<Rightarrow> string \<Rightarrow> deploy_state \<Rightarrow> string \<Rightarrow> Fence \<Rightarrow> bool" where
  "may_delete i desired m n f \<longleftrightarrow>
     \<not> dm_created m \<and>
     (\<exists>n' p startup. dm_seen m = Some (n', p) \<and> (n' = n \<or> po_name p = Some n) \<and>
        pod_fence p = Some f \<and> settled p startup (dm_absent m) \<and> replaceable i desired p startup)"

definition may_create :: "AgentIdentity \<Rightarrow> deploy_state \<Rightarrow> Pod \<Rightarrow> bool" where
  "may_create i m p \<longleftrightarrow>
     (\<exists>s. dm_secret m = Some s \<and> se_name s \<noteq> None \<and> referenced_secret p = se_name s \<and>
        po_name p = Some (pod_name i) \<and>
        (\<exists>g. se_name s = Some (secret_name i g) \<and> hm_get (se_data s) START_NONCE_KEY = Some g))"

fun deploy_mon :: "AgentIdentity \<Rightarrow> string \<Rightarrow> deploy_state \<Rightarrow> k8s_event \<Rightarrow> deploy_state option" where
  "deploy_mon i desired m (GetPod n r) =
     Some (m\<lparr>dm_seen := (case r of Inr (Some p) \<Rightarrow> Some (n, p) | _ \<Rightarrow> None), dm_absent := None\<rparr>)"
| "deploy_mon i desired m (SecretExists s r) =
     (if dm_late m then None
      else Some (m\<lparr>dm_absent := (if r = Inr False then Some s else None)\<rparr>))"
| "deploy_mon i desired m (CreateSecret s r) =
     (if dm_late m then None else Some (m\<lparr>dm_secret := (if r = None then Some s else None)\<rparr>))"
| "deploy_mon i desired m (CreatePod p r) =
     (if dm_late m \<or> \<not> may_create i m p then None
      else Some (m\<lparr>dm_created := (dm_created m \<or> r = Inr Created)\<rparr>))"
| "deploy_mon i desired m (DeletePod n f r) =
     (if dm_late m \<or> \<not> may_delete i desired m n f then None else Some m)"
| "deploy_mon i desired m (DeleteSecret n r) =
     (if dm_late m then None
      else Some (m\<lparr>dm_secret := (case dm_secret m of
             Some s \<Rightarrow> if se_name s = Some n then None else Some s | None \<Rightarrow> None)\<rparr>))"
| "deploy_mon i desired m (Elapsed d) =
     (if dm_late m then None else Some (m\<lparr>dm_late := (OPERATION_DEADLINE_SECS \<le> d)\<rparr>))"
| "deploy_mon i desired m e = (if dm_late m then None else Some m)"

section \<open>The operations under the monitor\<close>

text \<open>The part of the monitor state that a call leaves alone.\<close>

definition at :: "bool \<Rightarrow> (string \<times> Pod) option \<Rightarrow> deploy_state \<Rightarrow> bool" where
  "at created seen m \<longleftrightarrow> \<not> dm_late m \<and> dm_created m = created \<and> dm_seen m = seen"

definition on_time :: "bool \<Rightarrow> deploy_state \<Rightarrow> bool" where
  "on_time created m \<longleftrightarrow> \<not> dm_late m \<and> dm_created m = created"

lemma at_on_time [simp]: "at c s m \<Longrightarrow> on_time c m"
  by (simp add: at_def on_time_def)

lemma holds_call:
  assumes "holds mon P c Q"
  shows "holds mon P (call c) (\<lambda>r. case r of Inl e \<Rightarrow> (\<lambda>m. \<exists>e'. Q (Inl e') m) | Inr x \<Rightarrow> Q (Inr x))"
  unfolding call_def
proof (rule holds_seq [OF assms])
  fix r
  show "holds mon (Q r) (case r of Inl e \<Rightarrow> ret (Inl (SubstrateError e)) | Inr x \<Rightarrow> ret (Inr x))
          (\<lambda>r. case r of Inl e \<Rightarrow> (\<lambda>m. \<exists>e'. Q (Inl e') m) | Inr x \<Rightarrow> Q (Inr x))"
    by (cases r) (auto intro!: holds_ret)
qed

lemma holds_call_same:
  assumes "holds mon P c (\<lambda>_. Q)"
  shows "holds mon P (call c) (\<lambda>_. Q)"
  by (rule holds_post [OF holds_call [OF assms]]) (auto split: sum.splits)

lemma get_pod_holds:
  "holds (deploy_mon i desired) (on_time c) (ask_get_pod n)
     (\<lambda>r. at c (case r of Inr (Some p) \<Rightarrow> Some (n, p) | _ \<Rightarrow> None))"
  unfolding ask_get_pod_def
  by (rule holds_ask) (auto simp: on_time_def at_def split: k8s_event.splits if_splits)

lemma call_get_pod_holds:
  "holds (deploy_mon i desired) (on_time c) (call (ask_get_pod n))
     (\<lambda>r. at c (case r of Inr (Some p) \<Rightarrow> Some (n, p) | _ \<Rightarrow> None))"
  by (rule holds_post [OF holds_call [OF get_pod_holds]]) (auto split: sum.splits)

lemma quiet_calls_hold:
  "holds (deploy_mon i desired) (on_time c) (ask_list_pods sel) (\<lambda>_. on_time c)"
  "holds (deploy_mon i desired) (on_time c) (ask_list_secrets sel) (\<lambda>_. on_time c)"
  "holds (deploy_mon i desired) (on_time c) (ask_namespace n) (\<lambda>_. on_time c)"
  "holds (deploy_mon i desired) (on_time c) (ask_delete_secret n) (\<lambda>_. on_time c)"
  "holds (deploy_mon i desired) (on_time c) ask_sleep (\<lambda>_. on_time c)"
  "holds (deploy_mon i desired) (on_time c) (ask_secret_exists n) (\<lambda>_. on_time c)"
  "holds (deploy_mon i desired) (on_time c) ask_generation (\<lambda>_. on_time c)"
  unfolding ask_list_pods_def ask_list_secrets_def ask_namespace_def ask_delete_secret_def
    ask_sleep_def ask_secret_exists_def ask_generation_def
  by (rule holds_ask; auto simp: on_time_def split: k8s_event.splits if_splits)+

lemma secret_exists_holds:
  "holds (deploy_mon i desired) (at c s) (call (ask_secret_exists n))
     (\<lambda>r m. at c s m \<and> (r = Inr False \<longrightarrow> dm_absent m = Some n))"
proof -
  have "holds (deploy_mon i desired) (at c s) (ask_secret_exists n)
          (\<lambda>r m. at c s m \<and> (r = Inr False \<longrightarrow> dm_absent m = Some n))"
    unfolding ask_secret_exists_def
    by (rule holds_ask) (auto simp: at_def split: k8s_event.splits if_splits)
  then show ?thesis
    by (rule holds_post [OF holds_call]) (auto split: sum.splits)
qed

lemma elapsed_holds:
  "holds (deploy_mon i desired) (on_time c) ask_elapsed
     (\<lambda>d m. dm_late m = (OPERATION_DEADLINE_SECS \<le> d) \<and> dm_created m = c)"
  unfolding ask_elapsed_def
  by (rule holds_ask) (auto simp: on_time_def split: k8s_event.splits)

text \<open>\<open>settle\<close> proves what it answers.\<close>

lemma settle_holds:
  "holds (deploy_mon i desired) (at c s) (settle p)
     (\<lambda>r m. at c s m \<and> (\<forall>startup. r = Inr startup \<longrightarrow> settled p startup (dm_absent m)))"
proof (cases "decode_startup p")
  case (Resolved startup)
  then show ?thesis
    by (auto simp: settle_def settled_def intro: holds_ret)
next
  case (ConfigErrorPendingSecretCheck n)
  then show ?thesis
    by (auto simp: settle_def settled_def intro!: holds_seq_ok [OF secret_exists_holds] holds_ret)
qed

lemma settle_on_time: "holds (deploy_mon i desired) (on_time c) (settle p) (\<lambda>_. on_time c)"
proof (cases "decode_startup p")
  case (Resolved startup)
  then show ?thesis
    by (auto simp: settle_def intro: holds_ret)
next
  case (ConfigErrorPendingSecretCheck n)
  then show ?thesis
    by (auto simp: settle_def
             intro!: holds_seq_ok [OF holds_call_same [OF quiet_calls_hold(6)]] holds_ret)
qed

text \<open>After an observation of the pod, \<open>proved\<close> is what the monitor knows of it.\<close>

definition proved :: "AgentIdentity \<Rightarrow> bool \<Rightarrow> VerifiedPod option \<Rightarrow> deploy_state \<Rightarrow> bool" where
  "proved i c v m \<longleftrightarrow>
     on_time c m \<and>
     (\<forall>vp. v = Some vp \<longrightarrow>
        (\<exists>p. dm_seen m = Some (pod_name i, p) \<and> verify_pod p i (vp_startup vp) = Some vp \<and>
             settled p (vp_startup vp) (dm_absent m)))"

lemma verify_startup: "verify_pod p i s = Some vp \<Longrightarrow> vp_startup vp = s"
  by (auto simp: verify_pod_def split: if_splits option.splits)

lemma observe_holds:
  "holds (deploy_mon i desired) (on_time c) (observe_pod i)
     (\<lambda>r m. on_time c m \<and> (\<forall>v. r = Inr v \<longrightarrow> proved i c v m))"
  unfolding observe_pod_def
proof (rule holds_seq_ok [OF call_get_pod_holds])
  fix found :: "Pod option"
  show "holds (deploy_mon i desired)
          (at c (case Inr found of Inr (Some p) \<Rightarrow> Some (pod_name i, p) | _ \<Rightarrow> None))
          (case found of None \<Rightarrow> ret (Inr None)
           | Some p \<Rightarrow> seq_ok (settle p) (\<lambda>startup. ret (Inr (verify_pod p i startup))))
          (\<lambda>r m. on_time c m \<and> (\<forall>v. r = Inr v \<longrightarrow> proved i c v m))"
  proof (cases found)
    case None
    then show ?thesis
      by (auto simp: proved_def intro: holds_ret)
  next
    case (Some p)
    then show ?thesis
      by (auto simp: proved_def at_def on_time_def intro!: holds_seq_ok [OF settle_holds] holds_ret)
        (metis verify_startup)+
  qed
qed auto

lemma latest_condition_holds:
  "holds (deploy_mon i desired) (\<lambda>m. dm_created m = c) (latest_condition i) (\<lambda>_ m. dm_created m = c)"
proof -
  have "holds (deploy_mon i desired) (\<lambda>m. dm_created m = c) (ask_get_pod n) (\<lambda>_ m. dm_created m = c)" for n
    unfolding ask_get_pod_def by (rule holds_ask) (auto split: k8s_event.splits if_splits)
  then show ?thesis
    unfolding latest_condition_def by (rule holds_seq) (auto intro: holds_ret)
qed

lemma delete_pod_holds:
  "holds (deploy_mon i desired) (\<lambda>m. on_time False m \<and> may_delete i desired m n f) (ask_delete_pod n f)
     (\<lambda>_. on_time False)"
  unfolding ask_delete_pod_def
  by (rule holds_ask) (auto simp: on_time_def split: k8s_event.splits if_splits)

subsection \<open>Preflight\<close>

lemma settle_all_holds: "holds (deploy_mon i desired) (on_time c) (settle_all ps ts) (\<lambda>_. on_time c)"
  by (induction ps arbitrary: ts) (auto intro!: holds_ret holds_seq_ok [OF settle_on_time])

lemma gc_delete_justified:
  assumes "at False (Some (n, p)) m" "pod_fence p = Some f" "settled p Terminated (dm_absent m)"
  shows "may_delete i desired m n f"
  using assms by (auto simp: at_def on_time_def may_delete_def replaceable_def)

lemma gc_pods_holds: "holds (deploy_mon i desired) (on_time False) (gc_pods ns) (\<lambda>_. on_time False)"
proof (induction ns)
  case (Cons n ns)
  have rest: "holds (deploy_mon i desired) (at False s) (gc_pods ns) (\<lambda>_. on_time False)" for s
    using Cons by (rule holds_pre) simp
  have del: "holds (deploy_mon i desired)
      (\<lambda>m. at False (Some (n, p)) m \<and> (\<forall>s. Inr startup = Inr s \<longrightarrow> settled p s (dm_absent m)))
      (if startup \<noteq> Terminated then gc_pods ns else seq (ask_delete_pod n f) (\<lambda>_. gc_pods ns))
      (\<lambda>_. on_time False)" if "pod_fence p = Some f" for p f startup
    using that Cons
    by (auto intro!: holds_pre [OF rest] holds_seq [OF holds_pre [OF delete_pod_holds]]
             intro: gc_delete_justified)
  show ?case
    unfolding gc_pods.simps
  proof (rule holds_seq_ok [OF call_get_pod_holds])
    fix found :: "Pod option"
    show "holds (deploy_mon i desired) (at False (case Inr found of Inr (Some p) \<Rightarrow> Some (n, p) | _ \<Rightarrow> None))
       (case found of None \<Rightarrow> gc_pods ns
        | Some p \<Rightarrow> (case pod_fence p of None \<Rightarrow> gc_pods ns
            | Some f \<Rightarrow> seq_ok (settle p) (\<lambda>startup. if startup \<noteq> Terminated then gc_pods ns
                 else seq (ask_delete_pod n f) (\<lambda>_. gc_pods ns))))
       (\<lambda>_. on_time False)"
      by (auto split: option.splits intro!: rest holds_seq_ok [OF settle_holds] del)
  qed simp
qed (auto intro: holds_ret)

lemma gc_secrets_holds: "holds (deploy_mon i desired) (on_time c) (gc_secrets ns) (\<lambda>_. on_time c)"
  by (induction ns) (auto intro!: holds_ret holds_seq [OF quiet_calls_hold(4)])

lemma preflight_holds: "holds (deploy_mon i desired) (on_time False) (preflight_gc i) (\<lambda>_. on_time False)"
proof -
  have "holds (deploy_mon i desired) (on_time False) (try_preflight_gc i) (\<lambda>_. on_time False)"
    unfolding try_preflight_gc_def Let_def
    by (auto intro!: holds_seq_ok [OF holds_call_same [OF quiet_calls_hold(1)]]
        holds_seq_ok [OF holds_call_same [OF quiet_calls_hold(2)]] holds_seq_ok [OF settle_all_holds]
        holds_seq_ok [OF gc_pods_holds] holds_seq [OF gc_secrets_holds] holds_ret)
  then show ?thesis
    unfolding preflight_gc_def by (rule holds_seq) (auto intro: holds_ret)
qed

subsection \<open>Waiting\<close>

lemma await_holds:
  "holds (deploy_mon i desired) (on_time c) (await_disappearance n)
     (\<lambda>r m. dm_created m = c \<and> (\<forall>u. r = Inr u \<longrightarrow> on_time c m))"
proof -
  let ?Q = "\<lambda>r m. dm_created m = c \<and> (\<forall>u. r = Inr u \<longrightarrow> on_time c m)"
  have found: "holds (deploy_mon i desired)
      (at c (case r of Inr (Some p) \<Rightarrow> Some (n, p) | _ \<Rightarrow> None))
      (case r of Inl e \<Rightarrow> ret (Inr (Inl e)) | Inr None \<Rightarrow> ret (Inr (Inr ()))
       | Inr (Some p) \<Rightarrow> seq ask_sleep (\<lambda>_. ret (Inl ())))
      (\<lambda>r m. case r of Inl s' \<Rightarrow> on_time c m | Inr x \<Rightarrow> ?Q x m)" for r :: "DeployError + Pod option"
    by (auto simp: at_def on_time_def split: sum.splits option.splits
             intro!: holds_ret holds_seq [OF holds_pre [OF quiet_calls_hold(5)]])
  have "holds (deploy_mon i desired) (on_time c) (seq ask_elapsed (\<lambda>d.
         if d < OPERATION_DEADLINE_SECS
         then seq (call (ask_get_pod n)) (\<lambda>r.
                case r of
                  Inl e \<Rightarrow> ret (Inr (Inl e))
                | Inr None \<Rightarrow> ret (Inr (Inr ()))
                | Inr (Some p) \<Rightarrow> seq ask_sleep (\<lambda>_. ret (Inl ())))
         else ret (Inr (Inl (DisappearanceTimedOut n)))))
      (\<lambda>r m. case r of Inl s' \<Rightarrow> on_time c m | Inr x \<Rightarrow> ?Q x m)"
    by (rule holds_seq [OF elapsed_holds])
      (auto simp: on_time_def intro!: holds_ret holds_seq [OF holds_pre [OF call_get_pod_holds] found])
  then show ?thesis
    unfolding await_disappearance_def by (rule holds_loop [where I = "\<lambda>_. on_time c", simplified])
qed

lemma drop_own_secret_holds:
  "holds (deploy_mon i desired) (on_time c) (drop_own_secret i s) (\<lambda>_. on_time c)"
proof -
  have "holds (deploy_mon i desired) (on_time c) (secret_is_referenced i s) (\<lambda>_. on_time c)"
    unfolding secret_is_referenced_def
    by (auto intro!: holds_seq_ok [OF holds_call_same [OF quiet_calls_hold(1)]] holds_ret)
  then show ?thesis
    unfolding drop_own_secret_def
    by (rule holds_seq)
      (auto split: sum.splits bool.splits intro!: holds_ret holds_seq [OF quiet_calls_hold(4)])
qed

text \<open>What a successful deploy has seen last.\<close>

definition started :: "AgentIdentity \<Rightarrow> string \<Rightarrow> deploy_state \<Rightarrow> bool" where
  "started i agent_id m \<longleftrightarrow>
     \<not> dm_late m \<and>
     (\<exists>p. dm_seen m = Some (pod_name i, p) \<and> po_name p = Some agent_id \<and>
          verify_pod p i Started \<noteq> None \<and> decode_startup p = Resolved Started)"

definition final :: "AgentIdentity \<Rightarrow> DeployError + string \<Rightarrow> deploy_state \<Rightarrow> bool" where
  "final i r m \<longleftrightarrow> (\<forall>agent_id. r = Inr agent_id \<longrightarrow> started i agent_id m)"

lemma verify_fields:
  assumes "verify_pod p i s = Some vp"
  shows "po_name p = Some (vp_name vp)" "pod_fence p = Some (vp_fence vp)"
    "vp_deletion_marked vp = (po_deletion_timestamp p \<noteq> None)" "vp_recorded_intent vp = recorded_intent p"
  using assms by (auto simp: verify_pod_def split: if_splits option.splits)

lemma settled_Started: "settled p Started a \<Longrightarrow> decode_startup p = Resolved Started"
  by (auto simp: settled_def split: StartupObservation.splits)

lemma proved_started:
  assumes "proved i c (Some vp) m" "vp_startup vp = Started"
  shows "started i (vp_name vp) m"
  using assms verify_fields(1) settled_Started unfolding proved_def started_def on_time_def by fastforce

lemma final_simps [simp]: "final i (Inl e) m" "final i (Inr a) m = started i a m"
  by (simp_all add: final_def)

text \<open>After one round of a loop: the loop goes on with a state, or has its result.\<close>

definition round_post ::
  "('s \<Rightarrow> deploy_state \<Rightarrow> bool) \<Rightarrow> AgentIdentity \<Rightarrow> 's + (DeployError + string) \<Rightarrow> deploy_state \<Rightarrow> bool" where
  "round_post P i r m = (case r of Inl s \<Rightarrow> P s m | Inr x \<Rightarrow> final i x m)"

lemma round_post_simps [simp]:
  "round_post P i (Inl s) m = P s m" "round_post P i (Inr x) m = final i x m"
  by (simp_all add: round_post_def)

lemma holds_rounds:
  assumes "\<And>s. holds mon (P s) (body s) (round_post P i)"
  shows "holds mon (P s) (loop_run body s) (final i)"
  using assms unfolding round_post_def by (rule holds_loop)

lemma sleep_holds:
  "(\<And>m. on_time c m \<Longrightarrow> Q x m) \<Longrightarrow> holds (deploy_mon i desired) (on_time c) (seq ask_sleep (\<lambda>_. ret x)) Q"
  by (rule holds_seq [OF quiet_calls_hold(5)]) (auto intro: holds_ret)

lemma report_holds:
  "holds (deploy_mon i desired) (\<lambda>m. dm_created m = c)
     (seq (latest_condition i) (\<lambda>t. ret (Inr (Inl (err t))))) (round_post P i)"
  by (rule holds_seq [OF latest_condition_holds]) (auto intro: holds_ret)

lemma report_on_time:
  "holds (deploy_mon i desired) (on_time c)
     (seq (latest_condition i) (\<lambda>t. ret (Inr (Inl (err t))))) (round_post P i)"
  by (rule holds_pre [OF report_holds [of i desired c]]) (simp add: on_time_def)

lemma adopt_round_holds:
  "holds (deploy_mon i desired) (on_time c) (adopt_round i) (round_post (\<lambda>u. on_time c) i)"
proof -
  let ?Q = "round_post (\<lambda>u::unit. on_time c) i"
  have seen: "holds (deploy_mon i desired) (\<lambda>m. on_time c m \<and> (\<forall>v. r = Inr v \<longrightarrow> proved i c v m))
      (case r of
           Inl e \<Rightarrow> ret (Inr (Inl e))
         | Inr (Some p) \<Rightarrow>
             if vp_startup p = Started then ret (Inr (Inr (vp_name p)))
             else if vp_deletion_marked p then ret (Inr (Inl (WinnerBeingDeleted (pod_name i))))
             else if vp_startup p = Terminated \<or> vp_startup p = NeverStartedProvablyBroken
             then seq (latest_condition i)
                    (\<lambda>c. ret (Inr (Inl (WinnerDidNotStart (pod_name i) c))))
             else seq ask_sleep (\<lambda>_. ret (Inl ()))
         | Inr None \<Rightarrow> seq ask_sleep (\<lambda>_. ret (Inl ()))) ?Q" for r
    by (auto split: sum.splits option.splits
        intro!: holds_ret proved_started holds_conj [OF sleep_holds] holds_conj [OF report_on_time])
  show ?thesis
    unfolding adopt_round_def
    by (rule holds_seq [OF elapsed_holds])
      (auto simp: on_time_def intro!: holds_pre [OF report_holds [of _ _ c]]
         holds_seq [OF holds_pre [OF observe_holds] seen])
qed

lemma adopt_winner_holds:
  "holds (deploy_mon i desired) (on_time c) (adopt_winner i s) (final i)"
proof -
  have loop: "holds (deploy_mon i desired) (on_time c) (loop_run (\<lambda>_. adopt_round i) ()) (final i)"
    using adopt_round_holds by (rule holds_rounds [where P = "\<lambda>_. on_time c"])
  show ?thesis
    unfolding adopt_winner_def
  proof (rule holds_seq_ok [OF call_get_pod_holds])
    fix found :: "Pod option"
    show "holds (deploy_mon i desired)
       (at c (case Inr found of Inr (Some p) \<Rightarrow> Some (pod_name i, p) | _ \<Rightarrow> None))
       (case found of
         None \<Rightarrow> seq (drop_own_secret i s) (\<lambda>_. loop_run (\<lambda>_. adopt_round i) ())
       | Some p \<Rightarrow>
           seq_ok (settle p) (\<lambda>startup.
             seq (drop_own_secret i s) (\<lambda>_.
               if verify_pod p i startup = None then ret (Inl (NotManagedHere (pod_name i)))
               else loop_run (\<lambda>_. adopt_round i) ())))
       (final i)"
    proof (cases found)
      case None
      then show ?thesis
        using holds_seq [OF holds_pre [OF drop_own_secret_holds at_on_time] loop] by simp
    next
      case (Some p)
      have "holds (deploy_mon i desired) (on_time c)
         (if verify_pod p i st = None then ret (Inl (NotManagedHere (pod_name i)))
          else loop_run (\<lambda>_. adopt_round i) ()) (final i)" for st
        using loop by (auto intro: holds_ret)
      then have "holds (deploy_mon i desired) (on_time c)
         (seq (drop_own_secret i s) (\<lambda>_.
               if verify_pod p i st = None then ret (Inl (NotManagedHere (pod_name i)))
               else loop_run (\<lambda>_. adopt_round i) ())) (final i)" for st
        by (rule holds_seq [OF drop_own_secret_holds])
      then have "holds (deploy_mon i desired) (at c (Some (pod_name i, p)))
         (seq_ok (settle p) (\<lambda>st. seq (drop_own_secret i s) (\<lambda>_.
               if verify_pod p i st = None then ret (Inl (NotManagedHere (pod_name i)))
               else loop_run (\<lambda>_. adopt_round i) ()))) (final i)"
        using settle_on_time [of i desired c p]
        by (intro holds_seq_ok [where R = "\<lambda>_. on_time c"]) (auto intro: holds_pre)
      then show ?thesis
        using Some by simp
    qed
  qed simp
qed

subsection \<open>The loop\<close>

lemma secret_then_pod:
  "holds (deploy_mon i desired) (on_time c)
     (call (ask_create_secret (build_secret i g (hm_insert START_NONCE_KEY g env))))
     (\<lambda>r m. on_time c m \<and>
        (\<forall>u. r = Inr u \<longrightarrow> dm_secret m = Some (build_secret i g (hm_insert START_NONCE_KEY g env))))"
proof -
  let ?s = "build_secret i g (hm_insert START_NONCE_KEY g env)"
  have "holds (deploy_mon i desired) (on_time c) (ask_create_secret ?s)
     (\<lambda>r m. on_time c m \<and> (\<forall>u. r = Inr u \<longrightarrow> dm_secret m = Some ?s))"
    unfolding ask_create_secret_def
    by (rule holds_ask) (auto simp: on_time_def split: k8s_event.splits if_splits option.splits)
  then show ?thesis
    by (rule holds_post [OF holds_call]) (auto split: sum.splits)
qed

lemma create_justified:
  assumes "dm_secret m = Some (build_secret i g (hm_insert START_NONCE_KEY g env))"
  shows "may_create i m (build_pod i cfg g desired)"
  using assms by (auto simp: may_create_def build_secret_def build_pod_def referenced_secret_def
      List.map_filter_def hm_simps)

lemma create_pod_holds:
  "holds (deploy_mon i desired) (\<lambda>m. on_time c m \<and> may_create i m p) (call (ask_create_pod p))
     (\<lambda>r m. on_time (c \<or> r = Inr Created) m)"
proof -
  have "holds (deploy_mon i desired) (\<lambda>m. on_time c m \<and> may_create i m p) (ask_create_pod p)
     (\<lambda>r m. on_time (c \<or> r = Inr Created) m)"
    unfolding ask_create_pod_def
    by (rule holds_ask) (auto simp: on_time_def split: k8s_event.splits if_splits)
  then show ?thesis
    by (rule holds_post [OF holds_call]) (auto split: sum.splits)
qed

lemma create_attempt_holds:
  "holds (deploy_mon i desired) (on_time c) (create_attempt i cfg env desired)
     (round_post (\<lambda>b. on_time (b \<or> c)) i)"
proof -
  let ?Q = "round_post (\<lambda>b. on_time (b \<or> c)) i"
  have after: "holds (deploy_mon i desired) (on_time (c \<or> r = Inr Created))
      (case r of
               Inl e \<Rightarrow> ret (Inr (Inl e))
             | Inr Created \<Rightarrow> seq ask_sleep (\<lambda>_. ret (Inl True))
             | Inr AlreadyExists \<Rightarrow>
                 seq (adopt_winner i (secret_name i g)) (\<lambda>x. ret (Inr x))) ?Q" for r g
    by (auto split: sum.splits CreateOutcome.splits
             intro!: holds_ret sleep_holds holds_seq [OF adopt_winner_holds])
  have pod: "holds (deploy_mon i desired) (\<lambda>m. on_time c m \<and> (\<forall>u. made = Inr u \<longrightarrow>
                dm_secret m = Some (build_secret i g (hm_insert START_NONCE_KEY g env))))
      (case made of
         Inl e \<Rightarrow> ret (Inr (Inl e))
       | Inr _ \<Rightarrow>
           seq (call (ask_create_pod (build_pod i cfg g desired))) (\<lambda>r.
             case r of
               Inl e \<Rightarrow> ret (Inr (Inl e))
             | Inr Created \<Rightarrow> seq ask_sleep (\<lambda>_. ret (Inl True))
             | Inr AlreadyExists \<Rightarrow>
                 seq (adopt_winner i (secret_name i g)) (\<lambda>x. ret (Inr x)))) ?Q"
    for made :: "DeployError + unit" and g
  proof (cases made)
    case (Inr u)
    have "holds (deploy_mon i desired)
        (\<lambda>m. on_time c m \<and> dm_secret m = Some (build_secret i g (hm_insert START_NONCE_KEY g env)))
        (call (ask_create_pod (build_pod i cfg g desired))) (\<lambda>r. on_time (c \<or> r = Inr Created))"
      by (rule holds_pre [OF create_pod_holds]) (auto intro: create_justified)
    then show ?thesis
      using holds_seq [OF _ after] Inr by simp
  qed (auto intro: holds_ret)
  show ?thesis
    unfolding create_attempt_def
    by (rule holds_seq [OF quiet_calls_hold(7)], rule holds_seq [OF secret_then_pod pod])
qed

lemma delete_justified:
  assumes "proved i False (Some vp) m" "classify (Some vp) desired = Delete n f"
  shows "may_delete i desired m n f"
proof -
  obtain p where p: "dm_seen m = Some (pod_name i, p)" "verify_pod p i (vp_startup vp) = Some vp"
      "settled p (vp_startup vp) (dm_absent m)"
    using assms(1) by (auto simp: proved_def)
  note vp = verify_fields [OF p(2)]
  have "n = vp_name vp" "f = vp_fence vp" "replaceable i desired p (vp_startup vp)"
    using assms(2) p(2) vp
    by (auto simp: classify_def replaceable_def split: Startup.splits if_splits)
  then show ?thesis
    using assms(1) p vp by (auto simp: may_delete_def proved_def on_time_def)
qed

lemma await_round_holds:
  "holds (deploy_mon i desired) (on_time c)
     (seq (await_disappearance n) (\<lambda>r. ret (after_waiting c r))) (round_post on_time i)"
  by (rule holds_seq [OF await_holds]) (auto simp: after_waiting_def split: sum.splits intro!: holds_ret)

lemma delete_round_holds:
  assumes "\<And>m. P m \<Longrightarrow> on_time False m \<and> may_delete i desired m n f"
  shows "holds (deploy_mon i desired) P
     (seq (call (ask_delete_pod n f)) (\<lambda>r.
        case r of
          Inl e \<Rightarrow> ret (Inr (Inl e))
        | Inr PreconditionFailed \<Rightarrow> seq ask_sleep (\<lambda>_. ret (Inl False))
        | Inr _ \<Rightarrow> seq (await_disappearance n) (\<lambda>r. ret (after_waiting False r))))
     (round_post on_time i)"
proof -
  have after: "holds (deploy_mon i desired) (on_time False)
     (case r of
          Inl e \<Rightarrow> ret (Inr (Inl e))
        | Inr PreconditionFailed \<Rightarrow> seq ask_sleep (\<lambda>_. ret (Inl False))
        | Inr _ \<Rightarrow> seq (await_disappearance n) (\<lambda>r. ret (after_waiting False r)))
     (round_post on_time i)" for r :: "DeployError + DeleteOutcome"
    by (auto split: sum.splits DeleteOutcome.splits
             intro!: holds_ret sleep_holds await_round_holds)
  show ?thesis
    by (rule holds_seq [OF holds_call_same [OF holds_pre [OF delete_pod_holds]] after]) (rule assms)
qed

lemma perform_holds:
  "holds (deploy_mon i desired) (proved i c v) (perform_action i cfg env desired c (classify v desired))
     (round_post on_time i)"
proof -
  have time: "proved i c v m \<Longrightarrow> on_time c m" for m
    by (simp add: proved_def)
  have noop: "proved i c v m \<Longrightarrow> classify v desired = NoOp a \<Longrightarrow> started i a m" for m a
    by (auto simp: classify_def split: option.splits if_splits Startup.splits dest: proved_started)
  have del: "on_time False m \<and> may_delete i desired m n f"
    if "proved i False v m" "classify v desired = Delete n f" for m n f
    using that delete_justified by (cases v) (auto simp: proved_def classify_def)
  have create: "holds (deploy_mon i desired) (on_time c)
     (seq (create_attempt i cfg env desired) (\<lambda>r. ret (case r of
              Inl b \<Rightarrow> Inl (b \<or> c) | Inr x \<Rightarrow> Inr x))) (round_post on_time i)"
    by (rule holds_seq [OF create_attempt_holds]) (auto split: sum.splits intro!: holds_ret)
  show ?thesis
  proof (cases "classify v desired")
    case (Delete n f)
    show ?thesis
    proof (cases c)
      case True
      then show ?thesis
        using Delete holds_pre [OF report_on_time time] by (simp add: perform_action_def)
    next
      case False
      then have "holds (deploy_mon i desired) (proved i c v)
          (seq (call (ask_delete_pod n f)) (\<lambda>r.
            case r of
              Inl e \<Rightarrow> ret (Inr (Inl e))
            | Inr PreconditionFailed \<Rightarrow> seq ask_sleep (\<lambda>_. ret (Inl False))
            | Inr _ \<Rightarrow> seq (await_disappearance n) (\<lambda>r. ret (after_waiting False r))))
          (round_post on_time i)"
        using del Delete by (intro delete_round_holds) simp
      then show ?thesis
        using Delete False by (simp add: perform_action_def)
    qed
  next
    case Create
    then show ?thesis
      using holds_pre [OF create time] by (simp add: perform_action_def)
  next
    case (AwaitDisappearance n)
    then show ?thesis
      using holds_pre [OF await_round_holds time] by (simp add: perform_action_def)
  next
    case (Observe n)
    have "holds (deploy_mon i desired) (proved i c v) (seq ask_sleep (\<lambda>_. ret (Inl c))) (round_post on_time i)"
      by (rule holds_pre [OF sleep_holds time]) simp
    then show ?thesis
      using Observe by (simp add: perform_action_def)
  qed (auto simp: perform_action_def intro!: holds_ret noop)
qed

lemma deploy_round_holds:
  "holds (deploy_mon i desired) (on_time c) (deploy_round i cfg env desired c) (round_post on_time i)"
proof -
  have seen: "holds (deploy_mon i desired) (\<lambda>m. on_time c m \<and> (\<forall>v. r = Inr v \<longrightarrow> proved i c v m))
      (case r of
           Inl e \<Rightarrow> ret (Inr (Inl e))
         | Inr observed \<Rightarrow> perform_action i cfg env desired c (classify observed desired))
      (round_post on_time i)" for r
  proof (cases r)
    case (Inr v)
    have "holds (deploy_mon i desired) (\<lambda>m. on_time c m \<and> proved i c v m)
        (perform_action i cfg env desired c (classify v desired)) (round_post on_time i)"
      by (rule holds_pre [OF perform_holds]) simp
    then show ?thesis
      using Inr by simp
  qed (auto intro: holds_ret)
  show ?thesis
    unfolding deploy_round_def
    by (rule holds_seq [OF elapsed_holds])
      (auto simp: on_time_def intro!: holds_pre [OF report_holds [of _ _ c]]
         holds_seq [OF holds_pre [OF observe_holds] seen])
qed

lemma deploy_holds:
  "holds (deploy_mon i (fingerprint (intent_template cfg (map fst env)))) (on_time False)
     (deploy fingerprint i cfg env) (final i)"
  unfolding deploy_def
  by (rule holds_seq_ok [OF holds_call_same [OF quiet_calls_hold(3)]], simp,
      rule holds_seq [OF preflight_holds], rule holds_rounds [OF deploy_round_holds])

section \<open>Reading the events\<close>

fun read_of :: "(string \<times> Pod) option \<Rightarrow> k8s_event \<Rightarrow> (string \<times> Pod) option" where
  "read_of seen (GetPod n r) = (case r of Inr (Some p) \<Rightarrow> Some (n, p) | _ \<Rightarrow> None)"
| "read_of seen e = seen"

text \<open>The answer of the last read of a pod, and the name it asked for.\<close>

definition last_read :: "k8s_event list \<Rightarrow> (string \<times> Pod) option" where
  "last_read es = foldl read_of None es"

definition monitor_start :: deploy_state where
  "monitor_start = \<lparr>dm_seen = None, dm_absent = None, dm_secret = None, dm_created = False, dm_late = False\<rparr>"

lemma watch_seen: "watch (deploy_mon i d) m es = Some m' \<Longrightarrow> dm_seen m' = foldl read_of (dm_seen m) es"
proof (induction es arbitrary: m)
  case (Cons e es)
  obtain m1 where m1: "deploy_mon i d m e = Some m1" "watch (deploy_mon i d) m1 es = Some m'"
    using Cons.prems(1) by (rule watch_ConsE)
  have "dm_seen m1 = read_of (dm_seen m) e"
    using m1(1) by (cases e) (auto split: if_splits)
  then show ?case
    using Cons.IH [OF m1(2)] by simp
qed simp

lemma watch_created:
  "watch (deploy_mon i d) m es = Some m' \<Longrightarrow>
   dm_created m' \<longleftrightarrow> dm_created m \<or> (\<exists>p. CreatePod p (Inr Created) \<in> set es)"
proof (induction es arbitrary: m)
  case (Cons e es)
  obtain m1 where m1: "deploy_mon i d m e = Some m1" "watch (deploy_mon i d) m1 es = Some m'"
    using Cons.prems(1) by (rule watch_ConsE)
  have "dm_created m1 \<longleftrightarrow> dm_created m \<or> (\<exists>p. CreatePod p (Inr Created) = e)"
    using m1(1) by (cases e) (auto split: if_splits)
  then show ?case
    using Cons.IH [OF m1(2)] by auto
qed simp

lemma watch_absent:
  "watch (deploy_mon i d) m es = Some m' \<Longrightarrow> dm_absent m' = Some n \<Longrightarrow>
   dm_absent m = Some n \<or> SecretExists n (Inr False) \<in> set es"
proof (induction es arbitrary: m)
  case (Cons e es)
  obtain m1 where m1: "deploy_mon i d m e = Some m1" "watch (deploy_mon i d) m1 es = Some m'"
    using Cons.prems(1) by (rule watch_ConsE)
  have "dm_absent m1 = Some n \<longrightarrow> dm_absent m = Some n \<or> SecretExists n (Inr False) = e"
    using m1(1) by (cases e) (auto split: if_splits)
  then show ?case
    using Cons.IH [OF m1(2) Cons.prems(2)] by auto
qed simp

lemma watch_secret:
  "watch (deploy_mon i d) m es = Some m' \<Longrightarrow> dm_secret m' = Some s \<Longrightarrow>
   (dm_secret m = Some s \<and> (\<forall>n r. se_name s = Some n \<longrightarrow> DeleteSecret n r \<notin> set es)) \<or>
   (\<exists>xs ys. es = xs @ CreateSecret s None # ys \<and>
      (\<forall>n r. se_name s = Some n \<longrightarrow> DeleteSecret n r \<notin> set ys))"
proof (induction es arbitrary: m)
  case (Cons e es)
  obtain m1 where m1: "deploy_mon i d m e = Some m1" "watch (deploy_mon i d) m1 es = Some m'"
    using Cons.prems(1) by (rule watch_ConsE)
  have step: "dm_secret m1 = Some s \<longrightarrow> e = CreateSecret s None \<or>
      (dm_secret m = Some s \<and> (\<forall>n r. se_name s = Some n \<longrightarrow> DeleteSecret n r \<noteq> e))"
    using m1(1) by (cases e) (auto split: if_splits option.splits)
  from Cons.IH [OF m1(2) Cons.prems(2)] show ?case
  proof
    assume a: "dm_secret m1 = Some s \<and> (\<forall>n r. se_name s = Some n \<longrightarrow> DeleteSecret n r \<notin> set es)"
    show ?case
    proof (cases "e = CreateSecret s None")
      case True
      then show ?thesis
        using a by (intro disjI2 exI [of _ "[]"] exI [of _ es]) simp
    next
      case False
      then show ?thesis
        using a step by auto
    qed
  next
    assume "\<exists>xs ys. es = xs @ CreateSecret s None # ys \<and>
      (\<forall>n r. se_name s = Some n \<longrightarrow> DeleteSecret n r \<notin> set ys)"
    then show ?case
      by (metis append_Cons)
  qed
qed simp

lemma watch_late:
  "watch (deploy_mon i d) m es = Some m' \<Longrightarrow> dm_late m \<Longrightarrow>
   dm_late m' \<and> (\<forall>e\<in>set es. \<exists>n r. e = GetPod n r)"
proof (induction es arbitrary: m)
  case (Cons e es)
  obtain m1 where m1: "deploy_mon i d m e = Some m1" "watch (deploy_mon i d) m1 es = Some m'"
    using Cons.prems(1) by (rule watch_ConsE)
  have "dm_late m1 \<and> (\<exists>n r. e = GetPod n r)"
    using m1(1) Cons.prems(2) by (cases e) auto
  then show ?case
    using Cons.IH [OF m1(2)] by auto
qed simp

text \<open>A run that used up its events, finished or not, is accepted by the monitor.\<close>

definition interaction ::
  "(IntentTemplate \<Rightarrow> string) \<Rightarrow> AgentIdentity \<Rightarrow> ProviderConfig \<Rightarrow> (string, string) hmap \<Rightarrow> k8s_event list \<Rightarrow> bool"
  where
  "interaction fingerprint i cfg env es \<longleftrightarrow>
     (case deploy fingerprint i cfg env es of Done r rest \<Rightarrow> rest = [] | Pending \<Rightarrow> True | Refused \<Rightarrow> False)"

lemma deploy_watched:
  assumes "interaction fingerprint i cfg env es"
  obtains m where "watch (deploy_mon i (fingerprint (intent_template cfg (map fst env)))) monitor_start es = Some m"
    and "\<forall>r. deploy fingerprint i cfg env es = Done r [] \<longrightarrow> final i r m"
proof -
  have start: "on_time False monitor_start"
    by (simp add: on_time_def monitor_start_def)
  show thesis
  proof (cases "deploy fingerprint i cfg env es")
    case (Done r rest)
    then have "rest = []"
      using assms by (simp add: interaction_def)
    with Done obtain tr m where "es = tr @ []"
      "watch (deploy_mon i (fingerprint (intent_template cfg (map fst env)))) monitor_start tr = Some m" "final i r m"
      using holds_Done [OF deploy_holds start] by metis
    then show thesis
      using that [of m] Done \<open>rest = []\<close> by simp
  next
    case Pending
    then show thesis
      using holds_Pending [OF deploy_holds start Pending] that by auto
  qed (use assms in \<open>simp add: interaction_def\<close>)
qed

lemma watch_at:
  assumes "watch mon m (pre @ e # post) = Some m'"
  obtains m1 m2 where "watch mon m pre = Some m1" "mon m1 e = Some m2" "watch mon m2 post = Some m'"
  using assms that by (auto simp: watch_append split: option.splits)

lemma verify_any: "verify_pod p i s \<noteq> None \<longleftrightarrow> verify_pod p i t \<noteq> None"
  by (auto simp: verify_pod_def split: if_splits option.splits)

section \<open>Sample interactions\<close>

definition agent :: AgentIdentity where
  "agent = ''abcdefabcdef0123456789''"

definition sample_config :: ProviderConfig where
  "sample_config =
     \<lparr>cf_namespace = ''ns'', cf_image = ''img'',
      cf_resources = \<lparr>rs_cpu_request = ''1'', rs_memory_request = ''1'', rs_cpu_limit = ''1'',
                     rs_memory_limit = ''1''\<rparr>,
      cf_service_account = None\<rparr>"

definition with_state :: "ContainerState \<Rightarrow> PodStatus option" where
  "with_state st = Some \<lparr>ps_phase = Some ''Running'',
     ps_container_statuses = Some [\<lparr>ct_name = ''agent'', ct_state = Some st\<rparr>], ps_conditions = None\<rparr>"

definition own_pod :: "string \<Rightarrow> string \<Rightarrow> ContainerState \<Rightarrow> Pod" where
  "own_pod generation rv st = (build_pod agent sample_config generation ''fp'')
     \<lparr>po_uid := Some generation, po_resource_version := Some rv, po_status := with_state st\<rparr>"

definition exited :: ContainerState where
  "exited = \<lparr>st_running = False, st_terminated = Some (1, None), st_waiting = None\<rparr>"

definition running :: ContainerState where
  "running = \<lparr>st_running = True, st_terminated = None, st_waiting = None\<rparr>"

definition preflight :: "k8s_event list" where
  "preflight = [EnsureNamespace ''ns'' None, ListPods (selector agent) (Inr ([], None)),
                ListSecrets (selector agent) (Inr [])]"

definition create_events :: "string \<Rightarrow> CreateOutcome \<Rightarrow> k8s_event list" where
  "create_events g r = [NewGeneration g,
     CreateSecret (build_secret agent g [(START_NONCE_KEY, g)]) None,
     CreatePod (build_pod agent sample_config g ''fp'') (Inr r)]"

text \<open>The restart of an agent that had exited.\<close>

definition restart_pre :: "k8s_event list" where
  "restart_pre = preflight @ [Elapsed 0, GetPod (pod_name agent) (Inr (Some (own_pod ''g0'' ''7'' exited)))]"

definition restart_mid :: "k8s_event list" where
  "restart_mid = [Elapsed 1, GetPod (pod_name agent) (Inr None), Elapsed 2, GetPod (pod_name agent) (Inr None),
     NewGeneration ''g1'', CreateSecret (build_secret agent ''g1'' [(START_NONCE_KEY, ''g1'')]) None]"

definition restart_post :: "k8s_event list" where
  "restart_post = [Sleep, Elapsed 4, GetPod (pod_name agent) (Inr (Some (own_pod ''g1'' ''9'' running)))]"

definition restart_run :: "k8s_event list" where
  "restart_run = restart_pre @
     DeletePod (pod_name agent) \<lparr>fn_uid = ''g0'', fn_resource_version = ''7''\<rparr> (Inr Accepted) #
     restart_mid @ CreatePod (build_pod agent sample_config ''g1'' ''fp'') (Inr Created) # restart_post"

lemma restart_run_done: "deploy (\<lambda>_. ''fp'') agent sample_config [] restart_run = Done (Inr (pod_name agent)) []"
  by code_simp

lemma restart_run_interaction: "interaction (\<lambda>_. ''fp'') agent sample_config [] restart_run"
  by (simp add: interaction_def restart_run_done)

section \<open>Claims\<close>

text \<open>
  C9. A deploy deletes only what it has just examined. Whatever the cluster answers and whoever
  else writes to it, each pod deletion in an interaction of \<open>deploy\<close>, finished or not, carries the UID
  and resource version of the last pod the call has read; that pod was terminated, or it was
  verified as this agent's and had never started and either was provably broken (an invalid image
  name, or its Secret confirmed absent by a read) or was created for a different intent. A pod
  whose container runs is never deleted, and nothing is deleted after the call has created a pod
  of its own.
\<close>

theorem delete_needs_fresh_proof:
  assumes "interaction fingerprint i cfg env (pre @ DeletePod n f r # post)"
  shows "\<exists>m p. last_read pre = Some (m, p) \<and> (m = n \<or> po_name p = Some n) \<and> pod_fence p = Some f \<and>
     decode_startup p \<noteq> Resolved Started \<and>
     (\<forall>q. CreatePod q (Inr Created) \<notin> set pre) \<and>
     (decode_startup p = Resolved Terminated \<or>
      (verify_pod p i Started \<noteq> None \<and> po_deletion_timestamp p = None \<and>
       (decode_startup p = Resolved NeverStartedProvablyBroken \<or>
        (\<exists>s. decode_startup p = ConfigErrorPendingSecretCheck s \<and> SecretExists s (Inr False) \<in> set pre) \<or>
        recorded_intent p \<noteq> Some (fingerprint (intent_template cfg (map fst env))))))"
proof -
  let ?d = "fingerprint (intent_template cfg (map fst env))"
  obtain m where "watch (deploy_mon i ?d) monitor_start (pre @ DeletePod n f r # post) = Some m"
    using deploy_watched [OF assms] .
  then obtain m1 m2 where m1: "watch (deploy_mon i ?d) monitor_start pre = Some m1"
      "deploy_mon i ?d m1 (DeletePod n f r) = Some m2"
    by (rule watch_at)
  then have "may_delete i ?d m1 n f"
    by (auto split: if_splits)
  then obtain n' p startup where p: "dm_seen m1 = Some (n', p)" "n' = n \<or> po_name p = Some n"
      "pod_fence p = Some f" "settled p startup (dm_absent m1)" "replaceable i ?d p startup" "\<not> dm_created m1"
    by (auto simp: may_delete_def)
  have "last_read pre = Some (n', p)" "\<forall>q. CreatePod q (Inr Created) \<notin> set pre"
    using watch_seen [OF m1(1)] watch_created [OF m1(1)] p(1,6)
    by (simp_all add: last_read_def monitor_start_def)
  moreover have "dm_absent m1 = Some s \<longrightarrow> SecretExists s (Inr False) \<in> set pre" for s
    using watch_absent [OF m1(1)] by (auto simp: monitor_start_def)
  ultimately show ?thesis
    using p verify_any [of p i startup Started]
    by (intro exI [of _ n'] exI [of _ p]) (auto simp: settled_def replaceable_def split: StartupObservation.splits)
qed

theorem delete_needs_fresh_proof_witness:
  "\<exists>m p. last_read restart_pre = Some (m, p) \<and>
     pod_fence p = Some \<lparr>fn_uid = ''g0'', fn_resource_version = ''7''\<rparr> \<and> decode_startup p \<noteq> Resolved Started"
  using delete_needs_fresh_proof [OF restart_run_interaction [unfolded restart_run_def]] by blast



text \<open>
  C28. Every pod that is created finds its own Secret. A pod creation is preceded by the successful
  creation of exactly the Secret the pod refers to, which this call has not deleted since; the
  generation in the name of the Secret is the start nonce the agent reports.
\<close>

theorem pods_are_bound_to_their_secret:
  assumes "interaction fingerprint i cfg env (pre @ CreatePod p r # post)"
  shows "\<exists>s g before after. pre = before @ CreateSecret s None # after \<and>
     referenced_secret p = Some (secret_name i g) \<and> se_name s = Some (secret_name i g) \<and>
     hm_get (se_data s) START_NONCE_KEY = Some g \<and>
     (\<forall>a. DeleteSecret (secret_name i g) a \<notin> set after)"
proof -
  let ?d = "fingerprint (intent_template cfg (map fst env))"
  obtain m where "watch (deploy_mon i ?d) monitor_start (pre @ CreatePod p r # post) = Some m"
    using deploy_watched [OF assms] .
  then obtain m1 m2 where m1: "watch (deploy_mon i ?d) monitor_start pre = Some m1"
      "deploy_mon i ?d m1 (CreatePod p r) = Some m2"
    by (rule watch_at)
  then have "may_create i m1 p"
    by (auto split: if_splits)
  then obtain s g where s: "dm_secret m1 = Some s" "referenced_secret p = se_name s"
      "se_name s = Some (secret_name i g)" "hm_get (se_data s) START_NONCE_KEY = Some g"
    by (auto simp: may_create_def)
  obtain xs ys where "pre = xs @ CreateSecret s None # ys" "\<forall>a. DeleteSecret (secret_name i g) a \<notin> set ys"
    using watch_secret [OF m1(1) s(1)] s(3) unfolding monitor_start_def
    by (metis deploy_state.select_convs(3) option.distinct(1))
  moreover have "referenced_secret p = Some (secret_name i g)"
    using s by simp
  ultimately show ?thesis
    using s(3,4) by (intro exI conjI)
qed

theorem pods_are_bound_to_their_secret_witness:
  "\<exists>s g before after. restart_pre @
       DeletePod (pod_name agent) \<lparr>fn_uid = ''g0'', fn_resource_version = ''7''\<rparr> (Inr Accepted) # restart_mid =
       before @ CreateSecret s None # after \<and>
     referenced_secret (build_pod agent sample_config ''g1'' ''fp'') = Some (secret_name agent g) \<and>
     se_name s = Some (secret_name agent g)"
proof -
  have "interaction (\<lambda>_. ''fp'') agent sample_config []
     ((restart_pre @ DeletePod (pod_name agent) \<lparr>fn_uid = ''g0'', fn_resource_version = ''7''\<rparr> (Inr Accepted) #
       restart_mid) @ CreatePod (build_pod agent sample_config ''g1'' ''fp'') (Inr Created) # restart_post)"
    using restart_run_interaction by (simp add: restart_run_def)
  from pods_are_bound_to_their_secret [OF this] show ?thesis
    by blast
qed


definition expired_post :: "k8s_event list" where
  "expired_post = [GetPod (pod_name agent) (Inr None)]"


definition dying_pod :: Pod where
  "dying_pod = (own_pod ''g2'' ''5'' running)\<lparr>po_deletion_timestamp := Some 99\<rparr>"

definition adopt_run :: "k8s_event list" where
  "adopt_run = preflight @ [Elapsed 0, GetPod (pod_name agent) (Inr None)] @ create_events ''g1'' AlreadyExists @
     [GetPod (pod_name agent) (Inr (Some dying_pod)), ListPods (selector agent) (Inr ([dying_pod], None)),
      DeleteSecret (secret_name agent ''g1'') None, Elapsed 1, GetPod (pod_name agent) (Inr (Some dying_pod))]"


text \<open>
  The preflight pass lists the pods, verifies them, and reads each doomed pod again for its fence.
  The second read is not verified: a terminated pod of somebody else that has taken the name in
  between is deleted.
\<close>

definition foreign_pod :: Pod where
  "foreign_pod = (own_pod ''x'' ''1'' exited)\<lparr>po_labels := None, po_annotations := None\<rparr>"

definition gc_run :: "k8s_event list" where
  "gc_run = [EnsureNamespace ''ns'' None,
     ListPods (selector agent) (Inr ([own_pod ''g0'' ''7'' exited], None)), ListSecrets (selector agent) (Inr []),
     GetPod (pod_name agent) (Inr (Some foreign_pod)),
     DeletePod (pod_name agent) \<lparr>fn_uid = ''x'', fn_resource_version = ''1''\<rparr> (Inr Accepted)]"

lemma preflight_deletes_unverified_pod:
  "deploy (\<lambda>_. ''fp'') agent sample_config [] gc_run = Pending \<and> verify_pod foreign_pod agent Terminated = None \<and>
   pod_fence foreign_pod = Some \<lparr>fn_uid = ''x'', fn_resource_version = ''1''\<rparr>"
proof -
  have "deploy (\<lambda>_. ''fp'') agent sample_config [] gc_run = Pending" "verify_pod foreign_pod agent Terminated = None"
      "pod_fence foreign_pod = Some \<lparr>fn_uid = ''x'', fn_resource_version = ''1''\<rparr>"
    by code_simp+
  then show ?thesis
    by blast
qed

end
