(* ===== verification/Pairing_Qr.thy ===== *)
theory Pairing_Qr
  imports Pairing Rust_Text
begin

text \<open>
  The QR code of device pairing, \<^verbatim>\<open>crates/buzz-core/src/pairing/qr.rs\<close>: the \<^verbatim>\<open>nostrpair://\<close> URI the
  source shows and the target scans. Public keys, hex, percent-encoding and URLs are third-party
  code: the fields of \<open>qr_env\<close>. A string is the list of its UTF-8 bytes. Of the error texts only the
  fixed part is kept.
\<close>

record qr_env =
  qe_pk_to_hex :: "pubkey \<Rightarrow> string"
  qe_pk_from_hex :: "string \<Rightarrow> pubkey option"
  qe_hex_encode :: "bytes \<Rightarrow> string"
  qe_hex_decode :: "string \<Rightarrow> bytes option"
  qe_percent_encode :: "string \<Rightarrow> string"
  qe_percent_decode_lossy :: "string \<Rightarrow> string"
  qe_url_parse :: "string \<Rightarrow> (string \<times> bool) option"

definition is_lowercase_hex :: "char \<Rightarrow> bool" where
  "is_lowercase_hex c \<longleftrightarrow> byte_in 48 57 c \<or> byte_in 97 102 c"

definition is_hex64 :: "string \<Rightarrow> bool" where
  "is_hex64 s \<longleftrightarrow> length s = 64 \<and> list_all is_lowercase_hex s"

definition url_encode :: "qr_env \<Rightarrow> string \<Rightarrow> string" where
  "url_encode env s = qe_percent_encode env s"

definition url_decode :: "qr_env \<Rightarrow> string \<Rightarrow> string" where
  "url_decode env s = qe_percent_decode_lossy env s"

definition encode_qr :: "qr_env \<Rightarrow> QrPayload \<Rightarrow> string" where
  "encode_qr env p =
     ''nostrpair://'' @ qe_pk_to_hex env (qr_source_pubkey p) @
     ''?secret='' @ qe_hex_encode env (qr_session_secret p) @
     concat (map (\<lambda>r. ''&relay='' @ url_encode env r) (qr_relays p)) @ ''&v=1''"

definition parse_u32 :: "string \<Rightarrow> nat option" where
  "parse_u32 s = (case parse_u64 s of None \<Rightarrow> None | Some n \<Rightarrow> if n < 2 ^ 32 then Some n else None)"

record qr_query =
  qq_secret :: "string option"
  qq_relays :: "string list"
  qq_version :: "nat option"

definition query_pair :: "qr_env \<Rightarrow> string \<Rightarrow> qr_query \<Rightarrow> qr_query" where
  "query_pair env pair q =
     (case split_once CHR ''='' pair of
        (k, Some v) \<Rightarrow>
          if k = ''secret'' then q\<lparr>qq_secret := Some v\<rparr>
          else if k = ''relay'' then q\<lparr>qq_relays := qq_relays q @ [url_decode env v]\<rparr>
          else if k = ''v'' then q\<lparr>qq_version := parse_u32 v\<rparr>
          else q
      | (k, None) \<Rightarrow> q)"

definition parse_query :: "qr_env \<Rightarrow> string \<Rightarrow> qr_query" where
  "parse_query env query =
     fold (query_pair env) (split_on CHR ''&'' query)
       \<lparr>qq_secret = None, qq_relays = [], qq_version = None\<rparr>"

definition check_relay :: "qr_env \<Rightarrow> string \<Rightarrow> string option" where
  "check_relay env r =
     (case qe_url_parse env r of
        None \<Rightarrow> Some ''invalid relay URL''
      | Some (scheme, has_host) \<Rightarrow>
          if \<not> (scheme = ''wss'' \<or> scheme = ''ws'') then Some ''relay URL must use wss:// or ws:// scheme''
          else if \<not> has_host then Some ''relay URL has no host'' else None)"

fun check_relays :: "qr_env \<Rightarrow> string list \<Rightarrow> string option" where
  "check_relays env [] = None"
| "check_relays env (r # rs) = (case check_relay env r of Some e \<Rightarrow> Some e | None \<Rightarrow> check_relays env rs)"

definition decode_secret :: "qr_env \<Rightarrow> string option \<Rightarrow> string + bytes32" where
  "decode_secret env secret =
     (case secret of
        None \<Rightarrow> Inl ''missing 'secret' query parameter''
      | Some s \<Rightarrow>
          if \<not> is_hex64 s then Inl ''secret must be 64 lowercase hex chars''
          else case qe_hex_decode env s of
                 None \<Rightarrow> Inl ''invalid secret hex''
               | Some b \<Rightarrow>
                   if length b \<noteq> 32 then Inl ''secret must be exactly 32 bytes''
                   else if b = replicate 32 0 then Inl ''session_secret must not be all zeros''
                   else Inr b)"

definition decode_query :: "qr_env \<Rightarrow> pubkey \<Rightarrow> qr_query \<Rightarrow> PairingError + QrPayload" where
  "decode_query env pk q =
     (let version = (case qq_version q of None \<Rightarrow> 1 | Some v \<Rightarrow> v) in
      if version \<noteq> 1 then Inl (InvalidQr ''unsupported protocol version'')
      else case decode_secret env (qq_secret q) of
             Inl e \<Rightarrow> Inl (InvalidQr e)
           | Inr secret \<Rightarrow>
               if qq_relays q = [] then Inl (InvalidQr ''at least one 'relay' query parameter is required'')
               else case check_relays env (qq_relays q) of
                      Some e \<Rightarrow> Inl (InvalidQr e)
                    | None \<Rightarrow> Inr \<lparr>qr_source_pubkey = pk, qr_session_secret = secret,
                                    qr_relays = qq_relays q, qr_version = of_nat version\<rparr>)"

definition decode_qr :: "qr_env \<Rightarrow> string \<Rightarrow> PairingError + QrPayload" where
  "decode_qr env uri =
     (if length uri > 2048 then Inl (InvalidQr ''URI exceeds 2048-character limit'')
      else case strip_prefix ''nostrpair://'' uri of
        None \<Rightarrow> Inl (InvalidQr ''URI must start with nostrpair://'')
      | Some rest \<Rightarrow>
          (case split_once CHR ''?'' rest of
             (pk, None) \<Rightarrow> Inl (InvalidQr ''missing query string'')
           | (pk, Some query) \<Rightarrow>
               if \<not> is_hex64 pk then Inl (InvalidQr ''pubkey must be 64 lowercase hex chars'')
               else case qe_pk_from_hex env pk of
                      None \<Rightarrow> Inl (InvalidQr ''invalid pubkey'')
                    | Some k \<Rightarrow> decode_query env k (parse_query env query)))"

section \<open>Round trip\<close>

definition unreserved :: "string \<Rightarrow> bool" where
  "unreserved s \<longleftrightarrow> CHR ''?'' \<notin> set s \<and> CHR ''&'' \<notin> set s \<and> CHR ''='' \<notin> set s"

text \<open>
  What the encoders promise for the contents of one code: hex has two lowercase digits per byte and
  is read back; percent-encoding writes no separator and is read back.
\<close>

definition qr_laws :: "qr_env \<Rightarrow> QrPayload \<Rightarrow> bool" where
  "qr_laws env p \<longleftrightarrow>
     is_hex64 (qe_pk_to_hex env (qr_source_pubkey p)) \<and>
     qe_pk_from_hex env (qe_pk_to_hex env (qr_source_pubkey p)) = Some (qr_source_pubkey p) \<and>
     is_hex64 (qe_hex_encode env (qr_session_secret p)) \<and>
     qe_hex_decode env (qe_hex_encode env (qr_session_secret p)) = Some (qr_session_secret p) \<and>
     list_all (\<lambda>r. unreserved (qe_percent_encode env r) \<and>
                   qe_percent_decode_lossy env (qe_percent_encode env r) = r) (qr_relays p)"

text \<open>What a code may carry.\<close>

definition qr_ok :: "qr_env \<Rightarrow> QrPayload \<Rightarrow> bool" where
  "qr_ok env p \<longleftrightarrow>
     length (qr_session_secret p) = 32 \<and> qr_session_secret p \<noteq> replicate 32 0 \<and>
     qr_relays p \<noteq> [] \<and> list_all (\<lambda>r. check_relay env r = None) (qr_relays p) \<and> qr_version p = 1"

lemma split_once_at: "x \<notin> set a \<Longrightarrow> split_once x (a @ x # b) = (a, Some b)"
  by (simp add: split_once_def takeWhile_append dropWhile_append)

lemma hex_unreserved: "is_hex64 s \<Longrightarrow> unreserved s"
  by (force simp: is_hex64_def unreserved_def list_all_iff is_lowercase_hex_def byte_in_def)

lemma split_on_join:
  assumes "x \<notin> set a" "\<forall>b\<in>set bs. x \<notin> set b"
  shows "split_on x (a @ concat (map (\<lambda>b. x # b) bs)) = a # bs"
  using assms
proof (induction bs arbitrary: a)
  case Nil
  then show ?case
    by (induction a) auto
next
  case (Cons b bs)
  then have "split_on x (b @ concat (map (\<lambda>b. x # b) bs)) = b # bs"
    by simp
  then show ?case
    using Cons.prems(1) by (induction a) auto
qed

lemma check_relays_None: "check_relays env rs = None \<longleftrightarrow> list_all (\<lambda>r. check_relay env r = None) rs"
  by (induction rs) (auto split: option.splits)

lemma query_pairs:
  assumes "CHR ''='' \<notin> set h"
  shows "query_pair env (''secret='' @ h) q = q\<lparr>qq_secret := Some h\<rparr>"
    and "query_pair env (''relay='' @ h) q = q\<lparr>qq_relays := qq_relays q @ [url_decode env h]\<rparr>"
    and "query_pair env ''v=1'' q = q\<lparr>qq_version := Some 1\<rparr>"
proof -
  show "query_pair env (''secret='' @ h) q = q\<lparr>qq_secret := Some h\<rparr>"
    using split_once_at [of "CHR ''=''" "''secret''" h] by (simp add: query_pair_def)
  show "query_pair env (''relay='' @ h) q = q\<lparr>qq_relays := qq_relays q @ [url_decode env h]\<rparr>"
    using split_once_at [of "CHR ''=''" "''relay''" h] by (simp add: query_pair_def)
  have "parse_u32 ''1'' = Some 1"
    by (simp add: parse_u32_def parse_u64_def parse_digits_def digits_value_def digit_value_def
        is_digit_def byte_in_def)
  then show "query_pair env ''v=1'' q = q\<lparr>qq_version := Some 1\<rparr>"
    using split_once_at [of "CHR ''=''" "''v''" "''1''"] by (simp add: query_pair_def)
qed

lemma fold_relays:
  assumes "list_all (\<lambda>r. unreserved (qe_percent_encode env r) \<and>
             qe_percent_decode_lossy env (qe_percent_encode env r) = r) rs"
  shows "fold (query_pair env) (map (\<lambda>r. ''relay='' @ url_encode env r) rs) q =
         q\<lparr>qq_relays := qq_relays q @ rs\<rparr>"
  using assms
proof (induction rs arbitrary: q)
  case (Cons r rs)
  have "query_pair env (''relay='' @ url_encode env r) q = q\<lparr>qq_relays := qq_relays q @ [r]\<rparr>"
    using Cons.prems query_pairs(2) [of "url_encode env r"]
    by (simp add: unreserved_def url_encode_def url_decode_def)
  then show ?case
    using Cons by simp
qed simp

lemma parse_written_query:
  assumes h: "unreserved h"
    and rs: "list_all (\<lambda>r. unreserved (qe_percent_encode env r) \<and>
             qe_percent_decode_lossy env (qe_percent_encode env r) = r) rs"
  shows "parse_query env (''secret='' @ h @ concat (map (\<lambda>r. ''&relay='' @ url_encode env r) rs) @ ''&v=1'') =
         \<lparr>qq_secret = Some h, qq_relays = rs, qq_version = Some 1\<rparr>"
proof -
  let ?bs = "map (\<lambda>r. ''relay='' @ url_encode env r) rs @ [''v=1'']"
  have written: "''secret='' @ h @ concat (map (\<lambda>r. ''&relay='' @ url_encode env r) rs) @ ''&v=1'' =
      (''secret='' @ h) @ concat (map (\<lambda>b. CHR ''&'' # b) ?bs)"
    by (simp add: comp_def)
  have "split_on CHR ''&'' ((''secret='' @ h) @ concat (map (\<lambda>b. CHR ''&'' # b) ?bs)) = (''secret='' @ h) # ?bs"
    using h rs by (intro split_on_join) (auto simp: unreserved_def list_all_iff url_encode_def)
  then show ?thesis
    unfolding written parse_query_def
    using h fold_relays [OF rs] query_pairs [of h env] by (simp add: unreserved_def)
qed

lemma decode_written:
  assumes "qr_laws env p" "qr_ok env p" "length (encode_qr env p) \<le> 2048"
  shows "decode_qr env (encode_qr env p) = Inr p"
proof -
  let ?pk = "qe_pk_to_hex env (qr_source_pubkey p)" and ?h = "qe_hex_encode env (qr_session_secret p)"
  let ?q = "''secret='' @ ?h @ concat (map (\<lambda>r. ''&relay='' @ url_encode env r) (qr_relays p)) @ ''&v=1''"
  have uri: "encode_qr env p = ''nostrpair://'' @ ?pk @ CHR ''?'' # ?q"
    by (simp add: encode_qr_def)
  have strip: "strip_prefix ''nostrpair://'' (encode_qr env p) = Some (?pk @ CHR ''?'' # ?q)"
    unfolding uri strip_prefix_Some ..
  have hex: "is_hex64 ?pk" "is_hex64 ?h"
    using assms(1) by (simp_all add: qr_laws_def)
  have split: "split_once CHR ''?'' (?pk @ CHR ''?'' # ?q) = (?pk, Some ?q)"
    using hex_unreserved [OF hex(1)] by (intro split_once_at) (simp add: unreserved_def)
  have query: "parse_query env ?q = \<lparr>qq_secret = Some ?h, qq_relays = qr_relays p, qq_version = Some 1\<rparr>"
    using assms(1) by (intro parse_written_query hex_unreserved [OF hex(2)]) (simp add: qr_laws_def)
  have relays: "check_relays env (qr_relays p) = None"
    using assms(2) by (simp add: qr_ok_def check_relays_None)
  have "decode_query env (qr_source_pubkey p)
      \<lparr>qq_secret = Some ?h, qq_relays = qr_relays p, qq_version = Some 1\<rparr> = Inr p"
    using assms(1,2) hex(2) relays by (simp add: decode_query_def decode_secret_def qr_laws_def qr_ok_def)
  then show ?thesis
    using assms(1,3) hex(1) unfolding decode_qr_def strip by (simp add: split query qr_laws_def del: append_Cons append.simps)
qed

lemma decode_accepts_ok:
  assumes "decode_qr env uri = Inr p"
  shows "qr_ok env p"
  using assms
  by (auto simp: decode_qr_def decode_query_def decode_secret_def qr_ok_def check_relays_None Let_def
      split: if_splits option.splits prod.splits sum.splits)

section \<open>Claims\<close>

text \<open>A version that does not fit \<open>u32\<close>, or is no number, is read as version 1.\<close>

lemma oversized_version_is_version_one:
  "query_pair env ''v=4294967296'' q = q\<lparr>qq_version := None\<rparr>"
  "decode_query env pk (q\<lparr>qq_version := None\<rparr>) = decode_query env pk (q\<lparr>qq_version := Some 1\<rparr>)"
proof -
  have "parse_u32 ''4294967296'' = None"
    by (simp add: parse_u32_def parse_u64_def parse_digits_def digits_value_def digit_value_def
        is_digit_def byte_in_def)
  then show "query_pair env ''v=4294967296'' q = q\<lparr>qq_version := None\<rparr>"
    using split_once_at [of "CHR ''=''" "''v''" "''4294967296''"] by (simp add: query_pair_def)
  show "decode_query env pk (q\<lparr>qq_version := None\<rparr>) = decode_query env pk (q\<lparr>qq_version := Some 1\<rparr>)"
    by (cases q) (auto simp: decode_query_def split: sum.splits option.splits)
qed

definition hex_digit :: "nat \<Rightarrow> char" where
  "hex_digit d = char_of (if d < 10 then 48 + d else 87 + d)"

definition hex_value :: "char \<Rightarrow> nat" where
  "hex_value c = (if byte_in 48 57 c then of_char c - 48 else of_char c - 87)"

fun unhex :: "string \<Rightarrow> bytes" where
  "unhex (a # b # s) = word_of_nat (16 * hex_value a + hex_value b) # unhex s"
| "unhex s = []"

fun unpercent :: "string \<Rightarrow> string" where
  "unpercent [] = []"
| "unpercent [c] = [c]"
| "unpercent [c, d] = [c, d]"
| "unpercent (c # a # b # s) =
     (if c = CHR ''%'' then char_of (16 * hex_value a + hex_value b) # unpercent s
      else c # unpercent (a # b # s))"

definition sample_qr_env :: qr_env where
  "sample_qr_env =
     \<lparr>qe_pk_to_hex = (\<lambda>k. k), qe_pk_from_hex = Some,
      qe_hex_encode = (\<lambda>bs. concat (map (\<lambda>b. [hex_digit (unat b div 16), hex_digit (unat b mod 16)]) bs)),
      qe_hex_decode = (\<lambda>s. Some (unhex s)),
      qe_percent_encode = (\<lambda>s. concat (map (\<lambda>c. if is_ascii_alphanumeric c then [c]
        else [CHR ''%'', hex_digit (of_char c div 16), hex_digit (of_char c mod 16)]) s)),
      qe_percent_decode_lossy = unpercent,
      qe_url_parse = (\<lambda>u. if strip_prefix ''wss://'' u = None then None else Some (''wss'', True))\<rparr>"

definition sample_qr :: QrPayload where
  "sample_qr = \<lparr>qr_source_pubkey = replicate 64 CHR ''a'', qr_session_secret = replicate 32 7,
                qr_relays = [''wss://r''], qr_version = 1\<rparr>"



end
