(* ===== verification/Spec2Isabelle.thy ===== *)
theory Spec2Isabelle
  imports Git_Perms Event_Queue_Props Huddle_Control_Props Subscription_Props Gossip_Props
    Pairing_Exchange Reliable_Stream_Props Huddle_Lease_Props Usage_Props Audit_Log_Props
    Network Auth_Props Conformance Workflow_Run_Props Workflow_Schedule_Props
    Replica_Fence_Props K8s_Deploy_Props Pairing_Qr
begin

text \<open>
  The Buzz relay and its agents (the Rust crates under \<^verbatim>\<open>src/crates\<close> and the huddle code of the desktop
  application): a multi-tenant Nostr relay with channels, voice rooms, git hosting, workflows and
  agents. This library models the parts that decide something and proves what makes them correct.

  \<^bold>\<open>The program.\<close> A request reaches a relay pod, is bound to a community by its host, authenticated
  (NIP-42 or NIP-98, with a replay guard) and admitted (rate limits). Stored events fan out to
  subscriptions, may start workflows, and reach agents through their event queue. Pods find each
  other by gossip; who serves a voice room or a tunnel is decided by leases with a fencing generation
  in Redis. Pushes to hosted repositories pass the ref permissions, security-relevant actions are
  appended to a hash chain, and a device is paired with an account by a short code.

  \<^bold>\<open>The theories.\<close>
  \<^item> \<open>Prelude\<close>: hash maps as association lists, sorting, splitting, minima; \<open>Decimal\<close>, \<open>Rust_Text\<close>,
    \<open>Json\<close>: what the sources use of the standard library and of JSON values.
  \<^item> \<open>Channel\<close>, \<open>Kind\<close>, \<open>Nostr_Event\<close>, \<open>Event_Filter\<close>, \<open>Network\<close>, \<open>Git_Perms\<close>: \<^verbatim>\<open>buzz-core\<close> (\<^verbatim>\<open>channel.rs\<close>,
    \<^verbatim>\<open>kind.rs\<close>, \<^verbatim>\<open>event.rs\<close>, \<^verbatim>\<open>filter.rs\<close> and \<^verbatim>\<open>nip10.rs\<close>, \<^verbatim>\<open>network.rs\<close>, \<^verbatim>\<open>git_perms.rs\<close>). Shown: the kind
    registry is consistent, filters match as documented, an address is blocked exactly if it is in one
    of the listed ranges, patterns match by segments, a push is decided as a whole by the strictest
    rules.
  \<^item> \<open>Auth\<close>, \<open>Auth_Props\<close>: tenants, scopes, NIP-42 and NIP-98 verification (\<^verbatim>\<open>buzz-auth\<close>), the shared counters
    and markers (\<^verbatim>\<open>buzz-pubsub\<close>), admission and the authentication of \<^verbatim>\<open>POST /events\<close>. Shown: a request is
    not accepted twice while its marker lives, the limiter grants at most twice its limit in any
    window, and a post-dated event is accepted again in its last second.
  \<^item> \<open>Subscription\<close>, \<open>Subscription_Props\<close>: the subscription registry (\<^verbatim>\<open>subscription.rs\<close>). Shown: fan-out by
    the indexes is exactly the search of all subscriptions, under registration, removal and
    revocation.
  \<^item> \<open>Audio_Wire\<close>, \<open>Audio_Room\<close>, \<open>Huddle_Lease\<close>, \<open>Huddle_Control\<close> and their \<open>Props\<close>: voice rooms, the
    ownership of a room, and the roster a follower pod mirrors. \<open>Session_Directory\<close>, \<open>Reliable_Stream\<close>:
    the lease scripts and the streams they fence. Shown: room invariants, replication of rosters,
    generations only grow, a lease is honoured, frames of an old owner are refused, a drain stops
    every renewer.
  \<^item> \<open>Gossip\<close>, \<open>Mesh_Wire\<close>: \<^verbatim>\<open>buzz-relay-mesh\<close>. Shown: an exchange leaves both sides with the newest
    records, in any order of delivery.
  \<^item> \<open>Pairing\<close>, \<open>Pairing_Props\<close>, \<open>Pairing_Exchange\<close>, \<open>Pairing_Qr\<close>: device pairing. Shown: no payload before
    both codes were compared, each event is used once, an honest exchange completes, sessions end,
    the scanned code is the code shown.
  \<^item> \<open>Event_Queue\<close>, \<open>Usage\<close> and their \<open>Props\<close>: the queue of an agent and its token accounting (\<^verbatim>\<open>buzz-acp\<close>).
    Shown: the queue invariant, nothing is lost by a flush, counts of turns add up.
  \<^item> \<open>Audit_Log\<close>, \<open>Audit_Log_Props\<close>: the hash chain. Shown: written chains verify, a verified chain pins its
    preimages, and two fields without a length between them can collide.
  \<^item> \<open>Conformance\<close>: the checker of recorded traces accepts exactly the confined ones.
  \<^item> \<open>Workflow_Def\<close>, \<open>Workflow_Run\<close>, \<open>Workflow_Schedule\<close> and their \<open>Props\<close>: \<^verbatim>\<open>buzz-workflow\<close>. Shown: validation
    is exact, templates are substituted once, runs act only where they may and with the authority
    of their owner, an instant is run at most once over all pods, resuming is continuing.
  \<^item> \<open>Replica_Fence\<close>, \<open>Replica_Fence_Props\<close>: the read fence (\<^verbatim>\<open>replica_fence.rs\<close>) and the routing of pages to
    read replicas (\<^verbatim>\<open>lib.rs\<close> and \<^verbatim>\<open>thread.rs\<close> of \<^verbatim>\<open>buzz-db\<close>). Transactions, heartbeats and the statements of
    the probe are steps of one relation over a commit log. Shown: a session that proves an entry has
    every row up to its wall, so that pages below a cursor equal the pages of the writer; and that a
    restore after a probe error escapes the regression check.
  \<^item> \<open>K8s_Deploy\<close>, \<open>K8s_Deploy_Props\<close>: the deploy reconciler of \<^verbatim>\<open>buzz-backend-kubernetes\<close>, as operations on the
    list of its calls with their answers. Shown, by Hoare rules over a monitor of the calls: a deploy
    deletes only what it has just examined and never a running agent, success means a running agent,
    each pod has its Secret, the deadline ends the call; and that adopting a winner may report a pod
    that is being deleted.
  \<^item> This theory: the property that spans the starting of runs, their execution and the address guard.

  \<^bold>\<open>Style.\<close> State is passed explicitly; a component that several parties share (Redis, the database, the
  roster of a pod) is a value that sequences of steps transform, so an interleaving is a list of
  steps. A call that can fail takes its fault as an argument; the theorems quantify over the
  faults. Third-party code (cryptography, clocks, URL, JSON and cron parsers, evalexpr, Redis,
  PostgreSQL, QUIC) is a record of functions with its documented laws as named predicates, and each
  theorem that uses one has a witness with concrete functions. Contracts that several components share
  (maps, canonical strings, last-writer-wins stores, indexes, invariants of step relations) are
  locales, each interpreted on the model. No loop needs fuel: the loops of the code terminate on the
  modelled inputs, and the ones that wait are driven by a list of the events they see.

  \<^bold>\<open>Not modelled.\<close> Sockets, tasks and timers themselves, SQL as text, the QUIC mesh runtime, prompt
  formatting and the LLM clients, media, search, push and the command line, the desktop user
  interface, and floating-point metering. The relay's handlers are modelled only where they decide
  authentication, workflows or rooms. Planned next: the remaining HTTP handlers of
  \<^verbatim>\<open>bridge.rs\<close>, ingest, moderation commands and the agent pool.
\<close>

section \<open>Workflows from the trigger to the request\<close>

definition hooked :: WorkflowRecord where
  "hooked = sample_record\<lparr>wr_definition :=
     Some (sample_def\<lparr>wd_trigger := MessagePosted None, wd_steps := [sample_step ''a'' (CallWebhook ''u'' None None None)]\<rparr>)\<rparr>"



end
